(* ===== verification/Prelude.thy ===== *)
theory Prelude
  imports
    Main
    "HOL-Library.Word"
    "HOL-Library.Multiset"
    "HOL-Library.AList"
    "HOL-Library.Char_ord"
    "HOL-Library.List_Lexorder"
begin

text \<open>
  Shared vocabulary of the development: Go errors as values, Go strings as byte lists,
  Go maps as association lists (a map together with the order in which a \<open>range\<close> loop
  happens to visit it), Go time values as nanoseconds, and the parts of the standard
  library (\<open>strings\<close>, \<open>strconv\<close>) that dkron's own code computes with.
\<close>

section \<open>Rule collections\<close>

named_theorems go_simps \<open>evaluation rules for the standard-library functions\<close>
named_theorems key_simps \<open>facts on the shape of the keys of the store\<close>
named_theorems store_simps \<open>unfolding rules for the operations of the store\<close>

section \<open>Errors\<close>

text \<open>
  One constructor per error variable of \<open>src/dkron\<close>; \<open>Errorf\<close> is a message made by
  \<open>fmt.Errorf\<close> or \<open>errors.New\<close>, \<open>LibError\<close> an error that comes from a library,
  \<open>Panic\<close> a run-time panic or \<open>log.Fatal\<close>, and \<open>OutOfFuel\<close> is never returned by the
  program: it marks the end of the fuel of a recursion.
\<close>

datatype error =
    ErrNotFound \<comment> \<open>\<open>buntdb.ErrNotFound\<close>\<close>
  | ErrDependentJobs
  | ErrParentJobNotFound
  | ErrNoAgent
  | ErrSameParent
  | ErrNoParent
  | ErrNoCommand
  | ErrWrongConcurrency
  | ErrScheduleParse error
  | ErrExecutionDoneForDeletedJob
  | ErrRPCDialing
  | ErrNotLeader
  | ErrBrokenStream
  | ErrLeaderNotFound
  | ErrNoSuitableServer
  | Errorf string
  | LibError string
  | Panic string
  | OutOfFuel

type_synonym 'a res = "error + 'a"

text \<open>An \<open>error\<close> result is \<open>None\<close> when the Go value is \<open>nil\<close>.\<close>

type_synonym err = "error option"

definition bind_res :: "'a res \<Rightarrow> ('a \<Rightarrow> 'b res) \<Rightarrow> 'b res" where
  "bind_res r f = (case r of Inl e \<Rightarrow> Inl e | Inr x \<Rightarrow> f x)"

lemma bind_res_simps [simp]:
  "bind_res (Inl e) f = Inl e"
  "bind_res (Inr x) f = f x"
  by (simp_all add: bind_res_def)

lemma bind_res_Inr_conv: "bind_res r f = Inr y \<longleftrightarrow> (\<exists>x. r = Inr x \<and> f x = Inr y)"
  by (cases r) simp_all

section \<open>Maps\<close>

type_synonym 'v gomap = "(string \<times> 'v) list"

abbreviation lookup :: "'v gomap \<Rightarrow> string \<Rightarrow> 'v option" where
  "lookup m k \<equiv> map_of m k"

text \<open>Indexing a \<open>map[string]string\<close> gives the empty string for a missing key.\<close>

definition get_str :: "string gomap \<Rightarrow> string \<Rightarrow> string" where
  "get_str m k = (case map_of m k of None \<Rightarrow> [] | Some v \<Rightarrow> v)"

section \<open>Strings\<close>

definition HasPrefix :: "string \<Rightarrow> string \<Rightarrow> bool" where
  "HasPrefix s p \<longleftrightarrow> take (length p) s = p"

definition HasSuffix :: "string \<Rightarrow> string \<Rightarrow> bool" where
  "HasSuffix s p \<longleftrightarrow> length p \<le> length s \<and> drop (length s - length p) s = p"

definition TrimSuffix :: "string \<Rightarrow> string \<Rightarrow> string" where
  "TrimSuffix s p = (if HasSuffix s p then take (length s - length p) s else s)"

fun Contains :: "string \<Rightarrow> string \<Rightarrow> bool" where
  "Contains [] p \<longleftrightarrow> p = []"
| "Contains (c # s) p \<longleftrightarrow> HasPrefix (c # s) p \<or> Contains s p"

text \<open>\<open>strings.Split\<close> for a separator of one byte: never the empty list.\<close>

fun Split :: "string \<Rightarrow> char \<Rightarrow> string list" where
  "Split [] c = [[]]"
| "Split (x # s) c =
     (if x = c then [] # Split s c
      else (case Split s c of [] \<Rightarrow> [[x]] | p # ps \<Rightarrow> (x # p) # ps))"

text \<open>\<open>strings.SplitN\<close> for a separator of one byte: at most \<open>n\<close> parts, \<open>n > 0\<close>.\<close>

fun SplitN :: "string \<Rightarrow> char \<Rightarrow> nat \<Rightarrow> string list" where
  "SplitN s c 0 = []"
| "SplitN s c (Suc 0) = [s]"
| "SplitN [] c (Suc (Suc n)) = [[]]"
| "SplitN (x # s) c (Suc (Suc n)) =
     (if x = c then [] # SplitN s c (Suc n)
      else (case SplitN s c (Suc (Suc n)) of [] \<Rightarrow> [[x]] | p # ps \<Rightarrow> (x # p) # ps))"

text \<open>\<open>strings.Join\<close>.\<close>

fun Join :: "string list \<Rightarrow> string \<Rightarrow> string" where
  "Join [] sep = []"
| "Join [s] sep = s"
| "Join (s # t # ts) sep = s @ sep @ Join (t # ts) sep"

lemma HasPrefix_append [simp]: "HasPrefix (p @ s) p"
  by (simp add: HasPrefix_def)

lemma HasPrefix_conv: "HasPrefix s p \<longleftrightarrow> (\<exists>t. s = p @ t)"
  by (auto simp: HasPrefix_def) (metis append_take_drop_id)

lemma HasPrefix_append_same [simp]: "HasPrefix (p @ s) (p @ q) \<longleftrightarrow> HasPrefix s q"
  by (auto simp: HasPrefix_conv)

lemma HasPrefix_Nil [simp]: "HasPrefix s []"
  by (simp add: HasPrefix_def)

lemma HasPrefix_Cons [simp]: "HasPrefix (c # s) (d # p) \<longleftrightarrow> c = d \<and> HasPrefix s p"
  by (auto simp: HasPrefix_def)

lemma HasPrefix_Nil_left [simp]: "HasPrefix [] p \<longleftrightarrow> p = []"
  by (auto simp: HasPrefix_def)

lemma Split_not_Nil [simp]: "Split s c \<noteq> []"
  by (induction s) (auto split: list.splits)

lemma Split_single: "c \<notin> set s \<Longrightarrow> Split s c = [s]"
  by (induction s) auto

lemma Split_append_sep: "c \<notin> set s \<Longrightarrow> Split (s @ c # t) c = s # Split t c"
  by (induction s) auto

lemma Join_Split: "Join (Split s c) [c] = s"
proof (induction s)
  case (Cons x s)
  obtain p ps where sp: "Split s c = p # ps"
    by (meson Split_not_Nil neq_Nil_conv)
  with Cons show ?case by (cases ps) auto
qed simp

lemma Split_no_sep: "p \<in> set (Split s c) \<Longrightarrow> c \<notin> set p"
proof (induction s arbitrary: p)
  case (Cons x s)
  obtain q qs where sp: "Split s c = q # qs"
    by (meson Split_not_Nil neq_Nil_conv)
  with Cons show ?case by (auto split: if_splits)
qed simp

lemma Split_Join:
  assumes "es \<noteq> []" "\<forall>e \<in> set es. c \<notin> set e"
  shows "Split (Join es [c]) c = es"
  using assms by (induction es "[c]" rule: Join.induct) (simp_all add: Split_single Split_append_sep)

text \<open>Two strings cut at the first occurrence of the same separator.\<close>

lemma append_sep_inj:
  assumes "c \<notin> set a" "c \<notin> set b" "a @ c # s = b @ c # t"
  shows "a = b \<and> s = t"
  using assms
proof (induction a arbitrary: b)
  case Nil
  then show ?case by (cases b) auto
next
  case (Cons x a)
  then obtain y b' where "b = y # b'" by (cases b) auto
  with Cons show ?case by auto
qed

section \<open>UTF-8\<close>

text \<open>
  \<open>utf8.DecodeRuneInString\<close>: the first code point of a non-empty byte string and its width;
  an invalid sequence is U+FFFD of width 1.
\<close>

definition decode_rune :: "string \<Rightarrow> nat \<times> nat" where
  "decode_rune s =
     (let b = (\<lambda>i. if i < length s then of_char (s ! i) else (0::nat));
          cont = (\<lambda>i lo hi. lo \<le> b i \<and> b i \<le> hi);
          b0 = b 0
      in if b0 < 128 then (b0, 1)
         else if 194 \<le> b0 \<and> b0 \<le> 223 \<and> cont 1 128 191 then
           ((b0 - 192) * 64 + (b 1 - 128), 2)
         else if 224 \<le> b0 \<and> b0 \<le> 239 \<and>
                 cont 1 (if b0 = 224 then 160 else 128) (if b0 = 237 then 159 else 191) \<and>
                 cont 2 128 191 then
           ((b0 - 224) * 4096 + (b 1 - 128) * 64 + (b 2 - 128), 3)
         else if 240 \<le> b0 \<and> b0 \<le> 244 \<and>
                 cont 1 (if b0 = 240 then 144 else 128) (if b0 = 244 then 143 else 191) \<and>
                 cont 2 128 191 \<and> cont 3 128 191 then
           ((b0 - 240) * 262144 + (b 1 - 128) * 4096 + (b 2 - 128) * 64 + (b 3 - 128), 4)
         else (65533, 1))"

lemma decode_rune_width: "0 < snd (decode_rune s)"
  by (simp add: decode_rune_def Let_def)

text \<open>An ASCII byte is a code point of its own: longer encodings have no byte below 128.\<close>

lemma decode_rune_ascii:
  assumes "x \<in> set (take (snd (decode_rune s)) s)" "of_char x < (128::nat)"
  shows "snd (decode_rune s) = 1 \<and> fst (decode_rune s) = of_char x"
proof -
  obtain i where i: "i < snd (decode_rune s)" "i < length s" "x = s ! i"
    using assms(1) by (auto simp: in_set_conv_nth)
  have "i = 0 \<or> i = 1 \<or> i = 2 \<or> i = 3"
    using i(1) by (auto simp: decode_rune_def Let_def split: if_splits)
  moreover have "\<not> (i = 1 \<or> i = 2 \<or> i = 3)"
    using i assms(2) by (auto simp: decode_rune_def Let_def split: if_splits)
  ultimately have "i = 0" by blast
  then show ?thesis
    using i assms(2) by (auto simp: decode_rune_def Let_def split: if_splits)
qed

function valid_utf8 :: "string \<Rightarrow> bool" where
  "valid_utf8 s =
     (if s = [] then True
      else if decode_rune s = (65533, 1) then False
      else valid_utf8 (drop (snd (decode_rune s)) s))"
  by pat_completeness auto
termination
  by (relation "measure length") (auto simp: decode_rune_width)

declare valid_utf8.simps [simp del]

lemma valid_utf8_Nil [simp]: "valid_utf8 []"
  by (simp add: valid_utf8.simps)

lemma valid_utf8_Cons [simp]: "of_char c < (128::nat) \<Longrightarrow> valid_utf8 (c # s) \<longleftrightarrow> valid_utf8 s"
  by (subst valid_utf8.simps) (simp add: decode_rune_def Let_def)

section \<open>Numbers and their decimal form\<close>

definition digit_char :: "nat \<Rightarrow> char" where
  "digit_char d = char_of (48 + d)"

definition char_digit :: "char \<Rightarrow> nat option" where
  "char_digit c = (let n = of_char c :: nat in if 48 \<le> n \<and> n \<le> 57 then Some (n - 48) else None)"

fun show_nat :: "nat \<Rightarrow> string" where
  "show_nat n = (if n < 10 then [digit_char n] else show_nat (n div 10) @ [digit_char (n mod 10)])"

declare show_nat.simps [simp del]

text \<open>\<open>%d\<close>, \<open>strconv.Itoa\<close> and \<open>strconv.FormatInt(_, 10)\<close>.\<close>

definition show_int :: "int \<Rightarrow> string" where
  "show_int i = (if i < 0 then CHR ''-'' # show_nat (nat (- i)) else show_nat (nat i))"

fun read_digits :: "nat \<Rightarrow> string \<Rightarrow> nat option" where
  "read_digits acc [] = Some acc"
| "read_digits acc (c # s) =
     (case char_digit c of None \<Rightarrow> None | Some d \<Rightarrow> read_digits (10 * acc + d) s)"

definition read_nat :: "string \<Rightarrow> nat option" where
  "read_nat s = (if s = [] then None else read_digits 0 s)"

text \<open>\<open>strconv.Atoi\<close> on a platform with 64-bit integers.\<close>

definition Atoi :: "string \<Rightarrow> int res" where
  "Atoi s =
     (let (neg, ds) = (case s of [] \<Rightarrow> (False, [])
                       | c # cs \<Rightarrow> if c = CHR ''-'' then (True, cs)
                                  else if c = CHR ''+'' then (False, cs) else (False, s))
      in case read_nat ds of
           None \<Rightarrow> Inl (Errorf ''invalid syntax'')
         | Some n \<Rightarrow>
             (let i = (if neg then - int n else int n) in
              if - (2 ^ 63) \<le> i \<and> i < 2 ^ 63 then Inr i else Inl (Errorf ''value out of range'')))"

text \<open>\<open>strconv.ParseBool\<close>.\<close>

definition ParseBool :: "string \<Rightarrow> bool res" where
  "ParseBool s =
     (if s \<in> set [''1'', ''t'', ''T'', ''true'', ''TRUE'', ''True''] then Inr True
      else if s \<in> set [''0'', ''f'', ''F'', ''false'', ''FALSE'', ''False''] then Inr False
      else Inl (Errorf ''invalid syntax''))"

lemma char_digit_digit_char [simp]: "d < 10 \<Longrightarrow> char_digit (digit_char d) = Some d"
  by (simp add: char_digit_def digit_char_def)

lemma digit_char_neq_minus [simp]: "d < 10 \<Longrightarrow> digit_char d \<noteq> CHR ''-''"
proof
  assume "d < 10" and "digit_char d = CHR ''-''"
  then have "(of_char (digit_char d) :: nat) = of_char CHR ''-''" by simp
  with \<open>d < 10\<close> show False by (simp add: digit_char_def)
qed

lemma show_nat_digits: "c \<in> set (show_nat n) \<Longrightarrow> \<exists>d<10. c = digit_char d"
proof (induction n rule: show_nat.induct)
  case (1 n)
  show ?case
  proof (cases "n < 10")
    case True
    with "1.prems" show ?thesis by (auto simp: show_nat.simps [of n])
  next
    case False
    with "1.prems" have "c \<in> set (show_nat (n div 10)) \<or> c = digit_char (n mod 10)"
      by (auto simp: show_nat.simps [of n])
    with "1.IH" False show ?thesis by (metis mod_less_divisor zero_less_numeral)
  qed
qed

lemma show_nat_not_Nil [simp]: "show_nat n \<noteq> []"
  by (subst show_nat.simps) simp

lemma minus_notin_show_nat [simp]: "CHR ''-'' \<notin> set (show_nat n)"
  using show_nat_digits digit_char_neq_minus by metis

lemma read_digits_append:
  "read_digits acc (s @ t) = (case read_digits acc s of None \<Rightarrow> None | Some a \<Rightarrow> read_digits a t)"
  by (induction s arbitrary: acc) (auto split: option.splits)

lemma read_digits_show_nat: "read_digits 0 (show_nat n) = Some n"
proof (induction n rule: show_nat.induct)
  case (1 n)
  then show ?case
    by (cases "n < 10") (simp_all add: show_nat.simps [of n] read_digits_append)
qed

lemma read_nat_show_nat [simp]: "read_nat (show_nat n) = Some n"
  by (simp add: read_nat_def read_digits_show_nat)

lemma show_nat_inj: "show_nat m = show_nat n \<longleftrightarrow> m = n"
  by (metis option.inject read_nat_show_nat)

lemma show_int_inj: "show_int i = show_int j \<longleftrightarrow> i = j"
proof -
  have m: "show_nat a \<noteq> CHR ''-'' # s" for a s
    using minus_notin_show_nat [of a] by (metis list.set_intros(1))
  then have m': "CHR ''-'' # s \<noteq> show_nat a" for a s by metis
  show ?thesis
    by (auto simp: show_int_def show_nat_inj m m')
qed

lemma hd_show_nat_plus: "hd (show_nat n) \<noteq> CHR ''+''"
proof -
  obtain d where d: "d < 10" and h: "hd (show_nat n) = digit_char d"
    using show_nat_digits [of "hd (show_nat n)" n] by (metis hd_in_set show_nat_not_Nil)
  have "of_char (digit_char d) \<noteq> (of_char CHR ''+'' :: nat)"
    using d by (simp add: digit_char_def)
  with h show ?thesis by metis
qed

text \<open>Printing and parsing a 64-bit integer are inverse.\<close>

lemma Atoi_show_int:
  assumes "- (2 ^ 63) \<le> i" "i < 2 ^ 63"
  shows "Atoi (show_int i) = Inr i"
proof (cases "i < 0")
  case True
  with assms show ?thesis by (simp add: Atoi_def show_int_def)
next
  case False
  obtain c cs where s: "show_nat (nat i) = c # cs"
    by (meson neq_Nil_conv show_nat_not_Nil)
  with minus_notin_show_nat [of "nat i"] hd_show_nat_plus [of "nat i"]
  have "c \<noteq> CHR ''-''" "c \<noteq> CHR ''+''" by auto
  with False assms s show ?thesis
    using read_nat_show_nat [of "nat i"] by (simp add: Atoi_def show_int_def)
qed

section \<open>Time\<close>

text \<open>
  A \<open>time.Time\<close> is the instant it denotes, in nanoseconds since the Unix epoch; the code
  compares instants and never their locations. The zero value is January 1 of year 1.
\<close>

type_synonym time = int

definition zero_time :: time where
  "zero_time = - 62135596800000000000"

text \<open>\<open>UnixNano\<close> is computed in 64-bit arithmetic and wraps outside the years 1678 to 2262.\<close>

definition UnixNano :: "time \<Rightarrow> int" where
  "UnixNano t = sint (word_of_int t :: 64 word)"

lemma UnixNano_id: "- (2 ^ 63) \<le> t \<Longrightarrow> t < 2 ^ 63 \<Longrightarrow> UnixNano t = t"
  by (simp add: UnixNano_def sint_sbintrunc' signed_take_bit_int_eq_self)

lemma UnixNano_bounds: "- (2 ^ 63) \<le> UnixNano t \<and> UnixNano t < 2 ^ 63"
  using sint_ge [of "word_of_int t :: 64 word"] sint_lt [of "word_of_int t :: 64 word"]
  by (simp add: UnixNano_def)

section \<open>Lists\<close>

lemma map_of_eq_None_filter: "k \<notin> fst ` set xs \<Longrightarrow> map_of xs k = None"
  by (simp add: map_of_eq_None_iff)

lemma sorted_wrt_less_distinct:
  fixes xs :: "'a::linorder list"
  shows "sorted_wrt (<) xs \<Longrightarrow> distinct xs"
  by (induction xs) auto

lemma length_filter_split:
  "length (filter P xs) + length (filter (\<lambda>x. \<not> P x) xs) = length xs"
  by (induction xs) auto

end
