(* ===== verification/Types.thy ===== *)
theory Types
  imports Prelude
begin

text \<open>
  The data the components share: the protobuf messages of
  \<open>src/plugin/types/dkron.pb.go\<close>, the Go structs \<open>Job\<close>, \<open>Execution\<close> and
  \<open>NullableTime\<close>. A pointer to a message is an \<open>option\<close>; a \<open>map\<close> and a \<open>[]string\<close>
  have no separate nil value, which protobuf does not transmit either. \<open>int\<close> and
  \<open>uint\<close> of Go are 64-bit words, \<open>int32\<close> and \<open>uint32\<close> are 32-bit words, because the
  conversions between them truncate. The members \<open>Agent\<close> and \<open>ChildJobs\<close> of a job are
  never stored: the agent is an explicit argument of the operations that need it, and the
  tree of child jobs is the datatype of the theory \<open>Job_Tree\<close>.
\<close>

section \<open>Protobuf messages\<close>

record pb_timestamp =
  Seconds :: int
  Nanos :: int

record pb_nullable_time =
  pn_HasValue :: bool
  pn_Time :: "pb_timestamp option"

record pb_plugin_config =
  pc_Config :: "string gomap"

record pb_job =
  pj_Name :: string
  pj_Timezone :: string
  pj_Schedule :: string
  pj_Owner :: string
  pj_OwnerEmail :: string
  pj_SuccessCount :: "32 word"
  pj_ErrorCount :: "32 word"
  pj_Disabled :: bool
  pj_Tags :: "string gomap"
  pj_Retries :: "32 word"
  pj_DependentJobs :: "string list"
  pj_ParentJob :: string
  pj_Concurrency :: string
  pj_Executor :: string
  pj_ExecutorConfig :: "string gomap"
  pj_Status :: string
  pj_Metadata :: "string gomap"
  pj_LastSuccess :: "pb_nullable_time option"
  pj_LastError :: "pb_nullable_time option"
  pj_Next :: "pb_timestamp option"
  pj_Displayname :: string
  pj_Processors :: "pb_plugin_config gomap"

text \<open>The zero value of the message, as declared by \<open>var pbj dkronpb.Job\<close>.\<close>

definition pb_job_zero :: pb_job where
  "pb_job_zero = \<lparr>pj_Name = [], pj_Timezone = [], pj_Schedule = [], pj_Owner = [],
     pj_OwnerEmail = [], pj_SuccessCount = 0, pj_ErrorCount = 0, pj_Disabled = False,
     pj_Tags = [], pj_Retries = 0, pj_DependentJobs = [], pj_ParentJob = [],
     pj_Concurrency = [], pj_Executor = [], pj_ExecutorConfig = [], pj_Status = [],
     pj_Metadata = [], pj_LastSuccess = None, pj_LastError = None, pj_Next = None,
     pj_Displayname = [], pj_Processors = []\<rparr>"

record pb_execution =
  pe_JobName :: string
  pe_Success :: bool
  pe_Output :: string
  pe_NodeName :: string
  pe_Group :: int
  pe_Attempt :: "32 word"
  pe_StartedAt :: "pb_timestamp option"
  pe_FinishedAt :: "pb_timestamp option"

record pb_delete_job_request =
  djr_JobName :: string

record pb_execution_done_request =
  edr_Execution :: "pb_execution option"

definition pb_execution_zero :: pb_execution where
  "pb_execution_zero = \<lparr>pe_JobName = [], pe_Success = False, pe_Output = [], pe_NodeName = [],
     pe_Group = 0, pe_Attempt = 0, pe_StartedAt = None, pe_FinishedAt = None\<rparr>"

text \<open>The string fields of a message, which protobuf requires to be UTF-8.\<close>

definition map_strings :: "string gomap \<Rightarrow> string list" where
  "map_strings m = concat (map (\<lambda>(k, v). [k, v]) m)"

definition pb_job_strings :: "pb_job \<Rightarrow> string list" where
  "pb_job_strings j =
     [pj_Name j, pj_Timezone j, pj_Schedule j, pj_Owner j, pj_OwnerEmail j, pj_ParentJob j,
      pj_Concurrency j, pj_Executor j, pj_Status j, pj_Displayname j] @
     pj_DependentJobs j @ map_strings (pj_Tags j) @ map_strings (pj_ExecutorConfig j) @
     map_strings (pj_Metadata j) @
     concat (map (\<lambda>(k, c). k # map_strings (pc_Config c)) (pj_Processors j))"

definition pb_job_utf8 :: "pb_job \<Rightarrow> bool" where
  "pb_job_utf8 j \<longleftrightarrow> (\<forall>s \<in> set (pb_job_strings j). valid_utf8 s)"

definition pb_execution_utf8 :: "pb_execution \<Rightarrow> bool" where
  "pb_execution_utf8 e \<longleftrightarrow> valid_utf8 (pe_JobName e) \<and> valid_utf8 (pe_NodeName e)"

section \<open>Go structs\<close>

text \<open>\<open>ntime.NullableTime\<close>.\<close>

record NullableTime =
  hasValue :: bool
  nt_time :: time

record job =
  Name :: string
  DisplayName :: string
  Timezone :: string
  Schedule :: string
  Owner :: string
  OwnerEmail :: string
  SuccessCount :: "64 word"
  ErrorCount :: "64 word"
  LastSuccess :: NullableTime
  LastError :: NullableTime
  Disabled :: bool
  Tags :: "string gomap"
  Metadata :: "string gomap"
  Retries :: "64 word"
  DependentJobs :: "string list"
  ParentJob :: string
  Processors :: "string gomap gomap"
  Concurrency :: string
  Executor :: string
  ExecutorConfig :: "string gomap"
  Status :: string
  Next :: time

record execution =
  ex_JobName :: string
  ex_StartedAt :: time
  ex_FinishedAt :: time
  ex_Success :: bool
  ex_Output :: string
  ex_NodeName :: string
  ex_Group :: int
  ex_Attempt :: "64 word"

section \<open>Status and concurrency constants of job.go\<close>

definition StatusNotSet :: string where "StatusNotSet = []"
definition StatusSuccess :: string where "StatusSuccess = ''success''"
definition StatusRunning :: string where "StatusRunning = ''running''"
definition StatusFailed :: string where "StatusFailed = ''failed''"
definition StatusPartialyFailed :: string where "StatusPartialyFailed = ''partially_failed''"
definition ConcurrencyAllow :: string where "ConcurrencyAllow = ''allow''"
definition ConcurrencyForbid :: string where "ConcurrencyForbid = ''forbid''"

lemmas status_defs = StatusNotSet_def StatusSuccess_def StatusRunning_def StatusFailed_def
  StatusPartialyFailed_def

lemmas concurrency_defs = ConcurrencyAllow_def ConcurrencyForbid_def

end
