(* ===== verification/Env.thy ===== *)
theory Env
  imports Types
begin

text \<open>
  What dkron's store calls and this repository does not define: the embedded database
  BuntDB, the protobuf codec, the timestamp conversions of \<open>ptypes\<close>, the cron expression
  parser of robfig/cron, and the world outside the process (the clock, the time zone
  database, the Unicode tables, the order \<open>sort.Slice\<close> gives to equal elements). They are
  the fields of one record, an argument of every definition that uses them. The locale
  \<open>lawful_env\<close> states the documented behaviour the lemmas rest on.
\<close>

record 'db env =
  \<comment> \<open>buntdb: \<open>tx.Get\<close>, \<open>tx.Set\<close>, \<open>tx.Delete\<close>, the pairs \<open>tx.Ascend("", _)\<close> visits,
    and what \<open>db.Update\<close> leaves when its function succeeds (commit) or fails (rollback)\<close>
  db_get :: "'db \<Rightarrow> string \<Rightarrow> string res"
  db_set :: "'db \<Rightarrow> string \<Rightarrow> string \<Rightarrow> 'db res"
  db_delete :: "'db \<Rightarrow> string \<Rightarrow> 'db res"
  db_ascend :: "'db \<Rightarrow> (string \<times> string) list"
  db_commit :: "'db \<Rightarrow> 'db \<Rightarrow> 'db"
  db_rollback :: "'db \<Rightarrow> 'db \<Rightarrow> 'db"
  db_save :: "'db \<Rightarrow> string res"
  db_load :: "'db \<Rightarrow> string \<Rightarrow> 'db res"
  \<comment> \<open>proto.Marshal and proto.Unmarshal at the message types that are stored or logged\<close>
  marshal_job :: "pb_job \<Rightarrow> string res"
  unmarshal_job :: "string \<Rightarrow> pb_job res"
  marshal_exec :: "pb_execution \<Rightarrow> string res"
  unmarshal_exec :: "string \<Rightarrow> pb_execution res"
  marshal_djr :: "pb_delete_job_request \<Rightarrow> string res"
  unmarshal_djr :: "string \<Rightarrow> pb_delete_job_request res"
  marshal_edr :: "pb_execution_done_request \<Rightarrow> string res"
  unmarshal_edr :: "string \<Rightarrow> pb_execution_done_request res"
  \<comment> \<open>ptypes.Timestamp and ptypes.TimestampProto, whose error results the code drops\<close>
  ts_of :: "pb_timestamp option \<Rightarrow> time"
  ts_proto :: "time \<Rightarrow> pb_timestamp option"
  \<comment> \<open>cron.Parser.Parse: a schedule is its \<open>Next\<close> function\<close>
  cron_parse :: "string \<Rightarrow> (time \<Rightarrow> time) res"
  \<comment> \<open>time.Now, time.LoadLocation, the Unicode class Ll\<close>
  now :: time
  load_location :: "string \<Rightarrow> err"
  is_Ll :: "nat \<Rightarrow> bool"
  \<comment> \<open>sort.Slice by StartedAt\<close>
  sort_started :: "execution list \<Rightarrow> execution list"

text \<open>The timestamps protobuf can represent: from year 1 up to year 9999.\<close>

definition time_ok :: "time \<Rightarrow> bool" where
  "time_ok t \<longleftrightarrow> zero_time \<le> t \<and> t < 253402300800000000000"

lemma time_ok_zero [simp]: "time_ok zero_time"
  by (simp add: time_ok_def zero_time_def)

lemma time_ok_epoch [simp]: "time_ok 0"
  by (simp add: time_ok_def zero_time_def)

section \<open>The laws of the libraries\<close>

text \<open>
  BuntDB is an ordered key/value store: \<open>Ascend\<close> visits the pairs in strictly ascending
  key order, and the other operations act on that finite map. \<open>Save\<close> writes the commands that set
  the pairs of the store, and \<open>Load\<close> executes the commands it reads.
\<close>

locale buntdb =
  fixes E :: "'db env"
  assumes ascend_sorted: "sorted_wrt (<) (map fst (db_ascend E d))"
    and get_law: "db_get E d k =
      (case map_of (db_ascend E d) k of None \<Rightarrow> Inl ErrNotFound | Some v \<Rightarrow> Inr v)"
    and set_law: "\<exists>d'. db_set E d k v = Inr d' \<and>
      map_of (db_ascend E d') = (map_of (db_ascend E d))(k \<mapsto> v)"
    and delete_missing: "map_of (db_ascend E d) k = None \<Longrightarrow> db_delete E d k = Inl ErrNotFound"
    and delete_law: "map_of (db_ascend E d) k = Some v \<Longrightarrow>
      \<exists>d'. db_delete E d k = Inr d' \<and> map_of (db_ascend E d') = (map_of (db_ascend E d))(k := None)"
    and commit_law: "db_commit E d t = t"
    and rollback_law: "db_rollback E d t = d"
    and save_load: "db_save E d = Inr s \<Longrightarrow>
      \<exists>d'. db_load E d0 s = Inr d' \<and> map_of (db_ascend E d') = map_of (db_ascend E d0) ++ map_of (db_ascend E d)"
begin

lemma ascend_distinct: "distinct (map fst (db_ascend E d))"
  by (rule sorted_wrt_less_distinct) (rule ascend_sorted)

lemma ascend_mem_iff: "(k, v) \<in> set (db_ascend E d) \<longleftrightarrow> map_of (db_ascend E d) k = Some v"
  using ascend_distinct by simp

end

text \<open>
  Protobuf: a message whose strings are UTF-8 can be marshalled, what is marshalled can be
  unmarshalled, and the empty input is the zero message; the maps of a message are association
  lists, whose order the codec is taken to keep. Timestamps between the years 1 and 9999
  survive the conversion, count whole seconds, and a nil timestamp reads as one of them.
\<close>

locale pb_codec =
  fixes E :: "'db env"
  assumes job_roundtrip: "marshal_job E j = Inr b \<Longrightarrow> unmarshal_job E b = Inr j"
    and exec_roundtrip: "marshal_exec E x = Inr b \<Longrightarrow> unmarshal_exec E b = Inr x"
    and djr_roundtrip: "marshal_djr E r = Inr b \<Longrightarrow> unmarshal_djr E b = Inr r"
    and edr_roundtrip: "marshal_edr E q = Inr b \<Longrightarrow> unmarshal_edr E b = Inr q"
    and job_marshal: "pb_job_utf8 j \<Longrightarrow> \<exists>b. marshal_job E j = Inr b"
    and exec_marshal: "pb_execution_utf8 x \<Longrightarrow> \<exists>b. marshal_exec E x = Inr b"
    and djr_marshal: "valid_utf8 (djr_JobName r) \<Longrightarrow> \<exists>b. marshal_djr E r = Inr b"
    and edr_marshal: "(\<And>x. edr_Execution q = Some x \<Longrightarrow> pb_execution_utf8 x) \<Longrightarrow>
      \<exists>b. marshal_edr E q = Inr b"
    and exec_empty: "unmarshal_exec E [] = Inr pb_execution_zero"
    and ts_nil: "time_ok (ts_of E None)"
    and ts_roundtrip: "time_ok t \<Longrightarrow> \<exists>p. ts_proto E t = Some p \<and> ts_of E (Some p) = t"
    and ts_seconds: "ts_proto E t = Some p \<Longrightarrow> Seconds p = t div 1000000000"

text \<open>
  The rest of the world: \<open>sort.Slice\<close> permutes its argument into ascending order of the
  start time; among the ASCII characters the class Ll holds exactly the letters a to z, and
  the replacement character U+FFFD is not in it.
\<close>

locale lawful_env = buntdb E + pb_codec E for E :: "'db env" +
  assumes sort_mset: "mset (sort_started E xs) = mset xs"
    and sort_sorted: "sorted (map ex_StartedAt (sort_started E xs))"
    and Ll_ascii: "c < 128 \<Longrightarrow> is_Ll E c \<longleftrightarrow> 97 \<le> c \<and> c \<le> 122"
    and Ll_replacement: "\<not> is_Ll E 65533"

end
