(* ===== verification/Ntime.thy ===== *)
theory Ntime
  imports Env
begin

text \<open>
  Package \<open>ntime\<close>: a time that may be unset. The textual form of a set time is that of
  \<open>encoding/json\<close>; the two directions are arguments of the JSON methods.
\<close>

definition nt_unset :: NullableTime where
  "nt_unset = \<lparr>hasValue = False, nt_time = zero_time\<rparr>"

definition HasValue :: "NullableTime \<Rightarrow> bool" where
  "HasValue t = hasValue t"

definition nt_Set :: "NullableTime \<Rightarrow> time \<Rightarrow> NullableTime" where
  "nt_Set t newTime = t\<lparr>hasValue := True, nt_time := newTime\<rparr>"

definition nt_Unset :: "NullableTime \<Rightarrow> NullableTime" where
  "nt_Unset t = t\<lparr>hasValue := False\<rparr>"

definition nt_Get :: "NullableTime \<Rightarrow> time res" where
  "nt_Get t =
     (if hasValue t then Inr (nt_time t)
      else Inl (Panic ''runtime error: attempt to get value of NullableTime set to nil.''))"

definition nt_After :: "NullableTime \<Rightarrow> NullableTime \<Rightarrow> bool" where
  "nt_After t u =
     (if \<not> hasValue t then False
      else if \<not> hasValue u then True
      else nt_time u < nt_time t)"

definition nt_MarshalJSON :: "(time \<Rightarrow> string) \<Rightarrow> NullableTime \<Rightarrow> string" where
  "nt_MarshalJSON json_of t = (if hasValue t then json_of (nt_time t) else ''null'')"

definition nt_UnmarshalJSON ::
    "(string \<Rightarrow> time res) \<Rightarrow> NullableTime \<Rightarrow> string \<Rightarrow> err \<times> NullableTime" where
  "nt_UnmarshalJSON of_json t data =
     (if data = ''null'' then (None, t\<lparr>hasValue := False\<rparr>)
      else case of_json data of
             Inl e \<Rightarrow> (Some e, t\<lparr>hasValue := True\<rparr>)
           | Inr u \<Rightarrow> (None, t\<lparr>hasValue := True, nt_time := u\<rparr>))"

text \<open>
  The contents of a nullable time, and two times that no operation can tell apart. An unset
  time keeps the last value it held; only its flag matters.
\<close>

definition nt_val :: "NullableTime \<Rightarrow> time option" where
  "nt_val t = (if hasValue t then Some (nt_time t) else None)"

lemma nt_val_simps [simp]:
  "nt_val (nt_Set t x) = Some x" "nt_val (nt_Unset t) = None" "nt_val nt_unset = None"
  by (simp_all add: nt_val_def nt_Set_def nt_Unset_def nt_unset_def)

text \<open>\<open>After\<close> is the strict order on optional times in which "unset" is the least element.\<close>

lemma nt_After_val:
  "nt_After t u \<longleftrightarrow> (case (nt_val t, nt_val u) of
     (None, _) \<Rightarrow> False | (Some _, None) \<Rightarrow> True | (Some a, Some b) \<Rightarrow> b < a)"
  by (simp add: nt_After_def nt_val_def)

lemma nt_After_irrefl [simp]: "\<not> nt_After t t"
  by (simp add: nt_After_def)

lemma nt_After_trans: "nt_After t u \<Longrightarrow> nt_After u v \<Longrightarrow> nt_After t v"
  by (auto simp: nt_After_def split: if_splits)

lemma nt_After_total: "nt_val t \<noteq> nt_val u \<Longrightarrow> nt_After t u \<or> nt_After u t"
  by (auto simp: nt_After_def nt_val_def split: if_splits)

end
