(* ===== verification/Gotime.thy ===== *)
theory Gotime
  imports Prelude
begin

text \<open>
  The part of Go's \<open>time.Parse\<close> that \<open>extcron\<close> uses: the layout \<open>time.RFC3339\<close>, that is
  \<open>2006-01-02T15:04:05Z07:00\<close>, as the standard library of Go 1.14 reads it (a one-digit
  hour is accepted, a fraction of a second may follow the seconds although the layout has
  none, a zone offset is two characters read as a number, a colon and two more).
\<close>

section \<open>Calendar\<close>

definition is_leap :: "int \<Rightarrow> bool" where
  "is_leap y \<longleftrightarrow> y mod 4 = 0 \<and> (y mod 100 \<noteq> 0 \<or> y mod 400 = 0)"

definition daysIn :: "int \<Rightarrow> int \<Rightarrow> int" where
  "daysIn m y =
     (if m = 2 then (if is_leap y then 29 else 28)
      else if m = 4 \<or> m = 6 \<or> m = 9 \<or> m = 11 then 30 else 31)"

text \<open>Days from the Unix epoch to a date of the proleptic Gregorian calendar.\<close>

definition days_from_civil :: "int \<Rightarrow> int \<Rightarrow> int \<Rightarrow> int" where
  "days_from_civil y m d =
     (let y' = (if m \<le> 2 then y - 1 else y);
          yoe = y' mod 400;
          doy = (153 * (if m > 2 then m - 3 else m + 9) + 2) div 5 + d - 1
      in (y' div 400) * 146097 + (yoe * 365 + yoe div 4 - yoe div 100 + doy) - 719468)"

definition civil_to_time :: "int \<Rightarrow> int \<Rightarrow> int \<Rightarrow> int \<Rightarrow> int \<Rightarrow> int \<Rightarrow> int \<Rightarrow> time" where
  "civil_to_time y mo d h mi s ns =
     (((days_from_civil y mo d * 24 + h) * 60 + mi) * 60 + s) * 1000000000 + ns"

section \<open>RFC 3339\<close>

text \<open>\<open>getnum\<close> of package time: two digits, or one if \<open>fixed\<close> is false.\<close>

definition getnum :: "string \<Rightarrow> bool \<Rightarrow> (int \<times> string) option" where
  "getnum s fixed =
     (case s of [] \<Rightarrow> None
      | c # r \<Rightarrow>
         (case char_digit c of None \<Rightarrow> None
          | Some a \<Rightarrow>
             (case r of [] \<Rightarrow> (if fixed then None else Some (int a, r))
              | c' # r' \<Rightarrow>
                 (case char_digit c' of
                    None \<Rightarrow> (if fixed then None else Some (int a, r))
                  | Some b \<Rightarrow> Some (10 * int a + int b, r')))))"

text \<open>\<open>atoi\<close> of package time: an optional sign and then digits only.\<close>

definition time_atoi :: "string \<Rightarrow> int option" where
  "time_atoi s =
     (case s of [] \<Rightarrow> None
      | c # r \<Rightarrow>
         if c = CHR ''-'' then map_option (\<lambda>n. - int n) (read_digits 0 r)
         else if c = CHR ''+'' then map_option int (read_digits 0 r)
         else map_option int (read_digits 0 s))"

definition skip :: "char \<Rightarrow> string \<Rightarrow> string option" where
  "skip c s = (case s of [] \<Rightarrow> None | x # r \<Rightarrow> if x = c then Some r else None)"

definition getfrac :: "string \<Rightarrow> (int \<times> string) option" where
  "getfrac s =
     (case s of
        c # c' # _ \<Rightarrow>
          if c = CHR ''.'' \<and> char_digit c' \<noteq> None then
            (let ds = takeWhile (\<lambda>x. char_digit x \<noteq> None) (tl s);
                 r = dropWhile (\<lambda>x. char_digit x \<noteq> None) (tl s)
             in case read_nat ds of None \<Rightarrow> None
                | Some n \<Rightarrow> if 1000000000 \<le> int n then None
                           else Some (int n * 10 ^ (9 - length ds), r))
          else Some (0, s)
      | _ \<Rightarrow> Some (0, s))"

definition getzone :: "string \<Rightarrow> (int \<times> string) option" where
  "getzone s =
     (case s of
        [] \<Rightarrow> None
      | c # r \<Rightarrow>
         if c = CHR ''Z'' then Some (0, r)
         else if length s < 6 then None
         else if s ! 3 \<noteq> CHR '':'' then None
         else (case (time_atoi (take 2 (drop 1 s)), time_atoi (take 2 (drop 4 s))) of
                 (Some hr, Some mm) \<Rightarrow>
                   if c = CHR ''+'' then Some ((hr * 60 + mm) * 60, drop 6 s)
                   else if c = CHR ''-'' then Some (- ((hr * 60 + mm) * 60), drop 6 s)
                   else None
               | _ \<Rightarrow> None))"

definition parse_rfc3339 :: "string \<Rightarrow> time res" where
  "parse_rfc3339 s0 =
     (let r = Option.bind (if length s0 < 4 then None else map_option int (read_nat (take 4 s0))) (\<lambda>year.
        Option.bind (skip CHR ''-'' (drop 4 s0)) (\<lambda>s.
        Option.bind (getnum s True) (\<lambda>(month, s).
        if month \<le> 0 \<or> 12 < month then None else
        Option.bind (skip CHR ''-'' s) (\<lambda>s.
        Option.bind (getnum s True) (\<lambda>(day, s).
        Option.bind (skip CHR ''T'' s) (\<lambda>s.
        Option.bind (getnum s False) (\<lambda>(hour, s).
        if 24 \<le> hour then None else
        Option.bind (skip CHR '':'' s) (\<lambda>s.
        Option.bind (getnum s True) (\<lambda>(mins, s).
        if 60 \<le> mins then None else
        Option.bind (skip CHR '':'' s) (\<lambda>s.
        Option.bind (getnum s True) (\<lambda>(sec, s).
        if 60 \<le> sec then None else
        Option.bind (getfrac s) (\<lambda>(nsec, s).
        Option.bind (getzone s) (\<lambda>(off, s).
        if s \<noteq> [] then None
        else if day < 1 \<or> daysIn month year < day then None
        else Some (civil_to_time year month day hour mins sec nsec - off * 1000000000))))))))))))))
      in case r of None \<Rightarrow> Inl (Errorf ''parsing time'') | Some t \<Rightarrow> Inr t)"

end
