(* ===== verification/Extcron.thy ===== *)
theory Extcron
  imports Gotime Env
begin

text \<open>
  Package \<open>extcron\<close>: dkron's descriptors \<open>@manually\<close> and \<open>@at <date>\<close> on top of the
  parser of robfig/cron, which is the parameter \<open>cron_parse\<close>.
\<close>

datatype schedule =
    SimpleSchedule time
  | SpecSchedule "time \<Rightarrow> time"

definition At :: "time \<Rightarrow> schedule" where
  "At date = SimpleSchedule date"

fun sched_Next :: "schedule \<Rightarrow> time \<Rightarrow> time" where
  "sched_Next (SimpleSchedule date) t = (if date > t then date else zero_time)"
| "sched_Next (SpecSchedule nxt) t = nxt t"

definition ext_Parse :: "'db env \<Rightarrow> string \<Rightarrow> schedule res" where
  "ext_Parse E spec =
     (if spec = ''@manually'' then Inr (At zero_time)
      else if HasPrefix spec ''@at '' then
        (case parse_rfc3339 (drop (length ''@at '') spec) of
           Inl e \<Rightarrow> Inl (Errorf (''failed to parse date '' @ spec))
         | Inr date \<Rightarrow> Inr (At date))
      else (case cron_parse E spec of
              Inl e \<Rightarrow> Inl e
            | Inr nxt \<Rightarrow> Inr (SpecSchedule nxt)))"

text \<open>A one-shot schedule yields its date, or the zero time, and the date at most once.\<close>

lemma sched_Next_simple:
  "sched_Next (SimpleSchedule date) t = date \<and> t < date
   \<or> sched_Next (SimpleSchedule date) t = zero_time"
  by auto

lemma sched_Next_simple_once:
  "sched_Next (SimpleSchedule date) (sched_Next (SimpleSchedule date) t) = date \<Longrightarrow>
   date = zero_time \<or> sched_Next (SimpleSchedule date) t \<noteq> date"
  by (auto split: if_splits)

end
