(* ===== verification/Execution.thy ===== *)
theory Execution
  imports Env
begin

text \<open>
  \<open>src/dkron/execution.go\<close>: one run of a job, its protobuf form and the identifier it is
  stored under.
\<close>

definition NewExecution :: "'db env \<Rightarrow> string \<Rightarrow> execution" where
  "NewExecution E jobName =
     \<lparr>ex_JobName = jobName, ex_StartedAt = zero_time, ex_FinishedAt = zero_time,
      ex_Success = False, ex_Output = [], ex_NodeName = [],
      ex_Group = UnixNano (now E), ex_Attempt = 1\<rparr>"

definition NewExecutionFromProto :: "'db env \<Rightarrow> pb_execution \<Rightarrow> execution" where
  "NewExecutionFromProto E e =
     (let startedAt = ts_of E (pe_StartedAt e);
          finishedAt = ts_of E (pe_FinishedAt e)
      in \<lparr>ex_JobName = pe_JobName e, ex_StartedAt = startedAt, ex_FinishedAt = finishedAt,
          ex_Success = pe_Success e, ex_Output = pe_Output e, ex_NodeName = pe_NodeName e,
          ex_Group = pe_Group e, ex_Attempt = ucast (pe_Attempt e)\<rparr>)"

definition ex_ToProto :: "'db env \<Rightarrow> execution \<Rightarrow> pb_execution" where
  "ex_ToProto E e =
     (let startedAt = ts_proto E (ex_StartedAt e);
          finishedAt = ts_proto E (ex_FinishedAt e)
      in \<lparr>pe_JobName = ex_JobName e, pe_Success = ex_Success e, pe_Output = ex_Output e,
          pe_NodeName = ex_NodeName e, pe_Group = ex_Group e,
          pe_Attempt = ucast (ex_Attempt e),
          pe_StartedAt = startedAt, pe_FinishedAt = finishedAt\<rparr>)"

definition ex_Key :: "execution \<Rightarrow> string" where
  "ex_Key e = show_int (UnixNano (ex_StartedAt e)) @ ''-'' @ ex_NodeName e"

definition GetGroup :: "execution \<Rightarrow> string" where
  "GetGroup e = show_int (ex_Group e)"

text \<open>\<open>Key\<close> of the protobuf message, in \<open>src/plugin/types/execution.go\<close>.\<close>

definition pe_Key :: "'db env \<Rightarrow> pb_execution \<Rightarrow> string" where
  "pe_Key E e = show_int (UnixNano (ts_of E (pe_StartedAt e))) @ ''-'' @ pe_NodeName e"

section \<open>Properties\<close>

lemma pe_Key_conv: "pe_Key E e = ex_Key (NewExecutionFromProto E e)"
  by (simp add: pe_Key_def ex_Key_def NewExecutionFromProto_def Let_def)

text \<open>The executions that survive the trip through protobuf unchanged.\<close>

definition ex_representable :: "'db env \<Rightarrow> execution \<Rightarrow> bool" where
  "ex_representable E e \<longleftrightarrow> NewExecutionFromProto E (ex_ToProto E e) = e"

lemma ucast_down_up:
  fixes w :: "64 word"
  assumes "unat w < 2 ^ 32"
  shows "ucast (ucast w :: 32 word) = w"
proof -
  have "unat (ucast (ucast w :: 32 word) :: 64 word) = unat w"
    using assms by (simp add: unsigned_ucast_eq unsigned_take_bit_eq take_bit_nat_eq_self)
  then show ?thesis by (simp add: word_unat_eq_iff)
qed

context pb_codec
begin

lemma ts_of_proto: "time_ok t \<Longrightarrow> ts_of E (ts_proto E t) = t"
  using ts_roundtrip by fastforce

lemma ex_representableI:
  assumes "time_ok (ex_StartedAt e)" "time_ok (ex_FinishedAt e)" "unat (ex_Attempt e) < 2 ^ 32"
  shows "ex_representable E e"
  using assms
  by (simp add: ex_representable_def NewExecutionFromProto_def ex_ToProto_def Let_def
      ts_of_proto ucast_down_up)

end

lemma show_int_sep_inj:
  assumes "show_int i @ CHR ''-'' # s = show_int j @ CHR ''-'' # t"
  shows "i = j \<and> s = t"
proof -
  have *: "show_nat m @ CHR ''-'' # s = show_nat n @ CHR ''-'' # t \<Longrightarrow> m = n \<and> s = t" for m n
    using append_sep_inj [OF minus_notin_show_nat minus_notin_show_nat] show_nat_inj by blast
  have hd: "show_nat m @ u = CHR ''-'' # v \<Longrightarrow> False" for m u v
    using minus_notin_show_nat [of m] show_nat_not_Nil [of m]
    by (metis append_eq_Cons_conv list.set_intros(1))
  show ?thesis
  proof (cases "i < 0"; cases "j < 0")
    assume "i < 0" "j < 0"
    with assms * [of "nat (- i)" "nat (- j)"] show ?thesis by (auto simp: show_int_def)
  next
    assume "\<not> i < 0" "\<not> j < 0"
    with assms * [of "nat i" "nat j"] show ?thesis by (auto simp: show_int_def)
  next
    assume "i < 0" "\<not> j < 0"
    with assms hd [of "nat j"] show ?thesis by (auto simp: show_int_def) (metis)+
  next
    assume "\<not> i < 0" "j < 0"
    with assms hd [of "nat i"] show ?thesis by (auto simp: show_int_def)
  qed
qed

end
