(* ===== verification/Job.thy ===== *)
theory Job
  imports Ntime Extcron Execution
begin

text \<open>
  \<open>src/dkron/job.go\<close>: the job, its protobuf form, its validation and its next run. What
  needs the store (\<open>GetParent\<close>) is in the theory \<open>Store\<close>, what needs the agent (\<open>Run\<close>,
  \<open>isRunnable\<close>) in \<open>Agent\<close>, and the job tree of a restore in \<open>Job_Tree\<close>.
\<close>

section \<open>Conversion to and from protobuf\<close>

text \<open>The two branches on \<open>LastSuccess\<close> and \<open>LastError\<close>, which both conversions repeat.\<close>

definition nt_FromProto :: "'db env \<Rightarrow> pb_nullable_time option \<Rightarrow> NullableTime" where
  "nt_FromProto E m =
     (case m of
        None \<Rightarrow> nt_unset
      | Some p \<Rightarrow> if pn_HasValue p then nt_Set nt_unset (ts_of E (pn_Time p)) else nt_unset)"

definition nt_ToProto :: "'db env \<Rightarrow> NullableTime \<Rightarrow> pb_nullable_time" where
  "nt_ToProto E t =
     \<lparr>pn_HasValue = HasValue t,
      pn_Time = (if HasValue t then ts_proto E (nt_time t) else None)\<rparr>"

definition NewJobFromProto :: "'db env \<Rightarrow> pb_job \<Rightarrow> job" where
  "NewJobFromProto E in' =
     (let nxt = ts_of E (pj_Next in')
      in \<lparr>Name = pj_Name in', DisplayName = pj_Displayname in', Timezone = pj_Timezone in',
          Schedule = pj_Schedule in', Owner = pj_Owner in', OwnerEmail = pj_OwnerEmail in',
          SuccessCount = scast (pj_SuccessCount in'), ErrorCount = scast (pj_ErrorCount in'),
          LastSuccess = nt_FromProto E (pj_LastSuccess in'),
          LastError = nt_FromProto E (pj_LastError in'),
          Disabled = pj_Disabled in', Tags = pj_Tags in', Metadata = pj_Metadata in',
          Retries = ucast (pj_Retries in'), DependentJobs = pj_DependentJobs in',
          ParentJob = pj_ParentJob in',
          Processors = map (\<lambda>(k, v). (k, pc_Config v)) (pj_Processors in'),
          Concurrency = pj_Concurrency in', Executor = pj_Executor in',
          ExecutorConfig = pj_ExecutorConfig in', Status = pj_Status in', Next = nxt\<rparr>)"

definition ToProto :: "'db env \<Rightarrow> job \<Rightarrow> pb_job" where
  "ToProto E j =
     (let nxt = ts_proto E (Next j)
      in \<lparr>pj_Name = Name j, pj_Timezone = Timezone j, pj_Schedule = Schedule j,
          pj_Owner = Owner j, pj_OwnerEmail = OwnerEmail j,
          pj_SuccessCount = ucast (SuccessCount j), pj_ErrorCount = ucast (ErrorCount j),
          pj_Disabled = Disabled j, pj_Tags = Tags j, pj_Retries = ucast (Retries j),
          pj_DependentJobs = DependentJobs j, pj_ParentJob = ParentJob j,
          pj_Concurrency = Concurrency j, pj_Executor = Executor j,
          pj_ExecutorConfig = ExecutorConfig j, pj_Status = Status j,
          pj_Metadata = Metadata j, pj_LastSuccess = Some (nt_ToProto E (LastSuccess j)),
          pj_LastError = Some (nt_ToProto E (LastError j)), pj_Next = nxt,
          pj_Displayname = DisplayName j,
          pj_Processors = map (\<lambda>(k, v). (k, \<lparr>pc_Config = v\<rparr>)) (Processors j)\<rparr>)"

section \<open>Validation\<close>

text \<open>The complement of the character class \<open>[^\p{Ll}0-9_-]\<close>.\<close>

definition slug_rune :: "'db env \<Rightarrow> nat \<Rightarrow> bool" where
  "slug_rune E r \<longleftrightarrow> is_Ll E r \<or> (48 \<le> r \<and> r \<le> 57) \<or> r = 95 \<or> r = 45"

text \<open>\<open>FindString\<close>: the first match of the pattern, or the empty string.\<close>

function find_illegal :: "'db env \<Rightarrow> string \<Rightarrow> string" where
  "find_illegal E s =
     (if s = [] then []
      else if slug_rune E (fst (decode_rune s)) then find_illegal E (drop (snd (decode_rune s)) s)
      else take (snd (decode_rune s)) s)"
  by pat_completeness auto
termination
  by (relation "measure (\<lambda>(E, s). length s)") (auto simp: decode_rune_width)

declare find_illegal.simps [simp del]

definition isSlug :: "'db env \<Rightarrow> string \<Rightarrow> bool \<times> string" where
  "isSlug E candidate =
     (let whyNot = find_illegal E candidate in (whyNot = [], whyNot))"

definition Validate :: "'db env \<Rightarrow> job \<Rightarrow> err" where
  "Validate E j =
     (if Name j = [] then Some (Errorf ''name cannot be empty'')
      else if \<not> fst (isSlug E (Name j)) then
        Some (Errorf (''name contains illegal character '' @ snd (isSlug E (Name j))))
      else if ParentJob j = Name j then Some ErrSameParent
      else (case (if Schedule j \<noteq> [] \<or> ParentJob j = [] then
                    (case ext_Parse E (Schedule j) of
                       Inl e \<Rightarrow> Some (ErrScheduleParse e) | Inr _ \<Rightarrow> None)
                  else None) of
              Some e \<Rightarrow> Some e
            | None \<Rightarrow>
                if Concurrency j \<noteq> ConcurrencyAllow \<and> Concurrency j \<noteq> ConcurrencyForbid
                   \<and> Concurrency j \<noteq> [] then Some ErrWrongConcurrency
                else load_location E (Timezone j)))"

section \<open>The next run\<close>

definition GetNext :: "'db env \<Rightarrow> job \<Rightarrow> time res" where
  "GetNext E j =
     (if Schedule j \<noteq> [] then
        (case ext_Parse E (Schedule j) of
           Inl e \<Rightarrow> Inl e
         | Inr s \<Rightarrow> Inr (sched_Next s (now E)))
      else Inr zero_time)"

section \<open>Properties\<close>

text \<open>The jobs that survive the trip through protobuf unchanged.\<close>

definition representable :: "'db env \<Rightarrow> job \<Rightarrow> bool" where
  "representable E j \<longleftrightarrow> NewJobFromProto E (ToProto E j) = j"

lemma scast_down_up:
  fixes w :: "64 word"
  assumes a: "- (2 ^ 31) \<le> sint w" "sint w < 2 ^ 31"
  shows "scast (ucast w :: 32 word) = w"
proof -
  have "(ucast w :: 32 word) = scast w"
    by (subst down_cast_same) (simp_all only: is_down, simp_all)
  then have b: "(ucast w :: 32 word) = word_of_int (sint w)"
    by (simp only: scast_eq)
  have "sint (ucast w :: 32 word) = sint w"
    unfolding b sint_sbintrunc' using a by (simp add: signed_take_bit_int_eq_self)
  then have "(scast (ucast w :: 32 word) :: 64 word) = word_of_int (sint w)"
    by (simp only: scast_eq)
  then show ?thesis by simp
qed

lemma map_config_id: "map (\<lambda>(k, v). (k, pc_Config v)) (map (\<lambda>(k, v). (k, \<lparr>pc_Config = v\<rparr>)) xs) = xs"
  by (induction xs) auto

definition nt_ok :: "NullableTime \<Rightarrow> bool" where
  "nt_ok t \<longleftrightarrow> (if hasValue t then time_ok (nt_time t) else t = nt_unset)"

text \<open>A job whose times and counters fit the message.\<close>

definition job_fits :: "job \<Rightarrow> bool" where
  "job_fits j \<longleftrightarrow> time_ok (Next j) \<and> nt_ok (LastSuccess j) \<and> nt_ok (LastError j) \<and>
     - (2 ^ 31) \<le> sint (SuccessCount j) \<and> sint (SuccessCount j) < 2 ^ 31 \<and>
     - (2 ^ 31) \<le> sint (ErrorCount j) \<and> sint (ErrorCount j) < 2 ^ 31 \<and>
     unat (Retries j) < 2 ^ 32"

context pb_codec
begin

lemma nt_roundtrip: "nt_ok t \<Longrightarrow> nt_FromProto E (Some (nt_ToProto E t)) = t"
  by (auto simp: nt_FromProto_def nt_ToProto_def nt_ok_def HasValue_def nt_Set_def nt_unset_def
      ts_of_proto)

lemma representableI: "job_fits j \<Longrightarrow> representable E j"
  by (simp add: job_fits_def representable_def NewJobFromProto_def ToProto_def Let_def
      nt_roundtrip scast_down_up ucast_down_up ts_of_proto map_config_id del: map_map)

end

context lawful_env
begin

lemma find_illegal_ascii:
  assumes "of_char c < (128 :: nat)" "\<not> slug_rune E (of_char c)"
  shows "find_illegal E s = [] \<Longrightarrow> c \<notin> set s"
proof (induction s rule: length_induct)
  case (1 s)
  let ?w = "snd (decode_rune s)"
  show ?case
  proof (cases "s = []")
    case False
    with "1.prems" have ok: "slug_rune E (fst (decode_rune s))"
      and rest: "find_illegal E (drop ?w s) = []"
      using decode_rune_width [of s]
      by (subst (asm) find_illegal.simps, simp split: if_splits)+
    have "c \<notin> set (drop ?w s)"
      using "1.IH" rest False decode_rune_width [of s] by simp
    moreover have "c \<notin> set (take ?w s)"
      using decode_rune_ascii [of c s] ok assms by auto
    ultimately show ?thesis
      by (metis Un_iff append_take_drop_id set_append)
  qed simp
qed

lemma slug_rune_separators:
  "\<not> slug_rune E (of_char CHR '':'')" "\<not> slug_rune E (of_char CHR ''/'')" "\<not> slug_rune E (of_char CHR ''?'')"
  using Ll_ascii [of "of_char CHR '':''"] Ll_ascii [of "of_char CHR ''/''"] Ll_ascii [of "of_char CHR ''?''"]
  by (simp_all add: slug_rune_def)

lemma Validate_name:
  assumes "Validate E j = None"
  shows "Name j \<noteq> []" "CHR '':'' \<notin> set (Name j)" "CHR ''/'' \<notin> set (Name j)" "CHR ''?'' \<notin> set (Name j)"
  using assms find_illegal_ascii [of "CHR '':''" "Name j"] find_illegal_ascii [of "CHR ''/''" "Name j"]
    find_illegal_ascii [of "CHR ''?''" "Name j"] slug_rune_separators
  by (auto simp: Validate_def isSlug_def Let_def split: if_splits)

end

section \<open>Printing\<close>

text \<open>\<open>String\<close>, where \<open>%v\<close> prints a map in the order of its keys.\<close>

definition show_map :: "string gomap \<Rightarrow> string" where
  "show_map m = ''map['' @ Join (map (\<lambda>(k, v). k @ '':'' @ v) (sort_key fst m)) '' '' @ '']''"

definition job_String :: "job \<Rightarrow> string" where
  "job_String j = ''\"Job: '' @ Name j @ '', scheduled at: '' @ Schedule j @ '', tags:'' @ show_map (Tags j) @ ''\"''"

text \<open>What is printed does not depend on the order in which the map happens to be visited.\<close>

lemma show_map_order:
  assumes "mset m = mset m'" "distinct (map fst m)"
  shows "show_map m = show_map m'"
proof -
  have s: "set m = set m'" using mset_eq_setD [OF assms(1)] .
  have "distinct (map fst m')" using assms by (metis mset_eq_imp_distinct_iff mset_map)
  then have "distinct (map fst (sort_key fst m'))" "distinct (map fst (sort_key fst m))"
    using assms(2) by (simp_all add: distinct_map)
  then have "sort_key fst m = sort_key fst m'"
    using assms(2) s by (intro map_sorted_distinct_set_unique [of fst]) (simp_all add: distinct_map)
  then show ?thesis by (simp add: show_map_def)
qed

end
