(* ===== verification/Store.thy ===== *)
theory Store
  imports Job
begin

text \<open>
  \<open>src/dkron/store.go\<close>: jobs and executions in the embedded key/value database. A
  transaction is the database state it works on; \<open>db_Update\<close> is the protocol of
  \<open>db.Update\<close>, which commits the state its function leaves or rolls it back. \<open>SetJob\<close>
  calls itself through \<open>removeFromParent\<close> and \<open>addToParent\<close>, so its model has fuel; the
  theory \<open>Store_Jobs\<close> shows that two units are enough on every well-formed store.
  Logging is left out.
\<close>

definition MaxExecutions :: nat where
  "MaxExecutions = 100"

definition jobsPrefix :: string where "jobsPrefix = ''jobs''"

definition executionsPrefix :: string where "executionsPrefix = ''executions''"

text \<open>The keys, which the code formats at each use.\<close>

definition job_key :: "string \<Rightarrow> string" where
  "job_key name = jobsPrefix @ '':'' @ name"

definition exec_prefix :: "string \<Rightarrow> string" where
  "exec_prefix jobName = executionsPrefix @ '':'' @ jobName @ '':''"

definition exec_key :: "execution \<Rightarrow> string" where
  "exec_key e = executionsPrefix @ '':'' @ ex_JobName e @ '':'' @ ex_Key e"

definition db_Update :: "'db env \<Rightarrow> 'db \<Rightarrow> ('db \<Rightarrow> err \<times> 'db \<times> 'r) \<Rightarrow> err \<times> 'db \<times> 'r" where
  "db_Update E d f =
     (case f d of
        (None, tx, r) \<Rightarrow> (None, db_commit E d tx, r)
      | (Some e, tx, r) \<Rightarrow> (Some e, db_rollback E d tx, r))"

section \<open>Jobs\<close>

definition setJobTxFunc :: "'db env \<Rightarrow> pb_job \<Rightarrow> 'db \<Rightarrow> err \<times> 'db" where
  "setJobTxFunc E pbj tx =
     (case marshal_job E pbj of
        Inl e \<Rightarrow> (Some e, tx)
      | Inr jb \<Rightarrow>
          (case db_set E tx (job_key (pj_Name pbj)) jb of
             Inl e \<Rightarrow> (Some e, tx)
           | Inr tx' \<Rightarrow> (None, tx')))"

definition getJobTxFunc :: "'db env \<Rightarrow> string \<Rightarrow> 'db \<Rightarrow> pb_job res" where
  "getJobTxFunc E name tx =
     (case db_get E tx (job_key name) of
        Inl e \<Rightarrow> Inl e
      | Inr item \<Rightarrow> unmarshal_job E item)"

definition GetJob :: "'db env \<Rightarrow> 'db \<Rightarrow> string \<Rightarrow> job res" where
  "GetJob E d name =
     (case getJobTxFunc E name d of
        Inl e \<Rightarrow> Inl e
      | Inr pbj \<Rightarrow> Inr (NewJobFromProto E pbj))"

text \<open>\<open>GetParent\<close> of \<open>src/dkron/job.go\<close>.\<close>

definition GetParent :: "'db env \<Rightarrow> 'db \<Rightarrow> job \<Rightarrow> job res" where
  "GetParent E d j =
     (if Name j = ParentJob j then Inl ErrSameParent
      else if ParentJob j = [] then Inl ErrNoParent
      else (case GetJob E d (ParentJob j) of
              Inl e \<Rightarrow> if e = ErrNotFound then Inl ErrParentJobNotFound else Inl e
            | Inr parentJob \<Rightarrow> Inr parentJob))"

text \<open>What \<open>SetJob\<close> takes over from the stored job \<open>ej\<close>, if there is one.\<close>

definition keep_stored :: "job \<Rightarrow> job \<Rightarrow> bool \<Rightarrow> job" where
  "keep_stored ej j0 copyDependentJobs =
     (if Name ej \<noteq> [] then
        (let j1 = (if nt_After (LastError ej) (LastError j0)
                   then j0\<lparr>LastError := LastError ej\<rparr> else j0);
             j2 = (if nt_After (LastSuccess ej) (LastSuccess j1)
                   then j1\<lparr>LastSuccess := LastSuccess ej\<rparr> else j1);
             j3 = (if SuccessCount j2 <s SuccessCount ej
                   then j2\<lparr>SuccessCount := SuccessCount ej\<rparr> else j2);
             j4 = (if ErrorCount j3 <s ErrorCount ej
                   then j3\<lparr>ErrorCount := ErrorCount ej\<rparr> else j3);
             j5 = (if DependentJobs ej \<noteq> [] \<and> copyDependentJobs
                   then j4\<lparr>DependentJobs := DependentJobs ej\<rparr> else j4)
         in if Status ej \<noteq> [] then j5\<lparr>Status := Status ej\<rparr> else j5)
      else j0)"

text \<open>The next run: recomputed when the schedule changes, else never moved back.\<close>

definition next_run :: "'db env \<Rightarrow> job \<Rightarrow> job \<Rightarrow> job res" where
  "next_run E ej j =
     (if Schedule j \<noteq> Schedule ej then
        (case GetNext E j of Inl e \<Rightarrow> Inl e | Inr n \<Rightarrow> Inr (j\<lparr>Next := n\<rparr>))
      else Inr (if Next j < Next ej then j\<lparr>Next := Next ej\<rparr> else j))"

text \<open>
  The transaction of \<open>SetJob\<close>: its result carries the job as it was stored and the job
  found before. The result of \<open>setJobTxFunc\<close> is dropped, as in the code.
\<close>

definition SetJobTx :: "'db env \<Rightarrow> job \<Rightarrow> bool \<Rightarrow> 'db \<Rightarrow> err \<times> 'db \<times> job \<times> job" where
  "SetJobTx E j copyDependentJobs tx =
     (let got = getJobTxFunc E (Name j) tx;
          pbej = (case got of Inl _ \<Rightarrow> pb_job_zero | Inr p \<Rightarrow> p);
          ej = NewJobFromProto E pbej
      in case got of
           Inl e \<Rightarrow>
             if e \<noteq> ErrNotFound then (Some e, tx, j, ej)
             else (case next_run E ej (keep_stored ej j copyDependentJobs) of
                     Inl e' \<Rightarrow> (Some e', tx, j, ej)
                   | Inr j' \<Rightarrow> (None, snd (setJobTxFunc E (ToProto E j') tx), j', ej))
         | Inr _ \<Rightarrow>
             (case next_run E ej (keep_stored ej j copyDependentJobs) of
                Inl e' \<Rightarrow> (Some e', tx, j, ej)
              | Inr j' \<Rightarrow> (None, snd (setJobTxFunc E (ToProto E j') tx), j', ej)))"

type_synonym 'db set_job = "'db \<Rightarrow> job \<Rightarrow> bool \<Rightarrow> err \<times> 'db"

definition removeFromParent :: "'db set_job \<Rightarrow> 'db env \<Rightarrow> 'db \<Rightarrow> job option \<Rightarrow> err \<times> 'db" where
  "removeFromParent setJob E d child =
     (case child of
        None \<Rightarrow> (None, d)
      | Some c \<Rightarrow>
          if ParentJob c = [] then (None, d)
          else (case GetParent E d c of
                  Inl e \<Rightarrow> (Some e, d)
                | Inr parent \<Rightarrow>
                    setJob d (parent\<lparr>DependentJobs :=
                      filter (\<lambda>djn. djn \<noteq> Name c) (DependentJobs parent)\<rparr>) False))"

definition addToParent :: "'db set_job \<Rightarrow> 'db env \<Rightarrow> 'db \<Rightarrow> job \<Rightarrow> err \<times> 'db" where
  "addToParent setJob E d child =
     (if ParentJob child = [] then (None, d)
      else (case GetParent E d child of
              Inl e \<Rightarrow> (Some e, d)
            | Inr parent \<Rightarrow>
                setJob d (parent\<lparr>DependentJobs := DependentJobs parent @ [Name child]\<rparr>) False))"

primrec SetJob_n :: "nat \<Rightarrow> 'db env \<Rightarrow> 'db set_job" where
  "SetJob_n 0 E = (\<lambda>d j copyDependentJobs. (Some OutOfFuel, d))"
| "SetJob_n (Suc n) E = (\<lambda>d j copyDependentJobs.
     (case Validate E j of
        Some e \<Rightarrow> (Some e, d)
      | None \<Rightarrow>
          if ParentJob j \<noteq> [] \<and> isl (GetJob E d (ParentJob j))
          then (Some ErrParentJobNotFound, d)
          else (case db_Update E d (SetJobTx E j copyDependentJobs) of
                  (Some e, d1, _) \<Rightarrow> (Some e, d1)
                | (None, d1, j', ej) \<Rightarrow>
                    if ParentJob j' \<noteq> ParentJob ej then
                      (case removeFromParent (SetJob_n n E) E d1 (Some ej) of
                         (Some e, d2) \<Rightarrow> (Some e, d2)
                       | (None, d2) \<Rightarrow> addToParent (SetJob_n n E) E d2 j')
                    else (None, d1))))"

definition SetJob :: "'db env \<Rightarrow> 'db set_job" where
  "SetJob E = SetJob_n 2 E"

definition jobHasMetadata :: "job option \<Rightarrow> string gomap \<Rightarrow> bool" where
  "jobHasMetadata jo metadata =
     (case jo of
        None \<Rightarrow> False
      | Some j \<Rightarrow>
          Metadata j \<noteq> [] \<and> (\<forall>(k, v) \<in> set metadata. map_of (Metadata j) k = Some v))"

text \<open>
  \<open>GetJobs\<close>: \<open>options\<close> is \<open>None\<close> for nil. A value that does not unmarshal, whose error the
  code drops, is read as the zero message.
\<close>

definition GetJobs :: "'db env \<Rightarrow> 'db \<Rightarrow> string gomap option \<Rightarrow> job list res" where
  "GetJobs E d options =
     Inr (filter (\<lambda>j. case options of
                        None \<Rightarrow> True
                      | Some md \<Rightarrow> md = [] \<or> jobHasMetadata (Some j) md)
           (map (\<lambda>(key, value). NewJobFromProto E
                   (case unmarshal_job E value of Inl _ \<Rightarrow> pb_job_zero | Inr p \<Rightarrow> p))
             (filter (\<lambda>(key, value). HasPrefix key (jobsPrefix @ '':'')) (db_ascend E d))))"

section \<open>Executions\<close>

definition isDirectoryKey :: "string \<Rightarrow> bool" where
  "isDirectoryKey key \<longleftrightarrow> key \<noteq> [] \<and> last key = CHR '':''"

definition trimDirectoryKey :: "string \<Rightarrow> string" where
  "trimDirectoryKey key = (if isDirectoryKey key then butlast key else key)"

definition listTxFunc :: "'db env \<Rightarrow> string \<Rightarrow> 'db \<Rightarrow> (string \<times> string) list \<times> bool" where
  "listTxFunc E prefix tx =
     (let hits = filter (\<lambda>(key, value). HasPrefix key prefix) (db_ascend E tx)
      in (filter (\<lambda>(key, value). trimDirectoryKey key \<noteq> prefix) hits, hits \<noteq> []))"

definition list_kvs :: "'db env \<Rightarrow> 'db \<Rightarrow> string \<Rightarrow> bool \<Rightarrow> (string \<times> string) list res" where
  "list_kvs E d prefix checkRoot =
     (case listTxFunc E prefix d of
        (kvs, found) \<Rightarrow> if \<not> found \<and> checkRoot then Inl ErrNotFound else Inr kvs)"

fun unmarshalExecutions :: "'db env \<Rightarrow> (string \<times> string) list \<Rightarrow> execution list res" where
  "unmarshalExecutions E [] = Inr []"
| "unmarshalExecutions E ((k, v) # items) =
     (case unmarshal_exec E v of
        Inl e \<Rightarrow> Inl e
      | Inr pbe \<Rightarrow>
          (case unmarshalExecutions E items of
             Inl e \<Rightarrow> Inl e
           | Inr xs \<Rightarrow> Inr (NewExecutionFromProto E pbe # xs)))"

definition GetExecutions :: "'db env \<Rightarrow> 'db \<Rightarrow> string \<Rightarrow> execution list res" where
  "GetExecutions E d jobName =
     (case list_kvs E d (exec_prefix jobName) True of
        Inl e \<Rightarrow> Inl e
      | Inr kvs \<Rightarrow> unmarshalExecutions E kvs)"

definition GetExecutionGroup :: "'db env \<Rightarrow> 'db \<Rightarrow> execution \<Rightarrow> execution list res" where
  "GetExecutionGroup E d x =
     (case GetExecutions E d (ex_JobName x) of
        Inl e \<Rightarrow> Inl e
      | Inr xs \<Rightarrow> Inr (filter (\<lambda>ex. ex_Group ex = ex_Group x) xs))"

fun group_execs :: "execution list \<Rightarrow> (int \<times> execution list) list \<Rightarrow> (int \<times> execution list) list" where
  "group_execs [] groups = groups"
| "group_execs (ex # xs) groups =
     group_execs xs (AList.update (ex_Group ex)
       ((case map_of groups (ex_Group ex) of None \<Rightarrow> [] | Some g \<Rightarrow> g) @ [ex]) groups)"

definition GetGroupedExecutions ::
    "'db env \<Rightarrow> 'db \<Rightarrow> string \<Rightarrow> ((int \<times> execution list) list \<times> int list) res" where
  "GetGroupedExecutions E d jobName =
     (case GetExecutions E d jobName of
        Inl e \<Rightarrow> Inl e
      | Inr execs \<Rightarrow>
          (let groups = group_execs execs [] in Inr (groups, rev (sort (map fst groups)))))"

definition GetLastExecutionGroup :: "'db env \<Rightarrow> 'db \<Rightarrow> string \<Rightarrow> execution list res" where
  "GetLastExecutionGroup E d jobName =
     (case GetGroupedExecutions E d jobName of
        Inl e \<Rightarrow> Inl e
      | Inr (executions, byGroup) \<Rightarrow>
          Inr (case byGroup of
                 [] \<Rightarrow> []
               | g # _ \<Rightarrow> (case map_of executions g of None \<Rightarrow> [] | Some xs \<Rightarrow> xs)))"

definition setExecutionTxFunc :: "'db env \<Rightarrow> string \<Rightarrow> pb_execution \<Rightarrow> 'db \<Rightarrow> err \<times> 'db" where
  "setExecutionTxFunc E key pbe tx =
     (let write = (case marshal_exec E pbe of
                     Inl e \<Rightarrow> (Some e, tx)
                   | Inr eb \<Rightarrow> (case db_set E tx key eb of
                                  Inl e \<Rightarrow> (Some e, tx) | Inr tx' \<Rightarrow> (None, tx')))
      in case db_get E tx key of
           Inl e \<Rightarrow> if e \<noteq> ErrNotFound then (Some e, tx) else write
         | Inr i \<Rightarrow>
             if i \<noteq> [] then
               (case unmarshal_exec E i of
                  Inl e \<Rightarrow> (Some e, tx)
                | Inr p \<Rightarrow>
                    (case (pe_FinishedAt p, pe_FinishedAt pbe) of
                       (Some old, Some new) \<Rightarrow>
                         if Seconds old > Seconds new then (None, tx) else write
                     | _ \<Rightarrow> (Some (Panic ''nil pointer dereference''), tx)))
             else write)"

text \<open>The deletion of the oldest executions, each in a transaction whose error is logged.\<close>

fun evict :: "'db env \<Rightarrow> 'db \<Rightarrow> execution list \<Rightarrow> 'db" where
  "evict E d [] = d"
| "evict E d (x # xs) =
     (case db_Update E d (\<lambda>tx. case db_delete E tx (exec_key x) of
                                 Inl e \<Rightarrow> (Some e, tx, ())
                               | Inr tx' \<Rightarrow> (None, tx', ())) of
        (_, d', _) \<Rightarrow> evict E d' xs)"

definition SetExecution :: "'db env \<Rightarrow> 'db \<Rightarrow> execution \<Rightarrow> string res \<times> 'db" where
  "SetExecution E d x =
     (let pbe = ex_ToProto E x;
          key = exec_key x
      in case db_Update E d (\<lambda>tx. case setExecutionTxFunc E key pbe tx of (e, tx') \<Rightarrow> (e, tx', ())) of
           (Some e, d1, _) \<Rightarrow> (Inl e, d1)
         | (None, d1, _) \<Rightarrow>
             (let execs = (case GetExecutions E d1 (ex_JobName x) of Inl _ \<Rightarrow> [] | Inr xs \<Rightarrow> xs)
              in if length execs > MaxExecutions then
                   (Inr key, evict E d1 (take (length execs - MaxExecutions) (sort_started E execs)))
                 else (Inr key, d1)))"

fun delete_keys :: "'db env \<Rightarrow> 'db \<Rightarrow> string list \<Rightarrow> 'db" where
  "delete_keys E tx [] = tx"
| "delete_keys E tx (k # ks) =
     delete_keys E (case db_delete E tx k of Inl _ \<Rightarrow> tx | Inr tx' \<Rightarrow> tx') ks"

definition deleteExecutionsTxFunc :: "'db env \<Rightarrow> string \<Rightarrow> 'db \<Rightarrow> 'db" where
  "deleteExecutionsTxFunc E jobName tx =
     delete_keys E tx
       (filter (\<lambda>key. HasPrefix key (executionsPrefix @ '':'' @ jobName)) (map fst (db_ascend E tx)))"

definition computeStatus :: "'db env \<Rightarrow> string \<Rightarrow> int \<Rightarrow> 'db \<Rightarrow> string res" where
  "computeStatus E jobName exGroup tx =
     (case unmarshalExecutions E (fst (listTxFunc E (exec_prefix jobName) tx)) of
        Inl e \<Rightarrow> Inl e
      | Inr execs \<Rightarrow>
          (let executions = filter (\<lambda>ex. ex_Group ex = exGroup) execs;
               success = length (filter ex_Success executions);
               failed = length (filter (\<lambda>ex. \<not> ex_Success ex) executions)
           in Inr (if failed = 0 then StatusSuccess
                   else if failed > 0 \<and> success = 0 then StatusFailed
                   else if failed > 0 \<and> success > 0 then StatusPartialyFailed
                   else [])))"

text \<open>The counters and times that a finished execution changes in the stored message.\<close>

definition count_done :: "pb_execution \<Rightarrow> pb_job \<Rightarrow> pb_job res" where
  "count_done pbe pbj =
     (if pe_Success pbe then
        (case pj_LastSuccess pbj of
           None \<Rightarrow> Inl (Panic ''nil pointer dereference'')
         | Some t \<Rightarrow> Inr (pbj\<lparr>
             pj_LastSuccess := Some (t\<lparr>pn_HasValue := True, pn_Time := pe_FinishedAt pbe\<rparr>),
             pj_SuccessCount := pj_SuccessCount pbj + 1\<rparr>))
      else
        (case pj_LastError pbj of
           None \<Rightarrow> Inl (Panic ''nil pointer dereference'')
         | Some t \<Rightarrow> Inr (pbj\<lparr>
             pj_LastError := Some (t\<lparr>pn_HasValue := True, pn_Time := pe_FinishedAt pbe\<rparr>),
             pj_ErrorCount := pj_ErrorCount pbj + 1\<rparr>)))"

definition SetExecutionDoneTx :: "'db env \<Rightarrow> execution \<Rightarrow> 'db \<Rightarrow> err \<times> 'db" where
  "SetExecutionDoneTx E x tx =
     (case getJobTxFunc E (ex_JobName x) tx of
        Inl e \<Rightarrow>
          if e = ErrNotFound then (Some ErrExecutionDoneForDeletedJob, tx)
          else (Some (Panic ''log.Fatal''), tx)
      | Inr pbj \<Rightarrow>
          (let pbe = ex_ToProto E x
           in case setExecutionTxFunc E (exec_key x) pbe tx of
                (Some e, tx1) \<Rightarrow> (Some e, tx1)
              | (None, tx1) \<Rightarrow>
                  (case count_done pbe pbj of
                     Inl e \<Rightarrow> (Some e, tx1)
                   | Inr pbj1 \<Rightarrow>
                       (case computeStatus E (pj_Name pbj1) (pe_Group pbe) tx1 of
                          Inl e \<Rightarrow> (Some e, tx1)
                        | Inr status \<Rightarrow> setJobTxFunc E (pbj1\<lparr>pj_Status := status\<rparr>) tx1))))"

definition SetExecutionDone :: "'db env \<Rightarrow> 'db \<Rightarrow> execution \<Rightarrow> bool \<times> err \<times> 'db" where
  "SetExecutionDone E d x =
     (case db_Update E d (\<lambda>tx. case SetExecutionDoneTx E x tx of (e, tx') \<Rightarrow> (e, tx', ())) of
        (Some e, d', _) \<Rightarrow> (False, Some e, d')
      | (None, d', _) \<Rightarrow> (True, None, d'))"

section \<open>Deletion\<close>

definition DeleteJobTx :: "'db env \<Rightarrow> string \<Rightarrow> 'db \<Rightarrow> err \<times> 'db \<times> job option" where
  "DeleteJobTx E name tx =
     (case getJobTxFunc E name tx of
        Inl e \<Rightarrow> (Some e, tx, None)
      | Inr pbj \<Rightarrow>
          if length (pj_DependentJobs pbj) > 0 then (Some ErrDependentJobs, tx, None)
          else (let j = NewJobFromProto E pbj;
                    tx1 = deleteExecutionsTxFunc E name tx
                in case db_delete E tx1 (job_key name) of
                     Inl e \<Rightarrow> (Some e, tx1, Some j)
                   | Inr tx2 \<Rightarrow> (None, tx2, Some j)))"

definition DeleteJob :: "'db env \<Rightarrow> 'db \<Rightarrow> string \<Rightarrow> job res \<times> 'db" where
  "DeleteJob E d name =
     (case db_Update E d (DeleteJobTx E name) of
        (Some e, d1, _) \<Rightarrow> (Inl e, d1)
      | (None, d1, None) \<Rightarrow> (Inl (Panic ''nil pointer dereference''), d1)
      | (None, d1, Some j) \<Rightarrow>
          if ParentJob j \<noteq> [] then
            (case removeFromParent (SetJob E) E d1 (Some j) of
               (Some e, d2) \<Rightarrow> (Inl e, d2)
             | (None, d2) \<Rightarrow> (Inr j, d2))
          else (Inr j, d1))"

section \<open>Backup\<close>

definition Snapshot :: "'db env \<Rightarrow> 'db \<Rightarrow> string res" where
  "Snapshot E d = db_save E d"

definition Restore :: "'db env \<Rightarrow> 'db \<Rightarrow> string \<Rightarrow> err \<times> 'db" where
  "Restore E d r = (case db_load E d r of Inl e \<Rightarrow> (Some e, d) | Inr d' \<Rightarrow> (None, d'))"

end
