(* ===== verification/Ref_Env.thy ===== *)
theory Ref_Env
  imports Env Gotime
begin

text \<open>
  A reference implementation of the libraries: an association list as the database, a
  length-prefixed text encoding of the messages, a cron parser that knows one interval. It
  computes, and its interpretation as a \<open>lawful_env\<close> shows that the laws can hold together;
  the concrete instances of the theorems are evaluated in it.
\<close>

section \<open>Encoders and their decoders\<close>

locale codec =
  fixes enc :: "'a \<Rightarrow> string" and dec :: "string \<Rightarrow> ('a \<times> string) option"
  assumes dec_enc: "dec (enc x @ r) = Some (x, r)"
begin

lemma enc_inj: "enc x = enc y \<longleftrightarrow> x = y"
  by (metis dec_enc option.inject prod.inject)

end

definition enc_nat :: "nat \<Rightarrow> string" where
  "enc_nat n = show_nat n @ ''.''"

definition dec_nat :: "string \<Rightarrow> (nat \<times> string) option" where
  "dec_nat s =
     (case read_nat (takeWhile (\<lambda>c. c \<noteq> CHR ''.'') s) of
        None \<Rightarrow> None
      | Some n \<Rightarrow> Some (n, drop 1 (dropWhile (\<lambda>c. c \<noteq> CHR ''.'') s)))"

definition dec_map :: "('a \<Rightarrow> 'b) \<Rightarrow> (string \<Rightarrow> ('a \<times> string) option) \<Rightarrow> string \<Rightarrow> ('b \<times> string) option" where
  "dec_map f d s = (case d s of None \<Rightarrow> None | Some (x, r) \<Rightarrow> Some (f x, r))"

definition enc_pair :: "('a \<Rightarrow> string) \<Rightarrow> ('b \<Rightarrow> string) \<Rightarrow> 'a \<times> 'b \<Rightarrow> string" where
  "enc_pair e1 e2 p = e1 (fst p) @ e2 (snd p)"

definition dec_pair :: "(string \<Rightarrow> ('a \<times> string) option) \<Rightarrow> (string \<Rightarrow> ('b \<times> string) option) \<Rightarrow>
    string \<Rightarrow> (('a \<times> 'b) \<times> string) option" where
  "dec_pair d1 d2 s =
     (case d1 s of
        None \<Rightarrow> None
      | Some (x, s1) \<Rightarrow> (case d2 s1 of None \<Rightarrow> None | Some (y, s2) \<Rightarrow> Some ((x, y), s2)))"

definition enc_bool :: "bool \<Rightarrow> string" where
  "enc_bool b = enc_nat (if b then 1 else 0)"

definition dec_bool :: "string \<Rightarrow> (bool \<times> string) option" where
  "dec_bool = dec_map (\<lambda>n. n = 1) dec_nat"

definition enc_str :: "string \<Rightarrow> string" where
  "enc_str s = enc_nat (length s) @ s"

definition dec_str :: "string \<Rightarrow> (string \<times> string) option" where
  "dec_str s = (case dec_nat s of None \<Rightarrow> None | Some (n, r) \<Rightarrow> Some (take n r, drop n r))"

primrec dec_rep :: "(string \<Rightarrow> ('a \<times> string) option) \<Rightarrow> nat \<Rightarrow> string \<Rightarrow> ('a list \<times> string) option" where
  "dec_rep d 0 = (\<lambda>s. Some ([], s))"
| "dec_rep d (Suc n) = dec_map (\<lambda>(x, xs). x # xs) (dec_pair d (dec_rep d n))"

definition enc_list :: "('a \<Rightarrow> string) \<Rightarrow> 'a list \<Rightarrow> string" where
  "enc_list e xs = enc_nat (length xs) @ concat (map e xs)"

definition dec_list :: "(string \<Rightarrow> ('a \<times> string) option) \<Rightarrow> string \<Rightarrow> ('a list \<times> string) option" where
  "dec_list d s = (case dec_nat s of None \<Rightarrow> None | Some (n, r) \<Rightarrow> dec_rep d n r)"

definition enc_opt :: "('a \<Rightarrow> string) \<Rightarrow> 'a option \<Rightarrow> string" where
  "enc_opt e x = enc_list e (case x of None \<Rightarrow> [] | Some y \<Rightarrow> [y])"

definition dec_opt :: "(string \<Rightarrow> ('a \<times> string) option) \<Rightarrow> string \<Rightarrow> ('a option \<times> string) option" where
  "dec_opt d = dec_map (\<lambda>xs. case xs of [] \<Rightarrow> None | y # _ \<Rightarrow> Some y) (dec_list d)"

text \<open>Integers are written in binary, so that timestamps stay cheap to evaluate.\<close>

function bits_of :: "int \<Rightarrow> bool list" where
  "bits_of i = (if i \<le> 0 then [] else odd i # bits_of (i div 2))"
  by pat_completeness auto
termination
  by (relation "measure nat") auto

declare bits_of.simps [simp del]

fun of_bits :: "bool list \<Rightarrow> int" where
  "of_bits [] = 0"
| "of_bits (b # bs) = (if b then 1 else 0) + 2 * of_bits bs"

definition enc_int :: "int \<Rightarrow> string" where
  "enc_int i = enc_pair enc_bool (enc_list enc_bool) (i < 0, bits_of \<bar>i\<bar>)"

definition dec_int :: "string \<Rightarrow> (int \<times> string) option" where
  "dec_int = dec_map (\<lambda>(neg, bs). if neg then - of_bits bs else of_bits bs)
     (dec_pair dec_bool (dec_list dec_bool))"

definition enc_word :: "32 word \<Rightarrow> string" where
  "enc_word w = enc_int (uint w)"

definition dec_word :: "string \<Rightarrow> (32 word \<times> string) option" where
  "dec_word = dec_map word_of_int dec_int"

lemma of_bits_bits_of: "0 \<le> i \<Longrightarrow> of_bits (bits_of i) = i"
proof (induction i rule: bits_of.induct)
  case (1 i)
  show ?case
  proof (cases "i = 0")
    case False
    then have "of_bits (bits_of i) = of_bool (odd i) + 2 * (i div 2)"
      using 1 by (subst bits_of.simps) (simp add: of_bool_def)
    moreover have "of_bool (odd i) + 2 * (i div 2) = i" by (cases "odd i"; simp; presburger)
    ultimately show ?thesis by simp
  qed (simp add: bits_of.simps)
qed

lemma show_nat_no_dot: "c \<in> set (show_nat n) \<Longrightarrow> c \<noteq> CHR ''.''"
proof
  assume "c \<in> set (show_nat n)" "c = CHR ''.''"
  then obtain d where "d < 10" "digit_char d = CHR ''.''" using show_nat_digits by metis
  then have "(of_char (digit_char d) :: nat) = of_char CHR ''.''" by simp
  with \<open>d < 10\<close> show False by (simp add: digit_char_def)
qed

lemma dec_enc_nat: "dec_nat (enc_nat n @ r) = Some (n, r)"
proof -
  have "takeWhile (\<lambda>c. c \<noteq> CHR ''.'') (show_nat n @ CHR ''.'' # r) = show_nat n"
    "dropWhile (\<lambda>c. c \<noteq> CHR ''.'') (show_nat n @ CHR ''.'' # r) = CHR ''.'' # r"
    using show_nat_no_dot [of _ n] by (simp_all add: takeWhile_append2 dropWhile_append2)
  then show ?thesis by (simp add: dec_nat_def enc_nat_def)
qed

interpretation nat_codec: codec enc_nat dec_nat
  by unfold_locales (rule dec_enc_nat)

lemma codec_map: "codec e d \<Longrightarrow> (\<And>x. f (g x) = x) \<Longrightarrow> codec (\<lambda>x. e (g x)) (dec_map f d)"
  by (simp add: codec_def dec_map_def)

lemma codec_pair: "codec e1 d1 \<Longrightarrow> codec e2 d2 \<Longrightarrow> codec (enc_pair e1 e2) (dec_pair d1 d2)"
  by (simp add: codec_def enc_pair_def dec_pair_def)

interpretation bool_codec: codec enc_bool dec_bool
  unfolding enc_bool_def dec_bool_def by (rule codec_map [OF nat_codec.codec_axioms]) simp

interpretation str_codec: codec enc_str dec_str
  by unfold_locales (simp add: enc_str_def dec_str_def nat_codec.dec_enc)

lemma dec_rep_concat:
  assumes "codec e d"
  shows "dec_rep d (length xs) (concat (map e xs) @ r) = Some (xs, r)"
  using assms by (induction xs) (simp_all add: dec_map_def dec_pair_def codec_def)

lemma codec_list: "codec e d \<Longrightarrow> codec (enc_list e) (dec_list d)"
  unfolding codec_def [of "enc_list e"]
  by (simp add: enc_list_def dec_list_def nat_codec.dec_enc dec_rep_concat)

lemma codec_opt: "codec e d \<Longrightarrow> codec (enc_opt e) (dec_opt d)"
  unfolding enc_opt_def [abs_def] dec_opt_def
  by (rule codec_map [OF codec_list]) (simp_all split: option.splits)

interpretation int_codec: codec enc_int dec_int
  unfolding enc_int_def dec_int_def
  by (rule codec_map [OF codec_pair [OF bool_codec.codec_axioms codec_list [OF bool_codec.codec_axioms]]])
    (simp add: of_bits_bits_of)

interpretation word_codec: codec enc_word dec_word
  unfolding enc_word_def dec_word_def by (rule codec_map [OF int_codec.codec_axioms]) simp

lemmas codec_rules = codec_pair codec_list codec_opt nat_codec.codec_axioms int_codec.codec_axioms
  bool_codec.codec_axioms word_codec.codec_axioms str_codec.codec_axioms


section \<open>Messages\<close>

definition enc_map :: "('v \<Rightarrow> string) \<Rightarrow> 'v gomap \<Rightarrow> string" where
  "enc_map e = enc_list (enc_pair enc_str e)"

definition dec_gomap :: "(string \<Rightarrow> ('v \<times> string) option) \<Rightarrow> string \<Rightarrow> ('v gomap \<times> string) option" where
  "dec_gomap d = dec_list (dec_pair dec_str d)"

definition enc_ts :: "pb_timestamp \<Rightarrow> string" where
  "enc_ts t = enc_pair enc_int enc_int (Seconds t, Nanos t)"

definition dec_ts :: "string \<Rightarrow> (pb_timestamp \<times> string) option" where
  "dec_ts = dec_map (\<lambda>(s, n). \<lparr>Seconds = s, Nanos = n\<rparr>) (dec_pair dec_int dec_int)"

definition enc_nt :: "pb_nullable_time \<Rightarrow> string" where
  "enc_nt t = enc_pair enc_bool (enc_opt enc_ts) (pn_HasValue t, pn_Time t)"

definition dec_nt :: "string \<Rightarrow> (pb_nullable_time \<times> string) option" where
  "dec_nt = dec_map (\<lambda>(h, t). \<lparr>pn_HasValue = h, pn_Time = t\<rparr>) (dec_pair dec_bool (dec_opt dec_ts))"

definition enc_pc :: "pb_plugin_config \<Rightarrow> string" where
  "enc_pc c = enc_map enc_str (pc_Config c)"

definition dec_pc :: "string \<Rightarrow> (pb_plugin_config \<times> string) option" where
  "dec_pc = dec_map (\<lambda>c. \<lparr>pc_Config = c\<rparr>) (dec_gomap dec_str)"

text \<open>The fields of a job, grouped by type.\<close>

definition enc_job :: "pb_job \<Rightarrow> string" where
  "enc_job j =
     enc_pair (enc_list enc_str)
      (enc_pair (enc_list (enc_map enc_str)) (enc_pair (enc_list enc_word)
        (enc_pair enc_bool (enc_pair (enc_list enc_str) (enc_pair (enc_list (enc_opt enc_nt))
          (enc_pair (enc_opt enc_ts) (enc_map enc_pc)))))))
       ([pj_Name j, pj_Timezone j, pj_Schedule j, pj_Owner j, pj_OwnerEmail j, pj_ParentJob j,
         pj_Concurrency j, pj_Executor j, pj_Status j, pj_Displayname j],
        [pj_Tags j, pj_ExecutorConfig j, pj_Metadata j],
        [pj_SuccessCount j, pj_ErrorCount j, pj_Retries j],
        pj_Disabled j, pj_DependentJobs j, [pj_LastSuccess j, pj_LastError j],
        pj_Next j, pj_Processors j)"

definition job_of_fields where
  "job_of_fields x =
     (case x of (ss, ms, ws, dis, deps, nts, nxt, procs) \<Rightarrow>
       \<lparr>pj_Name = ss ! 0, pj_Timezone = ss ! 1, pj_Schedule = ss ! 2, pj_Owner = ss ! 3,
        pj_OwnerEmail = ss ! 4, pj_SuccessCount = ws ! 0, pj_ErrorCount = ws ! 1,
        pj_Disabled = dis, pj_Tags = ms ! 0, pj_Retries = ws ! 2, pj_DependentJobs = deps,
        pj_ParentJob = ss ! 5, pj_Concurrency = ss ! 6, pj_Executor = ss ! 7,
        pj_ExecutorConfig = ms ! 1, pj_Status = ss ! 8, pj_Metadata = ms ! 2,
        pj_LastSuccess = nts ! 0, pj_LastError = nts ! 1, pj_Next = nxt,
        pj_Displayname = ss ! 9, pj_Processors = procs\<rparr>)"

definition dec_job :: "string \<Rightarrow> (pb_job \<times> string) option" where
  "dec_job = dec_map job_of_fields
     (dec_pair (dec_list dec_str)
      (dec_pair (dec_list (dec_gomap dec_str)) (dec_pair (dec_list dec_word)
        (dec_pair dec_bool (dec_pair (dec_list dec_str) (dec_pair (dec_list (dec_opt dec_nt))
          (dec_pair (dec_opt dec_ts) (dec_gomap dec_pc))))))))"

definition enc_exec :: "pb_execution \<Rightarrow> string" where
  "enc_exec e =
     enc_pair (enc_list enc_str) (enc_pair enc_bool (enc_pair enc_int (enc_pair enc_word
       (enc_pair (enc_opt enc_ts) (enc_opt enc_ts)))))
      ([pe_JobName e, pe_Output e, pe_NodeName e], pe_Success e, pe_Group e, pe_Attempt e,
       pe_StartedAt e, pe_FinishedAt e)"

definition dec_exec :: "string \<Rightarrow> (pb_execution \<times> string) option" where
  "dec_exec = dec_map (\<lambda>(ss, ok, grp, att, st, fin).
       \<lparr>pe_JobName = ss ! 0, pe_Success = ok, pe_Output = ss ! 1, pe_NodeName = ss ! 2,
        pe_Group = grp, pe_Attempt = att, pe_StartedAt = st, pe_FinishedAt = fin\<rparr>)
     (dec_pair (dec_list dec_str) (dec_pair dec_bool (dec_pair dec_int (dec_pair dec_word
       (dec_pair (dec_opt dec_ts) (dec_opt dec_ts))))))"

lemma codec_gomap: "codec e d \<Longrightarrow> codec (enc_map e) (dec_gomap d)"
  unfolding enc_map_def dec_gomap_def by (intro codec_rules)

lemma codec_ts: "codec enc_ts dec_ts"
  unfolding enc_ts_def [abs_def] dec_ts_def by (rule codec_map) (intro codec_rules, simp)

lemma codec_nt: "codec enc_nt dec_nt"
  unfolding enc_nt_def [abs_def] dec_nt_def
  by (rule codec_map) (intro codec_rules codec_ts, simp)

lemma codec_pc: "codec enc_pc dec_pc"
  unfolding enc_pc_def [abs_def] dec_pc_def
  by (rule codec_map) (intro codec_gomap codec_rules, simp)

interpretation job_codec: codec enc_job dec_job
  unfolding enc_job_def [abs_def] dec_job_def
  by (rule codec_map) (intro codec_gomap codec_rules codec_nt codec_ts codec_pc,
    simp add: job_of_fields_def)

interpretation exec_codec: codec enc_exec dec_exec
  unfolding enc_exec_def [abs_def] dec_exec_def
  by (rule codec_map) (intro codec_rules codec_ts, simp)


section \<open>The environment\<close>

type_synonym ref_db = "(string \<times> string) list"

definition ref_ascend :: "ref_db \<Rightarrow> (string \<times> string) list" where
  "ref_ascend d = map (\<lambda>k. (k, the (map_of d k))) (sort (remdups (map fst d)))"

definition of_dec :: "('a \<times> string) option \<Rightarrow> 'a res" where
  "of_dec r = (case r of None \<Rightarrow> Inl (LibError ''proto: cannot parse'') | Some (x, _) \<Rightarrow> Inr x)"

definition ref_ts_proto :: "time \<Rightarrow> pb_timestamp option" where
  "ref_ts_proto t =
     (if time_ok t then Some \<lparr>Seconds = t div 1000000000, Nanos = t mod 1000000000\<rparr> else None)"

definition ref_ts_of :: "pb_timestamp option \<Rightarrow> time" where
  "ref_ts_of p = (case p of None \<Rightarrow> 0 | Some s \<Rightarrow> Seconds s * 1000000000 + Nanos s)"

definition ref_cron_parse :: "string \<Rightarrow> (time \<Rightarrow> time) res" where
  "ref_cron_parse spec =
     (if spec = ''@every 1m'' then Inr (\<lambda>t. t + 60000000000)
      else Inl (LibError ''failed to parse''))"

text \<open>\<open>ref_env t\<close> is the reference environment at the time \<open>t\<close>.\<close>

definition ref_env :: "time \<Rightarrow> ref_db env" where
  "ref_env t = \<lparr>
     db_get = (\<lambda>d k. case map_of d k of None \<Rightarrow> Inl ErrNotFound | Some v \<Rightarrow> Inr v),
     db_set = (\<lambda>d k v. Inr ((k, v) # filter (\<lambda>p. fst p \<noteq> k) d)),
     db_delete = (\<lambda>d k. case map_of d k of
                     None \<Rightarrow> Inl ErrNotFound | Some v \<Rightarrow> Inr (filter (\<lambda>p. fst p \<noteq> k) d)),
     db_ascend = ref_ascend,
     db_commit = (\<lambda>d tx. tx), db_rollback = (\<lambda>d tx. d),
     db_save = (\<lambda>d. Inr (enc_map enc_str d)),
     db_load = (\<lambda>d s. case of_dec (dec_gomap dec_str s) of Inl e \<Rightarrow> Inl e | Inr d' \<Rightarrow> Inr (d' @ d)),
     marshal_job = (\<lambda>j. Inr (enc_job j)), unmarshal_job = (\<lambda>s. of_dec (dec_job s)),
     marshal_exec = (\<lambda>x. Inr (enc_exec x)),
     unmarshal_exec = (\<lambda>s. if s = [] then Inr pb_execution_zero else of_dec (dec_exec s)),
     marshal_djr = (\<lambda>r. Inr (djr_JobName r)), unmarshal_djr = (\<lambda>s. Inr \<lparr>djr_JobName = s\<rparr>),
     marshal_edr = (\<lambda>q. Inr (enc_opt enc_exec (edr_Execution q))),
     unmarshal_edr = (\<lambda>s. case of_dec (dec_opt dec_exec s) of
                         Inl e \<Rightarrow> Inl e | Inr x \<Rightarrow> Inr \<lparr>edr_Execution = x\<rparr>),
     ts_of = ref_ts_of, ts_proto = ref_ts_proto, cron_parse = ref_cron_parse, now = t,
     load_location = (\<lambda>s. if s = [] \<or> s = ''UTC'' then None else Some (LibError ''unknown time zone'')),
     is_Ll = (\<lambda>c. 97 \<le> c \<and> c \<le> 122),
     sort_started = sort_key ex_StartedAt\<rparr>"

lemma map_of_map_the:
  "map_of (map (\<lambda>k. (k, the (map_of d k))) ks) k = (if k \<in> set ks then Some (the (map_of d k)) else None)"
  by (induction ks) auto

lemma map_of_ref_ascend: "map_of (ref_ascend d) = map_of d"
proof
  fix k
  show "map_of (ref_ascend d) k = map_of d k"
  proof (cases "k \<in> fst ` set d")
    case True
    then have "map_of d k \<noteq> None" by (simp add: map_of_eq_None_iff)
    with True show ?thesis by (auto simp: ref_ascend_def map_of_map_the)
  next
    case False
    then have "map_of d k = None" by (simp add: map_of_eq_None_iff)
    with False show ?thesis by (simp add: ref_ascend_def map_of_map_the)
  qed
qed

lemma map_of_filter_fst: "map_of (filter (\<lambda>p. fst p \<noteq> k) d) = (map_of d)(k := None)"
  by (induction d) (auto simp: fun_eq_iff)

lemma of_dec_enc: "codec e d \<Longrightarrow> of_dec (d (e x)) = Inr x"
  using codec.dec_enc [of e d x "[]"] by (simp add: of_dec_def)

lemma enc_exec_not_Nil: "enc_exec x \<noteq> []"
  by (simp add: enc_exec_def enc_pair_def enc_list_def enc_nat_def)

lemma ref_buntdb: "buntdb (ref_env t)"
proof
  show "sorted_wrt (<) (map fst (db_ascend (ref_env t) d))" for d
    by (simp add: ref_env_def ref_ascend_def comp_def strict_sorted_iff)
  show "\<exists>d'. db_load (ref_env t) d0 s = Inr d' \<and>
      map_of (db_ascend (ref_env t) d') = map_of (db_ascend (ref_env t) d0) ++ map_of (db_ascend (ref_env t) d)"
    if "db_save (ref_env t) d = Inr s" for d d0 s
    using that of_dec_enc [OF codec_gomap [OF str_codec.codec_axioms], of d]
    by (auto simp: ref_env_def map_of_ref_ascend)
qed (auto simp: ref_env_def map_of_ref_ascend map_of_filter_fst)

lemma ref_pb_codec: "pb_codec (ref_env t)"
proof
  show "unmarshal_edr (ref_env t) b = Inr q" if "marshal_edr (ref_env t) q = Inr b" for q b
    using that of_dec_enc [OF codec_opt [OF exec_codec.codec_axioms], of "edr_Execution q"]
    by (auto simp: ref_env_def)
qed (auto simp: ref_env_def of_dec_enc [OF job_codec.codec_axioms] of_dec_enc [OF exec_codec.codec_axioms]
    enc_exec_not_Nil ref_ts_of_def ref_ts_proto_def split: if_splits)

interpretation ref: lawful_env "ref_env t" for t
  by (intro lawful_env.intro ref_buntdb ref_pb_codec lawful_env_axioms.intro)
    (auto simp: ref_env_def)


section \<open>Sample data\<close>

text \<open>October 9, 2020, about 07:00 UTC.\<close>

definition sample_now :: time where
  "sample_now = 1602226800000000000"

definition sample_job :: "string \<Rightarrow> string \<Rightarrow> string \<Rightarrow> job" where
  "sample_job name schedule parent =
     \<lparr>Name = name, DisplayName = [], Timezone = [], Schedule = schedule, Owner = [],
      OwnerEmail = [], SuccessCount = 0, ErrorCount = 0,
      LastSuccess = \<lparr>hasValue = False, nt_time = zero_time\<rparr>,
      LastError = \<lparr>hasValue = False, nt_time = zero_time\<rparr>,
      Disabled = False, Tags = [], Metadata = [], Retries = 0, DependentJobs = [],
      ParentJob = parent, Processors = [], Concurrency = ''allow'', Executor = ''shell'',
      ExecutorConfig = [(''command'', ''date'')], Status = [], Next = zero_time\<rparr>"

definition sample_exec :: "string \<Rightarrow> string \<Rightarrow> int \<Rightarrow> bool \<Rightarrow> execution" where
  "sample_exec name node i ok =
     \<lparr>ex_JobName = name, ex_StartedAt = sample_now + i * 1000000000,
      ex_FinishedAt = sample_now + (i + 1) * 1000000000, ex_Success = ok, ex_Output = ''out'',
      ex_NodeName = node, ex_Group = i, ex_Attempt = 1\<rparr>"

end
