(* ===== verification/Store_Jobs.thy ===== *)
theory Store_Jobs
  imports Store Ref_Env
begin

text \<open>
  The jobs of the store. The database is abstracted to the map from names to jobs it holds
  (\<open>jobs_of\<close>); \<open>spec_SetJob\<close> and \<open>spec_DeleteJob\<close> say what the operations do to that map,
  and the refinement lemmas show that the model of \<open>store.go\<close> does it, error cases
  included. On the abstract level a parent and its dependent jobs refer to each other
  (\<open>family\<close>), which the operations keep.
\<close>

section \<open>The contents of a database\<close>

definition kv :: "'db env \<Rightarrow> 'db \<Rightarrow> string \<Rightarrow> string option" where
  "kv E d = map_of (db_ascend E d)"

text \<open>The jobs a store may hold: valid, and unchanged by a trip through protobuf.\<close>

definition job_ok :: "'db env \<Rightarrow> job \<Rightarrow> bool" where
  "job_ok E j \<longleftrightarrow> Validate E j = None \<and> representable E j \<and> pb_job_utf8 (ToProto E j)"

definition jobs_ok :: "'db env \<Rightarrow> 'db \<Rightarrow> bool" where
  "jobs_ok E d \<longleftrightarrow>
     (\<forall>n b. kv E d (job_key n) = Some b \<longrightarrow>
        (\<exists>j. unmarshal_job E b = Inr (ToProto E j) \<and> Name j = n \<and> job_ok E j))"

definition jobs_of :: "'db env \<Rightarrow> 'db \<Rightarrow> string \<Rightarrow> job option" where
  "jobs_of E d n =
     (case kv E d (job_key n) of
        None \<Rightarrow> None
      | Some b \<Rightarrow> (case unmarshal_job E b of
                     Inl _ \<Rightarrow> None | Inr p \<Rightarrow> Some (NewJobFromProto E p)))"

text \<open>Two databases that differ in their jobs only.\<close>

definition same_rest :: "'db env \<Rightarrow> 'db \<Rightarrow> 'db \<Rightarrow> bool" where
  "same_rest E d d' \<longleftrightarrow> (\<forall>k. \<not> HasPrefix k (job_key []) \<longrightarrow> kv E d' k = kv E d k)"

lemma same_rest_refl [simp]: "same_rest E d d"
  by (simp add: same_rest_def)

lemma same_rest_trans: "same_rest E a b \<Longrightarrow> same_rest E b c \<Longrightarrow> same_rest E a c"
  by (simp add: same_rest_def)

lemma job_key_inj [simp]: "job_key m = job_key n \<longleftrightarrow> m = n"
  by (simp add: job_key_def)

lemma HasPrefix_job_key: "HasPrefix (job_key n) (job_key [])"
  by (simp add: job_key_def jobsPrefix_def)

section \<open>Representable jobs, field by field\<close>

lemma representable_iff:
  "representable E j \<longleftrightarrow>
     scast (ucast (SuccessCount j) :: 32 word) = SuccessCount j \<and>
     scast (ucast (ErrorCount j) :: 32 word) = ErrorCount j \<and>
     ucast (ucast (Retries j) :: 32 word) = Retries j \<and>
     nt_FromProto E (Some (nt_ToProto E (LastSuccess j))) = LastSuccess j \<and>
     nt_FromProto E (Some (nt_ToProto E (LastError j))) = LastError j \<and>
     ts_of E (ts_proto E (Next j)) = Next j"
  by (cases j) (auto simp: representable_def NewJobFromProto_def ToProto_def Let_def map_config_id
      simp del: map_map)

lemma ToProto_simps [simp]:
  "pj_Name (ToProto E j) = Name j" "pj_DependentJobs (ToProto E j) = DependentJobs j"
  "pj_ParentJob (ToProto E j) = ParentJob j" "pj_Schedule (ToProto E j) = Schedule j"
  "pj_Status (ToProto E j) = Status j"
  by (simp_all add: ToProto_def Let_def)

definition proc_strings :: "string gomap gomap \<Rightarrow> string list" where
  "proc_strings ps = concat (map (\<lambda>(k, c). k # map_strings c) ps)"

lemma pb_job_utf8_ToProto:
  "pb_job_utf8 (ToProto E j) \<longleftrightarrow>
     list_all valid_utf8 [Name j, Timezone j, Schedule j, Owner j, OwnerEmail j, ParentJob j,
        Concurrency j, Executor j, Status j, DisplayName j] \<and>
     list_all valid_utf8 (DependentJobs j) \<and> list_all valid_utf8 (map_strings (Tags j)) \<and>
     list_all valid_utf8 (map_strings (ExecutorConfig j)) \<and>
     list_all valid_utf8 (map_strings (Metadata j)) \<and>
     list_all valid_utf8 (proc_strings (Processors j))"
proof -
  have "concat (map (\<lambda>(k, c). k # map_strings (pc_Config c))
          (map (\<lambda>(k, v). (k, \<lparr>pc_Config = v\<rparr>)) ps)) = proc_strings ps" for ps
    unfolding proc_strings_def by (induction ps) auto
  then show ?thesis
    by (simp add: pb_job_utf8_def pb_job_strings_def ToProto_def Let_def ball_Un
        flip: list_all_iff del: map_map)
qed

text \<open>\<open>Validate\<close> reads five fields only.\<close>

lemma Validate_cong:
  assumes "Name i = Name j" "ParentJob i = ParentJob j" "Schedule i = Schedule j"
    "Concurrency i = Concurrency j" "Timezone i = Timezone j"
  shows "Validate E i = Validate E j"
  unfolding Validate_def assms ..

lemma job_ok_DependentJobs:
  assumes "job_ok E j" "list_all valid_utf8 ds"
  shows "job_ok E (j\<lparr>DependentJobs := ds\<rparr>)"
proof -
  have "Validate E (j\<lparr>DependentJobs := ds\<rparr>) = Validate E j"
    by (rule Validate_cong) simp_all
  with assms show ?thesis
    by (auto simp: job_ok_def representable_iff pb_job_utf8_ToProto)
qed

section \<open>What SetJob keeps of the stored job\<close>

lemma keep_stored_fields [simp]:
  "Name (keep_stored ej j c) = Name j" "ParentJob (keep_stored ej j c) = ParentJob j"
  "Schedule (keep_stored ej j c) = Schedule j" "Concurrency (keep_stored ej j c) = Concurrency j"
  "Timezone (keep_stored ej j c) = Timezone j" "Next (keep_stored ej j c) = Next j"
  by (simp_all add: keep_stored_def Let_def)

lemma keep_stored_DependentJobs:
  "DependentJobs (keep_stored ej j c) =
     (if Name ej \<noteq> [] \<and> DependentJobs ej \<noteq> [] \<and> c then DependentJobs ej else DependentJobs j)"
  by (simp add: keep_stored_def Let_def)

lemma keep_stored_choice:
  "Status (keep_stored ej j c) \<in> {Status ej, Status j}"
  "LastSuccess (keep_stored ej j c) \<in> {LastSuccess ej, LastSuccess j}"
  "LastError (keep_stored ej j c) \<in> {LastError ej, LastError j}"
  "SuccessCount (keep_stored ej j c) \<in> {SuccessCount ej, SuccessCount j}"
  "ErrorCount (keep_stored ej j c) \<in> {ErrorCount ej, ErrorCount j}"
  "DependentJobs (keep_stored ej j c) \<in> {DependentJobs ej, DependentJobs j}"
  by (simp_all add: keep_stored_def Let_def)

lemma keep_stored_frame [simp]:
  "Retries (keep_stored ej j c) = Retries j" "Tags (keep_stored ej j c) = Tags j"
  "Metadata (keep_stored ej j c) = Metadata j" "Owner (keep_stored ej j c) = Owner j"
  "OwnerEmail (keep_stored ej j c) = OwnerEmail j" "Executor (keep_stored ej j c) = Executor j"
  "ExecutorConfig (keep_stored ej j c) = ExecutorConfig j"
  "DisplayName (keep_stored ej j c) = DisplayName j"
  "Processors (keep_stored ej j c) = Processors j" "Disabled (keep_stored ej j c) = Disabled j"
  by (simp_all add: keep_stored_def Let_def)

lemma keep_stored_self:
  "keep_stored j (j\<lparr>DependentJobs := ds\<rparr>) False = j\<lparr>DependentJobs := ds\<rparr>"
  by (simp add: keep_stored_def Let_def)

lemma next_run_InrD:
  assumes "next_run E ej j = Inr j'"
  shows "j' = j\<lparr>Next := Next j'\<rparr>"
    and "Schedule j = Schedule ej \<Longrightarrow> Next j' = max (Next j) (Next ej)"
    and "Schedule j \<noteq> Schedule ej \<Longrightarrow> GetNext E j = Inr (Next j')"
  using assms by (auto simp: next_run_def split: if_splits sum.splits)

text \<open>The job found before, as the code reads it when there is none.\<close>

definition zero_job :: "'db env \<Rightarrow> job" where
  "zero_job E = NewJobFromProto E pb_job_zero"

definition found_job :: "'db env \<Rightarrow> job option \<Rightarrow> job" where
  "found_job E ejo = (case ejo of None \<Rightarrow> zero_job E | Some ej \<Rightarrow> ej)"

definition stored_job :: "'db env \<Rightarrow> job option \<Rightarrow> job \<Rightarrow> bool \<Rightarrow> job res" where
  "stored_job E ejo j c = next_run E (found_job E ejo) (keep_stored (found_job E ejo) j c)"

lemma zero_job_simps [simp]:
  "Name (zero_job E) = []" "ParentJob (zero_job E) = []" "Schedule (zero_job E) = []"
  "Next (zero_job E) = ts_of E None" "DependentJobs (zero_job E) = []"
  by (simp_all add: zero_job_def NewJobFromProto_def pb_job_zero_def Let_def)

text \<open>A job that may be stored once it is valid, and whose next run has a timestamp.\<close>

definition next_ok :: "'db env \<Rightarrow> job \<Rightarrow> bool" where
  "next_ok E j \<longleftrightarrow> (\<forall>n. GetNext E j = Inr n \<longrightarrow> time_ok n)"

lemma GetNext_cong: "Schedule i = Schedule j \<Longrightarrow> GetNext E i = GetNext E j"
  by (simp add: GetNext_def)

lemma stored_job_fields:
  assumes "stored_job E ejo j c = Inr j'"
  shows "Name j' = Name j" "ParentJob j' = ParentJob j"
    "DependentJobs j' = (case ejo of None \<Rightarrow> DependentJobs j
       | Some ej \<Rightarrow> if Name ej \<noteq> [] \<and> DependentJobs ej \<noteq> [] \<and> c
                   then DependentJobs ej else DependentJobs j)"
proof -
  have *: "j' = (keep_stored (found_job E ejo) j c)\<lparr>Next := Next j'\<rparr>"
    using next_run_InrD(1) assms by (simp add: stored_job_def)
  show "Name j' = Name j" "ParentJob j' = ParentJob j"
    "DependentJobs j' = (case ejo of None \<Rightarrow> DependentJobs j
       | Some ej \<Rightarrow> if Name ej \<noteq> [] \<and> DependentJobs ej \<noteq> [] \<and> c
                   then DependentJobs ej else DependentJobs j)"
    by (subst *, simp add: keep_stored_DependentJobs found_job_def split: option.splits)+
qed

lemma stored_job_self:
  "stored_job E (Some j) (j\<lparr>DependentJobs := ds\<rparr>) False = Inr (j\<lparr>DependentJobs := ds\<rparr>)"
  by (simp add: stored_job_def found_job_def keep_stored_self next_run_def)

section \<open>Refinement: setting a job\<close>

declare SetJob_n.simps(2) [simp del]

context lawful_env
begin

lemma get_kv: "db_get E d k = (case kv E d k of None \<Rightarrow> Inl ErrNotFound | Some v \<Rightarrow> Inr v)"
  by (simp add: get_law kv_def)

lemma set_kv: "\<exists>d'. db_set E d k v = Inr d' \<and> kv E d' = (kv E d)(k \<mapsto> v)"
  using set_law by (simp add: kv_def)

lemma db_Update_eq:
  "db_Update E d f =
     (case f d of (None, tx, r) \<Rightarrow> (None, tx, r) | (Some e, tx, r) \<Rightarrow> (Some e, d, r))"
  by (simp add: db_Update_def commit_law rollback_law split: option.splits prod.splits)

lemma job_ok_utf8_name: "job_ok E j \<Longrightarrow> valid_utf8 (Name j)"
  by (simp add: job_ok_def pb_job_utf8_ToProto)

lemma jobs_of_cases:
  assumes "jobs_ok E d"
  obtains (None) "jobs_of E d n = None" "getJobTxFunc E n d = Inl ErrNotFound"
  | (Some) j where "jobs_of E d n = Some j" "getJobTxFunc E n d = Inr (ToProto E j)"
      "NewJobFromProto E (ToProto E j) = j" "Name j = n" "job_ok E j"
proof (cases "kv E d (job_key n)")
  case None
  then show ?thesis
    by (intro that(1)) (simp_all add: jobs_of_def getJobTxFunc_def get_kv)
next
  case (Some b)
  with assms obtain j where j: "unmarshal_job E b = Inr (ToProto E j)" "Name j = n" "job_ok E j"
    by (auto simp: jobs_ok_def)
  moreover from j(3) have "NewJobFromProto E (ToProto E j) = j"
    by (simp add: job_ok_def representable_def)
  ultimately show ?thesis using Some
    by (intro that(2) [of j]) (simp_all add: jobs_of_def getJobTxFunc_def get_kv)
qed

lemma jobs_of_SomeD:
  assumes "jobs_ok E d" "jobs_of E d n = Some j"
  shows "Name j = n" "job_ok E j"
  using assms by (cases rule: jobs_of_cases [of d n]; simp)+

lemma GetJob_eq:
  assumes "jobs_ok E d"
  shows "GetJob E d n = (case jobs_of E d n of None \<Rightarrow> Inl ErrNotFound | Some j \<Rightarrow> Inr j)"
  using assms by (cases rule: jobs_of_cases [of d n]) (simp_all add: GetJob_def)

lemma GetParent_eq:
  assumes "jobs_ok E d" "Name j \<noteq> ParentJob j" "ParentJob j \<noteq> []"
  shows "GetParent E d j =
    (case jobs_of E d (ParentJob j) of None \<Rightarrow> Inl ErrParentJobNotFound | Some p \<Rightarrow> Inr p)"
  using assms by (simp add: GetParent_def GetJob_eq split: option.splits)

text \<open>Writing a job: the map of jobs is updated, and nothing else changes.\<close>

lemma setJobTxFunc_ok:
  assumes "jobs_ok E d" "job_ok E j"
  obtains d' where "setJobTxFunc E (ToProto E j) d = (None, d')" "jobs_ok E d'"
    "jobs_of E d' = (jobs_of E d)(Name j \<mapsto> j)" "same_rest E d d'"
proof -
  from assms(2) obtain b where b: "marshal_job E (ToProto E j) = Inr b"
    using job_marshal by (auto simp: job_ok_def)
  then have ub: "unmarshal_job E b = Inr (ToProto E j)" by (rule job_roundtrip)
  obtain d' where d': "db_set E d (job_key (Name j)) b = Inr d'"
    and kv': "kv E d' = (kv E d)(job_key (Name j) \<mapsto> b)"
    using set_kv by blast
  show ?thesis
  proof (rule that)
    show "setJobTxFunc E (ToProto E j) d = (None, d')"
      by (simp add: setJobTxFunc_def b d')
    show "jobs_ok E d'"
      using assms ub by (auto simp: jobs_ok_def kv')
    show "jobs_of E d' = (jobs_of E d)(Name j \<mapsto> j)"
      using assms(2) ub by (auto simp: jobs_of_def kv' job_ok_def representable_def)
    show "same_rest E d d'"
      using HasPrefix_job_key by (auto simp: same_rest_def kv')
  qed
qed

lemma SetJobTx_eq:
  assumes "jobs_ok E d"
  shows "SetJobTx E j c d =
    (case stored_job E (jobs_of E d (Name j)) j c of
       Inl e \<Rightarrow> (Some e, d, j, found_job E (jobs_of E d (Name j)))
     | Inr j' \<Rightarrow> (None, snd (setJobTxFunc E (ToProto E j') d), j',
                  found_job E (jobs_of E d (Name j))))"
  using assms
  by (cases rule: jobs_of_cases [of d "Name j"])
    (simp_all add: SetJobTx_def stored_job_def found_job_def zero_job_def Let_def split: sum.splits)

lemma stored_job_ok:
  assumes "representable E j" "pb_job_utf8 (ToProto E j)" "Validate E j = None" "next_ok E j"
    and ej: "\<And>ej. ejo = Some ej \<Longrightarrow> job_ok E ej"
    and st: "stored_job E ejo j c = Inr j'"
  shows "job_ok E j'"
proof -
  let ?ej = "found_job E ejo" and ?k = "keep_stored (found_job E ejo) j c"
  have zero: "representable E (zero_job E)" "pb_job_utf8 (ToProto E (zero_job E))"
    using ts_of_proto [OF ts_nil]
    by (simp_all add: representable_iff pb_job_utf8_ToProto zero_job_def NewJobFromProto_def
        pb_job_zero_def nt_FromProto_def nt_ToProto_def nt_unset_def HasValue_def
        map_strings_def proc_strings_def)
  have rep: "representable E ?ej" "pb_job_utf8 (ToProto E ?ej)"
    using zero ej by (auto simp: found_job_def job_ok_def split: option.splits)
  have nr: "next_run E ?ej ?k = Inr j'" using st by (simp add: stored_job_def)
  note j' = next_run_InrD(1) [OF nr]
  have "Validate E j' = Validate E j"
    by (rule Validate_cong) (subst j', simp)+
  moreover have "ts_of E (ts_proto E (Next j')) = Next j'"
  proof (cases "Schedule j = Schedule ?ej")
    case True
    then have "Next j' \<in> {Next j, Next ?ej}"
      using next_run_InrD(2) [OF nr] by (auto simp: max_def)
    with assms(1) rep(1) show ?thesis by (auto simp: representable_iff)
  next
    case False
    then have "GetNext E j = Inr (Next j')"
      using next_run_InrD(3) [OF nr] GetNext_cong [of ?k j E] by simp
    with assms(4) show ?thesis by (simp add: next_ok_def ts_of_proto)
  qed
  moreover have "representable E (j'\<lparr>Next := Next j\<rparr>)"
    using assms(1) rep(1) keep_stored_choice(2-5) [of ?ej j c]
    by (subst j') (auto simp: representable_iff)
  moreover have "pb_job_utf8 (ToProto E j')"
    using assms(2) rep(2) keep_stored_choice(1,6) [of ?ej j c]
    by (subst j') (auto simp: pb_job_utf8_ToProto)
  ultimately show ?thesis
    using assms(3) by (simp add: job_ok_def representable_iff)
qed

end

text \<open>The dependent jobs of a name, in the map of jobs.\<close>

definition deps_of :: "(string \<Rightarrow> job option) \<Rightarrow> string \<Rightarrow> string list" where
  "deps_of J n = (case J n of None \<Rightarrow> [] | Some j \<Rightarrow> DependentJobs j)"

text \<open>
  The abstract operation. \<open>relink J p f\<close> changes the list of dependent jobs of the job \<open>p\<close>;
  it fails if \<open>p\<close> is missing, or has a parent that is missing.
\<close>

definition relink ::
    "(string \<Rightarrow> job option) \<Rightarrow> string \<Rightarrow> (string list \<Rightarrow> string list) \<Rightarrow> err \<times> (string \<Rightarrow> job option)" where
  "relink J p f =
     (if p = [] then (None, J)
      else case J p of
        None \<Rightarrow> (Some ErrParentJobNotFound, J)
      | Some P \<Rightarrow>
          if ParentJob P \<noteq> [] \<and> J (ParentJob P) = None then (Some ErrParentJobNotFound, J)
          else (None, J(p \<mapsto> P\<lparr>DependentJobs := f (DependentJobs P)\<rparr>)))"

definition spec_SetJob ::
    "'db env \<Rightarrow> (string \<Rightarrow> job option) \<Rightarrow> job \<Rightarrow> bool \<Rightarrow> err \<times> (string \<Rightarrow> job option)" where
  "spec_SetJob E J j c =
     (case Validate E j of
        Some e \<Rightarrow> (Some e, J)
      | None \<Rightarrow>
          if ParentJob j \<noteq> [] \<and> J (ParentJob j) = None then (Some ErrParentJobNotFound, J)
          else (case stored_job E (J (Name j)) j c of
                  Inl e \<Rightarrow> (Some e, J)
                | Inr j' \<Rightarrow>
                    (let J1 = J(Name j \<mapsto> j');
                         old = ParentJob (found_job E (J (Name j)))
                     in if ParentJob j = old then (None, J1)
                        else (case relink J1 old (filter (\<lambda>n. n \<noteq> Name j)) of
                                (Some e, J2) \<Rightarrow> (Some e, J2)
                              | (None, J2) \<Rightarrow> relink J2 (ParentJob j) (\<lambda>ds. ds @ [Name j])))))"

context lawful_env
begin

lemma SetJob_dependents:
  assumes ok: "jobs_ok E d" and P: "jobs_of E d p = Some P" and ds: "list_all valid_utf8 ds"
  shows "\<exists>d'. SetJob_n (Suc n) E d (P\<lparr>DependentJobs := ds\<rparr>) False =
      ((if ParentJob P \<noteq> [] \<and> jobs_of E d (ParentJob P) = None
        then (Some ErrParentJobNotFound, d) else (None, d'))) \<and>
    jobs_ok E d' \<and> jobs_of E d' = (jobs_of E d)(p \<mapsto> P\<lparr>DependentJobs := ds\<rparr>) \<and> same_rest E d d'"
proof -
  let ?Q = "P\<lparr>DependentJobs := ds\<rparr>"
  have P': "Name P = p" "job_ok E P" using jobs_of_SomeD [OF ok P] by simp_all
  then have Q: "job_ok E ?Q" using ds by (simp add: job_ok_DependentJobs)
  obtain d' where d': "setJobTxFunc E (ToProto E ?Q) d = (None, d')" "jobs_ok E d'"
    "jobs_of E d' = (jobs_of E d)(p \<mapsto> ?Q)" "same_rest E d d'"
    using setJobTxFunc_ok [OF ok Q] P'(1) by auto
  have tx: "SetJobTx E ?Q False d = (None, d', ?Q, P)"
    using SetJobTx_eq [OF ok, of ?Q False] P P'(1) d'(1)
    by (simp add: stored_job_self) (simp add: found_job_def)
  have "Validate E ?Q = None" using Q by (simp add: job_ok_def)
  moreover have "isl (GetJob E d (ParentJob P)) \<longleftrightarrow> jobs_of E d (ParentJob P) = None"
    using GetJob_eq [OF ok] by (simp split: option.splits)
  ultimately show ?thesis
    using d' tx by (intro exI [of _ d']) (simp add: SetJob_n.simps(2) db_Update_eq)
qed

lemma dependents_utf8: "job_ok E j \<Longrightarrow> list_all valid_utf8 (DependentJobs j)"
  by (simp add: job_ok_def pb_job_utf8_ToProto)

text \<open>Both ways of changing the parent refine \<open>relink\<close>.\<close>

lemma relink_refines:
  assumes ok: "jobs_ok E d" and nm: "Name c \<noteq> ParentJob c" and pc: "ParentJob c \<noteq> []"
    and f: "\<And>ds. list_all valid_utf8 ds \<Longrightarrow> list_all valid_utf8 (f ds)"
    and op: "op = (case GetParent E d c of
                     Inl e \<Rightarrow> (Some e, d)
                   | Inr P \<Rightarrow> SetJob_n (Suc n) E d (P\<lparr>DependentJobs := f (DependentJobs P)\<rparr>) False)"
  shows "\<exists>d'. op = (fst (relink (jobs_of E d) (ParentJob c) f), d') \<and> jobs_ok E d' \<and>
    jobs_of E d' = snd (relink (jobs_of E d) (ParentJob c) f) \<and> same_rest E d d'"
proof (cases "jobs_of E d (ParentJob c)")
  case None
  with ok nm pc show ?thesis
    by (intro exI [of _ d]) (simp add: op GetParent_eq relink_def)
next
  case (Some P)
  then have "job_ok E P" using jobs_of_SomeD ok by blast
  then have "list_all valid_utf8 (f (DependentJobs P))" by (intro f dependents_utf8)
  from SetJob_dependents [OF ok Some this, of n] obtain d' where
    d': "SetJob_n (Suc n) E d (P\<lparr>DependentJobs := f (DependentJobs P)\<rparr>) False =
      (if ParentJob P \<noteq> [] \<and> jobs_of E d (ParentJob P) = None
       then (Some ErrParentJobNotFound, d) else (None, d'))"
    "jobs_ok E d'" "jobs_of E d' = (jobs_of E d)(ParentJob c \<mapsto> P\<lparr>DependentJobs := f (DependentJobs P)\<rparr>)"
    "same_rest E d d'" by blast
  then show ?thesis using ok nm pc Some
    by (cases "ParentJob P \<noteq> [] \<and> jobs_of E d (ParentJob P) = None")
      (auto simp: op GetParent_eq relink_def)
qed

lemma removeFromParent_refines:
  assumes "jobs_ok E d" "Name c \<noteq> ParentJob c \<or> ParentJob c = []"
  shows "\<exists>d'. removeFromParent (SetJob_n (Suc n) E) E d (Some c) =
      (fst (relink (jobs_of E d) (ParentJob c) (filter (\<lambda>m. m \<noteq> Name c))), d') \<and>
    jobs_ok E d' \<and> jobs_of E d' = snd (relink (jobs_of E d) (ParentJob c) (filter (\<lambda>m. m \<noteq> Name c))) \<and>
    same_rest E d d'"
proof (cases "ParentJob c = []")
  case True
  with assms show ?thesis
    by (intro exI [of _ d]) (simp add: removeFromParent_def relink_def)
next
  case False
  show ?thesis
    by (rule relink_refines [where n = n]) (use assms False in \<open>auto simp: removeFromParent_def list_all_iff\<close>)
qed

lemma addToParent_refines:
  assumes "jobs_ok E d" "Name c \<noteq> ParentJob c" "valid_utf8 (Name c)"
  shows "\<exists>d'. addToParent (SetJob_n (Suc n) E) E d c =
      (fst (relink (jobs_of E d) (ParentJob c) (\<lambda>ds. ds @ [Name c])), d') \<and>
    jobs_ok E d' \<and> jobs_of E d' = snd (relink (jobs_of E d) (ParentJob c) (\<lambda>ds. ds @ [Name c])) \<and>
    same_rest E d d'"
proof (cases "ParentJob c = []")
  case True
  with assms show ?thesis
    by (intro exI [of _ d]) (simp add: addToParent_def relink_def)
next
  case False
  show ?thesis
    by (rule relink_refines [where n = n]) (use assms False in \<open>auto simp: addToParent_def\<close>)
qed

lemma found_job_parent:
  assumes "jobs_ok E d" "ej = found_job E (jobs_of E d n)"
  shows "(Name ej \<noteq> ParentJob ej \<or> ParentJob ej = []) \<and> (ParentJob ej \<noteq> [] \<longrightarrow> Name ej = n)"
proof (cases "jobs_of E d n")
  case (Some j)
  with jobs_of_SomeD [OF assms(1) Some] assms(2) show ?thesis
    by (auto simp: found_job_def job_ok_def Validate_def split: if_splits)
qed (simp add: assms(2) found_job_def)

text \<open>The part of \<open>SetJob\<close> after its transaction: the lists of the two parents.\<close>

lemma SetJob_parents_refines:
  assumes ok: "jobs_ok E d1" and j: "job_ok E j"
    and ej: "Name ej \<noteq> ParentJob ej \<or> ParentJob ej = []" "ParentJob ej \<noteq> [] \<longrightarrow> Name ej = Name j"
  shows "\<exists>d'. (case removeFromParent (SetJob_n (Suc n) E) E d1 (Some ej) of
             (Some e, d2) \<Rightarrow> (Some e, d2)
           | (None, d2) \<Rightarrow> addToParent (SetJob_n (Suc n) E) E d2 j)
      = (fst (case relink (jobs_of E d1) (ParentJob ej) (filter (\<lambda>m. m \<noteq> Name j)) of
                (Some e, J2) \<Rightarrow> (Some e, J2)
              | (None, J2) \<Rightarrow> relink J2 (ParentJob j) (\<lambda>ds. ds @ [Name j])), d') \<and>
    jobs_ok E d' \<and>
    jobs_of E d' = snd (case relink (jobs_of E d1) (ParentJob ej) (filter (\<lambda>m. m \<noteq> Name j)) of
                (Some e, J2) \<Rightarrow> (Some e, J2)
              | (None, J2) \<Rightarrow> relink J2 (ParentJob j) (\<lambda>ds. ds @ [Name j])) \<and>
    same_rest E d1 d'"
proof -
  have rl: "relink (jobs_of E d1) (ParentJob ej) (filter (\<lambda>m. m \<noteq> Name ej)) =
      relink (jobs_of E d1) (ParentJob ej) (filter (\<lambda>m. m \<noteq> Name j))"
    using ej by (cases "ParentJob ej = []") (simp_all add: relink_def)
  obtain d2 where d2: "removeFromParent (SetJob_n (Suc n) E) E d1 (Some ej) =
      (fst (relink (jobs_of E d1) (ParentJob ej) (filter (\<lambda>m. m \<noteq> Name j))), d2)"
    "jobs_ok E d2" "jobs_of E d2 = snd (relink (jobs_of E d1) (ParentJob ej) (filter (\<lambda>m. m \<noteq> Name j)))"
    "same_rest E d1 d2"
    using removeFromParent_refines [OF ok ej(1), of n] unfolding rl by blast
  have "Name j \<noteq> ParentJob j" using j by (auto simp: job_ok_def Validate_def split: if_splits)
  then obtain d3 where d3: "addToParent (SetJob_n (Suc n) E) E d2 j =
      (fst (relink (jobs_of E d2) (ParentJob j) (\<lambda>ds. ds @ [Name j])), d3)"
    "jobs_ok E d3" "jobs_of E d3 = snd (relink (jobs_of E d2) (ParentJob j) (\<lambda>ds. ds @ [Name j]))"
    "same_rest E d2 d3"
    using addToParent_refines [OF d2(2), of j n] job_ok_utf8_name [OF j] by blast
  obtain r J2 where r: "relink (jobs_of E d1) (ParentJob ej) (filter (\<lambda>m. m \<noteq> Name j)) = (r, J2)"
    by fastforce
  have "same_rest E d1 d3" using d2(4) d3(4) by (rule same_rest_trans)
  with r d2 d3 show ?thesis by (cases r) auto
qed

lemma SetJob_n_refines:
  assumes ok: "jobs_ok E d" and rep: "representable E j" "pb_job_utf8 (ToProto E j)"
    and nxt: "next_ok E j"
  shows "\<exists>d'. SetJob_n (Suc (Suc n)) E d j c = (fst (spec_SetJob E (jobs_of E d) j c), d') \<and>
    jobs_ok E d' \<and> jobs_of E d' = snd (spec_SetJob E (jobs_of E d) j c) \<and> same_rest E d d'"
proof -
  let ?J = "jobs_of E d" and ?ej = "found_job E (jobs_of E d (Name j))"
  have isl: "isl (GetJob E d (ParentJob j)) \<longleftrightarrow> ?J (ParentJob j) = None"
    using GetJob_eq [OF ok] by (simp split: option.splits)
  consider (invalid) e where "Validate E j = Some e"
    | (orphan) "Validate E j = None" "ParentJob j \<noteq> [] \<and> ?J (ParentJob j) = None"
    | (nonext) e where "Validate E j = None" "\<not> (ParentJob j \<noteq> [] \<and> ?J (ParentJob j) = None)"
        "stored_job E (?J (Name j)) j c = Inl e"
    | (stored) j' where "Validate E j = None" "\<not> (ParentJob j \<noteq> [] \<and> ?J (ParentJob j) = None)"
        "stored_job E (?J (Name j)) j c = Inr j'"
    by (cases "Validate E j"; cases "stored_job E (?J (Name j)) j c";
        cases "ParentJob j \<noteq> [] \<and> ?J (ParentJob j) = None") blast+
  then show ?thesis
  proof cases
    case stored
    have j': "Name j' = Name j" "ParentJob j' = ParentJob j"
      using stored_job_fields [OF stored(3)] by simp_all
    have jok: "job_ok E j'"
      using stored_job_ok [OF rep stored(1) nxt _ stored(3)] jobs_of_SomeD(2) [OF ok] by blast
    obtain d1 where d1: "setJobTxFunc E (ToProto E j') d = (None, d1)" "jobs_ok E d1"
      "jobs_of E d1 = ?J(Name j \<mapsto> j')" "same_rest E d d1"
      using setJobTxFunc_ok [OF ok jok] j'(1) by auto
    have tx: "db_Update E d (SetJobTx E j c) = (None, d1, j', ?ej)"
      using SetJobTx_eq [OF ok, of j c] stored(3) d1(1) by (simp add: db_Update_eq)
    note parents = SetJob_parents_refines [OF d1(2) jok, of ?ej n, unfolded j' d1(3)]
    show ?thesis
      using parents found_job_parent [OF ok refl, of "Name j"] stored isl j' d1
        same_rest_trans [OF d1(4)]
      by (cases "ParentJob j = ParentJob ?ej")
        (auto simp: SetJob_n.simps(2) tx spec_SetJob_def Let_def)
  next
    case nonext
    then show ?thesis using isl ok
      by (intro exI [of _ d]) (auto simp: SetJob_n.simps(2) SetJobTx_eq db_Update_eq spec_SetJob_def)
  qed (use isl ok in \<open>auto simp: SetJob_n.simps(2) spec_SetJob_def\<close>)
qed

end

section \<open>Refinement: deleting a job\<close>

definition spec_DeleteJob ::
    "(string \<Rightarrow> job option) \<Rightarrow> string \<Rightarrow> job res \<times> (string \<Rightarrow> job option)" where
  "spec_DeleteJob J n =
     (case J n of
        None \<Rightarrow> (Inl ErrNotFound, J)
      | Some j \<Rightarrow>
          if DependentJobs j \<noteq> [] then (Inl ErrDependentJobs, J)
          else (case relink (J(n := None)) (ParentJob j) (filter (\<lambda>m. m \<noteq> n)) of
                  (Some e, J2) \<Rightarrow> (Inl e, J2)
                | (None, J2) \<Rightarrow> (Inr j, J2)))"

context lawful_env
begin

lemma delete_kv:
  "kv E (case db_delete E d k of Inl _ \<Rightarrow> d | Inr d' \<Rightarrow> d') = (kv E d)(k := None)"
proof (cases "map_of (db_ascend E d) k")
  case None
  with delete_missing [OF None] show ?thesis by (auto simp: kv_def)
next
  case (Some v)
  with delete_law [OF Some] show ?thesis by (auto simp: kv_def)
qed

lemma delete_kv_Some:
  assumes "kv E d k = Some v"
  obtains d' where "db_delete E d k = Inr d'" "kv E d' = (kv E d)(k := None)"
  using assms delete_law [of d k v] by (auto simp: kv_def)

lemma delete_keys_kv: "kv E (delete_keys E d ks) = (\<lambda>k. if k \<in> set ks then None else kv E d k)"
  by (induction ks arbitrary: d) (auto simp: delete_kv fun_eq_iff)

lemma deleteExecutions_kv:
  "kv E (deleteExecutionsTxFunc E n d) =
     (\<lambda>k. if HasPrefix k (executionsPrefix @ '':'' @ n) then None else kv E d k)"
proof -
  have "k \<notin> fst ` set (db_ascend E d) \<Longrightarrow> kv E d k = None" for k
    by (simp add: kv_def map_of_eq_None_filter)
  then show ?thesis
    by (auto simp: deleteExecutionsTxFunc_def delete_keys_kv fun_eq_iff)
qed

lemma job_key_not_exec: "\<not> HasPrefix (job_key n) (executionsPrefix @ s)"
  by (simp add: job_key_def jobsPrefix_def executionsPrefix_def)

lemma DeleteJobTx_ok:
  assumes ok: "jobs_ok E d" and j: "jobs_of E d n = Some j" "DependentJobs j = []"
  obtains d' where "DeleteJobTx E n d = (None, d', Some j)" "jobs_ok E d'"
    "jobs_of E d' = (jobs_of E d)(n := None)"
    "\<And>k. \<not> HasPrefix k (job_key []) \<Longrightarrow>
       kv E d' k = (if HasPrefix k (executionsPrefix @ '':'' @ n) then None else kv E d k)"
proof -
  let ?d1 = "deleteExecutionsTxFunc E n d"
  obtain b where b: "kv E d (job_key n) = Some b"
    using j(1) by (auto simp: jobs_of_def split: option.splits)
  then have "kv E ?d1 (job_key n) = Some b"
    by (simp add: deleteExecutions_kv job_key_not_exec)
  then obtain d' where d': "db_delete E ?d1 (job_key n) = Inr d'"
    and kv': "kv E d' = (kv E ?d1)(job_key n := None)"
    using delete_kv_Some by blast
  have jk: "kv E d' (job_key m) = (if m = n then None else kv E d (job_key m))" for m
    by (simp add: kv' deleteExecutions_kv job_key_not_exec)
  show ?thesis
  proof (rule that)
    show "DeleteJobTx E n d = (None, d', Some j)"
      using ok j d' by (cases rule: jobs_of_cases [of d n]) (auto simp: DeleteJobTx_def)
    show "jobs_ok E d'" using ok by (auto simp: jobs_ok_def jk)
    show "jobs_of E d' = (jobs_of E d)(n := None)"
      by (auto simp: jobs_of_def jk)
    show "kv E d' k = (if HasPrefix k (executionsPrefix @ '':'' @ n) then None else kv E d k)"
      if "\<not> HasPrefix k (job_key [])" for k
      using that HasPrefix_job_key [of n] by (auto simp: kv' deleteExecutions_kv)
  qed
qed

text \<open>
  \<open>DeleteJob\<close> refines its specification. Besides the job, it removes every key that starts
  with \<open>executions:\<close> and the name, and nothing else.
\<close>

lemma DeleteJob_spec:
  assumes ok: "jobs_ok E d"
  shows "\<exists>d'. DeleteJob E d n = (fst (spec_DeleteJob (jobs_of E d) n), d') \<and> jobs_ok E d' \<and>
    jobs_of E d' = snd (spec_DeleteJob (jobs_of E d) n) \<and>
    (\<forall>k. \<not> HasPrefix k (job_key []) \<longrightarrow>
       kv E d' k = (if jobs_of E d n \<noteq> None \<and> deps_of (jobs_of E d) n = [] \<and>
                       HasPrefix k (executionsPrefix @ '':'' @ n) then None else kv E d k))"
proof (cases "\<exists>j. jobs_of E d n = Some j \<and> DependentJobs j = []")
  case False
  with ok show ?thesis
    by (intro exI [of _ d], cases rule: jobs_of_cases [of d n])
      (auto simp: DeleteJob_def DeleteJobTx_def db_Update_eq spec_DeleteJob_def deps_of_def)
next
  case True
  then obtain j where j: "jobs_of E d n = Some j" "DependentJobs j = []" by blast
  obtain d1 where d1: "DeleteJobTx E n d = (None, d1, Some j)" "jobs_ok E d1"
    "jobs_of E d1 = (jobs_of E d)(n := None)"
    and rest: "\<And>k. \<not> HasPrefix k (job_key []) \<Longrightarrow>
       kv E d1 k = (if HasPrefix k (executionsPrefix @ '':'' @ n) then None else kv E d k)"
    using DeleteJobTx_ok [OF ok j] by blast
  have nj: "Name j = n" "Name j \<noteq> ParentJob j \<or> ParentJob j = []"
    using jobs_of_SomeD [OF ok j(1)] by (auto simp: job_ok_def Validate_def split: if_splits)
  obtain d2 where d2: "removeFromParent (SetJob E) E d1 (Some j) =
      (fst (relink (jobs_of E d1) (ParentJob j) (filter (\<lambda>m. m \<noteq> n))), d2)"
    "jobs_ok E d2" "jobs_of E d2 = snd (relink (jobs_of E d1) (ParentJob j) (filter (\<lambda>m. m \<noteq> n)))"
    "same_rest E d1 d2"
    using removeFromParent_refines [OF d1(2) nj(2), of 1] nj(1)
    by (auto simp: SetJob_def numeral_2_eq_2)
  obtain e J2 where r: "relink (jobs_of E d1) (ParentJob j) (filter (\<lambda>m. m \<noteq> n)) = (e, J2)"
    by fastforce
  have noparent: "e = None \<and> J2 = jobs_of E d1" if "ParentJob j = []"
    using r that by (simp add: relink_def)
  have "kv E d2 k = kv E d1 k" if "\<not> HasPrefix k (job_key [])" for k
    using d2(4) that by (simp add: same_rest_def)
  with r noparent rest d1 d2 j show ?thesis
    by (cases "ParentJob j = []"; cases e)
      (auto simp: DeleteJob_def db_Update_eq spec_DeleteJob_def deps_of_def)
qed

lemma DeleteJob_refused:
  assumes "jobs_ok E d" "\<not> (\<exists>j. jobs_of E d n = Some j \<and> DependentJobs j = [])"
  shows "snd (DeleteJob E d n) = d"
  using assms by (cases rule: jobs_of_cases [of d n]) (auto simp: DeleteJob_def DeleteJobTx_def db_Update_eq)

end

section \<open>Parents and dependent jobs\<close>

text \<open>
  The jobs form a family: every parent is stored, and the dependent jobs of a stored job
  are, without repetition, the jobs that name it as their parent.
\<close>

definition family :: "(string \<Rightarrow> job option) \<Rightarrow> bool" where
  "family J \<longleftrightarrow>
     (\<forall>n j. J n = Some j \<longrightarrow> ParentJob j \<noteq> [] \<longrightarrow> J (ParentJob j) \<noteq> None) \<and>
     (\<forall>p P c. J p = Some P \<longrightarrow>
        (c \<in> set (DependentJobs P) \<longleftrightarrow> (\<exists>C. J c = Some C \<and> ParentJob C = p))) \<and>
     (\<forall>p P. J p = Some P \<longrightarrow> distinct (DependentJobs P))"

text \<open>Names are not empty, and no job is its own parent: part of validity.\<close>

definition named :: "(string \<Rightarrow> job option) \<Rightarrow> bool" where
  "named J \<longleftrightarrow> (\<forall>n j. J n = Some j \<longrightarrow> Name j = n \<and> n \<noteq> [] \<and> ParentJob j \<noteq> n)"

text \<open>
  The jobs passed to \<open>SetJob\<close> by its callers keep the list of dependent jobs: it is the
  stored one, or \<open>copyDependentJobs\<close> asks for the stored one.
\<close>

definition keeps_dependents :: "(string \<Rightarrow> job option) \<Rightarrow> job \<Rightarrow> bool \<Rightarrow> bool" where
  "keeps_dependents J j c \<longleftrightarrow>
     DependentJobs j = deps_of J (Name j) \<or> (c \<and> deps_of J (Name j) \<noteq> [])"

lemma stored_dependents:
  assumes "named J" "keeps_dependents J j c" "stored_job E (J (Name j)) j c = Inr j'"
  shows "DependentJobs j' = deps_of J (Name j)"
  using stored_job_fields(3) [OF assms(3)] assms(1,2)
  by (auto simp: keeps_dependents_def deps_of_def named_def split: option.splits if_splits)

text \<open>Only the links of a job matter for the family.\<close>

definition links :: "(string \<Rightarrow> job option) \<Rightarrow> string \<Rightarrow> (string \<times> string list) option" where
  "links J n = map_option (\<lambda>j. (ParentJob j, DependentJobs j)) (J n)"

lemma links_Some: "links J n = Some (p, ds) \<longleftrightarrow> (\<exists>j. J n = Some j \<and> ParentJob j = p \<and> DependentJobs j = ds)"
  by (auto simp: links_def)

lemma links_None: "links J n = None \<longleftrightarrow> J n = None"
  by (simp add: links_def)

lemma family_links:
  "family J \<longleftrightarrow>
     (\<forall>n p ds. links J n = Some (p, ds) \<longrightarrow> (p \<noteq> [] \<longrightarrow> links J p \<noteq> None) \<and> distinct ds \<and>
        (\<forall>c. c \<in> set ds \<longleftrightarrow> (\<exists>cs. links J c = Some (n, cs))))"
  unfolding family_def links_Some links_None by (auto; blast)

text \<open>Where every parent is stored, changing the dependent jobs of a parent cannot fail.\<close>

definition closed :: "(string \<Rightarrow> job option) \<Rightarrow> bool" where
  "closed J \<longleftrightarrow> (\<forall>n j. J n = Some j \<longrightarrow> ParentJob j \<noteq> [] \<longrightarrow> J (ParentJob j) \<noteq> None)"

lemma relink_closed:
  assumes "closed J" "p \<noteq> [] \<longrightarrow> J p \<noteq> None"
  obtains J' where "relink J p f = (None, J')" "closed J'" "\<And>m. J' m = None \<longleftrightarrow> J m = None"
    "\<And>m. m \<noteq> p \<Longrightarrow> J' m = J m"
    "\<And>m. links J' m = (if p \<noteq> [] \<and> m = p then map_option (\<lambda>(q, ds). (q, f ds)) (links J m)
                      else links J m)"
proof (cases "p = []")
  case True
  show ?thesis by (rule that [of J]) (use True assms in \<open>simp_all add: relink_def\<close>)
next
  case False
  with assms(2) obtain P where P: "J p = Some P" by blast
  let ?J' = "J(p \<mapsto> P\<lparr>DependentJobs := f (DependentJobs P)\<rparr>)"
  show ?thesis
  proof (rule that [of ?J'])
    show "relink J p f = (None, ?J')"
      using False P assms(1) by (auto simp: relink_def closed_def)
    show "closed ?J'" using assms(1) P by (auto simp: closed_def)
  qed (use P False in \<open>auto simp: links_def\<close>)
qed

text \<open>The links after a job \<open>n\<close> moves from the parent \<open>o\<close> to the parent \<open>p\<close>.\<close>

lemma family_move:
  assumes fam: "family J" and nm: "named J"
    and "n \<noteq> []" "p \<noteq> n" "p \<noteq> [] \<longrightarrow> J p \<noteq> None"
    and o: "o' = (case J n of None \<Rightarrow> [] | Some j \<Rightarrow> ParentJob j)"
    and L: "\<And>m. links J' m =
      (if m = n then Some (p, D)
       else map_option (\<lambda>(q, ds). (q,
         if o' = p then ds else if m = o' then filter (\<lambda>x. x \<noteq> n) ds
         else if m = p then ds @ [n] else ds)) (links J m))"
  shows "family J' \<longleftrightarrow> distinct D \<and> set D = set (deps_of J n)"
proof -
  have nil: "J [] = None" using nm by (cases "J []") (auto simp: named_def)
  have self: "links J m \<noteq> Some (m, ds)" for m ds
    using nm by (auto simp: links_Some named_def)
  have o2: "links J n = Some (o', deps_of J n) \<or> links J n = None \<and> o' = [] \<and> deps_of J n = []"
    using o by (cases "J n") (auto simp: links_def deps_of_def)
  have F1: "q \<noteq> [] \<Longrightarrow> links J q \<noteq> None" and F2: "distinct ds"
    and F3: "c \<in> set ds \<longleftrightarrow> (\<exists>cs. links J c = Some (m, cs))"
    if "links J m = Some (q, ds)" for m q ds c
    using fam that unfolding family_links by blast+
  have orphan: "links J n = None \<Longrightarrow> links J c \<noteq> Some (n, cs)" for c cs
    using F1 assms(3) by blast
  have deps: "c \<in> set (deps_of J n) \<longleftrightarrow> c \<noteq> n \<and> (\<exists>cs. links J c = Some (n, cs))" for c
    using o2 F3 [of n o' "deps_of J n" c] orphan self by auto
  have child: "(\<exists>cs. links J' c = Some (m, cs)) \<longleftrightarrow>
      (if c = n then m = p else \<exists>cs. links J c = Some (m, cs))" for c m
    by (auto simp: L)
  have others: "(q \<noteq> [] \<longrightarrow> links J' q \<noteq> None) \<and> distinct ds \<and>
      (\<forall>c. c \<in> set ds \<longleftrightarrow> (if c = n then m = p else \<exists>cs. links J c = Some (m, cs)))"
    if m: "links J' m = Some (q, ds)" "m \<noteq> n" for m q ds
  proof -
    obtain es where es: "links J m = Some (q, es)"
      and ds: "ds = (if o' = p then es else if m = o' then filter (\<lambda>x. x \<noteq> n) es
         else if m = p then es @ [n] else es)"
      using m by (auto simp: L)
    have "m \<noteq> []" using es nil by (auto simp: links_def)
    have n: "n \<in> set es \<longleftrightarrow> m = o'" using F3 [OF es, of n] o2 \<open>m \<noteq> []\<close> by auto
    have "q \<noteq> [] \<longrightarrow> links J' q \<noteq> None" using F1 [OF es] by (simp add: L)
    moreover have "distinct ds" using F2 [OF es] n by (simp add: ds)
    moreover have "c \<in> set ds \<longleftrightarrow> (if c = n then m = p else \<exists>cs. links J c = Some (m, cs))" for c
      using F3 [OF es, of c] n by (auto simp: ds)
    ultimately show ?thesis by blast
  qed
  have self': "(p \<noteq> [] \<longrightarrow> links J' p \<noteq> None) \<and> distinct D \<and>
      (\<forall>c. c \<in> set D \<longleftrightarrow> (if c = n then n = p else \<exists>cs. links J c = Some (n, cs))) \<longleftrightarrow>
      distinct D \<and> set D = set (deps_of J n)"
  proof -
    have "p \<noteq> [] \<longrightarrow> links J' p \<noteq> None" using assms(4,5) by (simp add: L links_None)
    moreover have "(if c = n then n = p else \<exists>cs. links J c = Some (n, cs)) \<longleftrightarrow> c \<in> set (deps_of J n)" for c
      using assms(4) by (simp add: deps)
    ultimately show ?thesis by (simp add: set_eq_iff)
  qed
  have "links J' n = Some (p, D)" by (simp add: L)
  then have "family J' \<longleftrightarrow> (p \<noteq> [] \<longrightarrow> links J' p \<noteq> None) \<and> distinct D \<and>
      (\<forall>c. c \<in> set D \<longleftrightarrow> (if c = n then n = p else \<exists>cs. links J c = Some (n, cs)))"
    unfolding family_links child
  proof (intro iffI allI impI)
    fix m q ds
    assume D: "(p \<noteq> [] \<longrightarrow> links J' p \<noteq> None) \<and> distinct D \<and>
      (\<forall>c. c \<in> set D \<longleftrightarrow> (if c = n then n = p else \<exists>cs. links J c = Some (n, cs)))" and m: "links J' m = Some (q, ds)"
    show "(q \<noteq> [] \<longrightarrow> links J' q \<noteq> None) \<and> distinct ds \<and>
      (\<forall>c. c \<in> set ds \<longleftrightarrow> (if c = n then m = p else \<exists>cs. links J c = Some (m, cs)))"
      using others [OF m] D m \<open>links J' n = Some (p, D)\<close> by (cases "m = n") auto
  qed blast
  then show ?thesis using self' by blast
qed


lemma named_upd: "named J \<Longrightarrow> Name j = n \<Longrightarrow> n \<noteq> [] \<Longrightarrow> ParentJob j \<noteq> n \<Longrightarrow> named (J(n \<mapsto> j))"
  by (simp add: named_def)

lemma family_closed: "family J \<Longrightarrow> closed J"
  by (auto simp: family_def closed_def)

text \<open>Moving a job: it is taken from the list of its former parent and put on that of its new one.\<close>

lemma relink_moved:
  assumes cl: "closed J" and nm: "named J" and n: "n \<noteq> []" "p \<noteq> n" and p: "p \<noteq> [] \<longrightarrow> J p \<noteq> None"
    and o: "o1 = (case J n of None \<Rightarrow> [] | Some i \<Rightarrow> ParentJob i)" "p \<noteq> o1"
    and j': "Name j' = n" "ParentJob j' = p"
  obtains J2 J3 where "relink (J(n \<mapsto> j')) o1 (filter (\<lambda>m. m \<noteq> n)) = (None, J2)"
    "relink J2 p (\<lambda>ds. ds @ [n]) = (None, J3)" "closed J3" "J3 n = Some j'"
    "\<And>m. links J3 m = (if m = n then Some (p, DependentJobs j')
       else map_option (\<lambda>(q, ds). (q, if o1 = p then ds else if m = o1 then filter (\<lambda>x. x \<noteq> n) ds
         else if m = p then ds @ [n] else ds)) (links J m))"
proof -
  let ?J1 = "J(n \<mapsto> j')"
  have c1: "closed ?J1" using cl p by (auto simp: closed_def j')
  have c2: "o1 \<noteq> [] \<longrightarrow> ?J1 o1 \<noteq> None" using cl by (auto simp: o(1) closed_def split: option.splits)
  obtain J2 where r2: "relink ?J1 o1 (filter (\<lambda>m. m \<noteq> n)) = (None, J2)"
    and J2: "closed J2" "\<And>m. J2 m = None \<longleftrightarrow> ?J1 m = None" "\<And>m. m \<noteq> o1 \<Longrightarrow> J2 m = ?J1 m"
    "\<And>m. links J2 m = (if o1 \<noteq> [] \<and> m = o1
        then map_option (\<lambda>(q, ds). (q, filter (\<lambda>m. m \<noteq> n) ds)) (links ?J1 m) else links ?J1 m)"
    by (rule relink_closed [OF c1 c2, of "filter (\<lambda>m. m \<noteq> n)"], rule that)
  have c3: "p \<noteq> [] \<longrightarrow> J2 p \<noteq> None" using J2(2) p by simp
  obtain J3 where r3: "relink J2 p (\<lambda>ds. ds @ [n]) = (None, J3)"
    and J3: "closed J3" "\<And>m. J3 m = None \<longleftrightarrow> J2 m = None" "\<And>m. m \<noteq> p \<Longrightarrow> J3 m = J2 m"
    "\<And>m. links J3 m = (if p \<noteq> [] \<and> m = p
        then map_option (\<lambda>(q, ds). (q, ds @ [n])) (links J2 m) else links J2 m)"
    by (rule relink_closed [OF J2(1) c3, of "\<lambda>ds. ds @ [n]"], rule that)
  have on: "o1 \<noteq> n" using nm n by (auto simp: o(1) named_def split: option.splits)
  have nil: "links J [] = None" using nm by (cases "J []") (auto simp: named_def links_def)
  have L1: "links ?J1 m = (if m = n then Some (p, DependentJobs j') else links J m)" for m
    by (simp add: links_def j')
  have "links J3 m = (if m = n then Some (p, DependentJobs j')
     else map_option (\<lambda>(q, ds). (q,
       if o1 = p then ds else if m = o1 then filter (\<lambda>x. x \<noteq> n) ds
       else if m = p then ds @ [n] else ds)) (links J m))" for m
    using o(2) n on nil by (cases "links J m") (auto simp: J3(4) J2(4) L1)
  moreover have "J3 n = Some j'" using J3(3) J2(3) n on by simp
  ultimately show ?thesis using that r2 r3 J3(1) by blast
qed

text \<open>
  Where every parent is stored, \<open>SetJob\<close> is atomic: it fails and changes nothing, or it stores the job
  and updates both parents. It keeps a family a family exactly if the job it stores lists the
  dependent jobs the job has.
\<close>

lemma spec_SetJob_closed:
  assumes cl: "closed J" and nm: "named J"
  shows "closed (snd (spec_SetJob E J j c)) \<and>
    (case fst (spec_SetJob E J j c) of
       Some e \<Rightarrow> snd (spec_SetJob E J j c) = J
     | None \<Rightarrow> \<exists>j'. stored_job E (J (Name j)) j c = Inr j' \<and> snd (spec_SetJob E J j c) (Name j) = Some j' \<and>
         (family J \<longrightarrow> (family (snd (spec_SetJob E J j c)) \<longleftrightarrow>
            distinct (DependentJobs j') \<and> set (DependentJobs j') = set (deps_of J (Name j)))))"
proof (cases "\<exists>j'. Validate E j = None \<and> \<not> (ParentJob j \<noteq> [] \<and> J (ParentJob j) = None) \<and>
    stored_job E (J (Name j)) j c = Inr j'")
  case False
  then have "\<exists>e. spec_SetJob E J j c = (Some e, J)"
    by (auto simp: spec_SetJob_def split: option.splits sum.splits)
  with cl show ?thesis by auto
next
  case True
  then obtain j' where v: "Validate E j = None" "ParentJob j \<noteq> [] \<longrightarrow> J (ParentJob j) \<noteq> None"
    and st: "stored_job E (J (Name j)) j c = Inr j'" by blast
  let ?n = "Name j" and ?p = "ParentJob j" and ?J1 = "J(Name j \<mapsto> j')"
  let ?o = "ParentJob (found_job E (J (Name j)))"
  have n: "?n \<noteq> []" "?p \<noteq> ?n" using v(1) by (auto simp: Validate_def split: if_splits)
  have j': "Name j' = ?n" "ParentJob j' = ?p" using stored_job_fields [OF st] by simp_all
  have o: "?o = (case J ?n of None \<Rightarrow> [] | Some i \<Rightarrow> ParentJob i)"
    by (simp add: found_job_def split: option.splits)
  show ?thesis
  proof (cases "?p = ?o")
    case True
    have "family ?J1 \<longleftrightarrow> distinct (DependentJobs j') \<and> set (DependentJobs j') = set (deps_of J ?n)" if "family J"
      by (rule family_move [OF that nm n v(2) o]) (use True in \<open>auto simp: links_def j' map_option_case split: option.splits\<close>)
    moreover have "closed ?J1" using cl v(2) by (auto simp: closed_def j')
    moreover have "spec_SetJob E J j c = (None, ?J1)" using True v st by (auto simp: spec_SetJob_def)
    ultimately show ?thesis using st by auto
  next
    case False
    obtain J2 J3 where r: "relink ?J1 ?o (filter (\<lambda>m. m \<noteq> ?n)) = (None, J2)"
      "relink J2 ?p (\<lambda>ds. ds @ [?n]) = (None, J3)" "closed J3" "J3 ?n = Some j'"
      "\<And>m. links J3 m = (if m = ?n then Some (?p, DependentJobs j')
         else map_option (\<lambda>(q, ds). (q, if ?o = ?p then ds else if m = ?o then filter (\<lambda>x. x \<noteq> ?n) ds
           else if m = ?p then ds @ [?n] else ds)) (links J m))"
      by (rule relink_moved [OF cl nm n v(2) o False j'], rule that)
    have "family J3 \<longleftrightarrow> distinct (DependentJobs j') \<and> set (DependentJobs j') = set (deps_of J ?n)" if "family J"
      by (rule family_move [OF that nm n v(2) o r(5)])
    moreover have "spec_SetJob E J j c = (None, J3)" using False v st r(1,2) by (auto simp: spec_SetJob_def Let_def)
    ultimately show ?thesis using st r(3,4) by auto
  qed
qed

lemma spec_SetJob_family:
  assumes fam: "family J" and nm: "named J" and kd: "keeps_dependents J j c"
  shows "family (snd (spec_SetJob E J j c)) \<and>
    (case fst (spec_SetJob E J j c) of
       Some e \<Rightarrow> snd (spec_SetJob E J j c) = J
     | None \<Rightarrow> \<exists>j'. snd (spec_SetJob E J j c) (Name j) = Some j' \<and>
                  stored_job E (J (Name j)) j c = Inr j')"
proof -
  have "distinct (deps_of J (Name j))" using fam by (auto simp: deps_of_def family_def split: option.splits)
  then show ?thesis
    using spec_SetJob_closed [OF family_closed [OF fam] nm, of E j c] fam stored_dependents [OF nm kd, of E]
    by (cases "fst (spec_SetJob E J j c)") auto
qed

text \<open>
  Where every parent is stored and the job has no dependent jobs that it does not list, \<open>DeleteJob\<close> is atomic.
\<close>

definition unlinked :: "(string \<Rightarrow> job option) \<Rightarrow> string \<Rightarrow> string \<Rightarrow> string \<Rightarrow> job option" where
  "unlinked J n p = (\<lambda>m. if m = n then None
     else if m = p then map_option (\<lambda>P. P\<lparr>DependentJobs := filter (\<lambda>c. c \<noteq> n) (DependentJobs P)\<rparr>) (J m) else J m)"

lemma unlinked_None: "unlinked J n p m = None \<longleftrightarrow> m = n \<or> J m = None"
  by (simp add: unlinked_def)

lemma unlinked_SomeD: "unlinked J n p m = Some k \<Longrightarrow> \<exists>i. J m = Some i \<and> m \<noteq> n \<and> ParentJob k = ParentJob i \<and>
    DependentJobs k = (if m = p then filter (\<lambda>c. c \<noteq> n) (DependentJobs i) else DependentJobs i)"
  by (auto simp: unlinked_def split: if_splits)

lemma closedD: "closed J \<Longrightarrow> J n = Some j \<Longrightarrow> ParentJob j \<noteq> [] \<Longrightarrow> J (ParentJob j) \<noteq> None"
  unfolding closed_def by blast

lemma spec_DeleteJob_closed:
  assumes cl: "closed J" and nm: "named J"
    and kids: "\<And>j m i. J n = Some j \<Longrightarrow> DependentJobs j = [] \<Longrightarrow> J m = Some i \<Longrightarrow> ParentJob i \<noteq> n"
  shows "closed (snd (spec_DeleteJob J n)) \<and>
    spec_DeleteJob J n =
      (case J n of
         None \<Rightarrow> (Inl ErrNotFound, J)
       | Some j \<Rightarrow> if DependentJobs j \<noteq> [] then (Inl ErrDependentJobs, J) else (Inr j, unlinked J n (ParentJob j)))"
proof (cases "\<exists>j. J n = Some j \<and> DependentJobs j = []")
  case False
  with cl show ?thesis by (auto simp: spec_DeleteJob_def split: option.splits)
next
  case True
  then obtain j where j: "J n = Some j" "DependentJobs j = []" by blast
  let ?p = "ParentJob j"
  have nil: "J [] = None" using nm by (cases "J []") (auto simp: named_def)
  have pn: "?p \<noteq> n" using kids [OF j j(1)] .
  have q: "ParentJob P = [] \<or> (J(n := None)) (ParentJob P) \<noteq> None" if "J m = Some P" for m P
    using that cl kids [OF j that] by (auto simp: closed_def)
  have "relink (J(n := None)) ?p (filter (\<lambda>m. m \<noteq> n)) = (None, unlinked J n ?p)"
  proof (cases "J ?p")
    case None
    then have "?p = []" using cl j(1) unfolding closed_def by blast
    with nil pn show ?thesis by (auto simp: relink_def unlinked_def)
  next
    case (Some P)
    with q [OF Some] pn nil show ?thesis by (auto simp: relink_def unlinked_def)
  qed
  moreover have "closed (unlinked J n ?p)"
    unfolding closed_def unlinked_None
  proof (intro allI impI)
    fix m k
    assume "unlinked J n ?p m = Some k" "ParentJob k \<noteq> []"
    then obtain i where "J m = Some i" "ParentJob k = ParentJob i" "ParentJob i \<noteq> []" using unlinked_SomeD by metis
    then show "\<not> (ParentJob k = n \<or> J (ParentJob k) = None)" using closedD [OF cl] kids [OF j] by metis
  qed
  ultimately show ?thesis using j by (simp add: spec_DeleteJob_def)
qed

lemma family_children:
  assumes "family J" "J n = Some j"
  shows "distinct (DependentJobs j)" "set (DependentJobs j) = {c. \<exists>C. J c = Some C \<and> ParentJob C = n}"
  using assms unfolding family_def by blast+

lemma spec_DeleteJob_family:
  assumes fam: "family J" and nm: "named J"
  shows "family (snd (spec_DeleteJob J n)) \<and>
    spec_DeleteJob J n =
      (case J n of
         None \<Rightarrow> (Inl ErrNotFound, J)
       | Some j \<Rightarrow> if DependentJobs j \<noteq> [] then (Inl ErrDependentJobs, J) else (Inr j, unlinked J n (ParentJob j)))"
proof -
  have kids: "ParentJob i \<noteq> n" if "J n = Some j" "DependentJobs j = []" "J m = Some i" for j m i
    using family_children(2) [OF fam that(1)] that(2,3) by auto
  note del = spec_DeleteJob_closed [OF family_closed [OF fam] nm kids]
  have "family (unlinked J n (ParentJob j))" if j: "J n = Some j" "DependentJobs j = []" for j
  proof -
    let ?J = "unlinked J n (ParentJob j)"
    have job: "\<exists>i. J m = Some i \<and> m \<noteq> n \<and> ParentJob k = ParentJob i \<and>
        DependentJobs k = (if m = ParentJob j then filter (\<lambda>c. c \<noteq> n) (DependentJobs i) else DependentJobs i)"
      if "?J m = Some k" for m k using unlinked_SomeD [OF that] .
    have kept: "\<exists>k. ?J m = Some k \<and> ParentJob k = ParentJob i" if "J m = Some i" "m \<noteq> n" for m i
      using that by (auto simp: unlinked_def)
    have "(ParentJob k \<noteq> [] \<longrightarrow> ?J (ParentJob k) \<noteq> None) \<and> distinct (DependentJobs k) \<and>
        (\<forall>c. c \<in> set (DependentJobs k) \<longleftrightarrow> (\<exists>C. ?J c = Some C \<and> ParentJob C = m))" if k: "?J m = Some k" for m k
    proof -
      obtain i where i: "J m = Some i" "m \<noteq> n" "ParentJob k = ParentJob i"
        "DependentJobs k = (if m = ParentJob j then filter (\<lambda>c. c \<noteq> n) (DependentJobs i) else DependentJobs i)"
        using job [OF k] by blast
      have "ParentJob i \<noteq> [] \<longrightarrow> ?J (ParentJob i) \<noteq> None"
        using closedD [OF family_closed [OF fam] i(1)] kids [OF j i(1)] by (simp add: unlinked_None)
      moreover have "(\<exists>C. ?J c = Some C \<and> ParentJob C = m) \<longleftrightarrow> c \<noteq> n \<and> (\<exists>C. J c = Some C \<and> ParentJob C = m)" for c
        using job [of c] kept [of c] by metis
      moreover have "n \<in> set (DependentJobs i) \<longleftrightarrow> m = ParentJob j" using family_children(2) [OF fam i(1)] j(1) by auto
      ultimately show ?thesis using family_children [OF fam i(1)] i(3,4) by auto
    qed
    then show ?thesis unfolding family_def by blast
  qed
  then show ?thesis using del fam by (auto split: option.splits)
qed

text \<open>The errors of storing a job.\<close>

lemma stored_job_valid:
  assumes "Validate E j = None"
  shows "\<exists>j'. stored_job E ejo j c = Inr j'"
proof -
  have "\<exists>n. GetNext E j = Inr n"
    using assms by (auto simp: GetNext_def Validate_def split: if_splits sum.splits)
  then obtain n where n: "GetNext E (keep_stored ej j c) = Inr n" for ej
    using GetNext_cong [of "keep_stored _ j c" j E] by auto
  then show ?thesis by (simp add: stored_job_def next_run_def)
qed

lemma relink_errors: "fst (relink J p f) = None \<or> fst (relink J p f) = Some ErrParentJobNotFound"
  by (simp add: relink_def split: option.splits)

lemma spec_SetJob_valid_errors:
  assumes "Validate E j = None" "stored_job E (J (Name j)) j c = Inr j'"
  shows "fst (spec_SetJob E J j c) = None \<or> fst (spec_SetJob E J j c) = Some ErrParentJobNotFound"
proof -
  let ?o = "ParentJob (found_job E (J (Name j)))"
  obtain r J2 where r: "relink (J(Name j \<mapsto> j')) ?o (filter (\<lambda>n. n \<noteq> Name j)) = (r, J2)" by fastforce
  then have "r = None \<or> r = Some ErrParentJobNotFound"
    using relink_errors by (metis fst_conv)
  then show ?thesis
    using relink_errors [of J2 "ParentJob j" "\<lambda>ds. ds @ [Name j]"] assms r
    by (auto simp: spec_SetJob_def Let_def)
qed

section \<open>Fuel\<close>

context lawful_env
begin

text \<open>
  The nested call stores a job that differs from the stored one in its dependent jobs only,
  so it never calls itself again: two levels of calls are all there are.
\<close>

lemma SetJob_dependents_fuel:
  assumes ok: "jobs_ok E d" and P: "jobs_of E d p = Some P" and ds: "list_all valid_utf8 ds"
  shows "SetJob_n (Suc n) E d (P\<lparr>DependentJobs := ds\<rparr>) False =
    SetJob_n (Suc 0) E d (P\<lparr>DependentJobs := ds\<rparr>) False"
proof -
  let ?Q = "P\<lparr>DependentJobs := ds\<rparr>"
  have P': "Name P = p" "job_ok E P" using jobs_of_SomeD [OF ok P] by simp_all
  then have "job_ok E ?Q" using ds by (simp add: job_ok_DependentJobs)
  then obtain d' where "setJobTxFunc E (ToProto E ?Q) d = (None, d')"
    using setJobTxFunc_ok [OF ok] by metis
  then have "SetJobTx E ?Q False d = (None, d', ?Q, P)"
    using SetJobTx_eq [OF ok, of ?Q False] P P'(1)
    by (simp add: stored_job_self) (simp add: found_job_def)
  then show ?thesis by (simp add: SetJob_n.simps(2) db_Update_eq split: option.splits)
qed

lemma GetParent_InrD:
  assumes "jobs_ok E d" "GetParent E d c = Inr P"
  shows "jobs_of E d (ParentJob c) = Some P" "job_ok E P"
  using assms jobs_of_SomeD(2) [OF assms(1)]
  by (auto simp: GetParent_def GetJob_eq split: if_splits option.splits sum.splits)

lemma parent_fuel:
  assumes ok: "jobs_ok E d" and P: "GetParent E d c = Inr P"
    and f: "list_all valid_utf8 (DependentJobs P) \<Longrightarrow> list_all valid_utf8 ds"
  shows "SetJob_n (Suc n) E d (P\<lparr>DependentJobs := ds\<rparr>) False =
    SetJob_n (Suc 0) E d (P\<lparr>DependentJobs := ds\<rparr>) False"
  using SetJob_dependents_fuel [OF ok GetParent_InrD(1) [OF ok P]]
    f [OF dependents_utf8 [OF GetParent_InrD(2) [OF ok P]]] by blast

lemma removeFromParent_fuel:
  assumes "jobs_ok E d"
  shows "removeFromParent (SetJob_n (Suc n) E) E d c = removeFromParent (SetJob_n (Suc 0) E) E d c"
  using parent_fuel [OF assms, of _ _ _ n]
  by (simp add: removeFromParent_def list_all_iff split: option.splits sum.splits)

lemma addToParent_fuel:
  assumes "jobs_ok E d" "valid_utf8 (Name c)"
  shows "addToParent (SetJob_n (Suc n) E) E d c = addToParent (SetJob_n (Suc 0) E) E d c"
  using parent_fuel [OF assms(1), of _ _ _ n] assms(2)
  by (simp add: addToParent_def split: sum.splits)

lemma SetJob_n_fuel:
  assumes ok: "jobs_ok E d" and rep: "representable E j" "pb_job_utf8 (ToProto E j)"
    and nxt: "next_ok E j"
  shows "SetJob_n (Suc (Suc n)) E d j c = SetJob E d j c"
proof (cases "\<exists>j'. Validate E j = None \<and> stored_job E (jobs_of E d (Name j)) j c = Inr j'")
  case False
  then show ?thesis
    using SetJobTx_eq [OF ok, of j c]
    by (auto simp: SetJob_def numeral_2_eq_2 SetJob_n.simps(2) db_Update_eq split: option.splits sum.splits)
next
  case True
  then obtain j' where v: "Validate E j = None" and st: "stored_job E (jobs_of E d (Name j)) j c = Inr j'"
    by blast
  have jok: "job_ok E j'"
    using stored_job_ok [OF rep v nxt _ st] jobs_of_SomeD(2) [OF ok] by blast
  obtain d1 where d1: "setJobTxFunc E (ToProto E j') d = (None, d1)" "jobs_ok E d1"
    using setJobTxFunc_ok [OF ok jok] by metis
  let ?ej = "found_job E (jobs_of E d (Name j))"
  have tx: "db_Update E d (SetJobTx E j c) = (None, d1, j', ?ej)"
    using SetJobTx_eq [OF ok, of j c] st d1(1) by (simp add: db_Update_eq)
  have parent: "Name ?ej \<noteq> ParentJob ?ej \<or> ParentJob ?ej = []"
    using found_job_parent [OF ok refl] by blast
  obtain e d2 where rm: "removeFromParent (SetJob_n (Suc 0) E) E d1 (Some ?ej) = (e, d2)" "jobs_ok E d2"
    using removeFromParent_refines [OF d1(2) parent, of 0] by blast
  then have "addToParent (SetJob_n (Suc n) E) E d2 j' = addToParent (SetJob_n (Suc 0) E) E d2 j'"
    using addToParent_fuel job_ok_utf8_name [OF jok] by blast
  then show ?thesis
    using tx rm removeFromParent_fuel [OF d1(2), of n "Some ?ej"]
    by (simp add: SetJob_def numeral_2_eq_2 SetJob_n.simps(2) [of "Suc n"] SetJob_n.simps(2) [of "Suc 0"]
        split: option.splits)
qed

lemma jobs_ok_named: "jobs_ok E d \<Longrightarrow> named (jobs_of E d)"
  unfolding named_def
proof (intro allI impI)
  fix n j assume ok: "jobs_ok E d" and "jobs_of E d n = Some j"
  then have "Name j = n" "Validate E j = None"
    using jobs_of_SomeD [OF ok] by (auto simp: job_ok_def)
  then show "Name j = n \<and> n \<noteq> [] \<and> ParentJob j \<noteq> n"
    by (auto simp: Validate_def split: if_splits)
qed

end

section \<open>The correctness of the job operations\<close>

text \<open>The sample jobs meet the hypotheses of the theorems.\<close>

lemma sample_representable: "representable (ref_env t) (sample_job n s p)"
  by (rule pb_codec.representableI [OF ref_pb_codec]) (simp add: job_fits_def sample_job_def nt_ok_def nt_unset_def)

lemma sample_next_ok: "next_ok (ref_env sample_now) (sample_job n ''@every 1m'' p)"
  by (simp add: next_ok_def GetNext_def sample_job_def ext_Parse_def ref_env_def ref_cron_parse_def
      HasPrefix_def sample_now_def time_ok_def zero_time_def)

lemma jobs_ok_Nil [simp]: "jobs_ok (ref_env t) []"
  by (simp add: jobs_ok_def kv_def ref_env_def ref_ascend_def)

lemma jobs_of_Nil [simp]: "jobs_of (ref_env t) [] n = None"
  by (simp add: jobs_of_def kv_def ref_env_def ref_ascend_def)

lemma sample_valid:
  "Validate (ref_env sample_now) (sample_job ''backup'' ''@every 1m'' []) = None"
  by code_simp

lemma sample_utf8:
  "pb_job_utf8 (ToProto (ref_env sample_now) (sample_job ''backup'' ''@every 1m'' []))"
  by (simp add: pb_job_utf8_ToProto sample_job_def map_strings_def proc_strings_def)

text \<open>A reference database that holds the given jobs.\<close>

definition sample_db :: "job list \<Rightarrow> ref_db" where
  "sample_db js = map (\<lambda>j. (job_key (Name j), enc_job (ToProto (ref_env sample_now) j))) js"

lemma kv_sample_db:
  "kv (ref_env sample_now) (sample_db js) (job_key n) =
     map_option (\<lambda>j. enc_job (ToProto (ref_env sample_now) j)) (map_of (map (\<lambda>j. (Name j, j)) js) n)"
proof -
  have "map_of (sample_db js) (job_key n) = map_option
      (\<lambda>j. enc_job (ToProto (ref_env sample_now) j)) (map_of (map (\<lambda>j. (Name j, j)) js) n)"
    by (induction js) (auto simp: sample_db_def)
  then show ?thesis by (simp add: kv_def ref_env_def map_of_ref_ascend)
qed

lemma unmarshal_enc_job: "unmarshal_job (ref_env t) (enc_job p) = Inr p"
  by (simp add: ref_env_def of_dec_enc [OF job_codec.codec_axioms])

lemma jobs_of_sample_db:
  assumes "list_all (representable (ref_env sample_now)) js"
  shows "jobs_of (ref_env sample_now) (sample_db js) = map_of (map (\<lambda>j. (Name j, j)) js)"
  using assms
  by (auto simp: jobs_of_def kv_sample_db unmarshal_enc_job representable_def fun_eq_iff list_all_iff
      dest!: map_of_SomeD split: option.splits)

lemma jobs_ok_sample_db:
  assumes "list_all (job_ok (ref_env sample_now)) js"
  shows "jobs_ok (ref_env sample_now) (sample_db js)"
  using assms
  by (fastforce simp: jobs_ok_def kv_sample_db unmarshal_enc_job list_all_iff dest!: map_of_SomeD)

definition sample_parent :: job where
  "sample_parent = (sample_job ''backup'' ''@every 1m'' [])\<lparr>DependentJobs := [''mail'']\<rparr>"

definition sample_child :: job where
  "sample_child = sample_job ''mail'' ''@every 1m'' ''backup''"

lemma sample_fields [simp]:
  "Name sample_parent = ''backup''" "ParentJob sample_parent = []" "DependentJobs sample_parent = [''mail'']"
  "Name sample_child = ''mail''" "ParentJob sample_child = ''backup''" "DependentJobs sample_child = []"
  by (simp_all add: sample_parent_def sample_child_def sample_job_def)

lemma sample_family_representable:
  "representable (ref_env sample_now) sample_parent" "representable (ref_env sample_now) sample_child"
  by (rule pb_codec.representableI [OF ref_pb_codec],
      simp add: job_fits_def sample_parent_def sample_child_def sample_job_def nt_ok_def nt_unset_def)+

lemma sample_parent_ok: "job_ok (ref_env sample_now) sample_parent"
proof -
  have "Validate (ref_env sample_now) sample_parent = None" by code_simp
  moreover have "pb_job_utf8 (ToProto (ref_env sample_now) sample_parent)"
    by (simp add: pb_job_utf8_ToProto sample_parent_def sample_job_def map_strings_def proc_strings_def)
  ultimately show ?thesis by (simp add: job_ok_def sample_family_representable)
qed

lemma sample_child_ok: "job_ok (ref_env sample_now) sample_child"
proof -
  have "Validate (ref_env sample_now) sample_child = None" by code_simp
  moreover have "pb_job_utf8 (ToProto (ref_env sample_now) sample_child)"
    by (simp add: pb_job_utf8_ToProto sample_child_def sample_job_def map_strings_def proc_strings_def)
  ultimately show ?thesis by (simp add: job_ok_def sample_family_representable)
qed

lemma sample_family_ok:
  "jobs_ok (ref_env sample_now) (sample_db [sample_parent, sample_child])"
  by (simp add: jobs_ok_sample_db sample_parent_ok sample_child_ok)

lemma sample_family_jobs:
  "jobs_of (ref_env sample_now) (sample_db [sample_parent, sample_child]) =
     [''backup'' \<mapsto> sample_parent, ''mail'' \<mapsto> sample_child]"
proof (subst jobs_of_sample_db)
  show "map_of (map (\<lambda>j. (Name j, j)) [sample_parent, sample_child]) =
      [''backup'' \<mapsto> sample_parent, ''mail'' \<mapsto> sample_child]"
    by auto
qed (use sample_family_representable in auto)

lemma sample_family: "family [''backup'' \<mapsto> sample_parent, ''mail'' \<mapsto> sample_child]"
  by (auto simp: family_def)

lemma sample_stored:
  "stored_job (ref_env sample_now) None (sample_job ''backup'' ''@every 1m'' []) c =
     Inr ((sample_job ''backup'' ''@every 1m'' [])\<lparr>Next := 1602226860000000000\<rparr>)"
  by (simp add: stored_job_def found_job_def keep_stored_def next_run_def GetNext_def sample_job_def
      ext_Parse_def HasPrefix_def, simp add: ref_env_def ref_cron_parse_def sample_now_def)

lemmas sample_hyps = ref.lawful_env_axioms sample_representable sample_next_ok sample_valid sample_utf8

text \<open>
  C1: \<open>SetJob\<close> implements its specification on the map of jobs. For a well-formed store and a
  job that protobuf can represent, the model of \<open>Store.SetJob\<close> returns the error the
  specification gives (invalid job, missing parent, schedule without next run) or success,
  leaves exactly the jobs the specification says, keeps the store well-formed, and touches
  no key other than those of jobs.
\<close>

theorem SetJob_refines:
  assumes "lawful_env E" "jobs_ok E d" "representable E j" "pb_job_utf8 (ToProto E j)" "next_ok E j"
  shows "\<exists>d'. SetJob E d j c = (fst (spec_SetJob E (jobs_of E d) j c), d') \<and> jobs_ok E d' \<and>
    jobs_of E d' = snd (spec_SetJob E (jobs_of E d) j c) \<and> same_rest E d d'"
  using lawful_env.SetJob_n_refines [OF assms, of 0] by (simp add: SetJob_def numeral_2_eq_2)

theorem SetJob_refines_witness:
  "\<exists>d'. SetJob (ref_env sample_now) [] (sample_job ''backup'' ''@every 1m'' []) False = (None, d') \<and>
     jobs_of (ref_env sample_now) d' ''backup'' =
       Some ((sample_job ''backup'' ''@every 1m'' [])\<lparr>Next := 1602226860000000000\<rparr>)"
  using SetJob_refines [OF sample_hyps(1) jobs_ok_Nil sample_hyps(2) sample_hyps(5) sample_hyps(3), of False]
  by (auto simp: spec_SetJob_def sample_valid sample_stored found_job_def Let_def)
    (simp_all add: sample_job_def)

text \<open>
  C27: The recursion of \<open>SetJob\<close> through \<open>removeFromParent\<close> and \<open>addToParent\<close> ends, and never runs out of
  the two levels the model gives it: more levels give the same result, an invalid job is refused
  with the error of its validation, and a valid one is stored or refused because a parent is missing. The
  nested call changes only the list of dependent jobs of a stored job, never its parent.
\<close>

theorem SetJob_terminates:
  assumes "lawful_env E" "jobs_ok E d" "representable E j" "pb_job_utf8 (ToProto E j)" "next_ok E j"
  shows "SetJob_n (n + 2) E d j c = SetJob E d j c \<and>
    (case Validate E j of
       Some e \<Rightarrow> SetJob E d j c = (Some e, d)
     | None \<Rightarrow> fst (SetJob E d j c) = None \<or> fst (SetJob E d j c) = Some ErrParentJobNotFound)"
proof (cases "Validate E j")
  case None
  obtain j' where "stored_job E (jobs_of E d (Name j)) j c = Inr j'" using stored_job_valid [OF None] by blast
  moreover have "fst (SetJob E d j c) = fst (spec_SetJob E (jobs_of E d) j c)"
    using lawful_env.SetJob_n_refines [OF assms, of 0 c] by (auto simp: SetJob_def numeral_2_eq_2)
  ultimately show ?thesis
    using None lawful_env.SetJob_n_fuel [OF assms] spec_SetJob_valid_errors [where J = "jobs_of E d", OF None]
    by (simp add: numeral_2_eq_2)
next
  case (Some e)
  then show ?thesis
    using lawful_env.SetJob_n_fuel [OF assms, of n c] by (simp add: SetJob_def numeral_2_eq_2 SetJob_n.simps(2) del: SetJob_n.simps(1))
qed

text \<open>A job that leaves its parent: the nested call takes it off the list of the parent.\<close>

lemma sample_move:
  "Validate (ref_env sample_now) (sample_job ''mail'' ''@every 1m'' []) = None"
  "pb_job_utf8 (ToProto (ref_env sample_now) (sample_job ''mail'' ''@every 1m'' []))"
  "spec_SetJob (ref_env sample_now) [''backup'' \<mapsto> sample_parent, ''mail'' \<mapsto> sample_child] (sample_job ''mail'' ''@every 1m'' []) False =
     (None, [''backup'' \<mapsto> sample_parent\<lparr>DependentJobs := []\<rparr>, ''mail'' \<mapsto> sample_job ''mail'' ''@every 1m'' []])"
proof -
  show v: "Validate (ref_env sample_now) (sample_job ''mail'' ''@every 1m'' []) = None" by code_simp
  show "pb_job_utf8 (ToProto (ref_env sample_now) (sample_job ''mail'' ''@every 1m'' []))"
    by (simp add: pb_job_utf8_ToProto sample_job_def map_strings_def proc_strings_def)
  have "stored_job (ref_env sample_now) (Some sample_child) (sample_job ''mail'' ''@every 1m'' []) False = Inr (sample_job ''mail'' ''@every 1m'' [])"
    by (simp add: stored_job_def found_job_def keep_stored_def next_run_def sample_child_def sample_job_def Let_def nt_After_def)
  moreover have "Name (sample_job ''mail'' ''@every 1m'' []) = ''mail''" "ParentJob (sample_job ''mail'' ''@every 1m'' []) = []"
    by (simp_all add: sample_job_def)
  ultimately show "spec_SetJob (ref_env sample_now) [''backup'' \<mapsto> sample_parent, ''mail'' \<mapsto> sample_child] (sample_job ''mail'' ''@every 1m'' []) False =
     (None, [''backup'' \<mapsto> sample_parent\<lparr>DependentJobs := []\<rparr>, ''mail'' \<mapsto> sample_job ''mail'' ''@every 1m'' []])"
    using v by (simp add: spec_SetJob_def found_job_def relink_def fun_eq_iff)
qed

theorem SetJob_terminates_witness:
  "SetJob_n 7 (ref_env sample_now) (sample_db [sample_parent, sample_child]) (sample_job ''mail'' ''@every 1m'' []) False =
     SetJob (ref_env sample_now) (sample_db [sample_parent, sample_child]) (sample_job ''mail'' ''@every 1m'' []) False \<and>
   fst (SetJob (ref_env sample_now) (sample_db [sample_parent, sample_child]) (sample_job ''mail'' ''@every 1m'' []) False) \<noteq> Some OutOfFuel"
  using SetJob_terminates [OF sample_hyps(1) sample_family_ok sample_hyps(2) sample_move(2) sample_hyps(3), of 5 False] sample_move(1)
  by auto

text \<open>
  C2: \<open>SetJob\<close> on a store whose jobs form a family. An error means that no job changed. Success
  means that the job is stored as \<open>stored_job\<close> says (run counters and times never move back), and that the jobs are a family again
  exactly if the stored job lists, each once, the jobs that name it as their parent: the former parent no longer lists it
  and the new one does in any case, but a job that is given with another list of dependent jobs is stored with that list.
\<close>

theorem SetJob_family:
  assumes "lawful_env E" "jobs_ok E d" "representable E j" "pb_job_utf8 (ToProto E j)" "next_ok E j" "family (jobs_of E d)"
  shows "case SetJob E d j c of
      (Some e, d') \<Rightarrow> jobs_of E d' = jobs_of E d
    | (None, d') \<Rightarrow> \<exists>j'. stored_job E (jobs_of E d (Name j)) j c = Inr j' \<and> jobs_of E d' (Name j) = Some j' \<and>
        (family (jobs_of E d') \<longleftrightarrow> distinct (DependentJobs j') \<and>
           set (DependentJobs j') = {i. \<exists>I. jobs_of E d i = Some I \<and> ParentJob I = Name j})"
proof -
  let ?J = "jobs_of E d"
  have n: "Name j \<noteq> []" if "fst (SetJob E d j c) = None"
    using that by (auto simp: SetJob_def numeral_2_eq_2 SetJob_n.simps(2) Validate_def)
  have kids: "set (deps_of ?J (Name j)) = {i. \<exists>I. ?J i = Some I \<and> ParentJob I = Name j}" if "Name j \<noteq> []"
    using family_children(2) [OF assms(6), of "Name j"] closedD [OF family_closed [OF assms(6)]] that
    by (cases "?J (Name j)") (force simp: deps_of_def)+
  obtain d' where d': "SetJob E d j c = (fst (spec_SetJob E ?J j c), d')" "jobs_of E d' = snd (spec_SetJob E ?J j c)"
    using lawful_env.SetJob_n_refines [OF assms(1-5), of 0 c] by (auto simp: SetJob_def numeral_2_eq_2)
  then show ?thesis
    using spec_SetJob_closed [OF family_closed [OF assms(6)] lawful_env.jobs_ok_named [OF assms(1,2)], of E j c] assms(6) n kids
    by (cases "fst (spec_SetJob E ?J j c)") auto
qed

theorem SetJob_family_witness:
  "fst (SetJob (ref_env sample_now) (sample_db [sample_parent, sample_child]) (sample_job ''mail'' ''@every 1m'' []) False) = None \<and>
   family (jobs_of (ref_env sample_now)
     (snd (SetJob (ref_env sample_now) (sample_db [sample_parent, sample_child]) (sample_job ''mail'' ''@every 1m'' []) False)))"
proof -
  let ?E = "ref_env sample_now" and ?d = "sample_db [sample_parent, sample_child]" and ?j = "sample_job ''mail'' ''@every 1m'' []"
  have fam: "family (jobs_of ?E ?d)" by (simp only: sample_family_jobs sample_family)
  have none: "fst (SetJob ?E ?d ?j False) = None"
    using SetJob_refines [OF sample_hyps(1) sample_family_ok sample_hyps(2) sample_move(2) sample_hyps(3), of False] sample_move(3)
    by (auto simp: sample_family_jobs)
  have "Name ?j = ''mail''" by (simp add: sample_job_def)
  moreover have "stored_job ?E (Some sample_child) ?j False = Inr j' \<Longrightarrow> DependentJobs j' = []" for j'
    using stored_job_fields(3) [of ?E "Some sample_child" ?j False j'] by (simp add: sample_job_def)
  ultimately show ?thesis
    using SetJob_family [OF sample_hyps(1) sample_family_ok sample_hyps(2) sample_move(2) sample_hyps(3) fam, of False] none
    by (auto simp: sample_family_jobs split: prod.splits option.splits if_splits)
qed

text \<open>
  C3: \<open>DeleteJob\<close> never leaves a dangling reference on a store whose jobs form a family. It refuses, without
  any change to the store, a job that is unknown or that other jobs depend on; every other job it
  deletes: the job is gone, its parent no longer lists it, every other job is as it was, and the
  remaining jobs are a family.
\<close>

theorem DeleteJob_family:
  assumes "lawful_env E" "jobs_ok E d" "family (jobs_of E d)"
  shows "case jobs_of E d n of
      None \<Rightarrow> DeleteJob E d n = (Inl ErrNotFound, d)
    | Some j \<Rightarrow>
        if \<exists>i I. jobs_of E d i = Some I \<and> ParentJob I = n then DeleteJob E d n = (Inl ErrDependentJobs, d)
        else \<exists>d'. DeleteJob E d n = (Inr j, d') \<and> jobs_of E d' = unlinked (jobs_of E d) n (ParentJob j) \<and> family (jobs_of E d')"
proof -
  let ?J = "jobs_of E d"
  note fam = spec_DeleteJob_family [OF assms(3) lawful_env.jobs_ok_named [OF assms(1,2)], of n]
  obtain d' where d': "DeleteJob E d n = (fst (spec_DeleteJob ?J n), d')" "jobs_of E d' = snd (spec_DeleteJob ?J n)"
    using lawful_env.DeleteJob_spec [OF assms(1,2), of n] by blast
  have kids: "(\<exists>i I. ?J i = Some I \<and> ParentJob I = n) \<longleftrightarrow> DependentJobs j \<noteq> []" if "?J n = Some j" for j
    using family_children(2) [OF assms(3) that] by (auto simp flip: set_empty)
  show ?thesis
  proof (cases "\<exists>j. ?J n = Some j \<and> DependentJobs j = []")
    case True
    then show ?thesis using fam d' kids by auto
  next
    case False
    then have "snd (DeleteJob E d n) = d" by (rule lawful_env.DeleteJob_refused [OF assms(1,2)])
    then show ?thesis using False fam d' kids by (auto split: option.splits)
  qed
qed

theorem DeleteJob_family_witness:
  "\<exists>d'. DeleteJob (ref_env sample_now) (sample_db [sample_parent, sample_child]) ''mail'' = (Inr sample_child, d') \<and>
     jobs_of (ref_env sample_now) d' ''backup'' = Some (sample_parent\<lparr>DependentJobs := []\<rparr>) \<and> family (jobs_of (ref_env sample_now) d')"
proof -
  have "family (jobs_of (ref_env sample_now) (sample_db [sample_parent, sample_child]))"
    by (simp only: sample_family_jobs sample_family)
  from DeleteJob_family [OF ref.lawful_env_axioms sample_family_ok this, of "''mail''"] show ?thesis
    by (auto simp: sample_family_jobs unlinked_def split: if_splits)
qed


text \<open>
  C26: \<open>DeleteJob\<close> implements its specification on the map of jobs, for every store and not
  only for families: the result, the error included, and the jobs left are those of
  \<open>spec_DeleteJob\<close>. Of the other keys it removes, when it gets to delete the job, exactly
  those that start with \<open>executions:\<close> followed by the name.
\<close>

theorem DeleteJob_refines:
  assumes "lawful_env E" "jobs_ok E d"
  shows "\<exists>d'. DeleteJob E d n = (fst (spec_DeleteJob (jobs_of E d) n), d') \<and> jobs_ok E d' \<and>
    jobs_of E d' = snd (spec_DeleteJob (jobs_of E d) n) \<and>
    (\<forall>k. \<not> HasPrefix k (job_key []) \<longrightarrow>
       kv E d' k = (if jobs_of E d n \<noteq> None \<and> deps_of (jobs_of E d) n = [] \<and>
                       HasPrefix k (executionsPrefix @ '':'' @ n) then None else kv E d k))"
  by (rule lawful_env.DeleteJob_spec [OF assms])

theorem DeleteJob_refines_witness:
  "fst (DeleteJob (ref_env sample_now) (sample_db [sample_parent, sample_child]) ''backup'')
   = Inl ErrDependentJobs"
  using DeleteJob_refines [OF ref.lawful_env_axioms sample_family_ok, of "''backup''"]
  by (auto simp: sample_family_jobs spec_DeleteJob_def)

text \<open>
  Deleting a job deletes the executions of every job whose name starts with its name,
  because the prefix \<open>deleteExecutionsTxFunc\<close> searches for does not end with the separator.
  The comment on the function promises to remove the executions of the job.
\<close>

theorem DeleteJob_removes_executions_of_prefix:
  assumes "lawful_env E" "jobs_ok E d" "jobs_of E d n = Some j" "DependentJobs j = []"
    and "ex_JobName x = n @ s"
  shows "kv E (snd (DeleteJob E d n)) (exec_key x) = None"
proof -
  have "\<not> HasPrefix (exec_key x) (job_key [])" "HasPrefix (exec_key x) (executionsPrefix @ '':'' @ n)"
    using assms(5) by (simp_all add: exec_key_def job_key_def jobsPrefix_def executionsPrefix_def)
  then show ?thesis
    using lawful_env.DeleteJob_spec [OF assms(1,2), of n] assms(3,4) by (auto simp: deps_of_def)
qed

theorem DeleteJob_removes_executions_of_prefix_witness:
  "kv (ref_env sample_now)
     (snd (DeleteJob (ref_env sample_now) (sample_db [sample_child]) ''mail''))
     (exec_key (sample_exec ''mail2'' ''node1'' 1 True)) = None"
proof -
  have "jobs_ok (ref_env sample_now) (sample_db [sample_child])"
    "jobs_of (ref_env sample_now) (sample_db [sample_child]) ''mail'' = Some sample_child"
    using sample_child_ok
    by (simp_all add: jobs_ok_sample_db jobs_of_sample_db sample_family_representable)
  then show ?thesis
    by (rule DeleteJob_removes_executions_of_prefix [OF ref.lawful_env_axioms, where s = "''2''"])
      (simp_all add: sample_exec_def)
qed

end
