(* ===== verification/Store_Executions.thy ===== *)
theory Store_Executions
  imports Store_Jobs
begin

text \<open>
  The executions of the store: which executions a database holds (\<open>executions\<close>), what
  recording one does, how the oldest are dropped, and how a finished execution updates its
  job. The lemmas show that the model of \<open>store.go\<close> does exactly that, without touching the
  keys of other jobs.
\<close>

section \<open>The executions of a database\<close>

definition exec_ok :: "'db env \<Rightarrow> execution \<Rightarrow> bool" where
  "exec_ok E x \<longleftrightarrow> CHR '':'' \<notin> set (ex_JobName x) \<and> time_ok (ex_StartedAt x) \<and>
     time_ok (ex_FinishedAt x) \<and> unat (ex_Attempt x) < 2 ^ 32 \<and>
     pb_execution_utf8 (ex_ToProto E x)"

text \<open>Every value under the prefix of the executions is one, stored under its own key.\<close>

definition execs_ok :: "'db env \<Rightarrow> 'db \<Rightarrow> bool" where
  "execs_ok E d \<longleftrightarrow>
     (\<forall>k b. kv E d k = Some b \<longrightarrow> HasPrefix k (executionsPrefix @ '':'') \<longrightarrow>
        (\<exists>x. unmarshal_exec E b = Inr (ex_ToProto E x) \<and> k = exec_key x \<and> exec_ok E x))"

text \<open>The execution under a key, and the executions of a job.\<close>

definition exec_at :: "'db env \<Rightarrow> 'db \<Rightarrow> string \<Rightarrow> execution option" where
  "exec_at E d k =
     (case kv E d k of
        None \<Rightarrow> None
      | Some b \<Rightarrow> (case unmarshal_exec E b of
                     Inl _ \<Rightarrow> None | Inr p \<Rightarrow> Some (NewExecutionFromProto E p)))"

definition executions :: "'db env \<Rightarrow> 'db \<Rightarrow> string \<Rightarrow> execution list" where
  "executions E d n = (case GetExecutions E d n of Inl _ \<Rightarrow> [] | Inr xs \<Rightarrow> xs)"

lemma exec_key_prefix: "HasPrefix (exec_key x) (executionsPrefix @ '':'')"
  by (simp add: exec_key_def executionsPrefix_def)

lemma exec_key_not_job: "\<not> HasPrefix (exec_key x) (job_key [])"
  by (simp add: exec_key_def job_key_def jobsPrefix_def executionsPrefix_def)

text \<open>A name without colon separates its executions from those of every other job.\<close>

lemma exec_key_exec_prefix:
  assumes "CHR '':'' \<notin> set (ex_JobName x)" "CHR '':'' \<notin> set n"
  shows "HasPrefix (exec_key x) (exec_prefix n) \<longleftrightarrow> ex_JobName x = n"
proof
  assume "HasPrefix (exec_key x) (exec_prefix n)"
  then obtain t where "ex_JobName x @ CHR '':'' # ex_Key x = n @ CHR '':'' # t"
    by (auto simp: HasPrefix_conv exec_key_def exec_prefix_def)
  with assms append_sep_inj show "ex_JobName x = n" by metis
qed (simp add: exec_key_def exec_prefix_def HasPrefix_conv)

lemma length_ex_Key: "2 \<le> length (ex_Key x)"
proof -
  have "show_int i \<noteq> []" for i by (simp add: show_int_def)
  then have "1 \<le> length (show_int i)" for i by (simp add: Suc_leI)
  from this [of "UnixNano (ex_StartedAt x)"] show ?thesis by (simp add: ex_Key_def)
qed


text \<open>No execution is skipped as the directory entry of a listing.\<close>

lemma trim_exec_key:
  assumes "CHR '':'' \<notin> set (ex_JobName x)" "CHR '':'' \<notin> set n"
  shows "trimDirectoryKey (exec_key x) \<noteq> exec_prefix n"
proof
  obtain a b c where k: "ex_Key x = a # b # c"
    using length_ex_Key [of x] by (metis One_nat_def Suc_1 Suc_le_length_iff)
  assume "trimDirectoryKey (exec_key x) = exec_prefix n"
  then consider "exec_key x = exec_prefix n" | "butlast (exec_key x) = exec_prefix n"
    by (auto simp: trimDirectoryKey_def split: if_splits)
  then show False
  proof cases
    case 1
    then have "ex_JobName x @ CHR '':'' # ex_Key x = n @ CHR '':'' # []"
      by (simp add: exec_key_def exec_prefix_def)
    from append_sep_inj [OF assms this] k show False by simp
  next
    case 2
    then have "ex_JobName x @ CHR '':'' # a # butlast (b # c) = n @ CHR '':'' # []"
      by (simp add: exec_key_def exec_prefix_def k butlast_append)
    from append_sep_inj [OF assms this] show False by simp
  qed
qed

context lawful_env
begin

lemma exec_ok_representable: "exec_ok E x \<Longrightarrow> NewExecutionFromProto E (ex_ToProto E x) = x"
  using ex_representableI [of x] by (simp add: exec_ok_def ex_representable_def)

lemma exec_at_SomeD:
  assumes "execs_ok E d" "exec_at E d k = Some x" "HasPrefix k (executionsPrefix @ '':'')"
  shows "k = exec_key x \<and> exec_ok E x"
proof -
  obtain b where "kv E d k = Some b" using assms(2) by (auto simp: exec_at_def split: option.splits)
  with assms(1,3) obtain y where y: "unmarshal_exec E b = Inr (ex_ToProto E y)" "k = exec_key y" "exec_ok E y"
    unfolding execs_ok_def by blast
  with assms(2) \<open>kv E d k = Some b\<close> show ?thesis
    by (simp add: exec_at_def exec_ok_representable)
qed

lemma execs_ok_kv:
  assumes "execs_ok E d" "kv E d k = Some b" "HasPrefix k (executionsPrefix @ '':'')"
  obtains x where "unmarshal_exec E b = Inr (ex_ToProto E x)" "k = exec_key x" "exec_ok E x"
    "exec_at E d k = Some x" "NewExecutionFromProto E (ex_ToProto E x) = x"
proof -
  obtain x where x: "unmarshal_exec E b = Inr (ex_ToProto E x)" "k = exec_key x" "exec_ok E x"
    using assms unfolding execs_ok_def by blast
  then show ?thesis
    using that [of x] assms(2) by (simp add: exec_at_def exec_ok_representable)
qed

lemma exec_prefix_prefix: "HasPrefix k (exec_prefix n) \<Longrightarrow> HasPrefix k (executionsPrefix @ '':'')"
  by (auto simp: HasPrefix_conv exec_prefix_def)

text \<open>Decoding the values of a listing never fails.\<close>

lemma unmarshalExecutions_ok:
  assumes "execs_ok E d" "\<forall>(k, b) \<in> set kvs. kv E d k = Some b \<and> HasPrefix k (executionsPrefix @ '':'')"
  shows "unmarshalExecutions E kvs = Inr (map (\<lambda>(k, b). the (exec_at E d k)) kvs)"
  using assms(2)
proof (induction kvs)
  case (Cons p kvs)
  obtain k b where p: "p = (k, b)" by (cases p)
  with Cons.prems obtain x where "unmarshal_exec E b = Inr (ex_ToProto E x)" "exec_at E d k = Some x"
    "NewExecutionFromProto E (ex_ToProto E x) = x"
    using execs_ok_kv [OF assms(1), of k b] by auto
  with p Cons show ?case by simp
qed simp

lemma listTxFunc_ok:
  assumes ok: "execs_ok E d" and n: "CHR '':'' \<notin> set n"
  defines "kvs \<equiv> filter (\<lambda>(k, b). HasPrefix k (exec_prefix n)) (db_ascend E d)"
  shows "listTxFunc E (exec_prefix n) d = (kvs, kvs \<noteq> [])"
    "unmarshalExecutions E kvs = Inr (map (\<lambda>(k, b). the (exec_at E d k)) kvs)"
proof -
  have kvs: "kv E d k = Some b \<and> HasPrefix k (executionsPrefix @ '':'')" if "(k, b) \<in> set kvs" for k b
    using that exec_prefix_prefix by (auto simp: kvs_def ascend_mem_iff kv_def)
  have "trimDirectoryKey k \<noteq> exec_prefix n" if "(k, b) \<in> set kvs" for k b
    using execs_ok_kv [OF ok] kvs [OF that] trim_exec_key n by (metis exec_ok_def)
  then have "filter (\<lambda>(k, b). trimDirectoryKey k \<noteq> exec_prefix n) kvs = kvs"
    by (auto intro!: filter_True)
  then show "listTxFunc E (exec_prefix n) d = (kvs, kvs \<noteq> [])"
    by (simp add: listTxFunc_def kvs_def Let_def)
  show "unmarshalExecutions E kvs = Inr (map (\<lambda>(k, b). the (exec_at E d k)) kvs)"
    using unmarshalExecutions_ok [OF ok] kvs by blast
qed

text \<open>The executions of a job: each stored execution with that job name, once.\<close>

lemma executions_eq:
  assumes ok: "execs_ok E d" and n: "CHR '':'' \<notin> set n"
  shows "executions E d n =
      map (\<lambda>(k, b). the (exec_at E d k)) (filter (\<lambda>(k, b). HasPrefix k (exec_prefix n)) (db_ascend E d))"
    and "GetExecutions E d n = (if executions E d n = [] then Inl ErrNotFound else Inr (executions E d n))"
  using listTxFunc_ok [OF ok n]
  by (auto simp: executions_def GetExecutions_def list_kvs_def)

lemma executions_set:
  assumes ok: "execs_ok E d" and n: "CHR '':'' \<notin> set n"
  shows "x \<in> set (executions E d n) \<longleftrightarrow> exec_at E d (exec_key x) = Some x \<and> ex_JobName x = n"
proof
  assume "x \<in> set (executions E d n)"
  then obtain k b where k: "(k, b) \<in> set (db_ascend E d)" "HasPrefix k (exec_prefix n)" "x = the (exec_at E d k)"
    by (auto simp: executions_eq(1) [OF ok n])
  then have "kv E d k = Some b" by (simp add: ascend_mem_iff kv_def)
  then obtain y where "exec_at E d k = Some y" "k = exec_key y" "exec_ok E y"
    using execs_ok_kv [OF ok] exec_prefix_prefix [OF k(2)] by metis
  with k exec_key_exec_prefix n show "exec_at E d (exec_key x) = Some x \<and> ex_JobName x = n"
    by (auto simp: exec_ok_def)
next
  assume x: "exec_at E d (exec_key x) = Some x \<and> ex_JobName x = n"
  then obtain b where "kv E d (exec_key x) = Some b" by (auto simp: exec_at_def split: option.splits)
  moreover have "HasPrefix (exec_key x) (exec_prefix n)"
    using x by (auto simp: HasPrefix_conv exec_key_def exec_prefix_def)
  ultimately show "x \<in> set (executions E d n)"
    using x unfolding executions_eq(1) [OF ok n] set_map
    by (intro image_eqI [of _ _ "(exec_key x, b)"]) (auto simp: ascend_mem_iff kv_def)
qed

lemma executions_distinct:
  assumes ok: "execs_ok E d" and n: "CHR '':'' \<notin> set n"
  shows "distinct (map exec_key (executions E d n))"
proof -
  have "map exec_key (executions E d n) =
      map fst (filter (\<lambda>(k, b). HasPrefix k (exec_prefix n)) (db_ascend E d))"
    unfolding executions_eq(1) [OF ok n]
    map_map
  proof (rule map_cong [OF refl])
    fix p assume p: "p \<in> set (filter (\<lambda>(k, b). HasPrefix k (exec_prefix n)) (db_ascend E d))"
    obtain k b where kb: "p = (k, b)" by (cases p)
    with p have "kv E d k = Some b" "HasPrefix k (exec_prefix n)"
      by (auto simp: ascend_mem_iff kv_def)
    then show "(exec_key \<circ> (\<lambda>(k, b). the (exec_at E d k))) p = fst p"
      using execs_ok_kv [OF ok] exec_prefix_prefix kb by (metis comp_apply case_prod_conv fst_conv option.sel)
  qed
  then show ?thesis using ascend_distinct by (simp add: distinct_map_filter)
qed

end

section \<open>Recording an execution\<close>

text \<open>Of two executions with the same key the one that finished in a later second stays.\<close>

definition newest :: "execution option \<Rightarrow> execution \<Rightarrow> execution" where
  "newest old x =
     (case old of
        None \<Rightarrow> x
      | Some y \<Rightarrow> if ex_FinishedAt y div 1000000000 > ex_FinishedAt x div 1000000000 then y else x)"

definition recorded :: "'db env \<Rightarrow> 'db \<Rightarrow> execution \<Rightarrow> execution set" where
  "recorded E d x =
     insert (newest (exec_at E d (exec_key x)) x)
       {y \<in> set (executions E d (ex_JobName x)). exec_key y \<noteq> exec_key x}"

lemma newest_cases: "newest old x = x \<or> (\<exists>y. old = Some y \<and> newest old x = y)"
  by (simp add: newest_def split: option.splits)

context lawful_env
begin

lemma ex_ToProto_time:
  assumes "exec_ok E x"
  obtains s f where "pe_StartedAt (ex_ToProto E x) = Some s" "pe_FinishedAt (ex_ToProto E x) = Some f"
    "Seconds f = ex_FinishedAt x div 1000000000"
  using assms ts_roundtrip [of "ex_StartedAt x"] ts_roundtrip [of "ex_FinishedAt x"] ts_seconds
  by (auto simp: exec_ok_def ex_ToProto_def)

lemma execs_ok_upd:
  assumes ok: "execs_ok E d" and x: "exec_ok E x" and b: "unmarshal_exec E b = Inr (ex_ToProto E x)"
    and kv': "kv E d' = (kv E d)(exec_key x \<mapsto> b)"
  shows "execs_ok E d'" "exec_at E d' (exec_key x) = Some x"
    "\<And>k. k \<noteq> exec_key x \<Longrightarrow> exec_at E d' k = exec_at E d k"
proof -
  show "execs_ok E d'" using ok x b unfolding execs_ok_def kv' by auto
  show "exec_at E d' (exec_key x) = Some x" using x b by (simp add: exec_at_def kv' exec_ok_representable)
  show "exec_at E d' k = exec_at E d k" if "k \<noteq> exec_key x" for k using that by (simp add: exec_at_def kv')
qed

lemma setExecutionTxFunc_ok:
  assumes ok: "execs_ok E d" and x: "exec_ok E x"
  obtains d' where "setExecutionTxFunc E (exec_key x) (ex_ToProto E x) d = (None, d')" "execs_ok E d'"
    "exec_at E d' (exec_key x) = Some (newest (exec_at E d (exec_key x)) x)"
    "\<And>k. k \<noteq> exec_key x \<Longrightarrow> kv E d' k = kv E d k"
proof -
  obtain b where b: "marshal_exec E (ex_ToProto E x) = Inr b"
    using x exec_marshal by (auto simp: exec_ok_def)
  obtain d' where d': "db_set E d (exec_key x) b = Inr d'" "kv E d' = (kv E d)(exec_key x \<mapsto> b)"
    using set_kv by blast
  note upd = execs_ok_upd [OF ok x exec_roundtrip [OF b] d'(2)]
  obtain s f where f: "pe_FinishedAt (ex_ToProto E x) = Some f" "Seconds f = ex_FinishedAt x div 1000000000"
    using ex_ToProto_time [OF x] by metis
  show ?thesis
  proof (cases "kv E d (exec_key x)")
    case None
    then have "exec_at E d (exec_key x) = None" by (simp add: exec_at_def)
    with None b d' upd show ?thesis
      by (intro that [of d']) (simp_all add: setExecutionTxFunc_def get_kv newest_def)
  next
    case (Some i)
    then obtain y where y: "unmarshal_exec E i = Inr (ex_ToProto E y)" "exec_ok E y"
      "exec_at E d (exec_key x) = Some y"
      using execs_ok_kv [OF ok Some exec_key_prefix] by metis
    obtain s' f' where f': "pe_StartedAt (ex_ToProto E y) = Some s'" "pe_FinishedAt (ex_ToProto E y) = Some f'"
      "Seconds f' = ex_FinishedAt y div 1000000000"
      using ex_ToProto_time [OF y(2)] by metis
    have "ex_ToProto E y \<noteq> pb_execution_zero"
      using f'(1) by (metis option.distinct(1) pb_execution.select_convs(7) pb_execution_zero_def)
    then have "i \<noteq> []" using y(1) exec_empty by auto
    then show ?thesis
      using Some b d' upd ok y f f'
      by (cases "Seconds f < Seconds f'"; intro that [of "if Seconds f < Seconds f' then d else d'"])
        (simp_all add: setExecutionTxFunc_def get_kv newest_def)
  qed
qed

lemma evict_kv: "kv E (evict E d xs) = (\<lambda>k. if k \<in> exec_key ` set xs then None else kv E d k)"
proof (induction xs arbitrary: d)
  case (Cons x xs)
  have "fst (snd (db_Update E d (\<lambda>tx. case db_delete E tx (exec_key x) of
            Inl e \<Rightarrow> (Some e, tx, ()) | Inr tx' \<Rightarrow> (None, tx', ())))) =
        (case db_delete E d (exec_key x) of Inl _ \<Rightarrow> d | Inr d' \<Rightarrow> d')"
    by (simp add: db_Update_eq split: sum.splits)
  with Cons show ?case
    by (auto simp: fun_eq_iff delete_kv split: prod.splits) 
qed simp

text \<open>The executions of a job are determined by the map of executions.\<close>

lemma executions_recorded:
  assumes ok: "execs_ok E d" "execs_ok E d'" and x: "exec_ok E x"
    and at: "exec_at E d' (exec_key x) = Some (newest (exec_at E d (exec_key x)) x)"
    and rest: "\<And>k. k \<noteq> exec_key x \<Longrightarrow> exec_at E d' k = exec_at E d k"
  shows "set (executions E d' (ex_JobName x)) = recorded E d x"
    "CHR '':'' \<notin> set m \<Longrightarrow> m \<noteq> ex_JobName x \<Longrightarrow> set (executions E d' m) = set (executions E d m)"
proof -
  have colon: "CHR '':'' \<notin> set (ex_JobName x)" using x by (simp add: exec_ok_def)
  let ?w = "newest (exec_at E d (exec_key x)) x"
  have w: "exec_key ?w = exec_key x" "exec_ok E ?w"
    using exec_at_SomeD [OF ok(2) at exec_key_prefix] by simp_all
  then have "HasPrefix (exec_key ?w) (exec_prefix (ex_JobName x))"
    by (auto simp: HasPrefix_conv exec_key_def [of x] exec_prefix_def)
  then have wn: "ex_JobName ?w = ex_JobName x"
    using exec_key_exec_prefix [OF _ colon, of ?w] w(2) by (simp add: exec_ok_def)
  show "set (executions E d' (ex_JobName x)) = recorded E d x"
  proof (rule set_eqI)
    fix y
    show "y \<in> set (executions E d' (ex_JobName x)) \<longleftrightarrow> y \<in> recorded E d x"
      using at rest [of "exec_key y"] w(1) wn
      by (cases "exec_key y = exec_key x")
        (auto simp: executions_set [OF ok(2) colon] recorded_def executions_set [OF ok(1) colon])
  qed
  show "set (executions E d' m) = set (executions E d m)" if m: "CHR '':'' \<notin> set m" "m \<noteq> ex_JobName x"
  proof (rule set_eqI)
    fix y
    have "exec_key y \<noteq> exec_key x" if "ex_JobName y = m" "exec_at E d (exec_key y) = Some y \<or> exec_at E d' (exec_key y) = Some y"
    proof
      assume "exec_key y = exec_key x"
      then have "HasPrefix (exec_key x) (exec_prefix m)"
        using that(1) by (metis HasPrefix_append append.assoc exec_key_def exec_prefix_def)
      with exec_key_exec_prefix [OF colon m(1)] m(2) show False by simp
    qed
    then show "y \<in> set (executions E d' m) \<longleftrightarrow> y \<in> set (executions E d m)"
      using rest [of "exec_key y"] by (auto simp: executions_set [OF ok(2) m(1)] executions_set [OF ok(1) m(1)])
  qed
qed

lemma execs_ok_drop:
  assumes "execs_ok E d" "kv E d' = (\<lambda>k. if k \<in> K then None else kv E d k)"
  shows "execs_ok E d'" "exec_at E d' k = (if k \<in> K then None else exec_at E d k)"
  using assms by (auto simp: execs_ok_def exec_at_def split: if_splits)

lemma evict_oldest:
  assumes ok: "execs_ok E d" and colon: "CHR '':'' \<notin> set n"
  defines "L \<equiv> executions E d n"
  defines "S \<equiv> sort_started E L" and "m \<equiv> length L - MaxExecutions"
  defines "d' \<equiv> evict E d (take m S)"
  shows "execs_ok E d'" "set (executions E d' n) = set (drop m S)"
    "length (executions E d' n) = length (drop m S)" "set (take m S) \<union> set (drop m S) = set L"
    "\<And>r k. r \<in> set (take m S) \<Longrightarrow> k \<in> set (drop m S) \<Longrightarrow> ex_StartedAt r \<le> ex_StartedAt k"
    "\<And>k. \<not> HasPrefix k (exec_prefix n) \<Longrightarrow> kv E d' k = kv E d k"
proof -
  have mS: "mset S = mset L" unfolding S_def by (rule sort_mset)
  then have setS: "set S = set L" by (rule mset_eq_setD)
  have dist: "distinct (map exec_key S)"
    using executions_distinct [OF ok colon] mset_map [of exec_key S] mset_map [of exec_key L] mS
    unfolding L_def by (metis mset_eq_imp_distinct_iff)
  then have dist': "distinct (map exec_key (take m S @ drop m S))" by simp
  have sorted: "sorted (map ex_StartedAt (take m S @ drop m S))"
    using sort_sorted [of L] by (simp add: S_def)
  show un: "set (take m S) \<union> set (drop m S) = set L"
    using setS set_append [of "take m S" "drop m S"] by simp
  show "ex_StartedAt r \<le> ex_StartedAt k" if "r \<in> set (take m S)" "k \<in> set (drop m S)" for r k
    using sorted that by (simp only: map_append sorted_append) auto
  have kv': "kv E d' = (\<lambda>k. if k \<in> exec_key ` set (take m S) then None else kv E d k)"
    unfolding d'_def by (rule evict_kv)
  show ok': "execs_ok E d'" by (rule execs_ok_drop [OF ok kv'])
  have mem: "y \<in> set L \<longleftrightarrow> exec_at E d (exec_key y) = Some y \<and> ex_JobName y = n" for y
    unfolding L_def by (rule executions_set [OF ok colon])
  have keep: "exec_key y \<notin> exec_key ` set (take m S) \<and> y \<in> set L \<longleftrightarrow> y \<in> set (drop m S)" for y
    using dist' un by (simp only: map_append distinct_append set_map) blast
  have "y \<in> set (executions E d' n) \<longleftrightarrow> exec_key y \<notin> exec_key ` set (take m S) \<and> y \<in> set L" for y
    by (simp add: executions_set [OF ok' colon] mem execs_ok_drop(2) [OF ok kv'])
  then show seteq: "set (executions E d' n) = set (drop m S)" unfolding keep by blast
  have "distinct (drop m S)" using dist distinct_map distinct_drop by blast
  moreover have "distinct (executions E d' n)" using executions_distinct [OF ok' colon] distinct_map by blast
  ultimately show "length (executions E d' n) = length (drop m S)"
    using seteq by (metis distinct_card)
  show "kv E d' k = kv E d k" if "\<not> HasPrefix k (exec_prefix n)" for k
  proof -
    have "HasPrefix (exec_key y) (exec_prefix n)" if "y \<in> set (take m S)" for y
    proof -
      have "ex_JobName y = n" using that un mem by blast
      then show ?thesis by (auto simp: HasPrefix_conv exec_key_def exec_prefix_def)
    qed
    with that show ?thesis by (auto simp: kv')
  qed
qed

lemma executions_kv_cong:
  assumes ok: "execs_ok E d" "execs_ok E d'" and n: "CHR '':'' \<notin> set n"
    and kv: "\<And>k. HasPrefix k (exec_prefix n) \<Longrightarrow> kv E d' k = kv E d k"
  shows "set (executions E d' n) = set (executions E d n)"
proof -
  have "exec_at E d' (exec_key y) = exec_at E d (exec_key y)" if "ex_JobName y = n" for y
    using kv [of "exec_key y"] that by (auto simp: exec_at_def HasPrefix_conv exec_key_def exec_prefix_def)
  then show ?thesis by (auto simp: executions_set [OF ok(1) n] executions_set [OF ok(2) n])
qed

lemma exec_prefix_disjoint:
  assumes "CHR '':'' \<notin> set m" "CHR '':'' \<notin> set n" "HasPrefix k (exec_prefix m)" "HasPrefix k (exec_prefix n)"
  shows "m = n"
proof -
  obtain s t where "m @ CHR '':'' # s = n @ CHR '':'' # t"
    using assms(3,4) by (auto simp: HasPrefix_conv exec_prefix_def)
  with append_sep_inj [OF assms(1,2)] show ?thesis by blast
qed

text \<open>
  \<open>SetExecution\<close>: of the recorded executions of the job at most \<open>MaxExecutions\<close> stay, the
  ones dropped started no later than any that stays, and nothing else changes.
\<close>

lemma SetExecution_ok:
  assumes ok: "execs_ok E d" and x: "exec_ok E x"
  obtains d' where "SetExecution E d x = (Inr (exec_key x), d')" "execs_ok E d'"
    "set (executions E d' (ex_JobName x)) \<subseteq> recorded E d x"
    "length (executions E d' (ex_JobName x)) = min MaxExecutions (card (recorded E d x))"
    "\<And>r k. r \<in> recorded E d x - set (executions E d' (ex_JobName x)) \<Longrightarrow>
       k \<in> set (executions E d' (ex_JobName x)) \<Longrightarrow> ex_StartedAt r \<le> ex_StartedAt k"
    "\<And>m. CHR '':'' \<notin> set m \<Longrightarrow> m \<noteq> ex_JobName x \<Longrightarrow> set (executions E d' m) = set (executions E d m)"
    "\<And>k. \<not> HasPrefix k (exec_prefix (ex_JobName x)) \<Longrightarrow> kv E d' k = kv E d k"
proof -
  let ?n = "ex_JobName x"
  have colon: "CHR '':'' \<notin> set ?n" using x by (simp add: exec_ok_def)
  obtain d1 where d1: "setExecutionTxFunc E (exec_key x) (ex_ToProto E x) d = (None, d1)" "execs_ok E d1"
    "exec_at E d1 (exec_key x) = Some (newest (exec_at E d (exec_key x)) x)"
    "\<And>k. k \<noteq> exec_key x \<Longrightarrow> kv E d1 k = kv E d k"
    using setExecutionTxFunc_ok [OF ok x] by metis
  have rest1: "exec_at E d1 k = exec_at E d k" if "k \<noteq> exec_key x" for k
    using d1(4) [OF that] by (simp add: exec_at_def)
  note rec = executions_recorded [OF ok d1(2) x d1(3) rest1]
  define L where "L = executions E d1 ?n"
  define S where "S = sort_started E L"
  define m where "m = length L - MaxExecutions"
  define d' where "d' = evict E d1 (take m S)"
  note ev = evict_oldest [OF d1(2) colon, folded L_def, folded S_def m_def, folded d'_def]
  have L: "set L = recorded E d x" using rec(1) by (simp add: L_def)
  have "distinct L" using executions_distinct [OF d1(2) colon] distinct_map by (auto simp: L_def)
  then have len: "length L = card (recorded E d x)" using L by (metis distinct_card)
  have lenS: "length S = length L"
    using sort_mset [of L] unfolding S_def by (metis size_mset)
  have prefix: "HasPrefix (exec_key x) (exec_prefix ?n)"
    by (simp add: HasPrefix_conv exec_key_def exec_prefix_def)
  have up: "db_Update E d (\<lambda>tx. case setExecutionTxFunc E (exec_key x) (ex_ToProto E x) tx of (e, tx') \<Rightarrow> (e, tx', ()))
      = (None, d1, ())" by (simp add: db_Update_eq d1(1))
  show ?thesis
  proof (rule that [of d'])
    show "SetExecution E d x = (Inr (exec_key x), d')"
      using up by (simp add: SetExecution_def Let_def d'_def S_def m_def L_def flip: executions_def)
    show "execs_ok E d'" by (rule ev(1))
    show "set (executions E d' ?n) \<subseteq> recorded E d x" using ev(2,4) L by blast
    show "length (executions E d' ?n) = min MaxExecutions (card (recorded E d x))"
      using ev(3) lenS len by (simp add: m_def)
    show "ex_StartedAt r \<le> ex_StartedAt k"
      if "r \<in> recorded E d x - set (executions E d' ?n)" "k \<in> set (executions E d' ?n)" for r k
      using ev(2,4,5) L that by blast
    show "kv E d' k = kv E d k" if "\<not> HasPrefix k (exec_prefix ?n)" for k
      using ev(6) [OF that] d1(4) [of k] prefix that by metis
    then show "set (executions E d' m) = set (executions E d m)" if "CHR '':'' \<notin> set m" "m \<noteq> ?n" for m
      using that exec_prefix_disjoint colon by (intro executions_kv_cong [OF ok ev(1)]) blast+
  qed
qed

end

section \<open>A finished execution\<close>

text \<open>The status of a group of executions, and the job after one of them has finished.\<close>

definition group_status :: "execution set \<Rightarrow> int \<Rightarrow> string" where
  "group_status X g =
     (if \<forall>x \<in> X. ex_Group x = g \<longrightarrow> ex_Success x then StatusSuccess
      else if \<exists>x \<in> X. ex_Group x = g \<and> ex_Success x then StatusPartialyFailed
      else StatusFailed)"

definition done_job :: "job \<Rightarrow> execution \<Rightarrow> string \<Rightarrow> job" where
  "done_job j x status =
     (if ex_Success x
      then j\<lparr>LastSuccess := nt_Set nt_unset (ex_FinishedAt x),
             SuccessCount := scast (ucast (SuccessCount j) + 1 :: 32 word), Status := status\<rparr>
      else j\<lparr>LastError := nt_Set nt_unset (ex_FinishedAt x),
             ErrorCount := scast (ucast (ErrorCount j) + 1 :: 32 word), Status := status\<rparr>)"

lemma ucast_scast [simp]: "ucast (scast (w :: 32 word) :: 64 word) = w"
  by (simp add: bit_eq_iff bit_simps)

lemma done_job_fields [simp]:
  "Name (done_job j x s) = Name j" "ParentJob (done_job j x s) = ParentJob j"
  "DependentJobs (done_job j x s) = DependentJobs j" "Status (done_job j x s) = s"
  "Schedule (done_job j x s) = Schedule j" "Concurrency (done_job j x s) = Concurrency j"
  "Timezone (done_job j x s) = Timezone j" "Next (done_job j x s) = Next j"
  by (simp_all add: done_job_def)

lemma group_status_utf8: "valid_utf8 (group_status X g)"
  by (simp add: group_status_def status_defs)

context lawful_env
begin

lemma computeStatus_eq:
  assumes "execs_ok E d" "CHR '':'' \<notin> set n"
  shows "computeStatus E n g d = Inr (group_status (set (executions E d n)) g)"
proof -
  define G where "G = filter (\<lambda>x. ex_Group x = g) (executions E d n)"
  have "unmarshalExecutions E (fst (listTxFunc E (exec_prefix n) d)) = Inr (executions E d n)"
    using listTxFunc_ok [OF assms] executions_eq(1) [OF assms] by simp
  then show ?thesis
    by (auto simp: computeStatus_def Let_def group_status_def filter_empty_conv)
qed

lemma count_done_eq:
  assumes "job_ok E j" "exec_ok E x"
  shows "\<exists>p. count_done (ex_ToProto E x) (ToProto E j) = Inr p \<and> pj_Name p = Name j \<and>
    p\<lparr>pj_Status := s\<rparr> = ToProto E (done_job j x s)"
  using assms
  by (auto simp: count_done_def ToProto_def ex_ToProto_def done_job_def nt_ToProto_def Let_def
      nt_Set_def HasValue_def)

lemma done_job_ok:
  assumes j: "job_ok E j" and x: "exec_ok E x" and s: "valid_utf8 s"
  shows "job_ok E (done_job j x s)"
proof -
  have "Validate E (done_job j x s) = Validate E j" by (rule Validate_cong) simp_all
  moreover have "nt_FromProto E (Some (nt_ToProto E (nt_Set nt_unset (ex_FinishedAt x)))) =
      nt_Set nt_unset (ex_FinishedAt x)"
    using x by (intro nt_roundtrip) (simp add: nt_ok_def nt_Set_def exec_ok_def)
  then have "representable E (done_job j x s)"
    using j by (auto simp: job_ok_def representable_iff done_job_def)
  moreover have "pb_job_utf8 (ToProto E (done_job j x s))"
    using j s by (auto simp: job_ok_def pb_job_utf8_ToProto done_job_def)
  ultimately show ?thesis using j by (simp add: job_ok_def)
qed

lemma jobs_kv_cong:
  assumes "\<And>n. kv E d' (job_key n) = kv E d (job_key n)"
  shows "jobs_of E d' = jobs_of E d" "jobs_ok E d \<Longrightarrow> jobs_ok E d'"
  using assms by (auto simp: jobs_of_def jobs_ok_def)

lemma execs_same_rest:
  assumes "same_rest E d d'" "execs_ok E d"
  shows "execs_ok E d'" "CHR '':'' \<notin> set n \<Longrightarrow> set (executions E d' n) = set (executions E d n)"
proof -
  have kv: "kv E d' k = kv E d k" if "HasPrefix k (executionsPrefix @ '':'')" for k
    using assms(1) that by (auto simp: same_rest_def HasPrefix_conv job_key_def jobsPrefix_def executionsPrefix_def)
  then show ok: "execs_ok E d'" using assms(2) by (auto simp: execs_ok_def)
  show "set (executions E d' n) = set (executions E d n)" if "CHR '':'' \<notin> set n"
    using kv exec_prefix_prefix by (intro executions_kv_cong [OF assms(2) ok that]) blast
qed

text \<open>
  \<open>SetExecutionDone\<close>: the execution is recorded, the counter, the time and the status of its
  job are updated, and nothing else; for a job that is gone nothing changes.
\<close>

lemma SetExecutionDone_missing:
  assumes "jobs_ok E d" "jobs_of E d (ex_JobName x) = None"
  shows "SetExecutionDone E d x = (False, Some ErrExecutionDoneForDeletedJob, d)"
  using assms
  by (cases rule: jobs_of_cases [of d "ex_JobName x"])
    (simp_all add: SetExecutionDone_def SetExecutionDoneTx_def db_Update_eq)

lemma SetExecutionDone_ok:
  assumes jok: "jobs_ok E d" and eok: "execs_ok E d" and x: "exec_ok E x"
    and j: "jobs_of E d (ex_JobName x) = Some j"
  obtains d' where "SetExecutionDone E d x = (True, None, d')" "jobs_ok E d'" "execs_ok E d'"
    "jobs_of E d' = (jobs_of E d)(ex_JobName x \<mapsto>
       done_job j x (group_status (recorded E d x) (ex_Group x)))"
    "set (executions E d' (ex_JobName x)) = recorded E d x"
    "\<And>m. CHR '':'' \<notin> set m \<Longrightarrow> m \<noteq> ex_JobName x \<Longrightarrow> set (executions E d' m) = set (executions E d m)"
proof -
  let ?n = "ex_JobName x" and ?s = "group_status (recorded E d x) (ex_Group x)"
  have colon: "CHR '':'' \<notin> set ?n" using x by (simp add: exec_ok_def)
  obtain d1 where d1: "setExecutionTxFunc E (exec_key x) (ex_ToProto E x) d = (None, d1)" "execs_ok E d1"
    "exec_at E d1 (exec_key x) = Some (newest (exec_at E d (exec_key x)) x)"
    "\<And>k. k \<noteq> exec_key x \<Longrightarrow> kv E d1 k = kv E d k"
    using setExecutionTxFunc_ok [OF eok x] by metis
  have "exec_at E d1 k = exec_at E d k" if "k \<noteq> exec_key x" for k
    using d1(4) [OF that] by (simp add: exec_at_def)
  note rec = executions_recorded [OF eok d1(2) x d1(3) this]
  have jk: "kv E d1 (job_key n) = kv E d (job_key n)" for n
    by (rule d1(4)) (metis HasPrefix_job_key exec_key_not_job)
  have j': "job_ok E j" "Name j = ?n" using jobs_of_SomeD [OF jok j] by simp_all
  have dok: "job_ok E (done_job j x ?s)" by (rule done_job_ok [OF j'(1) x group_status_utf8])
  obtain p where p: "count_done (ex_ToProto E x) (ToProto E j) = Inr p" "pj_Name p = ?n"
    "p\<lparr>pj_Status := ?s\<rparr> = ToProto E (done_job j x ?s)"
    using count_done_eq [OF j'(1) x] j'(2) by metis
  have st: "computeStatus E ?n (pe_Group (ex_ToProto E x)) d1 = Inr ?s"
    using computeStatus_eq [OF d1(2) colon] rec(1) by (simp add: ex_ToProto_def Let_def)
  obtain d2 where d2: "setJobTxFunc E (ToProto E (done_job j x ?s)) d1 = (None, d2)" "jobs_ok E d2"
    "jobs_of E d2 = (jobs_of E d1)(Name (done_job j x ?s) \<mapsto> done_job j x ?s)" "same_rest E d1 d2"
    using setJobTxFunc_ok [OF jobs_kv_cong(2) [OF jk jok] dok] by metis
  have "getJobTxFunc E ?n d = Inr (ToProto E j)"
    using jok j by (cases rule: jobs_of_cases [of d ?n]) simp_all
  then have "SetExecutionDoneTx E x d = (None, d2)"
    using d1(1) p st d2(1) by (simp add: SetExecutionDoneTx_def Let_def)
  then show ?thesis
    using d2 rec j'(2) execs_same_rest [OF d2(4) d1(2)] jobs_kv_cong(1) [OF jk] colon
    by (intro that [of d2]) (simp_all add: SetExecutionDone_def db_Update_eq)
qed

end

section \<open>Groups of executions\<close>

lemma group_execs_spec:
  "map_of (group_execs xs groups) g =
     (if filter (\<lambda>x. ex_Group x = g) xs = [] then map_of groups g
      else Some ((case map_of groups g of None \<Rightarrow> [] | Some ys \<Rightarrow> ys) @ filter (\<lambda>x. ex_Group x = g) xs))"
  by (induction xs arbitrary: groups) (auto simp: update_conv')

lemma group_execs_keys:
  "distinct (map fst groups) \<Longrightarrow> distinct (map fst (group_execs xs groups))"
  "fst ` set (group_execs xs groups) = fst ` set groups \<union> ex_Group ` set xs"
  by (induction xs arbitrary: groups) (auto simp: distinct_update dom_update)

lemma sorted_last: "sorted xs \<Longrightarrow> x \<in> set xs \<Longrightarrow> x \<le> last (xs :: 'a :: linorder list)"
  by (induction xs) auto

lemma last_group:
  assumes "xs \<noteq> []"
  shows "\<exists>gs. rev (sort (map fst (group_execs xs []))) = Max (ex_Group ` set xs) # gs"
proof -
  let ?gs = "sort (map fst (group_execs xs []))"
  have set: "set ?gs = ex_Group ` set xs" using group_execs_keys(2) [of xs "[]"] by simp
  with assms have ne: "?gs \<noteq> []" by (metis image_is_empty set_empty)
  then have "rev ?gs = last ?gs # rev (butlast ?gs)" by (metis append_butlast_last_id rev.simps(2) rev_rev_ident rev_swap)
  moreover have "last ?gs = Max (set ?gs)"
  proof (rule Max_eqI [symmetric])
    show "y \<le> last ?gs" if "y \<in> set ?gs" for y using that sorted_last [OF sorted_sort] by blast
    show "last ?gs \<in> set ?gs" using ne by (rule last_in_set)
  qed simp
  ultimately show ?thesis using set by metis
qed

section \<open>The correctness of the execution operations\<close>

lemma sample_exec_ok: "exec_ok (ref_env sample_now) (sample_exec ''mail'' ''node1'' 1 b)"
  by (simp add: exec_ok_def sample_exec_def sample_now_def time_ok_def zero_time_def
      pb_execution_utf8_def ex_ToProto_def Let_def)

lemma sample_execs_ok: "execs_ok (ref_env sample_now) (sample_db js)"
proof -
  have "\<not> HasPrefix k (executionsPrefix @ '':'')" if "kv (ref_env sample_now) (sample_db js) k = Some b" for k b
    using that by (auto simp: kv_def ref_env_def map_of_ref_ascend sample_db_def job_key_def jobsPrefix_def
        executionsPrefix_def dest!: map_of_SomeD)
  then show ?thesis by (auto simp: execs_ok_def)
qed

lemma sample_recorded: "recorded (ref_env sample_now) (sample_db js) (sample_exec ''mail'' ''node1'' 1 b)
   = {sample_exec ''mail'' ''node1'' 1 b}"
proof -
  have "HasPrefix k (executionsPrefix @ '':'') \<Longrightarrow> kv (ref_env sample_now) (sample_db js) k = None" for k
    by (auto simp: kv_def ref_env_def map_of_ref_ascend sample_db_def job_key_def jobsPrefix_def
        executionsPrefix_def HasPrefix_conv map_of_eq_None_iff)
  then have "exec_at (ref_env sample_now) (sample_db js) (exec_key x) = None" for x
    using exec_key_prefix by (simp add: exec_at_def)
  then show ?thesis
    using lawful_env.executions_set [OF ref.lawful_env_axioms sample_execs_ok, of "''mail''" _ js]
    by (auto simp: recorded_def newest_def sample_exec_def)
qed

lemma sample_GetExecutions:
  assumes "exec_ok (ref_env t) x"
  shows "GetExecutions (ref_env t) [(exec_key x, enc_exec (ex_ToProto (ref_env t) x))] (ex_JobName x) = Inr [x]"
proof -
  have colon: "CHR '':'' \<notin> set (ex_JobName x)" using assms by (simp add: exec_ok_def)
  have p: "HasPrefix (exec_key x) (exec_prefix (ex_JobName x))"
    by (simp add: HasPrefix_conv exec_key_def exec_prefix_def)
  have "listTxFunc (ref_env t) (exec_prefix (ex_JobName x)) [(exec_key x, enc_exec (ex_ToProto (ref_env t) x))]
      = ([(exec_key x, enc_exec (ex_ToProto (ref_env t) x))], True)"
    using p trim_exec_key [OF colon colon]
    by (simp add: listTxFunc_def ref_ascend_def Let_def) (simp add: ref_env_def ref_ascend_def)
  moreover have "unmarshal_exec (ref_env t) (enc_exec (ex_ToProto (ref_env t) x)) = Inr (ex_ToProto (ref_env t) x)"
    by (simp add: ref_env_def enc_exec_not_Nil of_dec_enc [OF exec_codec.codec_axioms])
  ultimately show ?thesis
    using lawful_env.exec_ok_representable [OF ref.lawful_env_axioms assms]
    by (simp add: GetExecutions_def list_kvs_def)
qed

text \<open>
  C5: \<open>SetExecution\<close> bounds the executions of a job by \<open>MaxExecutions\<close>. The call succeeds; the
  job's executions are, up to the limit, the recorded ones (the new execution, unless one
  with the same key finished in a later second, and the others); what is dropped started no
  later than what stays; other jobs keep their executions and no other key changes.
\<close>

theorem SetExecution_bounded:
  assumes "lawful_env E" "execs_ok E d" "exec_ok E x"
  shows "\<exists>d'. SetExecution E d x = (Inr (exec_key x), d') \<and> execs_ok E d' \<and>
    (let left = set (executions E d' (ex_JobName x)) in
       length (executions E d' (ex_JobName x)) = min MaxExecutions (card (recorded E d x)) \<and>
       left \<subseteq> recorded E d x \<and>
       (\<forall>r \<in> recorded E d x - left. \<forall>k \<in> left. ex_StartedAt r \<le> ex_StartedAt k)) \<and>
    (\<forall>m. CHR '':'' \<notin> set m \<longrightarrow> m \<noteq> ex_JobName x \<longrightarrow> set (executions E d' m) = set (executions E d m)) \<and>
    (\<forall>k. \<not> HasPrefix k (exec_prefix (ex_JobName x)) \<longrightarrow> kv E d' k = kv E d k)"
  using lawful_env.SetExecution_ok [OF assms] unfolding Let_def by metis

theorem SetExecution_bounded_witness:
  "\<exists>d'. SetExecution (ref_env sample_now) (sample_db []) (sample_exec ''mail'' ''node1'' 1 True) =
     (Inr (exec_key (sample_exec ''mail'' ''node1'' 1 True)), d') \<and>
     length (executions (ref_env sample_now) d' ''mail'') \<le> MaxExecutions"
  using SetExecution_bounded [OF ref.lawful_env_axioms sample_execs_ok sample_exec_ok, of "[]" True]
  by (auto simp: Let_def sample_exec_def)

text \<open>
  C6: \<open>SetExecutionDone\<close> records the execution and updates its job in one transaction. The
  success or error counter goes up by one (modulo the 32 bits of the message), the matching
  time becomes the finish time, the status is that of the executions of the same group, and
  no other job or execution changes. For a job that has been deleted it fails and changes
  nothing.
\<close>

theorem SetExecutionDone_updates:
  assumes "lawful_env E" "jobs_ok E d" "execs_ok E d" "exec_ok E x"
  shows "case jobs_of E d (ex_JobName x) of
      None \<Rightarrow> SetExecutionDone E d x = (False, Some ErrExecutionDoneForDeletedJob, d)
    | Some j \<Rightarrow>
        \<exists>d'. SetExecutionDone E d x = (True, None, d') \<and> jobs_ok E d' \<and> execs_ok E d' \<and>
          jobs_of E d' = (jobs_of E d)(ex_JobName x \<mapsto>
            done_job j x (group_status (recorded E d x) (ex_Group x))) \<and>
          set (executions E d' (ex_JobName x)) = recorded E d x \<and>
          (\<forall>m. CHR '':'' \<notin> set m \<longrightarrow> m \<noteq> ex_JobName x \<longrightarrow> set (executions E d' m) = set (executions E d m))"
proof (cases "jobs_of E d (ex_JobName x)")
  case None
  with lawful_env.SetExecutionDone_missing [OF assms(1,2)] show ?thesis by simp
next
  case (Some j)
  from lawful_env.SetExecutionDone_ok [OF assms(1-4) Some] show ?thesis
    unfolding Some option.case by metis
qed

theorem SetExecutionDone_updates_witness:
  "\<exists>d'. SetExecutionDone (ref_env sample_now) (sample_db [sample_child]) (sample_exec ''mail'' ''node1'' 1 False)
       = (True, None, d') \<and>
     jobs_of (ref_env sample_now) d' ''mail'' =
       Some (sample_child\<lparr>LastError := \<lparr>hasValue = True, nt_time = sample_now + 2000000000\<rparr>,
         ErrorCount := 1, Status := StatusFailed\<rparr>)"
proof -
  let ?E = "ref_env sample_now" and ?d = "sample_db [sample_child]"
  let ?x = "sample_exec ''mail'' ''node1'' 1 False"
  have ok: "jobs_ok ?E ?d" and jobs: "jobs_of ?E ?d ''mail'' = Some sample_child"
    using sample_child_ok
    by (simp_all add: jobs_ok_sample_db jobs_of_sample_db sample_family_representable)
  have x: "ex_JobName ?x = ''mail''" "ex_Group ?x = 1" "\<not> ex_Success ?x"
    "ex_FinishedAt ?x = sample_now + 2000000000"
    by (simp_all add: sample_exec_def)
  have st: "group_status (recorded ?E ?d ?x) 1 = StatusFailed"
    using x by (simp add: sample_recorded group_status_def)
  note * = SetExecutionDone_updates [OF ref.lawful_env_axioms ok sample_execs_ok sample_exec_ok, of False,
      unfolded x jobs option.case st]
  have "done_job sample_child ?x StatusFailed = sample_child\<lparr>LastError :=
      \<lparr>hasValue = True, nt_time = sample_now + 2000000000\<rparr>, ErrorCount := 1, Status := StatusFailed\<rparr>"
    using x by (simp add: done_job_def sample_child_def sample_job_def nt_Set_def nt_unset_def)
  with * show ?thesis by auto
qed

text \<open>
  \<open>GetGroupedExecutions\<close> partitions the executions of a job by group: each group that occurs
  holds exactly its executions, in their order, and the index lists the groups once each, the
  latest first. \<open>GetLastExecutionGroup\<close> returns the executions of the latest group.
\<close>

theorem GetGroupedExecutions_partition:
  assumes "GetExecutions E d n = Inr xs" "xs \<noteq> []"
  shows "\<exists>groups byGroup. GetGroupedExecutions E d n = Inr (groups, byGroup) \<and>
    (\<forall>g. map_of groups g = (let ys = filter (\<lambda>x. ex_Group x = g) xs in if ys = [] then None else Some ys)) \<and>
    sorted_wrt (>) byGroup \<and> set byGroup = ex_Group ` set xs \<and>
    GetLastExecutionGroup E d n = Inr (filter (\<lambda>x. ex_Group x = Max (ex_Group ` set xs)) xs)"
proof -
  let ?G = "group_execs xs []" and ?g = "Max (ex_Group ` set xs)"
  have eq: "GetGroupedExecutions E d n = Inr (?G, rev (sort (map fst ?G)))"
    using assms by (simp add: GetGroupedExecutions_def Let_def)
  have "sorted_wrt (>) (rev (sort (map fst ?G)))"
    using group_execs_keys(1) [of "[]" xs] by (simp add: sorted_wrt_rev strict_sorted_iff)
  moreover have "set (rev (sort (map fst ?G))) = ex_Group ` set xs"
    using group_execs_keys(2) [of xs "[]"] by simp
  moreover have "?g \<in> ex_Group ` set xs" using assms(2) by (intro Max_in) auto
  then have "filter (\<lambda>x. ex_Group x = ?g) xs \<noteq> []" by (auto simp: filter_empty_conv)
  then have "GetLastExecutionGroup E d n = Inr (filter (\<lambda>x. ex_Group x = ?g) xs)"
    using last_group [OF assms(2)] eq group_execs_spec [of xs "[]" ?g]
    by (auto simp: GetLastExecutionGroup_def)
  moreover have "\<forall>g. map_of ?G g = (let ys = filter (\<lambda>x. ex_Group x = g) xs in if ys = [] then None else Some ys)"
    by (simp add: group_execs_spec Let_def)
  ultimately show ?thesis using eq by blast
qed

theorem GetGroupedExecutions_partition_witness:
  "\<exists>d groups. GetGroupedExecutions (ref_env sample_now) d ''mail'' = Inr (groups, [1])"
proof -
  let ?x = "sample_exec ''mail'' ''node1'' 1 True"
  have "GetExecutions (ref_env sample_now)
      [(exec_key ?x, enc_exec (ex_ToProto (ref_env sample_now) ?x))] ''mail'' = Inr [?x]"
    using sample_GetExecutions [OF sample_exec_ok] by (simp add: sample_exec_def)
  from GetGroupedExecutions_partition [OF this] obtain groups byGroup where
    g: "GetGroupedExecutions (ref_env sample_now)
        [(exec_key ?x, enc_exec (ex_ToProto (ref_env sample_now) ?x))] ''mail'' = Inr (groups, byGroup)"
      "sorted_wrt (>) byGroup" "set byGroup = {1}"
    by (auto simp: sample_exec_def)
  then have "byGroup = [1]"
    by (cases byGroup; cases "tl byGroup") auto
  with g(1) show ?thesis by blast
qed

text \<open>
  The key an execution is stored under identifies it. Two executions with valid job names
  and start times that fit 64-bit nanoseconds share a key only if job, start and node agree.
\<close>

theorem exec_key_injective:
  assumes "CHR '':'' \<notin> set (ex_JobName x)" "CHR '':'' \<notin> set (ex_JobName y)"
    and "ex_StartedAt x \<in> {- (2 ^ 63)..<2 ^ 63}" "ex_StartedAt y \<in> {- (2 ^ 63)..<2 ^ 63}"
    and "exec_key x = exec_key y"
  shows "ex_JobName x = ex_JobName y \<and> ex_StartedAt x = ex_StartedAt y \<and> ex_NodeName x = ex_NodeName y"
proof -
  have "ex_JobName x @ CHR '':'' # ex_Key x = ex_JobName y @ CHR '':'' # ex_Key y"
    using assms(5) by (simp add: exec_key_def)
  from append_sep_inj [OF assms(1,2) this] have n: "ex_JobName x = ex_JobName y" "ex_Key x = ex_Key y"
    by simp_all
  then have "UnixNano (ex_StartedAt x) = UnixNano (ex_StartedAt y) \<and> ex_NodeName x = ex_NodeName y"
    by (intro show_int_sep_inj) (simp add: ex_Key_def)
  with n assms(3,4) show ?thesis by (simp add: UnixNano_id)
qed

theorem exec_key_injective_witness:
  "ex_NodeName (sample_exec ''mail'' ''node1'' 1 True) = ex_NodeName (sample_exec ''mail'' ''node1'' 1 False)"
  using exec_key_injective [of "sample_exec ''mail'' ''node1'' 1 True" "sample_exec ''mail'' ''node1'' 1 False"]
  by (simp add: sample_exec_def exec_key_def ex_Key_def sample_now_def)

end
