(* ===== verification/Fsm.thy ===== *)
theory Fsm
  imports Store_Executions
begin

text \<open>
  \<open>src/dkron/fsm.go\<close> and \<open>src/dkron/storage.go\<close>: the replicated state machine that applies the
  commands of the Raft log to a storage, and \<open>Encode\<close> of \<open>src/dkron/grpc.go\<close>, which makes the
  commands. The states a replica can reach are an inductive predicate; the storage is used
  through the contract \<open>storage_contract\<close>, which the store meets.
\<close>

section \<open>Commands\<close>

text \<open>The message types, a \<open>uint8\<close> in the first byte of a command.\<close>

definition SetJobType :: nat where "SetJobType = 0"
definition DeleteJobType :: nat where "DeleteJobType = 1"
definition SetExecutionType :: nat where "SetExecutionType = 2"
definition DeleteExecutionsType :: nat where "DeleteExecutionsType = 3"
definition ExecutionDoneType :: nat where "ExecutionDoneType = 4"

lemmas type_defs = SetJobType_def DeleteJobType_def SetExecutionType_def DeleteExecutionsType_def
  ExecutionDoneType_def

text \<open>What \<open>proto.Marshal\<close> gives for the messages that are put on the log.\<close>

datatype message =
    MJob pb_job
  | MDelete pb_delete_job_request
  | MExecution pb_execution
  | MDone pb_execution_done_request

fun marshal :: "'db env \<Rightarrow> message \<Rightarrow> string res" where
  "marshal E (MJob j) = marshal_job E j"
| "marshal E (MDelete r) = marshal_djr E r"
| "marshal E (MExecution x) = marshal_exec E x"
| "marshal E (MDone q) = marshal_edr E q"

text \<open>\<open>Encode\<close> of \<open>grpc.go\<close>.\<close>

definition Encode :: "'db env \<Rightarrow> nat \<Rightarrow> message \<Rightarrow> string res" where
  "Encode E t msg =
     (case marshal E msg of
        Inl e \<Rightarrow> Inl e
      | Inr m \<Rightarrow> Inr (char_of t # m))"

section \<open>The storage interface\<close>

text \<open>\<open>Storage\<close> of \<open>storage.go\<close>, without \<open>Shutdown\<close>, which only \<open>Agent.Stop\<close> calls; the store is its implementation.\<close>

record 'db storage =
  st_SetJob :: "'db \<Rightarrow> job \<Rightarrow> bool \<Rightarrow> err \<times> 'db"
  st_DeleteJob :: "'db \<Rightarrow> string \<Rightarrow> job res \<times> 'db"
  st_SetExecution :: "'db \<Rightarrow> execution \<Rightarrow> string res \<times> 'db"
  st_SetExecutionDone :: "'db \<Rightarrow> execution \<Rightarrow> bool \<times> err \<times> 'db"
  st_GetJobs :: "'db \<Rightarrow> string gomap option \<Rightarrow> job list res"
  st_GetJob :: "'db \<Rightarrow> string \<Rightarrow> job res"
  st_GetExecutions :: "'db \<Rightarrow> string \<Rightarrow> execution list res"
  st_GetLastExecutionGroup :: "'db \<Rightarrow> string \<Rightarrow> execution list res"
  st_GetExecutionGroup :: "'db \<Rightarrow> execution \<Rightarrow> execution list res"
  st_GetGroupedExecutions :: "'db \<Rightarrow> string \<Rightarrow> ((int \<times> execution list) list \<times> int list) res"
  st_Snapshot :: "'db \<Rightarrow> string res"
  st_Restore :: "'db \<Rightarrow> string \<Rightarrow> err \<times> 'db"

definition store_ops :: "'db env \<Rightarrow> 'db storage" where
  "store_ops E = \<lparr>st_SetJob = SetJob E, st_DeleteJob = DeleteJob E, st_SetExecution = SetExecution E,
     st_SetExecutionDone = SetExecutionDone E, st_GetJobs = GetJobs E, st_GetJob = GetJob E,
     st_GetExecutions = GetExecutions E, st_GetLastExecutionGroup = GetLastExecutionGroup E,
     st_GetExecutionGroup = GetExecutionGroup E,
     st_GetGroupedExecutions = GetGroupedExecutions E, st_Snapshot = Snapshot E,
     st_Restore = Restore E\<rparr>"

section \<open>The state machine\<close>

text \<open>The \<open>interface{}\<close> an applier returns.\<close>

datatype response = RNil | RError error | RJob job | RKey string

type_synonym 'db applier = "string \<Rightarrow> nat \<Rightarrow> 'db \<Rightarrow> response \<times> 'db"

definition fsm_applySetJob :: "'db env \<Rightarrow> 'db storage \<Rightarrow> 'db \<Rightarrow> string \<Rightarrow> response \<times> 'db" where
  "fsm_applySetJob E S d buf =
     (case unmarshal_job E buf of
        Inl e \<Rightarrow> (RError e, d)
      | Inr pj \<Rightarrow>
          (case st_SetJob S d (NewJobFromProto E pj) False of
             (Some e, d') \<Rightarrow> (RError e, d')
           | (None, d') \<Rightarrow> (RNil, d')))"

definition applyDeleteJob :: "'db env \<Rightarrow> 'db storage \<Rightarrow> 'db \<Rightarrow> string \<Rightarrow> response \<times> 'db" where
  "applyDeleteJob E S d buf =
     (case unmarshal_djr E buf of
        Inl e \<Rightarrow> (RError e, d)
      | Inr djr \<Rightarrow>
          (case st_DeleteJob S d (djr_JobName djr) of
             (Inl e, d') \<Rightarrow> (RError e, d')
           | (Inr job, d') \<Rightarrow> (RJob job, d')))"

definition applyExecutionDone :: "'db env \<Rightarrow> 'db storage \<Rightarrow> 'db \<Rightarrow> string \<Rightarrow> response \<times> 'db" where
  "applyExecutionDone E S d buf =
     (case unmarshal_edr E buf of
        Inl e \<Rightarrow> (RError e, d)
      | Inr execDoneReq \<Rightarrow>
          (case edr_Execution execDoneReq of
             None \<Rightarrow> (RError (Panic ''nil pointer dereference''), d)
           | Some pbe \<Rightarrow>
               (case st_SetExecutionDone S d (NewExecutionFromProto E pbe) of
                  (_, Some e, d') \<Rightarrow> (RError e, d')
                | (_, None, d') \<Rightarrow> (RNil, d'))))"

definition applySetExecution :: "'db env \<Rightarrow> 'db storage \<Rightarrow> 'db \<Rightarrow> string \<Rightarrow> response \<times> 'db" where
  "applySetExecution E S d buf =
     (case unmarshal_exec E buf of
        Inl e \<Rightarrow> (RError e, d)
      | Inr pbex \<Rightarrow>
          (case st_SetExecution S d (NewExecutionFromProto E pbex) of
             (Inl e, d') \<Rightarrow> (RError e, d')
           | (Inr key, d') \<Rightarrow> (RKey key, d')))"

text \<open>\<open>proAppliers\<close> are the appliers the owner of the agent supplies; \<open>index\<close> is that of the log entry.\<close>

definition Apply ::
    "(nat \<Rightarrow> 'db applier option) \<Rightarrow> 'db env \<Rightarrow> 'db storage \<Rightarrow> 'db \<Rightarrow> string \<Rightarrow> nat \<Rightarrow> response \<times> 'db" where
  "Apply proAppliers E S d buf index =
     (case buf of
        [] \<Rightarrow> (RError (Panic ''index out of range''), d)
      | b # rest \<Rightarrow>
          (let msgType = of_char b in
           if msgType = SetJobType then fsm_applySetJob E S d rest
           else if msgType = DeleteJobType then applyDeleteJob E S d rest
           else if msgType = ExecutionDoneType then applyExecutionDone E S d rest
           else if msgType = SetExecutionType then applySetExecution E S d rest
           else (case proAppliers msgType of
                   Some applier \<Rightarrow> applier rest index d
                 | None \<Rightarrow> (RNil, d))))"

text \<open>
  \<open>Persist\<close> writes the snapshot to a sink: the result is its error and what the sink holds,
  \<open>None\<close> after \<open>Cancel\<close>. \<open>closeSink\<close> is the result of \<open>sink.Close\<close>.
\<close>

definition Persist :: "'db storage \<Rightarrow> 'db \<Rightarrow> err \<Rightarrow> err \<times> string option" where
  "Persist S d closeSink =
     (case st_Snapshot S d of
        Inl e \<Rightarrow> (Some e, None)
      | Inr s \<Rightarrow> (case closeSink of Some e \<Rightarrow> (Some e, Some s) | None \<Rightarrow> (None, Some s)))"

definition fsm_Restore :: "'db storage \<Rightarrow> 'db \<Rightarrow> string \<Rightarrow> err \<times> 'db" where
  "fsm_Restore S d r = st_Restore S d r"

section \<open>The clock of a replica\<close>

text \<open>
  Every replica applies an entry at its own time. Only \<open>now\<close> depends on it, and with it only
  the next run of a job.
\<close>

lemma now_env [simp]:
  "db_get (E\<lparr>now := t\<rparr>) = db_get E" "db_ascend (E\<lparr>now := t\<rparr>) = db_ascend E"
  "unmarshal_job (E\<lparr>now := t\<rparr>) = unmarshal_job E" "unmarshal_exec (E\<lparr>now := t\<rparr>) = unmarshal_exec E"
  "ts_of (E\<lparr>now := t\<rparr>) = ts_of E" "ts_proto (E\<lparr>now := t\<rparr>) = ts_proto E"
  "cron_parse (E\<lparr>now := t\<rparr>) = cron_parse E" "load_location (E\<lparr>now := t\<rparr>) = load_location E"
  by simp_all

lemma now_kv [simp]: "kv (E\<lparr>now := t\<rparr>) = kv E"
  by (simp add: kv_def fun_eq_iff)

lemma now_find_illegal [simp]: "find_illegal (E\<lparr>now := t\<rparr>) s = find_illegal E s"
proof (induction s rule: length_induct)
  case (1 s)
  then show ?case
    using decode_rune_width [of s]
    by (subst (1 2) find_illegal.simps) (simp add: slug_rune_def)
qed

lemma now_Validate [simp]: "Validate (E\<lparr>now := t\<rparr>) = Validate E"
  unfolding Validate_def [abs_def] isSlug_def ext_Parse_def now_env now_find_illegal ..

lemma now_proto [simp]:
  "ToProto (E\<lparr>now := t\<rparr>) = ToProto E" "NewJobFromProto (E\<lparr>now := t\<rparr>) = NewJobFromProto E"
  "ex_ToProto (E\<lparr>now := t\<rparr>) = ex_ToProto E" "NewExecutionFromProto (E\<lparr>now := t\<rparr>) = NewExecutionFromProto E"
  unfolding ToProto_def [abs_def] NewJobFromProto_def [abs_def] nt_ToProto_def nt_FromProto_def
    ex_ToProto_def [abs_def] NewExecutionFromProto_def [abs_def] now_env by (rule refl)+

lemma now_jobs [simp]: "jobs_ok (E\<lparr>now := t\<rparr>) = jobs_ok E" "jobs_of (E\<lparr>now := t\<rparr>) = jobs_of E"
  "execs_ok (E\<lparr>now := t\<rparr>) = execs_ok E" "representable (E\<lparr>now := t\<rparr>) = representable E"
  "exec_ok (E\<lparr>now := t\<rparr>) = exec_ok E" "same_rest (E\<lparr>now := t\<rparr>) = same_rest E"
  "zero_job (E\<lparr>now := t\<rparr>) = zero_job E" "found_job (E\<lparr>now := t\<rparr>) = found_job E"
  unfolding jobs_ok_def [abs_def] jobs_of_def [abs_def] execs_ok_def [abs_def] job_ok_def
    representable_def [abs_def] exec_ok_def [abs_def] same_rest_def [abs_def] zero_job_def
    found_job_def [abs_def] now_env now_kv now_Validate now_proto by (rule refl)+

lemma now_lawful: "lawful_env E \<Longrightarrow> lawful_env (E\<lparr>now := t\<rparr>)"
  by (simp add: lawful_env_def buntdb_def pb_codec_def lawful_env_axioms_def)

section \<open>The log\<close>

text \<open>
  The entries the cluster puts on the log: commands encoded from jobs and executions that
  protobuf can represent. \<open>t\<close> is the time at which the replica applies the entry.
\<close>

inductive log_entry :: "'db env \<Rightarrow> time \<Rightarrow> string \<Rightarrow> bool" for E t where
  set_job: "log_entry E t buf"
    if "Encode E SetJobType (MJob (ToProto E j)) = Inr buf" "representable E j"
      "pb_job_utf8 (ToProto E j)" "next_ok (E\<lparr>now := t\<rparr>) j"
| delete_job: "log_entry E t buf" if "Encode E DeleteJobType (MDelete r) = Inr buf"
| set_execution: "log_entry E t buf"
    if "Encode E SetExecutionType (MExecution (ex_ToProto E x)) = Inr buf" "exec_ok E x"
| execution_done: "log_entry E t buf"
    if "Encode E ExecutionDoneType (MDone \<lparr>edr_Execution = Some (ex_ToProto E x)\<rparr>) = Inr buf" "exec_ok E x"

text \<open>
  The states of a replica: it starts with an empty store, applies entries of the log, and loads
  snapshots that a replica persisted. As in the code a snapshot is loaded into the store as it
  is, fresh after a restart or running with entries of its own, and merged with it. The appliers
  of the owner are not called, because no entry has their types.
\<close>

inductive replica :: "(nat \<Rightarrow> 'db applier option) \<Rightarrow> 'db env \<Rightarrow> 'db \<Rightarrow> bool" for pro E where
  start: "replica pro E d" if "kv E d = Map.empty"
| entry: "replica pro E (snd (Apply pro (E\<lparr>now := t\<rparr>) (store_ops (E\<lparr>now := t\<rparr>)) d buf index))"
    if "replica pro E d" "log_entry E t buf"
| restore: "replica pro E (snd (fsm_Restore (store_ops E) d0 s))"
    if "replica pro E d" "replica pro E d0" "Persist (store_ops E) d closeSink = (e, Some s)"

text \<open>What the state machine needs of a storage: every operation keeps the invariant.\<close>

locale storage_contract =
  fixes S :: "time \<Rightarrow> 'db storage" and inv :: "'db \<Rightarrow> bool"
    and job_arg :: "time \<Rightarrow> job \<Rightarrow> bool" and exec_arg :: "execution \<Rightarrow> bool"
  assumes inv_SetJob: "inv d \<Longrightarrow> job_arg t j \<Longrightarrow> inv (snd (st_SetJob (S t) d j c))"
    and inv_DeleteJob: "inv d \<Longrightarrow> inv (snd (st_DeleteJob (S t) d n))"
    and inv_SetExecution: "inv d \<Longrightarrow> exec_arg x \<Longrightarrow> inv (snd (st_SetExecution (S t) d x))"
    and inv_SetExecutionDone: "inv d \<Longrightarrow> exec_arg x \<Longrightarrow> inv (snd (snd (st_SetExecutionDone (S t) d x)))"
begin

lemma inv_applySetJob:
  assumes "inv d" "\<And>p. unmarshal_job E buf = Inr p \<Longrightarrow> job_arg t (NewJobFromProto E p)"
  shows "inv (snd (fsm_applySetJob E (S t) d buf))"
  using assms inv_SetJob
  by (auto simp: fsm_applySetJob_def split: sum.splits prod.splits option.splits) (metis snd_conv)+

lemma inv_applyDeleteJob: "inv d \<Longrightarrow> inv (snd (applyDeleteJob E (S t) d buf))"
  using inv_DeleteJob
  by (auto simp: applyDeleteJob_def split: sum.splits prod.splits) (metis snd_conv)+

lemma inv_applySetExecution:
  assumes "inv d" "\<And>p. unmarshal_exec E buf = Inr p \<Longrightarrow> exec_arg (NewExecutionFromProto E p)"
  shows "inv (snd (applySetExecution E (S t) d buf))"
  using assms inv_SetExecution
  by (auto simp: applySetExecution_def split: sum.splits prod.splits) (metis snd_conv)+

lemma inv_applyExecutionDone:
  assumes "inv d" "\<And>q p. unmarshal_edr E buf = Inr q \<Longrightarrow> edr_Execution q = Some p \<Longrightarrow>
    exec_arg (NewExecutionFromProto E p)"
  shows "inv (snd (applyExecutionDone E (S t) d buf))"
  using assms inv_SetExecutionDone
  by (auto simp: applyExecutionDone_def split: sum.splits prod.splits option.splits) (metis snd_conv)+

end

text \<open>The store meets the contract.\<close>

definition store_inv :: "'db env \<Rightarrow> 'db \<Rightarrow> bool" where
  "store_inv E d \<longleftrightarrow> jobs_ok E d \<and> execs_ok E d"

definition job_arg :: "'db env \<Rightarrow> time \<Rightarrow> job \<Rightarrow> bool" where
  "job_arg E t j \<longleftrightarrow> representable E j \<and> pb_job_utf8 (ToProto E j) \<and> next_ok (E\<lparr>now := t\<rparr>) j"

lemma store_inv_SetJob:
  assumes "lawful_env E" "store_inv E d" "job_arg E t j"
  shows "store_inv E (snd (SetJob (E\<lparr>now := t\<rparr>) d j c))"
proof -
  obtain d' where "SetJob (E\<lparr>now := t\<rparr>) d j c = (fst (spec_SetJob (E\<lparr>now := t\<rparr>) (jobs_of E d) j c), d')"
    "jobs_ok E d'" "same_rest E d d'"
    using lawful_env.SetJob_n_refines [OF now_lawful [OF assms(1)], of t d j 0 c] assms(2,3)
    by (auto simp: store_inv_def job_arg_def SetJob_def numeral_2_eq_2)
  then show ?thesis
    using assms(2) lawful_env.execs_same_rest(1) [OF assms(1)] by (auto simp: store_inv_def)
qed

lemma store_inv_DeleteJob:
  assumes "lawful_env E" "store_inv E d"
  shows "store_inv E (snd (DeleteJob (E\<lparr>now := t\<rparr>) d n))"
proof -
  obtain d' where d': "DeleteJob (E\<lparr>now := t\<rparr>) d n = (fst (spec_DeleteJob (jobs_of E d) n), d')" "jobs_ok E d'"
    and kv': "\<And>k. \<not> HasPrefix k (job_key []) \<Longrightarrow> kv E d' k = None \<or> kv E d' k = kv E d k"
    using lawful_env.DeleteJob_spec [OF now_lawful [OF assms(1)], of t d n] assms(2)
    by (auto simp: store_inv_def)
  have "\<not> HasPrefix k (job_key [])" if "HasPrefix k (executionsPrefix @ '':'')" for k
    using that by (auto simp: HasPrefix_conv job_key_def jobsPrefix_def executionsPrefix_def)
  then have "execs_ok E d'"
    using kv' assms(2) unfolding execs_ok_def store_inv_def by (metis option.distinct(1))
  with d' show ?thesis by (simp add: store_inv_def)
qed

lemma store_inv_SetExecution:
  assumes "lawful_env E" "store_inv E d" "exec_ok E x"
  shows "store_inv E (snd (SetExecution (E\<lparr>now := t\<rparr>) d x))"
proof -
  have "execs_ok (E\<lparr>now := t\<rparr>) d" "exec_ok (E\<lparr>now := t\<rparr>) x" using assms by (simp_all add: store_inv_def)
  then obtain d' where d': "SetExecution (E\<lparr>now := t\<rparr>) d x = (Inr (exec_key x), d')" "execs_ok E d'"
    and kv': "\<And>k. \<not> HasPrefix k (exec_prefix (ex_JobName x)) \<Longrightarrow> kv E d' k = kv E d k"
    using lawful_env.SetExecution_ok [OF now_lawful [OF assms(1)], of t d x] by (metis now_jobs(3) now_kv)
  have "kv E d' (job_key n) = kv E d (job_key n)" for n
    by (rule kv') (simp add: job_key_def exec_prefix_def jobsPrefix_def executionsPrefix_def)
  with d' assms(2) lawful_env.jobs_kv_cong(2) [OF assms(1)] show ?thesis by (simp add: store_inv_def)
qed

lemma store_inv_SetExecutionDone:
  assumes "lawful_env E" "store_inv E d" "exec_ok E x"
  shows "store_inv E (snd (snd (SetExecutionDone (E\<lparr>now := t\<rparr>) d x)))"
proof (cases "jobs_of E d (ex_JobName x)")
  case None
  with lawful_env.SetExecutionDone_missing [OF now_lawful [OF assms(1)], of t d x] assms(2)
  show ?thesis by (simp add: store_inv_def)
next
  case (Some j)
  with assms have "jobs_ok (E\<lparr>now := t\<rparr>) d" "execs_ok (E\<lparr>now := t\<rparr>) d" "exec_ok (E\<lparr>now := t\<rparr>) x"
    "jobs_of (E\<lparr>now := t\<rparr>) d (ex_JobName x) = Some j" by (simp_all add: store_inv_def)
  from lawful_env.SetExecutionDone_ok [OF now_lawful [OF assms(1)] this] show ?thesis
    by (metis now_jobs(1,3) snd_conv store_inv_def)
qed

sublocale lawful_env \<subseteq> store: storage_contract "\<lambda>t. store_ops (E\<lparr>now := t\<rparr>)" "store_inv E" "job_arg E" "exec_ok E"
  by unfold_locales
    (simp_all add: store_ops_def store_inv_SetJob store_inv_DeleteJob store_inv_SetExecution
      store_inv_SetExecutionDone lawful_env_axioms)

section \<open>The correctness of the replicated log\<close>

text \<open>The appliers on the store, once the message is decoded.\<close>

lemma appliers_store:
  "unmarshal_job E b = Inr (ToProto E j) \<Longrightarrow> representable E j \<Longrightarrow> fsm_applySetJob E (store_ops E) d b =
     (case SetJob E d j False of (None, d') \<Rightarrow> (RNil, d') | (Some e, d') \<Rightarrow> (RError e, d'))"
  "unmarshal_djr E b = Inr r \<Longrightarrow> applyDeleteJob E (store_ops E) d b =
     (case DeleteJob E d (djr_JobName r) of (Inr k, d') \<Rightarrow> (RJob k, d') | (Inl e, d') \<Rightarrow> (RError e, d'))"
  "unmarshal_exec E b = Inr p \<Longrightarrow> applySetExecution E (store_ops E) d b =
     (case SetExecution E d (NewExecutionFromProto E p) of
        (Inr k, d') \<Rightarrow> (RKey k, d') | (Inl e, d') \<Rightarrow> (RError e, d'))"
  "unmarshal_edr E b = Inr q \<Longrightarrow> edr_Execution q = Some p \<Longrightarrow> applyExecutionDone E (store_ops E) d b =
     (case SetExecutionDone E d (NewExecutionFromProto E p) of
        (_, None, d') \<Rightarrow> (RNil, d') | (_, Some e, d') \<Rightarrow> (RError e, d'))"
  by (simp_all add: fsm_applySetJob_def applyDeleteJob_def applySetExecution_def applyExecutionDone_def
      store_ops_def representable_def split: prod.splits sum.splits option.splits)

context lawful_env
begin

lemma Apply_Encode_eqs:
  "Encode E SetJobType (MJob p) = Inr buf \<Longrightarrow> \<exists>b. Apply pro E S d buf i = fsm_applySetJob E S d b \<and> unmarshal_job E b = Inr p"
  "Encode E DeleteJobType (MDelete r) = Inr buf \<Longrightarrow> \<exists>b. Apply pro E S d buf i = applyDeleteJob E S d b \<and> unmarshal_djr E b = Inr r"
  "Encode E SetExecutionType (MExecution x) = Inr buf \<Longrightarrow> \<exists>b. Apply pro E S d buf i = applySetExecution E S d b \<and> unmarshal_exec E b = Inr x"
  "Encode E ExecutionDoneType (MDone q) = Inr buf \<Longrightarrow> \<exists>b. Apply pro E S d buf i = applyExecutionDone E S d b \<and> unmarshal_edr E b = Inr q"
  using job_roundtrip djr_roundtrip exec_roundtrip edr_roundtrip
  by (auto simp: Encode_def Apply_def Let_def type_defs split: sum.splits)

end

lemma now_Encode [simp]: "Encode (E\<lparr>now := t\<rparr>) k m = Encode E k m"
  by (cases m) (simp_all add: Encode_def)

context lawful_env
begin

lemma replica_step_inv:
  assumes inv: "store_inv E d" and entry: "log_entry E t buf"
  shows "store_inv E (snd (Apply pro (E\<lparr>now := t\<rparr>) (store_ops (E\<lparr>now := t\<rparr>)) d buf i))"
proof -
  let ?E = "E\<lparr>now := t\<rparr>"
  note eqs = lawful_env.Apply_Encode_eqs [OF now_lawful [OF lawful_env_axioms], of t, unfolded now_Encode]
  from entry show ?thesis
  proof cases
    case (set_job j)
    from eqs(1) [OF set_job(1)] obtain b where
      "Apply pro ?E (store_ops ?E) d buf i = fsm_applySetJob ?E (store_ops ?E) d b"
      "unmarshal_job ?E b = Inr (ToProto E j)" by metis
    with set_job store.inv_applySetJob [OF inv, of ?E b t] show ?thesis
      by (simp add: job_arg_def representable_def)
  next
    case (delete_job r)
    from eqs(2) [OF delete_job] store.inv_applyDeleteJob [OF inv] show ?thesis by metis
  next
    case (set_execution x)
    from eqs(3) [OF set_execution(1)] obtain b where
      "Apply pro ?E (store_ops ?E) d buf i = applySetExecution ?E (store_ops ?E) d b"
      "unmarshal_exec ?E b = Inr (ex_ToProto E x)" by metis
    with set_execution store.inv_applySetExecution [OF inv, of ?E b t] exec_ok_representable show ?thesis by simp
  next
    case (execution_done x)
    from eqs(4) [OF execution_done(1)] obtain b where
      "Apply pro ?E (store_ops ?E) d buf i = applyExecutionDone ?E (store_ops ?E) d b"
      "unmarshal_edr ?E b = Inr \<lparr>edr_Execution = Some (ex_ToProto E x)\<rparr>" by metis
    moreover have "store_inv E (snd (applyExecutionDone ?E (store_ops ?E) d b))"
      by (rule store.inv_applyExecutionDone [OF inv])
        (use calculation(2) execution_done(2) exec_ok_representable in auto)
    ultimately show ?thesis by simp
  qed
qed

lemma Restore_kv:
  assumes "db_save E d = Inr s"
  obtains d' where "fsm_Restore (store_ops E) d0 s = (None, d')" "kv E d' = kv E d0 ++ kv E d"
  using save_load [OF assms, of d0] by (auto simp: fsm_Restore_def store_ops_def Restore_def kv_def)

lemma store_inv_merge:
  assumes "store_inv E d0" "store_inv E d" "kv E d' = kv E d0 ++ kv E d"
  shows "store_inv E d'"
proof -
  have kv: "kv E d k = Some b \<or> kv E d0 k = Some b" if "kv E d' k = Some b" for k b
    using that assms(3) by (auto simp: map_add_Some_iff)
  have "jobs_ok E d'" using assms(1,2) kv unfolding store_inv_def jobs_ok_def by metis
  moreover have "execs_ok E d'" using assms(1,2) kv unfolding store_inv_def execs_ok_def by metis
  ultimately show ?thesis by (simp add: store_inv_def)
qed

lemma replica_inv: "replica pro E d \<Longrightarrow> store_inv E d"
proof (induction rule: replica.induct)
  case (start d)
  then show ?case by (simp add: store_inv_def jobs_ok_def execs_ok_def)
next
  case (entry d t buf index)
  then show ?case by (simp add: replica_step_inv)
next
  case (restore d d0 closeSink e s)
  have "db_save E d = Inr s"
    using restore(3) by (auto simp: Persist_def store_ops_def Snapshot_def split: sum.splits option.splits)
  from Restore_kv [OF this, of d0] obtain d' where
    "fsm_Restore (store_ops E) d0 s = (None, d')" "kv E d' = kv E d0 ++ kv E d" .
  with store_inv_merge [OF restore.IH(2,1)] show ?case by simp
qed

end

text \<open>
  C28: what \<open>Encode\<close> puts on the log, \<open>Apply\<close> takes off it. A command for a job, a deletion, an
  execution or a finished execution is decoded to the message it was made from, and applied
  by the matching operation of the store; the result of the store is the response.
\<close>

theorem Apply_Encode:
  assumes "lawful_env E" "representable E j" "exec_ok E x"
  shows "(Encode E SetJobType (MJob (ToProto E j)) = Inr buf \<longrightarrow>
      Apply pro E (store_ops E) d buf i =
        (case SetJob E d j False of (None, d') \<Rightarrow> (RNil, d') | (Some e, d') \<Rightarrow> (RError e, d'))) \<and>
    (Encode E DeleteJobType (MDelete r) = Inr buf \<longrightarrow>
      Apply pro E (store_ops E) d buf i =
        (case DeleteJob E d (djr_JobName r) of (Inr k, d') \<Rightarrow> (RJob k, d') | (Inl e, d') \<Rightarrow> (RError e, d'))) \<and>
    (Encode E SetExecutionType (MExecution (ex_ToProto E x)) = Inr buf \<longrightarrow>
      Apply pro E (store_ops E) d buf i =
        (case SetExecution E d x of (Inr k, d') \<Rightarrow> (RKey k, d') | (Inl e, d') \<Rightarrow> (RError e, d'))) \<and>
    (Encode E ExecutionDoneType (MDone \<lparr>edr_Execution = Some (ex_ToProto E x)\<rparr>) = Inr buf \<longrightarrow>
      Apply pro E (store_ops E) d buf i =
        (case SetExecutionDone E d x of (_, None, d') \<Rightarrow> (RNil, d') | (_, Some e, d') \<Rightarrow> (RError e, d')))"
proof (intro conjI impI)
  note eqs = lawful_env.Apply_Encode_eqs [OF assms(1), of _ buf pro "store_ops E" d i]
  have x: "NewExecutionFromProto E (ex_ToProto E x) = x"
    by (rule lawful_env.exec_ok_representable [OF assms(1,3)])
  show "Apply pro E (store_ops E) d buf i =
      (case SetJob E d j False of (None, d') \<Rightarrow> (RNil, d') | (Some e, d') \<Rightarrow> (RError e, d'))"
    if "Encode E SetJobType (MJob (ToProto E j)) = Inr buf"
    using eqs(1) [OF that] assms(2) by (auto simp: appliers_store(1))
  show "Apply pro E (store_ops E) d buf i =
      (case DeleteJob E d (djr_JobName r) of (Inr k, d') \<Rightarrow> (RJob k, d') | (Inl e, d') \<Rightarrow> (RError e, d'))"
    if "Encode E DeleteJobType (MDelete r) = Inr buf"
    using eqs(2) [OF that] by (auto simp: appliers_store(2))
  show "Apply pro E (store_ops E) d buf i =
      (case SetExecution E d x of (Inr k, d') \<Rightarrow> (RKey k, d') | (Inl e, d') \<Rightarrow> (RError e, d'))"
    if "Encode E SetExecutionType (MExecution (ex_ToProto E x)) = Inr buf"
    using eqs(3) [OF that] by (auto simp: appliers_store(3) x)
  show "Apply pro E (store_ops E) d buf i =
      (case SetExecutionDone E d x of (_, None, d') \<Rightarrow> (RNil, d') | (_, Some e, d') \<Rightarrow> (RError e, d'))"
    if "Encode E ExecutionDoneType (MDone \<lparr>edr_Execution = Some (ex_ToProto E x)\<rparr>) = Inr buf"
    using eqs(4) [OF that] by (auto simp: appliers_store(4) x)
qed

text \<open>
  C4: every replica keeps a well-formed store. Starting from an empty store, applying any
  sequence of log entries at any times, and loading any snapshot a replica persisted, into a
  fresh store or into the running one, with which \<open>Restore\<close> merges it, leave only valid jobs
  stored under their own names and only executions stored under their own keys.
\<close>

theorem replica_well_formed:
  assumes "lawful_env E" "replica pro E d"
  shows "jobs_ok E d \<and> execs_ok E d"
  using lawful_env.replica_inv [OF assms] by (simp add: store_inv_def)

text \<open>A command of the sample job, and a replica that has applied it.\<close>

definition sample_set_job :: string where
  "sample_set_job = char_of SetJobType # enc_job (ToProto (ref_env sample_now) (sample_job ''backup'' ''@every 1m'' []))"

lemma sample_set_job_Encode:
  "Encode (ref_env sample_now) SetJobType (MJob (ToProto (ref_env sample_now) (sample_job ''backup'' ''@every 1m'' [])))
     = Inr sample_set_job"
  by (simp add: Encode_def sample_set_job_def) (simp add: ref_env_def)

lemma sample_now_env: "(ref_env sample_now)\<lparr>now := sample_now\<rparr> = ref_env sample_now"
  by (simp add: ref_env_def)

lemma sample_log_entry: "log_entry (ref_env sample_now) sample_now sample_set_job"
  using sample_hyps by (intro log_entry.set_job [OF sample_set_job_Encode]) (simp_all add: sample_now_env)

theorem Apply_Encode_witness:
  "fst (Apply (\<lambda>_. None) (ref_env sample_now) (store_ops (ref_env sample_now)) [] sample_set_job 1) = RNil"
proof -
  have "\<exists>d'. SetJob (ref_env sample_now) [] (sample_job ''backup'' ''@every 1m'' []) False = (None, d')"
    using lawful_env.SetJob_n_refines [OF sample_hyps(1) jobs_ok_Nil sample_hyps(2) sample_hyps(5) sample_hyps(3), of 0 False]
    by (auto simp: spec_SetJob_def sample_valid sample_stored found_job_def Let_def SetJob_def numeral_2_eq_2)
      (simp_all add: sample_job_def)
  then show ?thesis
    using Apply_Encode [OF sample_hyps(1) sample_hyps(2) sample_exec_ok, of "''backup''" "''@every 1m''" "[]" sample_set_job]
      sample_set_job_Encode by auto
qed

theorem replica_well_formed_witness:
  "\<exists>d s. Persist (store_ops (ref_env sample_now)) [] None = (None, Some s) \<and>
    d = snd (Apply (\<lambda>_. None) (ref_env sample_now) (store_ops (ref_env sample_now)) [] sample_set_job 1) \<and>
    jobs_ok (ref_env sample_now) (snd (fsm_Restore (store_ops (ref_env sample_now)) d s))"
proof -
  have start: "replica (\<lambda>_. None) (ref_env sample_now) []"
    by (rule replica.start) (simp add: kv_def ref_env_def ref_ascend_def)
  obtain s where s: "Persist (store_ops (ref_env sample_now)) [] None = (None, Some s)"
    by (simp add: Persist_def store_ops_def Snapshot_def ref_env_def)
  note running = replica.entry [OF start sample_log_entry, of 1, unfolded sample_now_env]
  show ?thesis
    using s replica_well_formed [OF sample_hyps(1) replica.restore [OF start running s]] by blast
qed

section \<open>Replicas with different clocks\<close>

definition but_next :: "(string \<Rightarrow> job option) \<Rightarrow> string \<Rightarrow> job option" where
  "but_next J n = map_option (\<lambda>j. j\<lparr>Next := 0\<rparr>) (J n)"

lemma but_next_upd: "but_next (J(n \<mapsto> j)) = (but_next J)(n \<mapsto> j\<lparr>Next := 0\<rparr>)"
  by (auto simp: but_next_def)

text \<open>Two jobs that differ in their next run only.\<close>

definition same_job :: "job \<Rightarrow> job \<Rightarrow> bool" where
  "same_job i j \<longleftrightarrow> i\<lparr>Next := 0\<rparr> = j\<lparr>Next := 0\<rparr>"

lemma same_job_fields:
  assumes "same_job i j"
  shows "Name i = Name j" "ParentJob i = ParentJob j" "DependentJobs i = DependentJobs j" "Schedule i = Schedule j"
    "same_job (i\<lparr>DependentJobs := ds\<rparr>) (j\<lparr>DependentJobs := ds\<rparr>)"
    "LastError i = LastError j" "LastSuccess i = LastSuccess j" "SuccessCount i = SuccessCount j"
    "ErrorCount i = ErrorCount j" "Status i = Status j"
proof -
  have eq: "i\<lparr>Next := 0\<rparr> = j\<lparr>Next := 0\<rparr>" using assms by (simp add: same_job_def)
  show "Name i = Name j" "ParentJob i = ParentJob j" "DependentJobs i = DependentJobs j" "Schedule i = Schedule j"
    "LastError i = LastError j" "LastSuccess i = LastSuccess j" "SuccessCount i = SuccessCount j"
    "ErrorCount i = ErrorCount j" "Status i = Status j"
    using arg_cong [OF eq, of Name] arg_cong [OF eq, of ParentJob] arg_cong [OF eq, of DependentJobs]
      arg_cong [OF eq, of Schedule] arg_cong [OF eq, of LastError] arg_cong [OF eq, of LastSuccess]
      arg_cong [OF eq, of SuccessCount] arg_cong [OF eq, of ErrorCount] arg_cong [OF eq, of Status]
    by simp_all
  show "same_job (i\<lparr>DependentJobs := ds\<rparr>) (j\<lparr>DependentJobs := ds\<rparr>)"
  proof -
    have "k\<lparr>DependentJobs := ds, Next := 0\<rparr> = k\<lparr>Next := 0, DependentJobs := ds\<rparr>" for k :: job by simp
    then show ?thesis unfolding same_job_def eq by (metis eq)
  qed
qed

lemma same_job_keep: "same_job ei ej \<Longrightarrow> keep_stored ei j c = keep_stored ej j c"
  using same_job_fields [of ei ej] unfolding keep_stored_def by (simp only:)

lemma but_next_cases:
  assumes "but_next J1 = but_next J2"
  obtains "J1 n = None" "J2 n = None" | i j where "J1 n = Some i" "J2 n = Some j" "same_job i j"
  using fun_cong [OF assms, of n] by (cases "J1 n"; cases "J2 n") (auto simp: but_next_def same_job_def)

lemma but_next_None: "but_next J1 = but_next J2 \<Longrightarrow> J1 n = None \<longleftrightarrow> J2 n = None"
  by (erule but_next_cases [of J1 J2 n]) auto

lemma relink_clock:
  assumes eq: "but_next J1 = but_next J2"
  shows "fst (relink J1 p f) = fst (relink J2 p f)" "but_next (snd (relink J1 p f)) = but_next (snd (relink J2 p f))"
proof -
  have "fst (relink J1 p f) = fst (relink J2 p f) \<and> but_next (snd (relink J1 p f)) = but_next (snd (relink J2 p f))"
  proof (rule but_next_cases [OF eq, of p])
    fix i j assume ij: "J1 p = Some i" "J2 p = Some j" "same_job i j"
    have "same_job (i\<lparr>DependentJobs := f (DependentJobs i)\<rparr>) (j\<lparr>DependentJobs := f (DependentJobs j)\<rparr>)"
      unfolding same_job_fields(3) [OF ij(3)] by (rule same_job_fields(5) [OF ij(3)])
    then have "but_next (J1(p \<mapsto> i\<lparr>DependentJobs := f (DependentJobs i)\<rparr>)) =
        but_next (J2(p \<mapsto> j\<lparr>DependentJobs := f (DependentJobs j)\<rparr>))"
      unfolding but_next_upd same_job_def eq by (rule arg_cong)
    with ij eq same_job_fields(2) [OF ij(3)] but_next_None [OF eq, of "ParentJob j"] show ?thesis
      by (simp add: relink_def)
  qed (simp add: relink_def eq)
  then show "fst (relink J1 p f) = fst (relink J2 p f)" "but_next (snd (relink J1 p f)) = but_next (snd (relink J2 p f))"
    by simp_all
qed

lemma stored_job_clock:
  assumes "rel_option same_job a b"
  shows "rel_sum (=) same_job (stored_job (E\<lparr>now := t1\<rparr>) a j c) (stored_job (E\<lparr>now := t2\<rparr>) b j c)"
proof -
  let ?a = "found_job E a" and ?b = "found_job E b"
  have same: "same_job ?a ?b" using assms by (cases a; cases b) (auto simp: found_job_def same_job_def)
  then have k: "keep_stored ?a j c = keep_stored ?b j c" by (rule same_job_keep)
  show ?thesis
    using same_job_fields(4) [OF same]
    by (auto simp: stored_job_def k next_run_def GetNext_def ext_Parse_def same_job_def split: sum.splits)
qed

lemma spec_SetJob_clock:
  assumes eq: "but_next J1 = but_next J2"
  shows "fst (spec_SetJob (E\<lparr>now := t1\<rparr>) J1 j c) = fst (spec_SetJob (E\<lparr>now := t2\<rparr>) J2 j c) \<and>
    but_next (snd (spec_SetJob (E\<lparr>now := t1\<rparr>) J1 j c)) = but_next (snd (spec_SetJob (E\<lparr>now := t2\<rparr>) J2 j c))"
proof -
  let ?n = "Name j" and ?E1 = "E\<lparr>now := t1\<rparr>" and ?E2 = "E\<lparr>now := t2\<rparr>"
  have "rel_option same_job (J1 ?n) (J2 ?n)" by (rule but_next_cases [OF eq, of ?n]) auto
  note st = stored_job_clock [OF this, of t1 E j c t2]
  have o: "ParentJob (found_job E (J1 ?n)) = ParentJob (found_job E (J2 ?n))"
    by (rule but_next_cases [OF eq, of ?n]) (auto simp: found_job_def same_job_fields)
  note none = but_next_None [OF eq, of "ParentJob j"]
  show ?thesis
  proof (cases "stored_job ?E1 (J1 ?n) j c")
    case (Inl e)
    with st have "stored_job ?E2 (J2 ?n) j c = Inl e" by (auto elim: rel_sum.cases)
    with Inl none eq show ?thesis by (auto simp: spec_SetJob_def split: option.splits)
  next
    case (Inr j1)
    with st obtain j2 where j2: "stored_job ?E2 (J2 ?n) j c = Inr j2" "same_job j1 j2"
      by (auto elim: rel_sum.cases)
    have eq1: "but_next (J1(?n \<mapsto> j1)) = but_next (J2(?n \<mapsto> j2))"
      using eq j2(2) by (simp add: but_next_upd same_job_def)
    let ?o = "ParentJob (found_job E (J2 ?n))"
    note r1 = relink_clock [OF eq1, of ?o "filter (\<lambda>m. m \<noteq> ?n)"]
    note r2 = relink_clock [OF r1(2), of "ParentJob j" "\<lambda>ds. ds @ [?n]"]
    obtain e K1 where K1: "relink (J1(?n \<mapsto> j1)) ?o (filter (\<lambda>m. m \<noteq> ?n)) = (e, K1)" by fastforce
    with r1(1) obtain K2 where K2: "relink (J2(?n \<mapsto> j2)) ?o (filter (\<lambda>m. m \<noteq> ?n)) = (e, K2)"
      by (metis fst_conv prod.exhaust_sel)
    show ?thesis
    proof (cases "Validate E j = None \<and> \<not> (ParentJob j \<noteq> [] \<and> J1 (ParentJob j) = None)")
      case True
      then show ?thesis using Inr j2 none eq eq1 r1 r2 o K1 K2
        by (cases "ParentJob j = ?o"; cases e) (auto simp: spec_SetJob_def)
    qed (use none eq in \<open>auto simp: spec_SetJob_def split: option.splits\<close>)
  qed
qed

text \<open>
  Replicas that apply the same job at different times agree on everything but next runs.
  \<open>SetJob\<close> reads the clock of the replica (\<open>GetNext\<close>), so the field \<open>Next\<close> of a job may differ
  from replica to replica; the result of the command and every other field of every job do not.
\<close>

theorem replicas_agree_but_next:
  assumes "lawful_env E" "jobs_ok E d1" "jobs_ok E d2" "job_arg E t1 j" "job_arg E t2 j"
    and "but_next (jobs_of E d1) = but_next (jobs_of E d2)"
  shows "fst (SetJob (E\<lparr>now := t1\<rparr>) d1 j c) = fst (SetJob (E\<lparr>now := t2\<rparr>) d2 j c) \<and>
    but_next (jobs_of E (snd (SetJob (E\<lparr>now := t1\<rparr>) d1 j c))) =
    but_next (jobs_of E (snd (SetJob (E\<lparr>now := t2\<rparr>) d2 j c)))"
proof -
  have *: "fst (SetJob (E\<lparr>now := t\<rparr>) d j c) = fst (spec_SetJob (E\<lparr>now := t\<rparr>) (jobs_of E d) j c) \<and>
      jobs_of E (snd (SetJob (E\<lparr>now := t\<rparr>) d j c)) = snd (spec_SetJob (E\<lparr>now := t\<rparr>) (jobs_of E d) j c)"
    if "jobs_ok E d" "job_arg E t j" for t d
    using lawful_env.SetJob_n_refines [OF now_lawful [OF assms(1)], of t d j 0 c] that
    by (auto simp: job_arg_def SetJob_def numeral_2_eq_2)
  show ?thesis
    using spec_SetJob_clock [OF assms(6), of t1 E j c t2] * [OF assms(2,4)] * [OF assms(3,5)] by simp
qed

lemma sample_job_arg:
  assumes "t \<in> {0, sample_now}"
  shows "job_arg (ref_env sample_now) t (sample_job ''backup'' ''@every 1m'' [])"
proof -
  have p: "cron_parse (ref_env sample_now) ''@every 1m'' = Inr (\<lambda>t. t + 60000000000)"
    by (simp add: ref_env_def ref_cron_parse_def)
  have "Schedule (sample_job ''backup'' ''@every 1m'' []) = ''@every 1m''" by (simp add: sample_job_def)
  then have "next_ok ((ref_env sample_now)\<lparr>now := t\<rparr>) (sample_job ''backup'' ''@every 1m'' [])"
    using assms p
    by (auto simp: next_ok_def GetNext_def ext_Parse_def HasPrefix_def sample_now_def time_ok_def zero_time_def)
  with sample_hyps(2,5) show ?thesis unfolding job_arg_def by blast
qed

theorem replicas_agree_but_next_witness:
  "fst (SetJob ((ref_env sample_now)\<lparr>now := sample_now\<rparr>) [] (sample_job ''backup'' ''@every 1m'' []) False) =
   fst (SetJob ((ref_env sample_now)\<lparr>now := 0\<rparr>) [] (sample_job ''backup'' ''@every 1m'' []) False)"
  using replicas_agree_but_next [OF sample_hyps(1) jobs_ok_Nil jobs_ok_Nil sample_job_arg sample_job_arg] by simp

section \<open>Updating a parent through the log\<close>

text \<open>
  A job set through the log replaces the stored list of dependent jobs by its own.
  \<open>applySetJob\<close> calls \<open>SetJob\<close> without copying the dependent jobs, so an update of a parent
  whose message lists none (a request that omits \<open>dependent_jobs\<close>) erases the list although
  the children still name the job as their parent; the invariant that \<open>SetJob_family\<close> keeps
  under its hypothesis is lost.
\<close>

theorem applySetJob_erases_dependents:
  assumes "lawful_env E" "jobs_ok E d" "jobs_of E d n = Some P" "job_arg E (now E) (P\<lparr>DependentJobs := []\<rparr>)"
    and "jobs_of E d c = Some C" "ParentJob C = n" "ParentJob P = []"
    and "Encode E SetJobType (MJob (ToProto E (P\<lparr>DependentJobs := []\<rparr>))) = Inr buf"
  shows "fst (Apply pro E (store_ops E) d buf i) = RNil \<and>
    \<not> family (jobs_of E (snd (Apply pro E (store_ops E) d buf i)))"
proof -
  let ?Q = "P\<lparr>DependentJobs := []\<rparr>"
  have arg: "representable E ?Q" "pb_job_utf8 (ToProto E ?Q)" "next_ok E ?Q"
    using assms(4) by (simp_all add: job_arg_def)
  have P: "Name P = n" "Validate E P = None"
    using lawful_env.jobs_of_SomeD [OF assms(1-3)] by (simp_all add: job_ok_def)
  have v: "Validate E ?Q = None" using P(2) Validate_cong [of ?Q P E] by simp
  have spec: "spec_SetJob E (jobs_of E d) ?Q False = (None, (jobs_of E d)(n \<mapsto> ?Q))"
    using stored_job_self [of E P "[]"] v P(1) assms(3,7)
    by (simp add: spec_SetJob_def) (simp add: found_job_def)
  obtain d' where d': "SetJob E d ?Q False = (None, d')" "jobs_of E d' = (jobs_of E d)(n \<mapsto> ?Q)"
    using lawful_env.SetJob_n_refines [OF assms(1,2) arg, of 0 False] spec
    by (auto simp: SetJob_def numeral_2_eq_2)
  have "c \<noteq> n" using P assms(3,5,6) by (auto simp: Validate_def split: if_splits)
  then have C: "((jobs_of E d)(n \<mapsto> ?Q)) c = Some C" "((jobs_of E d)(n \<mapsto> ?Q)) n = Some ?Q"
    using assms(5) by simp_all
  have "\<not> family ((jobs_of E d)(n \<mapsto> ?Q))"
  proof
    assume "family ((jobs_of E d)(n \<mapsto> ?Q))"
    then have "c \<in> set (DependentJobs ?Q)" using C assms(6) unfolding family_def by blast
    then show False by simp
  qed
  moreover have "Apply pro E (store_ops E) d buf i = (RNil, d')"
    using lawful_env.Apply_Encode_eqs(1) [OF assms(1,8), of pro "store_ops E" d i] arg(1) d'(1)
    by (auto simp: appliers_store(1))
  ultimately show ?thesis using d'(2) by simp
qed

theorem applySetJob_erases_dependents_witness:
  "\<exists>buf. fst (Apply (\<lambda>_. None) (ref_env sample_now) (store_ops (ref_env sample_now))
       (sample_db [sample_parent, sample_child]) buf 1) = RNil \<and>
     \<not> family (jobs_of (ref_env sample_now) (snd (Apply (\<lambda>_. None) (ref_env sample_now)
         (store_ops (ref_env sample_now)) (sample_db [sample_parent, sample_child]) buf 1)))"
proof -
  let ?E = "ref_env sample_now"
  let ?Q = "sample_parent\<lparr>DependentJobs := []\<rparr>"
  have Q: "?Q = sample_job ''backup'' ''@every 1m'' []" by (simp add: sample_parent_def sample_job_def)
  have "now ?E = sample_now" by (simp add: ref_env_def)
  then have arg: "job_arg ?E (now ?E) ?Q" unfolding Q using sample_job_arg by simp
  have jobs: "jobs_of ?E (sample_db [sample_parent, sample_child]) ''backup'' = Some sample_parent"
    "jobs_of ?E (sample_db [sample_parent, sample_child]) ''mail'' = Some sample_child"
    by (simp_all only: sample_family_jobs) simp_all
  obtain buf where "Encode ?E SetJobType (MJob (ToProto ?E ?Q)) = Inr buf"
    unfolding Q using sample_set_job_Encode by blast
  from applySetJob_erases_dependents [OF sample_hyps(1) sample_family_ok jobs(1) arg jobs(2) _ _ this]
  show ?thesis by auto
qed

end
