(* ===== verification/Replication.thy ===== *)
theory Replication
  imports Fsm
begin

text \<open>
  Copies of the store on different servers: when two copies agree (the same jobs up to the next runs, which
  each server computes from its own clock, and the same executions), and that every command of the log
  keeps copies in agreement, with the same response.
\<close>

section \<open>Two copies of the store\<close>

definition agree :: "'db env \<Rightarrow> 'db \<Rightarrow> 'db \<Rightarrow> bool" where
  "agree E d1 d2 \<longleftrightarrow> but_next (jobs_of E d1) = but_next (jobs_of E d2) \<and> same_rest E d1 d2"

fun same_response :: "response \<Rightarrow> response \<Rightarrow> bool" where
  "same_response (RJob i) (RJob j) = same_job i j"
| "same_response r1 r2 = (r1 = r2)"

lemma same_response_refl [simp]: "same_response r r"
  by (cases r) (simp_all add: same_job_def)

lemma same_rest_sym: "same_rest E d1 d2 \<Longrightarrow> same_rest E d2 d1"
  by (simp add: same_rest_def)

lemma agree_refl [simp]: "agree E d d"
  by (simp add: agree_def)

lemma agree_sym: "agree E d1 d2 \<Longrightarrow> agree E d2 d1"
  by (simp add: agree_def same_rest_sym)

lemma agree_trans: "agree E d1 d2 \<Longrightarrow> agree E d2 d3 \<Longrightarrow> agree E d1 d3"
  by (auto simp: agree_def intro: same_rest_trans)

lemma exec_not_job: "HasPrefix k (executionsPrefix @ '':'') \<Longrightarrow> \<not> HasPrefix k (job_key [])"
  by (auto simp: HasPrefix_conv job_key_def jobsPrefix_def executionsPrefix_def)

lemma sorted_filter_fst_eq:
  assumes "sorted_wrt (<) (map fst xs)" "sorted_wrt (<) (map fst ys)"
    and "\<And>k v. P k \<Longrightarrow> (k, v) \<in> set xs \<longleftrightarrow> (k, v) \<in> set (ys :: ('k :: linorder \<times> 'v) list)"
  shows "filter (\<lambda>(k, v). P k) xs = filter (\<lambda>(k, v). P k) ys"
proof -
  let ?f = "filter (\<lambda>(k, v). P k)"
  have set: "set (?f xs) = set (?f ys)" using assms(3) by auto
  have sorted: "sorted_wrt (\<lambda>a b. fst a < fst b) (?f zs)" if "sorted_wrt (<) (map fst zs)" for zs :: "('k \<times> 'v) list"
    using that by (simp add: sorted_wrt_map sorted_wrt_filter)
  show ?thesis
  proof (rule map_sorted_distinct_set_unique [where f = fst])
    have fsts: "sorted_wrt (<) (map fst (?f zs))" if "sorted_wrt (<) (map fst zs)" for zs :: "('k \<times> 'v) list"
      using sorted [OF that] by (simp add: sorted_wrt_map)
    show "sorted (map fst (?f xs))" "distinct (map fst (?f xs))" "sorted (map fst (?f ys))" "distinct (map fst (?f ys))"
      using fsts [OF assms(1)] fsts [OF assms(2)] strict_sorted_iff by blast+
    show "set (?f xs) = set (?f ys)" by (rule set)
    show "inj_on fst (set (?f xs) \<union> set (?f ys))"
      using fsts [OF assms(1)] set strict_sorted_iff distinct_map by (metis sup.idem)
  qed
qed

context lawful_env
begin

text \<open>The executions of a job are read from the keys of its executions only.\<close>

lemma executions_cong:
  assumes "same_rest E d1 d2" "execs_ok E d1" "execs_ok E d2" "CHR '':'' \<notin> set n"
  shows "executions E d1 n = executions E d2 n"
proof -
  have kv: "kv E d1 k = kv E d2 k" if "HasPrefix k (exec_prefix n)" for k
    using assms(1) that exec_not_job exec_prefix_prefix by (simp add: same_rest_def)
  have "filter (\<lambda>(k, b). HasPrefix k (exec_prefix n)) (db_ascend E d1) = filter (\<lambda>(k, b). HasPrefix k (exec_prefix n)) (db_ascend E d2)"
    using kv by (intro sorted_filter_fst_eq ascend_sorted) (simp add: ascend_mem_iff kv_def)
  moreover have "exec_at E d1 k = exec_at E d2 k" if "HasPrefix k (exec_prefix n)" for k
    using kv [OF that] by (simp add: exec_at_def)
  ultimately show ?thesis
    unfolding executions_eq(1) [OF assms(2,4)] executions_eq(1) [OF assms(3,4)] by (auto intro!: map_cong)
qed

text \<open>What \<open>setExecutionTxFunc\<close> writes depends on its own key only.\<close>

lemma setExecutionTxFunc_cong:
  assumes "kv E d1 k = kv E d2 k"
  obtains e v where "fst (setExecutionTxFunc E k p d1) = e" "fst (setExecutionTxFunc E k p d2) = e"
    "kv E (snd (setExecutionTxFunc E k p d1)) = (kv E d1)(k := v)"
    "kv E (snd (setExecutionTxFunc E k p d2)) = (kv E d2)(k := v)"
proof -
  have "\<exists>e v. \<forall>d. kv E d k = kv E d2 k \<longrightarrow> fst (setExecutionTxFunc E k p d) = e \<and>
     kv E (snd (setExecutionTxFunc E k p d)) = (kv E d)(k := v)"
  proof -
    define wr where "wr d = (case marshal_exec E p of
                     Inl e \<Rightarrow> (Some e, d)
                   | Inr eb \<Rightarrow> (case db_set E d k eb of Inl e \<Rightarrow> (Some e, d) | Inr tx' \<Rightarrow> (None, tx')))" for d
    have w: "\<exists>e v. \<forall>d. kv E d k = kv E d2 k \<longrightarrow> fst (wr d) = e \<and> kv E (snd (wr d)) = (kv E d)(k := v)"
    proof (cases "marshal_exec E p")
      case (Inl e)
      then show ?thesis by (intro exI [of _ "Some e"] exI [of _ "kv E d2 k"]) (auto simp: wr_def)
    next
      case (Inr b)
      have "fst (wr d) = None \<and> kv E (snd (wr d)) = (kv E d)(k \<mapsto> b)" for d
        using set_kv [of d k b] Inr by (auto simp: wr_def)
      then show ?thesis by blast
    qed
    have "(\<forall>d. kv E d k = kv E d2 k \<longrightarrow> setExecutionTxFunc E k p d = wr d) \<or>
        (\<exists>e. \<forall>d. kv E d k = kv E d2 k \<longrightarrow> setExecutionTxFunc E k p d = (e, d))"
    proof (cases "kv E d2 k")
      case None
      then show ?thesis by (simp add: setExecutionTxFunc_def get_kv Let_def wr_def)
    next
      case (Some b)
      then show ?thesis
        by (cases "unmarshal_exec E b"; cases "pe_FinishedAt (projr (unmarshal_exec E b))"; cases "pe_FinishedAt p")
          (auto simp: setExecutionTxFunc_def get_kv Let_def wr_def)
    qed
    then show ?thesis
    proof
      assume "\<exists>e. \<forall>d. kv E d k = kv E d2 k \<longrightarrow> setExecutionTxFunc E k p d = (e, d)"
      then obtain e where "\<forall>d. kv E d k = kv E d2 k \<longrightarrow> setExecutionTxFunc E k p d = (e, d)" ..
      then show ?thesis by (intro exI [of _ e] exI [of _ "kv E d2 k"]) (auto simp: fun_eq_iff)
    qed (use w in auto)
  qed
  with assms that show ?thesis by metis
qed

end

section \<open>Operations that do not read the clock\<close>

lemma now_fields:
  "db_get (E\<lparr>now := t\<rparr>) = db_get E" "db_ascend (E\<lparr>now := t\<rparr>) = db_ascend E" "db_set (E\<lparr>now := t\<rparr>) = db_set E"
  "db_delete (E\<lparr>now := t\<rparr>) = db_delete E" "db_commit (E\<lparr>now := t\<rparr>) = db_commit E"
  "db_rollback (E\<lparr>now := t\<rparr>) = db_rollback E" "marshal_job (E\<lparr>now := t\<rparr>) = marshal_job E"
  "unmarshal_job (E\<lparr>now := t\<rparr>) = unmarshal_job E" "marshal_exec (E\<lparr>now := t\<rparr>) = marshal_exec E"
  "unmarshal_exec (E\<lparr>now := t\<rparr>) = unmarshal_exec E" "sort_started (E\<lparr>now := t\<rparr>) = sort_started E"
  by simp_all

lemma now_db_Update: "db_Update (E\<lparr>now := t\<rparr>) = db_Update E"
  unfolding db_Update_def [abs_def] now_fields by (rule refl)

lemma now_evict: "evict (E\<lparr>now := t\<rparr>) = evict E"
proof (intro ext)
  show "evict (E\<lparr>now := t\<rparr>) d xs = evict E d xs" for d xs
    by (induction xs arbitrary: d) (simp_all add: now_db_Update)
qed

lemma now_unmarshalExecutions: "unmarshalExecutions (E\<lparr>now := t\<rparr>) = unmarshalExecutions E"
proof (intro ext)
  show "unmarshalExecutions (E\<lparr>now := t\<rparr>) kvs = unmarshalExecutions E kvs" for kvs
    by (induction E kvs rule: unmarshalExecutions.induct) (simp_all split: sum.splits)
qed

lemma now_executions:
  "listTxFunc (E\<lparr>now := t\<rparr>) = listTxFunc E"
  "GetExecutions (E\<lparr>now := t\<rparr>) = GetExecutions E"
  "setExecutionTxFunc (E\<lparr>now := t\<rparr>) = setExecutionTxFunc E"
  "computeStatus (E\<lparr>now := t\<rparr>) = computeStatus E"
  unfolding listTxFunc_def [abs_def] GetExecutions_def [abs_def] list_kvs_def [abs_def] setExecutionTxFunc_def [abs_def]
    computeStatus_def [abs_def] now_fields now_unmarshalExecutions now_proto by (rule refl)+

lemma now_SetExecution [simp]: "SetExecution (E\<lparr>now := t\<rparr>) = SetExecution E"
  unfolding SetExecution_def [abs_def] now_fields now_proto now_db_Update now_executions now_evict by (rule refl)

lemma now_SetExecutionDone [simp]: "SetExecutionDone (E\<lparr>now := t\<rparr>) = SetExecutionDone E"
  unfolding SetExecutionDone_def [abs_def] SetExecutionDoneTx_def [abs_def] setJobTxFunc_def [abs_def]
    getJobTxFunc_def [abs_def] now_fields now_proto now_db_Update now_executions by (rule refl)

section \<open>Every command keeps the copies in agreement\<close>

lemma but_next_SomeD:
  assumes "but_next J1 = but_next J2" "J1 n = Some i"
  obtains j where "J2 n = Some j" "same_job i j"
  using but_next_cases [OF assms(1), of n] assms(2) by (metis option.distinct(1) option.inject)

lemma but_next_delete: "but_next J1 = but_next J2 \<Longrightarrow> but_next (J1(n := None)) = but_next (J2(n := None))"
  by (simp add: but_next_def fun_eq_iff)

lemma spec_DeleteJob_clock:
  assumes eq: "but_next J1 = but_next J2"
  shows "rel_sum (=) same_job (fst (spec_DeleteJob J1 n)) (fst (spec_DeleteJob J2 n)) \<and>
    but_next (snd (spec_DeleteJob J1 n)) = but_next (snd (spec_DeleteJob J2 n))"
proof (rule but_next_cases [OF eq, of n])
  fix i j assume ij: "J1 n = Some i" "J2 n = Some j" "same_job i j"
  note r = relink_clock [OF but_next_delete [OF eq, of n], of "ParentJob i" "filter (\<lambda>m. m \<noteq> n)"]
  show ?thesis
    using ij same_job_fields(2,3) [OF ij(3)] eq r
    by (auto simp: spec_DeleteJob_def split: prod.splits option.splits)
qed (use eq in \<open>auto simp: spec_DeleteJob_def\<close>)

lemma same_job_done: "same_job i j \<Longrightarrow> same_job (done_job i x s) (done_job j x s)"
  using same_job_fields(8,9) [of i j] by (cases i; cases j) (auto simp: same_job_def done_job_def)

context lawful_env
begin

lemma agree_exec_at: "agree E d1 d2 \<Longrightarrow> exec_at E d1 (exec_key x) = exec_at E d2 (exec_key x)"
  using exec_key_not_job [of x] by (simp add: agree_def same_rest_def exec_at_def)

lemma agree_executions:
  "agree E d1 d2 \<Longrightarrow> store_inv E d1 \<Longrightarrow> store_inv E d2 \<Longrightarrow> CHR '':'' \<notin> set n \<Longrightarrow> executions E d1 n = executions E d2 n"
  using executions_cong by (auto simp: agree_def store_inv_def)

lemma agree_recorded:
  assumes "agree E d1 d2" "store_inv E d1" "store_inv E d2" "exec_ok E x"
  shows "recorded E d1 x = recorded E d2 x"
  using agree_exec_at [OF assms(1)] agree_executions [OF assms(1-3), of "ex_JobName x"] assms(4)
  by (simp add: recorded_def exec_ok_def)

lemma agreeI:
  assumes "agree E d1 d2" "kv E d1' = (\<lambda>k. if k \<in> K then f k else kv E d1 k)"
    "kv E d2' = (\<lambda>k. if k \<in> K then f k else kv E d2 k)" "\<And>n. job_key n \<notin> K"
  shows "agree E d1' d2'"
proof -
  have "jobs_of E d1' = jobs_of E d1" "jobs_of E d2' = jobs_of E d2"
    using assms(2-4) by (auto intro!: jobs_kv_cong)
  with assms show ?thesis by (simp add: agree_def same_rest_def)
qed

lemma agree_SetExecution:
  assumes a: "agree E d1 d2" and inv: "store_inv E d1" "store_inv E d2" and x: "exec_ok E x"
  shows "fst (SetExecution E d1 x) = fst (SetExecution E d2 x) \<and> agree E (snd (SetExecution E d1 x)) (snd (SetExecution E d2 x))"
proof -
  let ?k = "exec_key x" and ?n = "ex_JobName x"
  let ?f = "setExecutionTxFunc E ?k (ex_ToProto E x)"
  have colon: "CHR '':'' \<notin> set ?n" using x by (simp add: exec_ok_def)
  have eok: "execs_ok E d1" "execs_ok E d2" using inv by (simp_all add: store_inv_def)
  have "kv E d1 ?k = kv E d2 ?k" using a exec_key_not_job by (simp add: agree_def same_rest_def)
  then obtain e v where ev: "fst (?f d1) = e" "fst (?f d2) = e" "kv E (snd (?f d1)) = (kv E d1)(?k := v)"
    "kv E (snd (?f d2)) = (kv E d2)(?k := v)" by (rule setExecutionTxFunc_cong)
  obtain d1' where d1': "?f d1 = (None, d1')" "execs_ok E d1'" using setExecutionTxFunc_ok [OF eok(1) x] by metis
  obtain d2' where d2': "?f d2 = (None, d2')" "execs_ok E d2'" using setExecutionTxFunc_ok [OF eok(2) x] by metis
  have notjob: "job_key n \<noteq> exec_key y" for n y by (metis HasPrefix_job_key exec_key_not_job)
  have a': "agree E d1' d2'"
    using ev d1' d2' notjob by (intro agreeI [OF a, of d1' "{?k}" "\<lambda>_. v"]) auto
  then have ex: "executions E d1' ?n = executions E d2' ?n"
    using executions_cong [OF _ d1'(2) d2'(2) colon] by (simp add: agree_def)
  define L where "L = executions E d1' ?n"
  define old where "old = take (length L - MaxExecutions) (sort_started E L)"
  have s: "SetExecution E d1 x = (Inr ?k, evict E d1' old)" "SetExecution E d2 x = (Inr ?k, evict E d2' old)"
    by (simp_all add: SetExecution_def Let_def db_Update_eq d1' d2' old_def L_def ex flip: executions_def)
  have "agree E (evict E d1' old) (evict E d2' old)"
    using notjob by (intro agreeI [OF a', of _ "exec_key ` set old" "\<lambda>_. None"]) (auto simp: evict_kv)
  with s show ?thesis by simp
qed

lemma setJobTxFunc_rest:
  assumes "setJobTxFunc E p d = (e, d')"
  shows "same_rest E d d'"
proof (cases "marshal_job E p")
  case (Inr b)
  obtain d1 where d1: "db_set E d (job_key (pj_Name p)) b = Inr d1" "kv E d1 = (kv E d)(job_key (pj_Name p) \<mapsto> b)"
    using set_kv by blast
  then show ?thesis using assms Inr HasPrefix_job_key [of "pj_Name p"] by (auto simp: setJobTxFunc_def same_rest_def)
qed (use assms in \<open>auto simp: setJobTxFunc_def\<close>)

lemma SetExecutionDone_rest:
  assumes "SetExecutionDone E d x = (True, None, d')"
  shows "same_rest E (snd (setExecutionTxFunc E (exec_key x) (ex_ToProto E x) d)) d'"
proof -
  have "SetExecutionDoneTx E x d = (None, d')"
    using assms by (auto simp: SetExecutionDone_def db_Update_eq split: prod.splits option.splits)
  then show ?thesis
    by (auto simp: SetExecutionDoneTx_def Let_def split: sum.splits if_splits prod.splits option.splits
        dest!: setJobTxFunc_rest)
qed

lemma agree_SetExecutionDone:
  assumes a: "agree E d1 d2" and inv: "store_inv E d1" "store_inv E d2" and x: "exec_ok E x"
  shows "fst (snd (SetExecutionDone E d1 x)) = fst (snd (SetExecutionDone E d2 x)) \<and>
    agree E (snd (snd (SetExecutionDone E d1 x))) (snd (snd (SetExecutionDone E d2 x)))"
proof -
  let ?n = "ex_JobName x" and ?k = "exec_key x"
  let ?f = "setExecutionTxFunc E ?k (ex_ToProto E x)"
  have ok: "jobs_ok E d1" "execs_ok E d1" "jobs_ok E d2" "execs_ok E d2" using inv by (simp_all add: store_inv_def)
  have eq: "but_next (jobs_of E d1) = but_next (jobs_of E d2)" using a by (simp add: agree_def)
  show ?thesis
  proof (rule but_next_cases [OF eq, of ?n])
    assume "jobs_of E d1 ?n = None" "jobs_of E d2 ?n = None"
    then show ?thesis using a SetExecutionDone_missing ok by simp
  next
    fix i j assume ij: "jobs_of E d1 ?n = Some i" "jobs_of E d2 ?n = Some j" "same_job i j"
    obtain d1' where d1': "SetExecutionDone E d1 x = (True, None, d1')"
      "jobs_of E d1' = (jobs_of E d1)(?n \<mapsto> done_job i x (group_status (recorded E d1 x) (ex_Group x)))"
      using SetExecutionDone_ok [OF ok(1,2) x ij(1)] by metis
    obtain d2' where d2': "SetExecutionDone E d2 x = (True, None, d2')"
      "jobs_of E d2' = (jobs_of E d2)(?n \<mapsto> done_job j x (group_status (recorded E d2 x) (ex_Group x)))"
      using SetExecutionDone_ok [OF ok(3,4) x ij(2)] by metis
    have "kv E d1 ?k = kv E d2 ?k" using a exec_key_not_job by (simp add: agree_def same_rest_def)
    then obtain v where v: "kv E (snd (?f d1)) = (kv E d1)(?k := v)" "kv E (snd (?f d2)) = (kv E d2)(?k := v)"
      by (rule setExecutionTxFunc_cong)
    have "same_rest E d1' d2'"
      using SetExecutionDone_rest [OF d1'(1)] SetExecutionDone_rest [OF d2'(1)] a v by (auto simp: same_rest_def agree_def)
    moreover have "but_next (jobs_of E d1') = but_next (jobs_of E d2')"
      using eq same_job_done [OF ij(3)] agree_recorded [OF a inv x] by (simp add: d1'(2) d2'(2) but_next_upd same_job_def)
    ultimately show ?thesis using d1'(1) d2'(1) by (simp add: agree_def)
  qed
qed

end

lemma agree_SetJob:
  assumes "lawful_env E" and a: "agree E d1 d2" and inv: "store_inv E d1" "store_inv E d2"
    and j: "job_arg E t1 j" "job_arg E t2 j"
  shows "fst (SetJob (E\<lparr>now := t1\<rparr>) d1 j c) = fst (SetJob (E\<lparr>now := t2\<rparr>) d2 j c) \<and>
    agree E (snd (SetJob (E\<lparr>now := t1\<rparr>) d1 j c)) (snd (SetJob (E\<lparr>now := t2\<rparr>) d2 j c))"
proof -
  have *: "fst (SetJob (E\<lparr>now := t\<rparr>) d j c) = fst (spec_SetJob (E\<lparr>now := t\<rparr>) (jobs_of E d) j c) \<and>
      jobs_of E (snd (SetJob (E\<lparr>now := t\<rparr>) d j c)) = snd (spec_SetJob (E\<lparr>now := t\<rparr>) (jobs_of E d) j c) \<and>
      same_rest E d (snd (SetJob (E\<lparr>now := t\<rparr>) d j c))"
    if "store_inv E d" "job_arg E t j" for t d
    using lawful_env.SetJob_n_refines [OF now_lawful [OF assms(1)], of t d j 0 c] that
    by (auto simp: job_arg_def store_inv_def SetJob_def numeral_2_eq_2)
  note 1 = * [OF inv(1) j(1)] and 2 = * [OF inv(2) j(2)]
  have "same_rest E (snd (SetJob (E\<lparr>now := t1\<rparr>) d1 j c)) (snd (SetJob (E\<lparr>now := t2\<rparr>) d2 j c))"
    using a 1 2 by (auto simp: agree_def same_rest_def)
  then show ?thesis
    using a spec_SetJob_clock [of "jobs_of E d1" "jobs_of E d2" t1 E j c t2] 1 2 by (simp add: agree_def)
qed

lemma agree_DeleteJob:
  assumes "lawful_env E" and a: "agree E d1 d2" and inv: "store_inv E d1" "store_inv E d2"
  shows "rel_sum (=) same_job (fst (DeleteJob (E\<lparr>now := t1\<rparr>) d1 n)) (fst (DeleteJob (E\<lparr>now := t2\<rparr>) d2 n)) \<and>
    agree E (snd (DeleteJob (E\<lparr>now := t1\<rparr>) d1 n)) (snd (DeleteJob (E\<lparr>now := t2\<rparr>) d2 n))"
proof -
  have *: "fst (DeleteJob (E\<lparr>now := t\<rparr>) d n) = fst (spec_DeleteJob (jobs_of E d) n) \<and>
      jobs_of E (snd (DeleteJob (E\<lparr>now := t\<rparr>) d n)) = snd (spec_DeleteJob (jobs_of E d) n) \<and>
      (\<forall>k. \<not> HasPrefix k (job_key []) \<longrightarrow> kv E (snd (DeleteJob (E\<lparr>now := t\<rparr>) d n)) k =
         (if jobs_of E d n \<noteq> None \<and> deps_of (jobs_of E d) n = [] \<and> HasPrefix k (executionsPrefix @ '':'' @ n)
          then None else kv E d k))"
    if "store_inv E d" for t d
    using lawful_env.DeleteJob_spec [OF now_lawful [OF assms(1)], of t d n] that by (auto simp: store_inv_def)
  have eq: "but_next (jobs_of E d1) = but_next (jobs_of E d2)" using a by (simp add: agree_def)
  have cond: "jobs_of E d1 n \<noteq> None \<and> deps_of (jobs_of E d1) n = [] \<longleftrightarrow> jobs_of E d2 n \<noteq> None \<and> deps_of (jobs_of E d2) n = []"
    by (rule but_next_cases [OF eq, of n]) (auto simp: deps_of_def same_job_fields)
  show ?thesis
    using * [OF inv(1), of t1] * [OF inv(2), of t2] spec_DeleteJob_clock [OF eq, of n] a cond
    by (auto simp: agree_def same_rest_def)
qed

section \<open>Commands of the log\<close>

text \<open>
  The commands the servers put on the log, as \<open>log_entry\<close>, for replicas that may apply them at any
  time of \<open>T\<close>.
\<close>

inductive command :: "'db env \<Rightarrow> time set \<Rightarrow> string \<Rightarrow> bool" for E T where
  set_job: "command E T buf"
    if "Encode E SetJobType (MJob (ToProto E j)) = Inr buf" "\<forall>t\<in>T. job_arg E t j"
| delete_job: "command E T buf" if "Encode E DeleteJobType (MDelete r) = Inr buf"
| set_execution: "command E T buf"
    if "Encode E SetExecutionType (MExecution (ex_ToProto E x)) = Inr buf" "exec_ok E x"
| execution_done: "command E T buf"
    if "Encode E ExecutionDoneType (MDone \<lparr>edr_Execution = Some (ex_ToProto E x)\<rparr>) = Inr buf" "exec_ok E x"

lemma command_entry:
  assumes "command E T buf" "t \<in> T"
  shows "log_entry E t buf"
  using assms
  by cases (auto simp: job_arg_def intro: log_entry.intros)

lemma Apply_clock:
  assumes "lawful_env E"
  shows "Encode E SetJobType (MJob (ToProto E j)) = Inr buf \<Longrightarrow> representable E j \<Longrightarrow>
      Apply pro (E\<lparr>now := t\<rparr>) (store_ops (E\<lparr>now := t\<rparr>)) d buf i =
        (case SetJob (E\<lparr>now := t\<rparr>) d j False of (None, d') \<Rightarrow> (RNil, d') | (Some e, d') \<Rightarrow> (RError e, d'))"
    "Encode E DeleteJobType (MDelete r) = Inr buf \<Longrightarrow>
      Apply pro (E\<lparr>now := t\<rparr>) (store_ops (E\<lparr>now := t\<rparr>)) d buf i =
        (case DeleteJob (E\<lparr>now := t\<rparr>) d (djr_JobName r) of (Inr k, d') \<Rightarrow> (RJob k, d') | (Inl e, d') \<Rightarrow> (RError e, d'))"
    "Encode E SetExecutionType (MExecution (ex_ToProto E x)) = Inr buf \<Longrightarrow> exec_ok E x \<Longrightarrow>
      Apply pro (E\<lparr>now := t\<rparr>) (store_ops (E\<lparr>now := t\<rparr>)) d buf i =
        (case SetExecution E d x of (Inr k, d') \<Rightarrow> (RKey k, d') | (Inl e, d') \<Rightarrow> (RError e, d'))"
    "Encode E ExecutionDoneType (MDone \<lparr>edr_Execution = Some (ex_ToProto E x)\<rparr>) = Inr buf \<Longrightarrow> exec_ok E x \<Longrightarrow>
      Apply pro (E\<lparr>now := t\<rparr>) (store_ops (E\<lparr>now := t\<rparr>)) d buf i =
        (case SetExecutionDone E d x of (_, None, d') \<Rightarrow> (RNil, d') | (_, Some e, d') \<Rightarrow> (RError e, d'))"
proof -
  let ?E = "E\<lparr>now := t\<rparr>"
  note eqs = lawful_env.Apply_Encode_eqs [OF now_lawful [OF assms], of t, unfolded now_Encode]
  note st = appliers_store [of ?E]
  show "Apply pro ?E (store_ops ?E) d buf i =
      (case SetJob ?E d j False of (None, d') \<Rightarrow> (RNil, d') | (Some e, d') \<Rightarrow> (RError e, d'))"
    if h: "Encode E SetJobType (MJob (ToProto E j)) = Inr buf" "representable E j"
  proof -
    obtain b where b: "Apply pro ?E (store_ops ?E) d buf i = fsm_applySetJob ?E (store_ops ?E) d b"
      "unmarshal_job ?E b = Inr (ToProto ?E j)"
      using eqs(1) [OF h(1), of pro "store_ops ?E" d i] by auto
    from st(1) [OF b(2), of d] h(2) b(1) show ?thesis by simp
  qed
  show "Apply pro ?E (store_ops ?E) d buf i =
      (case DeleteJob ?E d (djr_JobName r) of (Inr k, d') \<Rightarrow> (RJob k, d') | (Inl e, d') \<Rightarrow> (RError e, d'))"
    if h: "Encode E DeleteJobType (MDelete r) = Inr buf"
  proof -
    obtain b where b: "Apply pro ?E (store_ops ?E) d buf i = applyDeleteJob ?E (store_ops ?E) d b"
      "unmarshal_djr ?E b = Inr r"
      using eqs(2) [OF h(1), of pro "store_ops ?E" d i] by auto
    from st(2) [OF b(2), of d] b(1) show ?thesis by simp
  qed
  have x: "NewExecutionFromProto ?E (ex_ToProto E x) = x" if "exec_ok E x"
    using lawful_env.exec_ok_representable [OF assms that] by simp
  show "Apply pro ?E (store_ops ?E) d buf i =
      (case SetExecution E d x of (Inr k, d') \<Rightarrow> (RKey k, d') | (Inl e, d') \<Rightarrow> (RError e, d'))"
    if h: "Encode E SetExecutionType (MExecution (ex_ToProto E x)) = Inr buf" "exec_ok E x"
  proof -
    obtain b where b: "Apply pro ?E (store_ops ?E) d buf i = applySetExecution ?E (store_ops ?E) d b"
      "unmarshal_exec ?E b = Inr (ex_ToProto E x)"
      using eqs(3) [OF h(1), of pro "store_ops ?E" d i] by auto
    from st(3) [OF b(2), of d] b(1) show ?thesis unfolding x [OF h(2)] now_SetExecution by simp
  qed
  show "Apply pro ?E (store_ops ?E) d buf i =
      (case SetExecutionDone E d x of (_, None, d') \<Rightarrow> (RNil, d') | (_, Some e, d') \<Rightarrow> (RError e, d'))"
    if h: "Encode E ExecutionDoneType (MDone \<lparr>edr_Execution = Some (ex_ToProto E x)\<rparr>) = Inr buf" "exec_ok E x"
  proof -
    obtain b where b: "Apply pro ?E (store_ops ?E) d buf i = applyExecutionDone ?E (store_ops ?E) d b"
      "unmarshal_edr ?E b = Inr \<lparr>edr_Execution = Some (ex_ToProto E x)\<rparr>"
      using eqs(4) [OF h(1), of pro "store_ops ?E" d i] by auto
    from st(4) [OF b(2) pb_execution_done_request.select_convs(1), of d] b(1) show ?thesis
      unfolding x [OF h(2)] now_SetExecutionDone by simp
  qed
qed

lemma agree_Apply:
  assumes E: "lawful_env E" and a: "agree E d1 d2" and inv: "store_inv E d1" "store_inv E d2"
    and cmd: "command E T buf" and t: "t1 \<in> T" "t2 \<in> T"
  shows "same_response (fst (Apply pro (E\<lparr>now := t1\<rparr>) (store_ops (E\<lparr>now := t1\<rparr>)) d1 buf i1))
      (fst (Apply pro (E\<lparr>now := t2\<rparr>) (store_ops (E\<lparr>now := t2\<rparr>)) d2 buf i2)) \<and>
    agree E (snd (Apply pro (E\<lparr>now := t1\<rparr>) (store_ops (E\<lparr>now := t1\<rparr>)) d1 buf i1))
      (snd (Apply pro (E\<lparr>now := t2\<rparr>) (store_ops (E\<lparr>now := t2\<rparr>)) d2 buf i2))"
  using cmd
proof cases
  case (set_job j)
  with t have arg: "job_arg E t1 j" "job_arg E t2 j" by blast+
  then have rep: "representable E j" by (simp add: job_arg_def)
  show ?thesis
    using agree_SetJob [OF E a inv arg, of False]
    by (auto simp: Apply_clock(1) [OF E set_job(1) rep] split: prod.splits option.splits)
next
  case (delete_job r)
  show ?thesis
    using agree_DeleteJob [OF E a inv, of t1 "djr_JobName r" t2]
    by (auto simp: Apply_clock(2) [OF E delete_job] rel_sum.simps split: prod.splits sum.splits)
next
  case (set_execution x)
  show ?thesis
    using lawful_env.agree_SetExecution [OF E a inv set_execution(2)]
    by (auto simp: Apply_clock(3) [OF E set_execution] split: prod.splits sum.splits)
next
  case (execution_done x)
  show ?thesis
    using lawful_env.agree_SetExecutionDone [OF E a inv execution_done(2)]
    by (auto simp: Apply_clock(4) [OF E execution_done] split: prod.splits option.splits)
qed

end
