(* ===== verification/Scheduler.thy ===== *)
theory Scheduler
  imports Store_Jobs
begin

text \<open>
  \<open>src/dkron/scheduler.go\<close>: the scheduler of the leader on top of the cron engine of robfig/cron,
  which is a parameter with the laws of \<open>cron_engine\<close>. Expvars, metrics and logging are left
  out.
\<close>

section \<open>The cron engine\<close>

text \<open>
  robfig/cron: an engine holds entries, each with an identifier, the spec it was added with
  and its job; \<open>cron_Next\<close> is the time an entry runs next. \<open>cron_New\<close> takes the parser the
  engine uses.
\<close>

record 'c cron_lib =
  cron_New :: "(string \<Rightarrow> schedule res) \<Rightarrow> 'c"
  cron_AddJob :: "'c \<Rightarrow> string \<Rightarrow> job \<Rightarrow> (nat \<times> 'c) res"
  cron_Remove :: "'c \<Rightarrow> nat \<Rightarrow> 'c"
  cron_Entries :: "'c \<Rightarrow> (nat \<times> string \<times> job) list"
  cron_Start :: "'c \<Rightarrow> 'c"
  cron_Stop :: "'c \<Rightarrow> 'c"
  cron_Next :: "'c \<Rightarrow> nat \<Rightarrow> time"

section \<open>The scheduler\<close>

record 'c scheduler =
  Cron :: "'c option"
  Started :: bool
  EntryJobMap :: "nat gomap"

definition NewScheduler :: "'c scheduler" where
  "NewScheduler = \<lparr>Cron = None, Started = False, EntryJobMap = []\<rparr>"

definition RemoveJob :: "'c cron_lib \<Rightarrow> 'c scheduler \<Rightarrow> job \<Rightarrow> 'c scheduler res" where
  "RemoveJob L s j =
     (case map_of (EntryJobMap s) (Name j) of
        Some v \<Rightarrow>
          (case Cron s of
             None \<Rightarrow> Inl (Panic ''nil pointer dereference'')
           | Some c \<Rightarrow> Inr (s\<lparr>Cron := Some (cron_Remove L c v),
                              EntryJobMap := AList.delete (Name j) (EntryJobMap s)\<rparr>))
      | None \<Rightarrow> Inr s)"

text \<open>The schedule handed to the engine: with the time zone of the job, where it applies.\<close>

definition tz_schedule :: "job \<Rightarrow> string" where
  "tz_schedule j =
     (if Timezone j \<noteq> [] \<and> \<not> HasPrefix (Schedule j) ''@'' \<and> \<not> HasPrefix (Schedule j) ''TZ='' \<and>
         \<not> HasPrefix (Schedule j) ''CRON_TZ=''
      then ''CRON_TZ='' @ Timezone j @ '' '' @ Schedule j else Schedule j)"

text \<open>The result is the error the caller gets and the scheduler; a panic ends the process.\<close>

definition AddJob :: "'c cron_lib \<Rightarrow> 'c scheduler \<Rightarrow> job \<Rightarrow> (err \<times> 'c scheduler) res" where
  "AddJob L s j =
     (case (if map_of (EntryJobMap s) (Name j) \<noteq> None then RemoveJob L s j else Inr s) of
        Inl e \<Rightarrow> Inl e
      | Inr s1 \<Rightarrow>
          if Disabled j \<or> ParentJob j \<noteq> [] then Inr (None, s1)
          else (case Cron s1 of
                  None \<Rightarrow> Inl (Panic ''nil pointer dereference'')
                | Some c \<Rightarrow>
                    (case cron_AddJob L c (tz_schedule j) j of
                       Inl e \<Rightarrow> Inr (Some e, s1)
                     | Inr (entry_id, c') \<Rightarrow>
                         Inr (None, s1\<lparr>Cron := Some c',
                                EntryJobMap := AList.update (Name j) entry_id (EntryJobMap s1)\<rparr>))))"

text \<open>\<open>Start\<close> drops the errors of \<open>AddJob\<close>.\<close>

fun add_jobs :: "'c cron_lib \<Rightarrow> 'c scheduler \<Rightarrow> job list \<Rightarrow> 'c scheduler res" where
  "add_jobs L s [] = Inr s"
| "add_jobs L s (j # js) =
     (case AddJob L s j of Inl e \<Rightarrow> Inl e | Inr (_, s') \<Rightarrow> add_jobs L s' js)"

definition sched_Start :: "'c cron_lib \<Rightarrow> 'db env \<Rightarrow> 'c scheduler \<Rightarrow> job list \<Rightarrow> 'c scheduler res" where
  "sched_Start L E s jobs =
     (case add_jobs L (s\<lparr>Cron := Some (cron_New L (ext_Parse E))\<rparr>) jobs of
        Inl e \<Rightarrow> Inl e
      | Inr s1 \<Rightarrow> Inr (s1\<lparr>Cron := map_option (cron_Start L) (Cron s1), Started := True\<rparr>))"

definition sched_Stop :: "'c cron_lib \<Rightarrow> 'c scheduler \<Rightarrow> 'c scheduler res" where
  "sched_Stop L s =
     (if Started s then
        (case Cron s of
           None \<Rightarrow> Inl (Panic ''nil pointer dereference'')
         | Some c \<Rightarrow> Inr (s\<lparr>Cron := Some (cron_Stop L c), Started := False\<rparr>))
      else Inr s)"

definition ClearCron :: "'c scheduler \<Rightarrow> 'c scheduler" where
  "ClearCron s = s\<lparr>Cron := None\<rparr>"

definition sched_Restart :: "'c cron_lib \<Rightarrow> 'db env \<Rightarrow> 'c scheduler \<Rightarrow> job list \<Rightarrow> 'c scheduler res" where
  "sched_Restart L E s jobs =
     (case sched_Stop L s of Inl e \<Rightarrow> Inl e | Inr s1 \<Rightarrow> sched_Start L E (ClearCron s1) jobs)"

definition GetEntry :: "'c cron_lib \<Rightarrow> 'c scheduler \<Rightarrow> string \<Rightarrow> (nat \<times> string \<times> job) option res" where
  "GetEntry L s jobName =
     (case Cron s of
        None \<Rightarrow> Inl (Panic ''nil pointer dereference'')
      | Some c \<Rightarrow> Inr (find (\<lambda>(i, spec, j). Name j = jobName) (cron_Entries L c)))"

section \<open>The laws of the engine\<close>

text \<open>
  A new engine has no entries; adding parses the spec, and adds one entry under the next
  number; removing deletes the entry with the number; starting and stopping change no entry.
  \<open>parser c\<close> is the parser the engine was made with, \<open>last_id c\<close> the number given last.
\<close>

locale cron_engine =
  fixes L :: "'c cron_lib" and parser :: "'c \<Rightarrow> string \<Rightarrow> schedule res" and last_id :: "'c \<Rightarrow> nat"
  assumes new_entries: "cron_Entries L (cron_New L p) = []"
    and new_parser: "parser (cron_New L p) = p"
    and new_id: "last_id (cron_New L p) = 0"
    and add_error: "parser c spec = Inl e \<Longrightarrow> cron_AddJob L c spec j = Inl e"
    and add_ok: "parser c spec = Inr s \<Longrightarrow> \<exists>c'. cron_AddJob L c spec j = Inr (Suc (last_id c), c') \<and>
      last_id c' = Suc (last_id c) \<and> parser c' = parser c \<and>
      mset (cron_Entries L c') = add_mset (Suc (last_id c), spec, j) (mset (cron_Entries L c))"
    and remove_entries: "mset (cron_Entries L (cron_Remove L c i)) =
      filter_mset (\<lambda>e. fst e \<noteq> i) (mset (cron_Entries L c))"
    and remove_frame: "parser (cron_Remove L c i) = parser c" "last_id (cron_Remove L c i) = last_id c"
    and start_stop: "mset (cron_Entries L (cron_Start L c)) = mset (cron_Entries L c)"
      "mset (cron_Entries L (cron_Stop L c)) = mset (cron_Entries L c)"
      "last_id (cron_Start L c) = last_id c" "last_id (cron_Stop L c) = last_id c"
      "parser (cron_Start L c) = parser c" "parser (cron_Stop L c) = parser c"

text \<open>
  The invariant: the map knows exactly the entries of the engine, each under the name of its
  job, and the numbers of the entries are distinct and not yet to be given.
\<close>

definition entries :: "'c cron_lib \<Rightarrow> 'c scheduler \<Rightarrow> (nat \<times> string \<times> job) set" where
  "entries L s = (case Cron s of None \<Rightarrow> {} | Some c \<Rightarrow> set (cron_Entries L c))"

definition sched_ok :: "'c cron_lib \<Rightarrow> ('c \<Rightarrow> nat) \<Rightarrow> 'c scheduler \<Rightarrow> bool" where
  "sched_ok L last_id s \<longleftrightarrow>
     (\<forall>n i. map_of (EntryJobMap s) n = Some i \<longleftrightarrow> (\<exists>spec j. (i, spec, j) \<in> entries L s \<and> Name j = n)) \<and>
     (\<exists>c. Cron s = Some c \<and> distinct (map fst (cron_Entries L c)) \<and>
        (\<forall>e \<in> set (cron_Entries L c). fst e \<le> last_id c))"

text \<open>The entries of all other jobs, and whether the engine takes a job.\<close>

definition others :: "'c cron_lib \<Rightarrow> 'c scheduler \<Rightarrow> string \<Rightarrow> (nat \<times> string \<times> job) set" where
  "others L s n = {e \<in> entries L s. Name (snd (snd e)) \<noteq> n}"

definition schedulable :: "(string \<Rightarrow> schedule res) \<Rightarrow> job \<Rightarrow> bool" where
  "schedulable p j \<longleftrightarrow> \<not> Disabled j \<and> ParentJob j = [] \<and> \<not> isl (p (tz_schedule j))"

context cron_engine
begin

lemma distinct_map_mset: "mset xs = mset ys \<Longrightarrow> distinct (map f xs) \<longleftrightarrow> distinct (map f ys)"
  by (metis mset_map mset_eq_imp_distinct_iff)

lemma remove_set: "set (cron_Entries L (cron_Remove L c i)) = {e \<in> set (cron_Entries L c). fst e \<noteq> i}"
  using arg_cong [OF remove_entries, of set_mset c i] by auto

lemma remove_distinct:
  assumes "distinct (map fst (cron_Entries L c))"
  shows "distinct (map fst (cron_Entries L (cron_Remove L c i)))"
proof -
  have "mset (cron_Entries L (cron_Remove L c i)) = mset (filter (\<lambda>e. fst e \<noteq> i) (cron_Entries L c))"
    using remove_entries by simp
  from distinct_map_mset [OF this] show ?thesis using distinct_map_filter [OF assms] by blast
qed

text \<open>Two entries of a well-formed scheduler with the same number or job name are equal.\<close>

lemma entries_map:
  assumes "sched_ok L last_id s" "g \<in> entries L s"
  shows "map_of (EntryJobMap s) (Name (snd (snd g))) = Some (fst g)"
  using assms unfolding sched_ok_def by (metis prod.collapse)

lemma entries_unique:
  assumes "sched_ok L last_id s" "e \<in> entries L s" "f \<in> entries L s" "fst e = fst f \<or> Name (snd (snd e)) = Name (snd (snd f))"
  shows "e = f"
proof -
  obtain c where c: "Cron s = Some c" "distinct (map fst (cron_Entries L c))"
    using assms(1) by (auto simp: sched_ok_def)
  have "fst e = fst f"
    using entries_map [OF assms(1,2)] entries_map [OF assms(1,3)] assms(4) by auto
  with c assms(2,3) show ?thesis by (auto simp: entries_def distinct_map inj_on_def)
qed

lemma RemoveJob_ok:
  assumes ok: "sched_ok L last_id s"
  obtains s' where "RemoveJob L s j = Inr s'" "sched_ok L last_id s'" "entries L s' = others L s (Name j)"
    "map_of (EntryJobMap s') (Name j) = None" "map_option parser (Cron s') = map_option parser (Cron s)" "Started s' = Started s"
proof -
  obtain c where c: "Cron s = Some c" "distinct (map fst (cron_Entries L c))"
    "\<forall>e \<in> set (cron_Entries L c). fst e \<le> last_id c"
    using ok by (auto simp: sched_ok_def)
  show ?thesis
  proof (cases "map_of (EntryJobMap s) (Name j)")
    case None
    then have "entries L s = others L s (Name j)"
      using entries_map [OF ok] by (fastforce simp: others_def)
    with None ok that [of s] show ?thesis by (simp add: RemoveJob_def)
  next
    case (Some v)
    let ?s = "s\<lparr>Cron := Some (cron_Remove L c v), EntryJobMap := AList.delete (Name j) (EntryJobMap s)\<rparr>"
    obtain spec k where v: "(v, spec, k) \<in> entries L s" "Name k = Name j"
      using ok Some by (auto simp: sched_ok_def)
    have en: "entries L ?s = others L s (Name j)"
    proof -
      have "fst e \<noteq> v \<longleftrightarrow> Name (snd (snd e)) \<noteq> Name j" if "e \<in> entries L s" for e
        using entries_unique [OF ok that v(1)] v(2) by (cases e) auto
      then show ?thesis using c(1) by (auto simp: entries_def others_def remove_set)
    qed
    have "map_of (EntryJobMap ?s) n = Some i \<longleftrightarrow> (\<exists>spec k. (i, spec, k) \<in> entries L ?s \<and> Name k = n)" for n i
      using ok by (auto simp: en others_def delete_conv' sched_ok_def)
    then have "sched_ok L last_id ?s"
      using c remove_distinct remove_set remove_frame by (simp add: sched_ok_def)
    with en c(1) Some show ?thesis
      by (intro that [of ?s]) (simp_all add: RemoveJob_def remove_frame delete_conv')
  qed
qed

lemma add_entry_ok:
  assumes ok: "sched_ok L last_id s" and c: "Cron s = Some c" and p: "parser c spec = Inr sc"
    and no: "map_of (EntryJobMap s) (Name j) = None"
  obtains c' where "cron_AddJob L c spec j = Inr (Suc (last_id c), c')"
    "sched_ok L last_id (s\<lparr>Cron := Some c', EntryJobMap := AList.update (Name j) (Suc (last_id c)) (EntryJobMap s)\<rparr>)"
    "\<And>m. entries L (s\<lparr>Cron := Some c', EntryJobMap := m\<rparr>) = insert (Suc (last_id c), spec, j) (entries L s)"
    "parser c' = parser c"
proof -
  obtain c' where c': "cron_AddJob L c spec j = Inr (Suc (last_id c), c')" "last_id c' = Suc (last_id c)"
    "parser c' = parser c" "mset (cron_Entries L c') = mset ((Suc (last_id c), spec, j) # cron_Entries L c)"
    using add_ok [OF p] by auto
  have ids: "distinct (map fst (cron_Entries L c))" "\<forall>e \<in> set (cron_Entries L c). fst e \<le> last_id c"
    using ok c by (auto simp: sched_ok_def)
  have set': "set (cron_Entries L c') = insert (Suc (last_id c), spec, j) (set (cron_Entries L c))"
    using mset_eq_setD [OF c'(4)] by simp
  have dist: "distinct (map fst (cron_Entries L c'))"
    using distinct_map_mset [OF c'(4)] ids by force
  let ?s = "s\<lparr>Cron := Some c', EntryJobMap := AList.update (Name j) (Suc (last_id c)) (EntryJobMap s)\<rparr>"
  have en: "entries L (s\<lparr>Cron := Some c', EntryJobMap := m\<rparr>) = insert (Suc (last_id c), spec, j) (entries L s)" for m
    using c set' by (simp add: entries_def)
  have "map_of (EntryJobMap ?s) n = Some i \<longleftrightarrow> (\<exists>spec k. (i, spec, k) \<in> entries L ?s \<and> Name k = n)" for n i
  proof (cases "n = Name j")
    case True
    have "(i, spec', k) \<notin> entries L s" if "Name k = Name j" for i spec' k
      using entries_map [OF ok] no that by fastforce
    with True show ?thesis by (auto simp: en update_conv')
  next
    case False
    then show ?thesis using ok by (auto simp: en update_conv' sched_ok_def)
  qed
  then have "sched_ok L last_id ?s"
    using dist set' ids c'(2) by (auto simp: sched_ok_def)
  with c' en show ?thesis by (intro that [of c']) auto
qed

text \<open>
  \<open>AddJob\<close> replaces the entry of the job: afterwards the job has one entry, if it is enabled,
  has no parent and its schedule parses, and none otherwise.
\<close>

lemma AddJob_ok:
  assumes ok: "sched_ok L last_id s" and c: "Cron s = Some c"
  obtains e s' i where "AddJob L s j = Inr (e, s')" "sched_ok L last_id s'"
    "entries L s' = others L s (Name j) \<union> (if schedulable (parser c) j then {(i, tz_schedule j, j)} else {})"
    "map_option parser (Cron s') = Some (parser c)" "Started s' = Started s"
    "e = None \<longleftrightarrow> Disabled j \<or> ParentJob j \<noteq> [] \<or> schedulable (parser c) j"
proof -
  obtain s1 where s1: "RemoveJob L s j = Inr s1" "sched_ok L last_id s1" "entries L s1 = others L s (Name j)"
    "map_of (EntryJobMap s1) (Name j) = None" "map_option parser (Cron s1) = map_option parser (Cron s)" "Started s1 = Started s"
    using RemoveJob_ok [OF ok] by metis
  have first: "(if map_of (EntryJobMap s) (Name j) \<noteq> None then RemoveJob L s j else Inr s) = Inr s1"
    using s1(1) by (auto simp: RemoveJob_def)
  obtain c1 where c1: "Cron s1 = Some c1" "parser c1 = parser c" using s1(5) c by auto
  show ?thesis
  proof (cases "Disabled j \<or> ParentJob j \<noteq> []")
    case True
    with first s1 c1 that [of None s1] show ?thesis by (auto simp: AddJob_def schedulable_def)
  next
    case False
    show ?thesis
    proof (cases "parser c (tz_schedule j)")
      case (Inl e)
      with add_error [of c1] c1 have "cron_AddJob L c1 (tz_schedule j) j = Inl e" by simp
      with False Inl first s1 c1 that [of "Some e" s1] show ?thesis by (auto simp: AddJob_def schedulable_def)
    next
      case (Inr sc)
      with c1(2) have "parser c1 (tz_schedule j) = Inr sc" by simp
      then obtain c2 where c2: "cron_AddJob L c1 (tz_schedule j) j = Inr (Suc (last_id c1), c2)"
        "sched_ok L last_id (s1\<lparr>Cron := Some c2, EntryJobMap := AList.update (Name j) (Suc (last_id c1)) (EntryJobMap s1)\<rparr>)"
        "\<And>m. entries L (s1\<lparr>Cron := Some c2, EntryJobMap := m\<rparr>) = insert (Suc (last_id c1), tz_schedule j, j) (entries L s1)"
        "parser c2 = parser c1"
        by (rule add_entry_ok [OF s1(2) c1(1) _ s1(4)]) (rule that)
      have sb: "schedulable (parser c) j" using False Inr by (simp add: schedulable_def)
      show ?thesis
        by (rule that [of None "s1\<lparr>Cron := Some c2, EntryJobMap := AList.update (Name j) (Suc (last_id c1)) (EntryJobMap s1)\<rparr>" "Suc (last_id c1)"])
          (use False first s1 c1 c2 sb in \<open>auto simp: AddJob_def\<close>)
    qed
  qed
qed

lemma add_jobs_ok:
  assumes "sched_ok L last_id s" "Cron s = Some c" "distinct (map Name js)"
  shows "\<exists>s' c'. add_jobs L s js = Inr s' \<and> sched_ok L last_id s' \<and> Cron s' = Some c' \<and> parser c' = parser c \<and>
    snd ` entries L s' = {e \<in> snd ` entries L s. Name (snd e) \<notin> Name ` set js} \<union>
      {(tz_schedule j, j) |j. j \<in> set js \<and> schedulable (parser c) j}"
  using assms
proof (induction js arbitrary: s c)
  case (Cons j js)
  obtain e s1 i where s1: "AddJob L s j = Inr (e, s1)" "sched_ok L last_id s1"
    "entries L s1 = others L s (Name j) \<union> (if schedulable (parser c) j then {(i, tz_schedule j, j)} else {})"
    "map_option parser (Cron s1) = Some (parser c)"
    using AddJob_ok [OF Cons.prems(1,2)] by metis
  then obtain c1 where c1: "Cron s1 = Some c1" "parser c1 = parser c" by auto
  have "distinct (map Name js)" using Cons.prems(3) by simp
  from Cons.IH [OF s1(2) c1(1) this] obtain s' c' where s':
    "add_jobs L s1 js = Inr s'" "sched_ok L last_id s'" "Cron s' = Some c'" "parser c' = parser c"
    "snd ` entries L s' = {e \<in> snd ` entries L s1. Name (snd e) \<notin> Name ` set js} \<union>
      {(tz_schedule j, j) |j. j \<in> set js \<and> schedulable (parser c) j}"
    using c1(2) by auto
  have "snd ` entries L s1 = {e \<in> snd ` entries L s. Name (snd e) \<noteq> Name j} \<union>
      (if schedulable (parser c) j then {(tz_schedule j, j)} else {})"
    unfolding s1(3) by (auto simp: others_def image_iff)
  moreover have "Name j \<notin> Name ` set js" using Cons.prems(3) by simp
  ultimately have "snd ` entries L s' = {e \<in> snd ` entries L s. Name (snd e) \<notin> Name ` set (j # js)} \<union>
      {(tz_schedule k, k) |k. k \<in> set (j # js) \<and> schedulable (parser c) k}"
    unfolding s'(5) by (auto split: if_splits)
  with s1(1) s' show ?case by auto
qed auto

lemma fresh_ok: "EntryJobMap s = [] \<Longrightarrow> sched_ok L last_id (s\<lparr>Cron := Some (cron_New L p)\<rparr>)"
  by (simp add: sched_ok_def entries_def new_entries)

lemma started_ok:
  "sched_ok L last_id s \<Longrightarrow> Cron s = Some c \<Longrightarrow>
     sched_ok L last_id (s\<lparr>Cron := Some (cron_Start L c), Started := True\<rparr>) \<and>
     entries L (s\<lparr>Cron := Some (cron_Start L c), Started := True\<rparr>) = entries L s"
  using distinct_map_mset [OF start_stop(1), of fst c] mset_eq_setD [OF start_stop(1), of c]
  by (auto simp: sched_ok_def entries_def start_stop)

lemma sched_Start_ok:
  assumes "EntryJobMap s = []" "distinct (map Name jobs)"
  obtains s' c where "sched_Start L E s jobs = Inr s'" "Started s'" "sched_ok L last_id s'" "Cron s' = Some c" "parser c = ext_Parse E"
    "snd ` entries L s' = {(tz_schedule j, j) |j. j \<in> set jobs \<and> schedulable (ext_Parse E) j}"
proof -
  let ?s0 = "s\<lparr>Cron := Some (cron_New L (ext_Parse E))\<rparr>"
  have e0: "entries L ?s0 = {}" by (simp add: entries_def new_entries)
  have "Cron ?s0 = Some (cron_New L (ext_Parse E))" by simp
  from add_jobs_ok [OF fresh_ok [OF assms(1)] this assms(2)]
  obtain s1 c1 where s1: "add_jobs L ?s0 jobs = Inr s1" "sched_ok L last_id s1" "Cron s1 = Some c1" "parser c1 = ext_Parse E"
    "snd ` entries L s1 = {(tz_schedule j, j) |j. j \<in> set jobs \<and> schedulable (ext_Parse E) j}"
    by (auto simp: e0 new_parser)
  from started_ok [OF s1(2,3)] s1 show ?thesis
    by (intro that [of "s1\<lparr>Cron := Some (cron_Start L c1), Started := True\<rparr>" "cron_Start L c1"]) (simp_all add: sched_Start_def start_stop)
qed

end

section \<open>A reference engine\<close>

type_synonym ref_cron_state = "(string \<Rightarrow> schedule res) \<times> nat \<times> (nat \<times> string \<times> job) list"

definition ref_cron :: "ref_cron_state cron_lib" where
  "ref_cron = \<lparr>
     cron_New = (\<lambda>p. (p, 0, [])),
     cron_AddJob = (\<lambda>(p, n, es) spec j. case p spec of
        Inl e \<Rightarrow> Inl e | Inr _ \<Rightarrow> Inr (Suc n, (p, Suc n, es @ [(Suc n, spec, j)]))),
     cron_Remove = (\<lambda>(p, n, es) i. (p, n, filter (\<lambda>e. fst e \<noteq> i) es)),
     cron_Entries = (\<lambda>(p, n, es). es), cron_Start = (\<lambda>c. c), cron_Stop = (\<lambda>c. c),
     cron_Next = (\<lambda>c i. 0)\<rparr>"

interpretation refc: cron_engine ref_cron fst "\<lambda>c. fst (snd c)"
  by unfold_locales (auto simp: ref_cron_def)

section \<open>The correctness of the scheduler\<close>

text \<open>
  C10: \<open>AddJob\<close> keeps one entry per job. On a scheduler whose map and engine agree it does not
  panic, they agree afterwards, the entries of other jobs stay, and the job has exactly one
  entry, under its schedule with its time zone, if it is enabled, has no parent and the
  schedule parses, and no entry otherwise. It returns an error only for a schedule that does
  not parse.
\<close>

theorem AddJob_one_entry:
  assumes "cron_engine L parser last_id" "sched_ok L last_id s" "Cron s = Some c"
  shows "\<exists>e s' i. AddJob L s j = Inr (e, s') \<and> sched_ok L last_id s' \<and>
    entries L s' = others L s (Name j) \<union> (if schedulable (parser c) j then {(i, tz_schedule j, j)} else {}) \<and>
    (e = None \<longleftrightarrow> Disabled j \<or> ParentJob j \<noteq> [] \<or> schedulable (parser c) j)"
  using cron_engine.AddJob_ok [OF assms] by metis

theorem AddJob_one_entry_witness:
  "\<exists>e s' i. AddJob ref_cron (NewScheduler\<lparr>Cron := Some (cron_New ref_cron (ext_Parse (ref_env sample_now)))\<rparr>) sample_child
     = Inr (e, s') \<and> entries ref_cron s' = {}"
proof -
  have ok: "sched_ok ref_cron (\<lambda>c. fst (snd c))
      (NewScheduler\<lparr>Cron := Some (cron_New ref_cron (ext_Parse (ref_env sample_now)))\<rparr>)"
    by (rule refc.fresh_ok) (simp add: NewScheduler_def)
  show ?thesis
    using AddJob_one_entry [OF refc.cron_engine_axioms ok, of "cron_New ref_cron (ext_Parse (ref_env sample_now))" sample_child]
    by (auto simp: others_def entries_def schedulable_def refc.new_entries)
qed

text \<open>
  \<open>RemoveJob\<close> takes the job out of the scheduler and leaves every other entry.
\<close>

theorem RemoveJob_removes:
  assumes "cron_engine L parser last_id" "sched_ok L last_id s"
  shows "\<exists>s'. RemoveJob L s j = Inr s' \<and> sched_ok L last_id s' \<and> entries L s' = others L s (Name j)"
  using cron_engine.RemoveJob_ok [OF assms] by metis

theorem RemoveJob_removes_witness:
  "\<exists>s'. RemoveJob ref_cron (NewScheduler\<lparr>Cron := Some (cron_New ref_cron (ext_Parse (ref_env sample_now)))\<rparr>) sample_child
     = Inr s' \<and> entries ref_cron s' = {}"
proof -
  have ok: "sched_ok ref_cron (\<lambda>c. fst (snd c))
      (NewScheduler\<lparr>Cron := Some (cron_New ref_cron (ext_Parse (ref_env sample_now)))\<rparr>)"
    by (rule refc.fresh_ok) (simp add: NewScheduler_def)
  show ?thesis
    using RemoveJob_removes [OF refc.cron_engine_axioms ok, of sample_child]
    by (auto simp: others_def entries_def refc.new_entries)
qed

text \<open>
  A scheduler that has not scheduled anything yet schedules, when it is started with jobs
  of distinct names, exactly the enabled jobs without parent whose schedules parse.
\<close>

theorem Start_schedules_all:
  assumes "cron_engine L parser last_id" "EntryJobMap s = []" "distinct (map Name jobs)"
  shows "\<exists>s'. sched_Start L E s jobs = Inr s' \<and> Started s' \<and> sched_ok L last_id s' \<and>
    snd ` entries L s' = {(tz_schedule j, j) |j. j \<in> set jobs \<and> schedulable (ext_Parse E) j}"
  using cron_engine.sched_Start_ok [OF assms] by metis

theorem Start_schedules_all_witness:
  "\<exists>s'. sched_Start ref_cron (ref_env sample_now) NewScheduler [sample_child, sample_parent] = Inr s' \<and>
     snd ` entries ref_cron s' = {(''@every 1m'', sample_parent)}"
proof -
  have "schedulable (ext_Parse (ref_env sample_now)) sample_parent" "\<not> schedulable (ext_Parse (ref_env sample_now)) sample_child"
    "tz_schedule sample_parent = ''@every 1m''"
    by (simp_all add: schedulable_def ext_Parse_def tz_schedule_def sample_parent_def sample_child_def sample_job_def
      HasPrefix_def) (simp add: ref_env_def ref_cron_parse_def)
  then have "{(tz_schedule j, j) |j. j \<in> set [sample_child, sample_parent] \<and>
      schedulable (ext_Parse (ref_env sample_now)) j} = {(''@every 1m'', sample_parent)}"
    by auto
  then show ?thesis
    using Start_schedules_all [OF refc.cron_engine_axioms, of NewScheduler "[sample_child, sample_parent]" "ref_env sample_now"]
    by (auto simp: NewScheduler_def)
qed

section \<open>Restarting\<close>

context cron_engine
begin

text \<open>One call of \<open>AddJob\<close> for a schedulable job, on any scheduler with an engine.\<close>

lemma AddJob_step:
  assumes "Cron s = Some c" "schedulable (parser c) j"
  obtains c' where
    "AddJob L s j = Inr (None, s\<lparr>Cron := Some c',
       EntryJobMap := AList.update (Name j) (Suc (last_id c)) (AList.delete (Name j) (EntryJobMap s))\<rparr>)"
    "last_id c' = Suc (last_id c)" "parser c' = parser c"
    "set (cron_Entries L c') = insert (Suc (last_id c), tz_schedule j, j)
       {x \<in> set (cron_Entries L c). map_of (EntryJobMap s) (Name j) \<noteq> Some (fst x)}"
proof -
  define c1 where "c1 = (case map_of (EntryJobMap s) (Name j) of None \<Rightarrow> c | Some v \<Rightarrow> cron_Remove L c v)"
  have c1: "parser c1 = parser c" "last_id c1 = last_id c"
    "set (cron_Entries L c1) = {x \<in> set (cron_Entries L c). map_of (EntryJobMap s) (Name j) \<noteq> Some (fst x)}"
    using remove_set remove_frame by (auto simp: c1_def split: option.splits)
  have del: "map_of (EntryJobMap s) (Name j) = None \<Longrightarrow> AList.delete (Name j) (EntryJobMap s) = EntryJobMap s"
    by (simp add: AList.delete_id map_of_eq_None_iff)
  have first: "(if map_of (EntryJobMap s) (Name j) \<noteq> None then RemoveJob L s j else Inr s) =
      Inr (s\<lparr>Cron := Some c1, EntryJobMap := AList.delete (Name j) (EntryJobMap s)\<rparr>)"
    using assms(1) del by (auto simp: RemoveJob_def c1_def)
  obtain sc where "parser c1 (tz_schedule j) = Inr sc"
    using assms(2) c1(1) by (cases "parser c (tz_schedule j)") (auto simp: schedulable_def)
  from add_ok [OF this] obtain c' where c': "cron_AddJob L c1 (tz_schedule j) j = Inr (Suc (last_id c), c')"
    "last_id c' = Suc (last_id c)" "parser c' = parser c"
    "mset (cron_Entries L c') = mset ((Suc (last_id c), tz_schedule j, j) # cron_Entries L c1)"
    using c1 by auto
  have "set (cron_Entries L c') = insert (Suc (last_id c), tz_schedule j, j) (set (cron_Entries L c1))"
    using mset_eq_setD [OF c'(4)] by simp
  moreover have "AddJob L s j = Inr (None, s\<lparr>Cron := Some c',
       EntryJobMap := AList.update (Name j) (Suc (last_id c)) (AList.delete (Name j) (EntryJobMap s))\<rparr>)"
    unfolding AddJob_def first using c'(1) assms(2) by (simp add: schedulable_def)
  ultimately show ?thesis using c' c1 by (intro that [of c']) auto
qed

lemma restart_loses:
  assumes a: "schedulable (ext_Parse E) a" and b: "schedulable (ext_Parse E) b" and ab: "Name a \<noteq> Name b"
  obtains s1 s2 s3 s4 where "sched_Start L E NewScheduler [b] = Inr s1" "AddJob L s1 a = Inr (None, s2)"
    "sched_Stop L s2 = Inr s3" "sched_Start L E s3 [a, b] = Inr s4" "entries L s4 = {(2, tz_schedule b, b)}"
proof -
  let ?c0 = "cron_New L (ext_Parse E)"
  have c0: "parser ?c0 = ext_Parse E" "last_id ?c0 = 0" "set (cron_Entries L ?c0) = {}"
    by (simp_all add: new_parser new_id new_entries)
  obtain c1 where c1: "AddJob L (NewScheduler\<lparr>Cron := Some ?c0\<rparr>) b = Inr (None,
      \<lparr>Cron = Some c1, Started = False, EntryJobMap = [(Name b, 1)]\<rparr>)" "last_id c1 = 1" "parser c1 = ext_Parse E"
    by (rule AddJob_step [of "NewScheduler\<lparr>Cron := Some ?c0\<rparr>" ?c0 b]) (use b c0 in \<open>auto simp: NewScheduler_def\<close>)
  let ?s1 = "\<lparr>Cron = Some (cron_Start L c1), Started = True, EntryJobMap = [(Name b, 1)]\<rparr>"
  have s1: "sched_Start L E NewScheduler [b] = Inr ?s1" by (simp add: sched_Start_def c1)
  obtain c2 where c2: "AddJob L ?s1 a = Inr (None,
      \<lparr>Cron = Some c2, Started = True, EntryJobMap = [(Name b, 1), (Name a, 2)]\<rparr>)"
    by (rule AddJob_step [of ?s1 "cron_Start L c1" a]) (use a ab c1 start_stop in auto)
  let ?s2 = "\<lparr>Cron = Some c2, Started = True, EntryJobMap = [(Name b, 1), (Name a, 2)]\<rparr>"
  let ?s3 = "\<lparr>Cron = Some (cron_Stop L c2), Started = False, EntryJobMap = [(Name b, 1), (Name a, 2)]\<rparr>"
  have s3: "sched_Stop L ?s2 = Inr ?s3" by (simp add: sched_Stop_def)
  obtain c3 where c3: "AddJob L (?s3\<lparr>Cron := Some ?c0\<rparr>) a = Inr (None,
      \<lparr>Cron = Some c3, Started = False, EntryJobMap = [(Name b, 1), (Name a, 1)]\<rparr>)" "last_id c3 = 1"
      "parser c3 = ext_Parse E" "set (cron_Entries L c3) = {(1, tz_schedule a, a)}"
    by (rule AddJob_step [of "?s3\<lparr>Cron := Some ?c0\<rparr>" ?c0 a]) (use a ab c0 in auto)
  have none: "{x. x = (Suc 0, tz_schedule a, a) \<and> Suc 0 \<noteq> fst x} = {}" by auto
  obtain c4 where c4: "AddJob L \<lparr>Cron = Some c3, Started = False, EntryJobMap = [(Name b, 1), (Name a, 1)]\<rparr> b = Inr (None,
      \<lparr>Cron = Some c4, Started = False, EntryJobMap = [(Name a, 1), (Name b, 2)]\<rparr>)"
      "set (cron_Entries L c4) = {(2, tz_schedule b, b)}"
    by (rule AddJob_step [of "\<lparr>Cron = Some c3, Started = False, EntryJobMap = [(Name b, 1), (Name a, 1)]\<rparr>" c3 b])
      (use b ab c3 none in auto)
  let ?s4 = "\<lparr>Cron = Some (cron_Start L c4), Started = True, EntryJobMap = [(Name a, 1), (Name b, 2)]\<rparr>"
  have "sched_Start L E ?s3 [a, b] = Inr ?s4" using c3 c4 by (simp add: sched_Start_def)
  moreover have "entries L ?s4 = {(2, tz_schedule b, b)}"
    using c4(2) mset_eq_setD [OF start_stop(1), of c4] by (simp add: entries_def)
  ultimately show ?thesis using s1 c2 s3 by (intro that) auto
qed

end

text \<open>
  A scheduler that is stopped and started again can lose jobs. \<open>Start\<close> makes a new engine,
  which numbers its entries from 1 again, but \<open>EntryJobMap\<close> keeps the numbers of the old one;
  \<open>AddJob\<close> then removes, for a job it finds in the map, whatever entry has the stale number. A
  leader that starts with job \<open>b\<close>, gets job \<open>a\<close>, loses and regains leadership, schedules \<open>b\<close>
  only, although \<open>a\<close> is enabled and its schedule parses.
\<close>

theorem restart_loses_job:
  assumes "cron_engine L parser last_id" "schedulable (ext_Parse E) a" "schedulable (ext_Parse E) b" "Name a \<noteq> Name b"
  shows "\<exists>s1 s2 s3 s4. sched_Start L E NewScheduler [b] = Inr s1 \<and> AddJob L s1 a = Inr (None, s2) \<and>
    sched_Stop L s2 = Inr s3 \<and> sched_Start L E s3 [a, b] = Inr s4 \<and> entries L s4 = {(2, tz_schedule b, b)}"
  using cron_engine.restart_loses [OF assms] by metis

theorem restart_loses_job_witness:
  "\<exists>s1 s2 s3 s4. sched_Start ref_cron (ref_env sample_now) NewScheduler [sample_job ''b'' ''@every 1m'' []] = Inr s1 \<and>
     AddJob ref_cron s1 (sample_job ''a'' ''@every 1m'' []) = Inr (None, s2) \<and> sched_Stop ref_cron s2 = Inr s3 \<and>
     sched_Start ref_cron (ref_env sample_now) s3 [sample_job ''a'' ''@every 1m'' [], sample_job ''b'' ''@every 1m'' []] = Inr s4 \<and>
     entries ref_cron s4 = {(2, ''@every 1m'', sample_job ''b'' ''@every 1m'' [])}"
proof -
  have *: "schedulable (ext_Parse (ref_env sample_now)) (sample_job n ''@every 1m'' [])"
    "tz_schedule (sample_job n ''@every 1m'' []) = ''@every 1m''" "Name (sample_job n ''@every 1m'' []) = n" for n
    by (simp_all add: schedulable_def ext_Parse_def tz_schedule_def sample_job_def HasPrefix_def)
      (simp add: ref_env_def ref_cron_parse_def)
  show ?thesis
    using restart_loses_job [OF refc.cron_engine_axioms *(1) *(1), of "''a''" "''b''"] by (simp add: *)
qed

end
