(* ===== verification/Serf.thy ===== *)
theory Serf
  imports Scheduler
begin

text \<open>
Members of the gossip pool and the agent's view of the cluster: \<open>src/dkron/utils.go\<close> (what a member advertises), \<open>src/dkron/serf.go\<close> (the handlers of gossip events and the bootstrap of Raft) and the dispatch of \<open>eventLoop\<close> in \<open>src/dkron/agent.go\<close>. The list of members is the one serf reports while a handler runs; logging, metrics and the optional \<open>MemberEventHandler\<close> are left out.
\<close>

section \<open>Members of the gossip pool\<close>

text \<open>
  A \<open>serf.Member\<close>, with the textual form of its address. The status codes are those of the
  serf library; \<open>StatusReap\<close> is dkron's own.
\<close>

record member =
  m_Name :: string
  m_Addr :: string
  m_Tags :: "string gomap"
  m_Status :: int

definition StatusAlive :: int where "StatusAlive = 1"
definition StatusLeft :: int where "StatusLeft = 3"
definition StatusReap :: int where "StatusReap = - 1"

text \<open>
  What the code asks of \<open>net\<close> and of hashicorp/go-version: parsing an IP address to its
  canonical text, and parsing a version.
\<close>

record net_lib =
  ParseIP :: "string \<Rightarrow> string option"
  NewVersion :: "string \<Rightarrow> string res"

record server_parts =
  sp_Name :: string
  sp_ID :: string
  sp_Region :: string
  sp_Datacenter :: string
  sp_Port :: int
  sp_Bootstrap :: bool
  sp_Expect :: int
  sp_RaftVersion :: int
  sp_BuildVersion :: string
  sp_Addr :: "string \<times> int"
  sp_RPCAddr :: "string \<times> int"
  sp_Status :: int

text \<open>\<open>net.JoinHostPort\<close> and \<open>TCPAddr.String\<close>: an address with a colon is put in brackets.\<close>

definition JoinHostPort :: "string \<Rightarrow> string \<Rightarrow> string" where
  "JoinHostPort host port =
     (if CHR '':'' \<in> set host then ''['' @ host @ '']:'' @ port else host @ '':'' @ port)"

definition TCPAddr_String :: "string \<times> int \<Rightarrow> string" where
  "TCPAddr_String a = JoinHostPort (fst a) (show_int (snd a))"

definition isServer :: "net_lib \<Rightarrow> member \<Rightarrow> server_parts option" where
  "isServer N m =
     (if get_str (m_Tags m) ''role'' \<noteq> ''dkron'' then None
      else if get_str (m_Tags m) ''server'' \<noteq> ''true'' then None
      else (case (case map_of (m_Tags m) ''expect'' of None \<Rightarrow> Inr 0 | Some s \<Rightarrow> Atoi s) of
              Inl _ \<Rightarrow> None
            | Inr expect \<Rightarrow>
                (let bootstrap = (map_of (m_Tags m) ''bootstrap'' \<noteq> None \<or> expect = 1);
                     rpcIP = (case ParseIP N (get_str (m_Tags m) ''rpc_addr'') of
                                None \<Rightarrow> m_Addr m | Some ip \<Rightarrow> ip)
                 in case Atoi (get_str (m_Tags m) ''port'') of
                      Inl _ \<Rightarrow> None
                    | Inr port \<Rightarrow>
                        Some \<lparr>sp_Name = m_Name m, sp_ID = m_Name m,
                              sp_Region = get_str (m_Tags m) ''region'',
                              sp_Datacenter = get_str (m_Tags m) ''dc'', sp_Port = port,
                              sp_Bootstrap = bootstrap, sp_Expect = expect,
                              sp_RaftVersion = 0,
                              sp_BuildVersion = (case NewVersion N (get_str (m_Tags m) ''version'') of
                                                   Inl _ \<Rightarrow> [] | Inr v \<Rightarrow> v),
                              sp_Addr = (m_Addr m, port), sp_RPCAddr = (rpcIP, port),
                              sp_Status = m_Status m\<rparr>)))"

section \<open>Raft\<close>

text \<open>
  The part of hashicorp/raft the agent calls. \<open>r_LastIndex\<close> is the last index of the log store
  in use, \<open>None\<close> when none is set up; futures are the results they yield.
\<close>

datatype suffrage = Voter | Nonvoter | Staging

record raft_server =
  rs_ID :: string
  rs_Address :: string
  rs_Suffrage :: suffrage

record 'r raft_lib =
  r_LastIndex :: "'r \<Rightarrow> nat res option"
  r_BootstrapCluster :: "'r \<Rightarrow> raft_server list \<Rightarrow> err \<times> 'r"
  r_GetConfiguration :: "'r \<Rightarrow> raft_server list res"
  r_RemoveServer :: "'r \<Rightarrow> string \<Rightarrow> err \<times> 'r"
  r_AddVoter :: "'r \<Rightarrow> string \<Rightarrow> string \<Rightarrow> err \<times> 'r"
  r_Leader :: "'r \<Rightarrow> string"
  r_IsLeader :: "'r \<Rightarrow> bool"

section \<open>The agent's view of the cluster\<close>

text \<open>
  The fields of \<open>Agent\<close> the handlers of serf events use. A channel of members is nil or has a
  capacity and a queue of elements; \<open>reconcileCh\<close> is declared in \<open>agent.go\<close> and never made, so an
  agent has it nil.
\<close>

type_synonym member_chan = "(nat \<times> member list) option"

record 'r cluster =
  c_Region :: string
  c_NodeName :: string
  c_Server :: bool
  c_BootstrapExpect :: int
  c_peers :: "server_parts list gomap"
  c_localPeers :: "server_parts gomap"
  c_raft :: 'r
  c_reconcileCh :: member_chan

text \<open>The scan of \<open>maybeBootstrap\<close>: \<open>None\<close> when a peer stops the bootstrap.\<close>

fun scan_servers :: "net_lib \<Rightarrow> string \<Rightarrow> int \<Rightarrow> member list \<Rightarrow> server_parts list option" where
  "scan_servers N region expect [] = Some []"
| "scan_servers N region expect (m # ms) =
     (case isServer N m of
        None \<Rightarrow> scan_servers N region expect ms
      | Some p \<Rightarrow>
          if sp_Region p \<noteq> region then scan_servers N region expect ms
          else if sp_Expect p \<noteq> 0 \<and> sp_Expect p \<noteq> expect then None
          else if sp_Bootstrap p then None
          else map_option ((#) p) (scan_servers N region expect ms))"

definition voter_of :: "server_parts \<Rightarrow> raft_server" where
  "voter_of p = \<lparr>rs_ID = sp_ID p, rs_Address = TCPAddr_String (sp_Addr p), rs_Suffrage = Voter\<rparr>"

definition maybeBootstrap :: "net_lib \<Rightarrow> 'r raft_lib \<Rightarrow> member list \<Rightarrow> 'r cluster \<Rightarrow> 'r cluster res" where
  "maybeBootstrap N R members a =
     (case r_LastIndex R (c_raft a) of
        None \<Rightarrow> Inl (Panic ''neither raftInmem or raftStore is initialized'')
      | Some (Inl e) \<Rightarrow> Inr a
      | Some (Inr index) \<Rightarrow>
          if index \<noteq> 0 then Inr (a\<lparr>c_BootstrapExpect := 0\<rparr>)
          else (case scan_servers N (c_Region a) (c_BootstrapExpect a) members of
                  None \<Rightarrow> Inr a
                | Some servers \<Rightarrow>
                    if int (length servers) < c_BootstrapExpect a then Inr a
                    else (case r_BootstrapCluster R (c_raft a) (map voter_of servers) of
                            (_, raft') \<Rightarrow> Inr (a\<lparr>c_raft := raft', c_BootstrapExpect := 0\<rparr>))))"

text \<open>Replacing the server with the same name, or appending it.\<close>

fun upsert_server :: "server_parts \<Rightarrow> server_parts list \<Rightarrow> server_parts list" where
  "upsert_server p [] = [p]"
| "upsert_server p (e # es) = (if sp_Name e = sp_Name p then p # es else e # upsert_server p es)"

definition get_peers :: "server_parts list gomap \<Rightarrow> string \<Rightarrow> server_parts list" where
  "get_peers m region = (case map_of m region of None \<Rightarrow> [] | Some ps \<Rightarrow> ps)"

definition add_peer :: "server_parts \<Rightarrow> 'r cluster \<Rightarrow> 'r cluster" where
  "add_peer parts a =
     (let a1 = a\<lparr>c_peers := AList.update (sp_Region parts)
                   (upsert_server parts (get_peers (c_peers a) (sp_Region parts))) (c_peers a)\<rparr>
      in if sp_Region parts = c_Region a
         then a1\<lparr>c_localPeers := AList.update (TCPAddr_String (sp_Addr parts)) parts (c_localPeers a1)\<rparr>
         else a1)"

fun nodeJoin :: "net_lib \<Rightarrow> 'r raft_lib \<Rightarrow> member list \<Rightarrow> 'r cluster \<Rightarrow> member list \<Rightarrow> 'r cluster res" where
  "nodeJoin N R members a [] = Inr a"
| "nodeJoin N R members a (m # ms) =
     (case isServer N m of
        None \<Rightarrow> nodeJoin N R members a ms
      | Some parts \<Rightarrow>
          (case (if c_BootstrapExpect (add_peer parts a) \<noteq> 0 then maybeBootstrap N R members (add_peer parts a)
                 else Inr (add_peer parts a)) of
             Inl e \<Rightarrow> Inl e
           | Inr a' \<Rightarrow> nodeJoin N R members a' ms))"

text \<open>
  The removal of \<open>nodeFailed\<close>: the last server takes the place of the one that is removed.
\<close>

definition remove_server :: "string \<Rightarrow> server_parts list \<Rightarrow> server_parts list" where
  "remove_server name existing =
     (case List.extract (\<lambda>e. sp_Name e = name) existing of
        None \<Rightarrow> existing
      | Some (before, _, after) \<Rightarrow>
          if after = [] then before else before @ last after # butlast after)"

definition drop_peer :: "server_parts \<Rightarrow> 'r cluster \<Rightarrow> 'r cluster" where
  "drop_peer parts a =
     (let existing = remove_server (sp_Name parts) (get_peers (c_peers a) (sp_Region parts));
          a1 = (if existing = [] then a\<lparr>c_peers := AList.delete (sp_Region parts) (c_peers a)\<rparr>
                else a\<lparr>c_peers := AList.update (sp_Region parts) existing (c_peers a)\<rparr>)
      in if sp_Region parts = c_Region a
         then a1\<lparr>c_localPeers := AList.delete (TCPAddr_String (sp_Addr parts)) (c_localPeers a1)\<rparr>
         else a1)"

fun nodeFailed :: "net_lib \<Rightarrow> 'r cluster \<Rightarrow> member list \<Rightarrow> 'r cluster" where
  "nodeFailed N a [] = a"
| "nodeFailed N a (m # ms) =
     (case isServer N m of
        None \<Rightarrow> nodeFailed N a ms
      | Some parts \<Rightarrow> nodeFailed N (drop_peer parts a) ms)"

text \<open>The sends of the loop: one that cannot proceed, on a nil or a full channel, is dropped.\<close>

fun offer :: "member_chan \<Rightarrow> member list \<Rightarrow> member_chan" where
  "offer ch [] = ch"
| "offer ch (m # ms) =
     offer (case ch of
              None \<Rightarrow> None
            | Some (cap, q) \<Rightarrow> Some (cap, if length q < cap then q @ [m] else q)) ms"

definition localMemberEvent :: "'r raft_lib \<Rightarrow> 'r cluster \<Rightarrow> bool \<Rightarrow> member list \<Rightarrow> 'r cluster" where
  "localMemberEvent R a isReap ms =
     (if \<not> c_Server a \<or> \<not> r_IsLeader R (c_raft a) then a
      else a\<lparr>c_reconcileCh := offer (c_reconcileCh a)
               (map (\<lambda>m. if isReap then m\<lparr>m_Status := StatusReap\<rparr> else m) ms)\<rparr>)"

text \<open>The dispatch of \<open>eventLoop\<close> on one event of the serf channel.\<close>

datatype event_type = EventMemberJoin | EventMemberLeave | EventMemberFailed | EventMemberReap
  | EventMemberUpdate | EventUser | EventQuery

definition handle_event ::
    "net_lib \<Rightarrow> 'r raft_lib \<Rightarrow> member list \<Rightarrow> 'r cluster \<Rightarrow> event_type \<Rightarrow> member list \<Rightarrow> 'r cluster res" where
  "handle_event N R members a t ms =
     (case t of
        EventMemberJoin \<Rightarrow>
          (case nodeJoin N R members a ms of
             Inl e \<Rightarrow> Inl e | Inr a1 \<Rightarrow> Inr (localMemberEvent R a1 False ms))
      | EventMemberLeave \<Rightarrow> Inr (localMemberEvent R (nodeFailed N a ms) False ms)
      | EventMemberFailed \<Rightarrow> Inr (localMemberEvent R (nodeFailed N a ms) False ms)
      | EventMemberReap \<Rightarrow> Inr (localMemberEvent R a True ms)
      | _ \<Rightarrow> Inr a)"


section \<open>The table of peers\<close>

text \<open>
  The table the agent keeps: no region is listed twice or empty, no server twice, and every server
  is listed under its region. \<open>peer_of\<close> is the map it stands for.
\<close>

definition region_ok :: "string \<Rightarrow> server_parts list \<Rightarrow> bool" where
  "region_ok r ps \<longleftrightarrow> ps \<noteq> [] \<and> distinct (map sp_Name ps) \<and> (\<forall>p \<in> set ps. sp_Region p = r)"

definition peers_ok :: "server_parts list gomap \<Rightarrow> bool" where
  "peers_ok m \<longleftrightarrow> distinct (map fst m) \<and> (\<forall>(r, ps) \<in> set m. region_ok r ps)"

definition named_server :: "server_parts list \<Rightarrow> string \<Rightarrow> server_parts option" where
  "named_server ps n = List.find (\<lambda>p. sp_Name p = n) ps"

definition peer_of :: "server_parts list gomap \<Rightarrow> string \<Rightarrow> string \<Rightarrow> server_parts option" where
  "peer_of m r n = named_server (get_peers m r) n"

lemma named_server_simps [simp]:
  "named_server [] n = None"
  "named_server (p # ps) n = (if sp_Name p = n then Some p else named_server ps n)"
  by (simp_all add: named_server_def)

lemma named_server_append [simp]:
  "named_server (ps @ qs) n = (case named_server ps n of None \<Rightarrow> named_server qs n | Some p \<Rightarrow> Some p)"
  by (induction ps) auto

lemma named_server_None: "named_server ps n = None \<longleftrightarrow> n \<notin> sp_Name ` set ps"
  by (induction ps) auto

lemma named_server_distinct:
  "distinct (map sp_Name ps) \<Longrightarrow> named_server ps n = Some p \<longleftrightarrow> p \<in> set ps \<and> sp_Name p = n"
  by (induction ps) force+

lemma named_server_perm:
  assumes "distinct (map sp_Name ps)" "distinct (map sp_Name qs)" "set ps = set qs"
  shows "named_server ps n = named_server qs n"
  using named_server_distinct [OF assms(1), of n] named_server_distinct [OF assms(2), of n] assms(3)
  by (cases "named_server ps n"; cases "named_server qs n") auto

lemma peers_ok_get:
  "peers_ok m \<Longrightarrow> get_peers m r = [] \<or> region_ok r (get_peers m r)"
  by (auto simp: peers_ok_def get_peers_def split: option.splits dest: map_of_SomeD)

lemma peers_ok_distinct: "peers_ok m \<Longrightarrow> distinct (map sp_Name (get_peers m r))"
  using peers_ok_get [of m r] by (auto simp: region_ok_def)

lemma upsert_server_names:
  "set (map sp_Name (upsert_server p ps)) = insert (sp_Name p) (set (map sp_Name ps))"
  by (induction p ps rule: upsert_server.induct) auto

lemma upsert_server_subset: "set (upsert_server p ps) \<subseteq> insert p (set ps)"
  by (induction p ps rule: upsert_server.induct) auto

lemma upsert_server_distinct:
  "distinct (map sp_Name ps) \<Longrightarrow> distinct (map sp_Name (upsert_server p ps))"
  by (induction p ps rule: upsert_server.induct) (use upsert_server_names in auto)

lemma upsert_server_nonempty [simp]: "upsert_server p ps \<noteq> []"
  by (cases ps) auto

lemma named_server_upsert [simp]:
  "named_server (upsert_server p ps) n = (if n = sp_Name p then Some p else named_server ps n)"
  by (induction p ps rule: upsert_server.induct) auto

lemma region_ok_upsert:
  assumes "ps = [] \<or> region_ok (sp_Region p) ps"
  shows "region_ok (sp_Region p) (upsert_server p ps)"
  using assms upsert_server_subset [of p ps] upsert_server_distinct [of ps p]
  by (auto simp: region_ok_def)

lemma set_AList_update_subset: "set (AList.update k v m) \<subseteq> insert (k, v) (set m)"
  by (induction m) auto

lemma peers_ok_update:
  assumes "peers_ok m" "region_ok r ps"
  shows "peers_ok (AList.update r ps m)"
  using assms set_AList_update_subset [of r ps m] distinct_update [of m r ps]
  by (fastforce simp: peers_ok_def)

lemma peers_ok_delete: "peers_ok m \<Longrightarrow> peers_ok (AList.delete r m)"
  by (auto simp: peers_ok_def AList.delete_eq distinct_map_filter)

lemma get_peers_update [simp]: "get_peers (AList.update r ps m) r' = (if r' = r then ps else get_peers m r')"
  by (simp add: get_peers_def update_conv')

lemma get_peers_delete [simp]: "get_peers (AList.delete r m) r' = (if r' = r then [] else get_peers m r')"
  by (simp add: get_peers_def delete_conv')

lemma remove_server_extract:
  "remove_server n ps = ps \<and> n \<notin> sp_Name ` set ps \<or>
   (\<exists>xs e ys. ps = xs @ e # ys \<and> sp_Name e = n \<and> n \<notin> sp_Name ` set xs \<and>
      remove_server n ps = (if ys = [] then xs else xs @ last ys # butlast ys))"
proof (cases "List.extract (\<lambda>e. sp_Name e = n) ps")
  case None
  then have "remove_server n ps = ps" by (simp add: remove_server_def)
  with None show ?thesis by (auto simp: extract_None_iff)
next
  case (Some t)
  then obtain xs e ys where "t = (xs, e, ys)" by (cases t)
  with Some have "remove_server n ps = (if ys = [] then xs else xs @ last ys # butlast ys)"
    by (simp add: remove_server_def)
  moreover have "ps = xs @ e # ys" "sp_Name e = n" "n \<notin> sp_Name ` set xs"
    using Some \<open>t = (xs, e, ys)\<close> by (auto simp: extract_Some_iff)
  ultimately show ?thesis by blast
qed

lemma mset_rotate: "ys \<noteq> [] \<Longrightarrow> mset (last ys # butlast ys) = mset ys"
  by (metis append_butlast_last_id mset.simps(2) mset_append add_mset_add_single mset.simps(1) union_commute)

lemma remove_server_mset:
  assumes "distinct (map sp_Name ps)"
  shows "mset (remove_server n ps) = filter_mset (\<lambda>p. sp_Name p \<noteq> n) (mset ps)"
proof -
  consider "remove_server n ps = ps" "n \<notin> sp_Name ` set ps"
    | xs e ys where "ps = xs @ e # ys" "sp_Name e = n" "n \<notin> sp_Name ` set xs"
        "remove_server n ps = (if ys = [] then xs else xs @ last ys # butlast ys)"
    using remove_server_extract [of n ps] by blast
  then show ?thesis
  proof cases
    case 1
    then have "filter (\<lambda>p. sp_Name p \<noteq> n) ps = ps" by (intro filter_True) auto
    with 1 show ?thesis by (metis mset_filter)
  next
    case 2
    then have "n \<notin> sp_Name ` set ys" using assms by auto
    then have "filter_mset (\<lambda>p. sp_Name p \<noteq> n) (mset ps) = mset xs + mset ys"
      using 2 by (simp add: filter_id_conv [THEN iffD2] image_iff flip: mset_filter) (metis (mono_tags, lifting) filter_True imageI)
    moreover have "mset (remove_server n ps) = mset xs + mset ys"
      using 2(4) mset_rotate [of ys] by auto
    ultimately show ?thesis by simp
  qed
qed

lemma remove_server_distinct:
  assumes "distinct (map sp_Name ps)"
  shows "distinct (map sp_Name (remove_server n ps))"
proof -
  have "mset (map sp_Name (remove_server n ps)) = mset (map sp_Name (filter (\<lambda>p. sp_Name p \<noteq> n) ps))"
    using remove_server_mset [OF assms] by simp
  moreover have "distinct (map sp_Name (filter (\<lambda>p. sp_Name p \<noteq> n) ps))"
    using assms by (rule distinct_map_filter)
  ultimately show ?thesis by (metis mset_eq_imp_distinct_iff)
qed

lemma remove_server_set:
  assumes "distinct (map sp_Name ps)"
  shows "set (remove_server n ps) = {p \<in> set ps. sp_Name p \<noteq> n}"
  using arg_cong [OF remove_server_mset [OF assms], of set_mset] by simp

lemma named_server_filter:
  "named_server (filter (\<lambda>p. sp_Name p \<noteq> n) ps) n' = (if n' = n then None else named_server ps n')"
  by (induction ps) auto

lemma named_server_remove:
  assumes "distinct (map sp_Name ps)"
  shows "named_server (remove_server n ps) n' = (if n' = n then None else named_server ps n')"
  unfolding named_server_filter [symmetric]
  by (rule named_server_perm) (simp_all add: assms remove_server_distinct distinct_map_filter remove_server_set)


section \<open>What the handlers do to the table\<close>

definition join_peer ::
    "net_lib \<Rightarrow> member \<Rightarrow> (string \<Rightarrow> string \<Rightarrow> server_parts option) \<Rightarrow> string \<Rightarrow> string \<Rightarrow> server_parts option" where
  "join_peer N m t r n =
     (case isServer N m of
        None \<Rightarrow> t r n
      | Some p \<Rightarrow> if r = sp_Region p \<and> n = sp_Name p then Some p else t r n)"

definition fail_peer ::
    "net_lib \<Rightarrow> member \<Rightarrow> (string \<Rightarrow> string \<Rightarrow> server_parts option) \<Rightarrow> string \<Rightarrow> string \<Rightarrow> server_parts option" where
  "fail_peer N m t r n =
     (case isServer N m of
        None \<Rightarrow> t r n
      | Some p \<Rightarrow> if r = sp_Region p \<and> n = sp_Name p then None else t r n)"

lemma maybeBootstrap_frame:
  assumes "maybeBootstrap N R members a = Inr a'"
  shows "c_peers a' = c_peers a" "c_localPeers a' = c_localPeers a" "c_Region a' = c_Region a"
    "c_Server a' = c_Server a" "c_reconcileCh a' = c_reconcileCh a"
    "c_NodeName a' = c_NodeName a"
  using assms by (auto simp: maybeBootstrap_def split: option.splits sum.splits if_splits prod.splits)

lemma peer_of_upsert:
  "peer_of (AList.update (sp_Region p) (upsert_server p (get_peers m (sp_Region p))) m) r n =
     (if r = sp_Region p \<and> n = sp_Name p then Some p else peer_of m r n)"
  by (simp add: peer_of_def)

lemma add_peer_peers:
  assumes "peers_ok (c_peers a)"
  shows "peers_ok (c_peers (add_peer p a))"
    and "peer_of (c_peers (add_peer p a)) r n =
           (if r = sp_Region p \<and> n = sp_Name p then Some p else peer_of (c_peers a) r n)"
  using assms region_ok_upsert [of "get_peers (c_peers a) (sp_Region p)" p] peers_ok_get [OF assms]
  by (auto simp: add_peer_def Let_def peer_of_def intro: peers_ok_update)

lemma nodeJoin_peers:
  "peers_ok (c_peers a) \<Longrightarrow> nodeJoin N R members a ms = Inr a' \<Longrightarrow>
     peers_ok (c_peers a') \<and> peer_of (c_peers a') = fold (join_peer N) ms (peer_of (c_peers a))"
proof (induction ms arbitrary: a)
  case Nil
  then show ?case by simp
next
  case (Cons m ms)
  show ?case
  proof (cases "isServer N m")
    case None
    moreover from None have "join_peer N m t = t" for t by (intro ext) (simp add: join_peer_def)
    ultimately show ?thesis using Cons by simp
  next
    case (Some p)
    from Cons.prems(2) Some obtain b where
      b: "(if c_BootstrapExpect (add_peer p a) \<noteq> 0 then maybeBootstrap N R members (add_peer p a)
           else Inr (add_peer p a)) = Inr b"
      and rest: "nodeJoin N R members b ms = Inr a'"
      by (auto split: sum.splits)
    have peers: "c_peers b = c_peers (add_peer p a)"
      using b maybeBootstrap_frame(1) [of N R members "add_peer p a" b] by (auto split: if_splits)
    have "peer_of (c_peers (add_peer p a)) = join_peer N m (peer_of (c_peers a))"
      by (intro ext) (simp add: add_peer_peers [OF Cons.prems(1)] join_peer_def Some)
    then show ?thesis
      using Cons.IH [OF _ rest] add_peer_peers(1) [OF Cons.prems(1)] by (simp add: peers)
  qed
qed

lemma drop_peer_peers:
  assumes "peers_ok (c_peers a)"
  shows "peers_ok (c_peers (drop_peer p a))"
    and "peer_of (c_peers (drop_peer p a)) r n =
           (if r = sp_Region p \<and> n = sp_Name p then None else peer_of (c_peers a) r n)"
proof -
  define ex where "ex = remove_server (sp_Name p) (get_peers (c_peers a) (sp_Region p))"
  have peers: "c_peers (drop_peer p a) =
      (if ex = [] then AList.delete (sp_Region p) (c_peers a) else AList.update (sp_Region p) ex (c_peers a))"
    by (simp add: drop_peer_def Let_def ex_def)
  note dist = peers_ok_distinct [OF assms, of "sp_Region p"]
  have "ex \<noteq> [] \<Longrightarrow> region_ok (sp_Region p) ex"
    using remove_server_distinct [OF dist] remove_server_set [OF dist] peers_ok_get [OF assms, of "sp_Region p"]
    by (auto simp: ex_def region_ok_def)
  then show "peers_ok (c_peers (drop_peer p a))"
    using assms by (auto simp: peers intro: peers_ok_update peers_ok_delete)
  have "get_peers (c_peers (drop_peer p a)) r = (if r = sp_Region p then ex else get_peers (c_peers a) r)"
    by (simp add: peers)
  then show "peer_of (c_peers (drop_peer p a)) r n =
           (if r = sp_Region p \<and> n = sp_Name p then None else peer_of (c_peers a) r n)"
    by (simp add: peer_of_def ex_def named_server_remove [OF dist])
qed

lemma nodeFailed_peers:
  "peers_ok (c_peers a) \<Longrightarrow>
     peers_ok (c_peers (nodeFailed N a ms)) \<and>
     peer_of (c_peers (nodeFailed N a ms)) = fold (fail_peer N) ms (peer_of (c_peers a))"
proof (induction ms arbitrary: a)
  case Nil
  then show ?case by simp
next
  case (Cons m ms)
  show ?case
  proof (cases "isServer N m")
    case None
    moreover from None have "fail_peer N m t = t" for t by (intro ext) (simp add: fail_peer_def)
    ultimately show ?thesis using Cons by simp
  next
    case (Some p)
    have "peer_of (c_peers (drop_peer p a)) = fail_peer N m (peer_of (c_peers a))"
      by (intro ext) (simp add: drop_peer_peers [OF Cons.prems] fail_peer_def Some)
    with Cons.IH [OF drop_peer_peers(1) [OF Cons.prems]] Some show ?thesis by simp
  qed
qed

lemma localMemberEvent_frame [simp]:
  "c_peers (localMemberEvent R a b ms) = c_peers a"
  "c_raft (localMemberEvent R a b ms) = c_raft a"
  "c_BootstrapExpect (localMemberEvent R a b ms) = c_BootstrapExpect a"
  by (simp_all add: localMemberEvent_def)

text \<open>
  C21: The table of peers after any event of the gossip pool. A joining server is listed under its
  region and name with what it now advertises, a server that leaves or fails is no longer listed,
  no other entry changes, and the table never lists a region or a server twice or an empty region.
\<close>

theorem handle_event_peers:
  assumes "peers_ok (c_peers a)" and "handle_event N R members a t ms = Inr a'"
  shows "peers_ok (c_peers a') \<and>
    peer_of (c_peers a') =
      (if t = EventMemberJoin then fold (join_peer N) ms
       else if t \<in> {EventMemberLeave, EventMemberFailed} then fold (fail_peer N) ms
       else (\<lambda>x. x)) (peer_of (c_peers a))"
  using assms nodeFailed_peers [OF assms(1), of N ms] nodeJoin_peers [OF assms(1), of N R members ms]
  by (auto simp: handle_event_def split: event_type.splits sum.splits)

text \<open>
  A queue for members to reconcile never outgrows its channel; on a nil channel every send is
  dropped, so that the handlers of serf events tell the leader loop of an agent nothing.
\<close>

lemma offer_take: "offer (Some (cap, q)) ms = Some (cap, q @ take (cap - length q) ms)"
  by (induction ms arbitrary: q) (auto simp: take_Cons' Suc_diff_Suc)

lemma offer_nil [simp]: "offer None ms = None"
  by (induction ms) simp_all

lemma add_peer_chan [simp]: "c_reconcileCh (add_peer p a) = c_reconcileCh a"
  by (simp add: add_peer_def Let_def)

lemma drop_peer_chan [simp]: "c_reconcileCh (drop_peer p a) = c_reconcileCh a"
  by (simp add: drop_peer_def Let_def)

lemma nodeFailed_chan [simp]: "c_reconcileCh (nodeFailed N a ms) = c_reconcileCh a"
  by (induction N a ms rule: nodeFailed.induct) (auto split: option.splits)

lemma nodeJoin_chan: "nodeJoin N R members a ms = Inr a' \<Longrightarrow> c_reconcileCh a' = c_reconcileCh a"
proof (induction ms arbitrary: a)
  case (Cons m ms)
  show ?case
  proof (cases "isServer N m")
    case (Some p)
    with Cons.prems obtain b where b: "(if c_BootstrapExpect (add_peer p a) \<noteq> 0
        then maybeBootstrap N R members (add_peer p a) else Inr (add_peer p a)) = Inr b"
      and rest: "nodeJoin N R members b ms = Inr a'"
      by (auto simp: Let_def split: sum.splits)
    have "c_reconcileCh b = c_reconcileCh a"
      using b maybeBootstrap_frame(5) [of N R members "add_peer p a" b] by (auto split: if_splits)
    with Cons.IH [OF rest] show ?thesis by simp
  qed (use Cons in simp)
qed simp

lemma handle_event_nil:
  "handle_event N R members a t ms = Inr a' \<Longrightarrow> c_reconcileCh a = None \<Longrightarrow> c_reconcileCh a' = None"
  by (auto simp: handle_event_def localMemberEvent_def split: event_type.splits sum.splits if_splits dest!: nodeJoin_chan)

section \<open>Bootstrapping\<close>

definition region_servers :: "net_lib \<Rightarrow> string \<Rightarrow> member list \<Rightarrow> server_parts list" where
  "region_servers N region ms = filter (\<lambda>p. sp_Region p = region) (List.map_filter (isServer N) ms)"

definition may_bootstrap :: "int \<Rightarrow> server_parts list \<Rightarrow> bool" where
  "may_bootstrap expect ps \<longleftrightarrow>
     (\<forall>p \<in> set ps. (sp_Expect p = 0 \<or> sp_Expect p = expect) \<and> \<not> sp_Bootstrap p) \<and>
     expect \<le> int (length ps)"

lemma scan_servers_eq:
  "scan_servers N region expect ms =
     (if \<forall>p \<in> set (region_servers N region ms). (sp_Expect p = 0 \<or> sp_Expect p = expect) \<and> \<not> sp_Bootstrap p
      then Some (region_servers N region ms) else None)"
  by (induction N region expect ms rule: scan_servers.induct)
    (auto simp: region_servers_def map_filter_simps split: option.splits)

text \<open>
  C23: The cluster is bootstrapped exactly when the log is empty, every known server of the region
  expects the same number of servers or none and is not itself in bootstrap mode, and at least
  the expected number is known. The configuration then has every known server of the region as a
  voter, and the agent never tries again; otherwise Raft is left alone, and the agent stops
  trying only when the log already has entries.
\<close>

theorem maybeBootstrap_when:
  assumes "r_LastIndex R (c_raft a) = Some (Inr index)"
  shows "maybeBootstrap N R members a =
     (let servers = region_servers N (c_Region a) members
      in if index = 0 \<and> may_bootstrap (c_BootstrapExpect a) servers
         then Inr (a\<lparr>c_raft := snd (r_BootstrapCluster R (c_raft a) (map voter_of servers)),
                     c_BootstrapExpect := 0\<rparr>)
         else Inr (a\<lparr>c_BootstrapExpect := (if index = 0 then c_BootstrapExpect a else 0)\<rparr>))"
  using assms
  by (auto simp: maybeBootstrap_def scan_servers_eq may_bootstrap_def Let_def split: prod.splits)


section \<open>Raft as a list of servers\<close>

text \<open>
  A concrete Raft for the witnesses: its state is the configuration, every call succeeds at once,
  and the log is empty as long as no cluster is bootstrapped.
\<close>

definition ref_raft :: "raft_server list raft_lib" where
  "ref_raft = \<lparr>r_LastIndex = (\<lambda>c. Some (Inr (length c))),
     r_BootstrapCluster = (\<lambda>c ss. if c = [] then (None, ss) else (Some (LibError ''not clean''), c)),
     r_GetConfiguration = Inr,
     r_RemoveServer = (\<lambda>c i. (None, filter (\<lambda>s. rs_ID s \<noteq> i) c)),
     r_AddVoter = (\<lambda>c i ad. (None, filter (\<lambda>s. rs_ID s \<noteq> i) c @ [\<lparr>rs_ID = i, rs_Address = ad, rs_Suffrage = Voter\<rparr>])),
     r_Leader = (\<lambda>c. case c of [] \<Rightarrow> [] | s # _ \<Rightarrow> rs_Address s),
     r_IsLeader = (\<lambda>c. c \<noteq> [])\<rparr>"

definition ref_net :: net_lib where
  "ref_net = \<lparr>ParseIP = (\<lambda>s. if s = [] then None else Some s), NewVersion = Inr\<rparr>"

definition sample_member :: "string \<Rightarrow> string \<Rightarrow> member" where
  "sample_member n ip = \<lparr>m_Name = n, m_Addr = ip,
     m_Tags = [(''role'', ''dkron''), (''server'', ''true''), (''region'', ''global''), (''dc'', ''dc1''),
               (''expect'', ''2''), (''port'', ''6868''), (''version'', ''3.0.0'')],
     m_Status = StatusAlive\<rparr>"

definition sample_server :: "string \<Rightarrow> string \<Rightarrow> server_parts" where
  "sample_server n ip = \<lparr>sp_Name = n, sp_ID = n, sp_Region = ''global'', sp_Datacenter = ''dc1'',
     sp_Port = 6868, sp_Bootstrap = False, sp_Expect = 2, sp_RaftVersion = 0, sp_BuildVersion = ''3.0.0'',
     sp_Addr = (ip, 6868), sp_RPCAddr = (ip, 6868), sp_Status = StatusAlive\<rparr>"

definition sample_cluster :: "raft_server list cluster" where
  "sample_cluster = \<lparr>c_Region = ''global'', c_NodeName = ''n1'', c_Server = True, c_BootstrapExpect = 2,
     c_peers = [], c_localPeers = [], c_raft = [], c_reconcileCh = None\<rparr>"

lemma Atoi_samples: "Atoi ''2'' = Inr 2" "Atoi ''6868'' = Inr 6868"
  by code_simp+

lemma digit_char_samples: "digit_char 6 = CHR ''6''" "digit_char 8 = CHR ''8''"
  by code_simp+

lemma show_6868: "show_int 6868 = ''6868''"
  by (simp add: show_int_def show_nat.simps digit_char_samples)

lemma isServer_sample [simp]: "isServer ref_net (sample_member n ip) = Some (sample_server n ip)"
  by (simp add: isServer_def sample_member_def sample_server_def get_str_def ref_net_def Atoi_samples)

lemma sample_server_simps [simp]:
  "sp_Name (sample_server n ip) = n" "sp_Region (sample_server n ip) = ''global''"
  "sp_Expect (sample_server n ip) = 2" "\<not> sp_Bootstrap (sample_server n ip)"
  by (simp_all add: sample_server_def)

theorem maybeBootstrap_when_witness:
  "r_LastIndex ref_raft (c_raft sample_cluster) = Some (Inr 0) \<and>
   maybeBootstrap ref_net ref_raft [sample_member ''n1'' ''10.0.0.1'', sample_member ''n2'' ''10.0.0.2''] sample_cluster =
     Inr (sample_cluster\<lparr>c_raft := [voter_of (sample_server ''n1'' ''10.0.0.1''), voter_of (sample_server ''n2'' ''10.0.0.2'')],
            c_BootstrapExpect := 0\<rparr>)"
proof
  show index: "r_LastIndex ref_raft (c_raft sample_cluster) = Some (Inr 0)"
    by (simp add: ref_raft_def sample_cluster_def)
  show "maybeBootstrap ref_net ref_raft [sample_member ''n1'' ''10.0.0.1'', sample_member ''n2'' ''10.0.0.2''] sample_cluster =
     Inr (sample_cluster\<lparr>c_raft := [voter_of (sample_server ''n1'' ''10.0.0.1''), voter_of (sample_server ''n2'' ''10.0.0.2'')],
            c_BootstrapExpect := 0\<rparr>)"
    unfolding maybeBootstrap_when [OF index]
    by (simp add: Let_def region_servers_def may_bootstrap_def sample_cluster_def map_filter_simps ref_raft_def)
qed

definition sample_joined :: "raft_server list cluster" where
  "sample_joined = localMemberEvent ref_raft
     (sample_cluster\<lparr>c_peers := [(''global'', [sample_server ''n1'' ''10.0.0.1''])],
        c_localPeers := [(''10.0.0.1:6868'', sample_server ''n1'' ''10.0.0.1'')]\<rparr>) False [sample_member ''n1'' ''10.0.0.1'']"

lemma sample_join:
  "handle_event ref_net ref_raft [sample_member ''n1'' ''10.0.0.1''] sample_cluster EventMemberJoin
     [sample_member ''n1'' ''10.0.0.1''] = Inr sample_joined"
proof -
  have addr: "TCPAddr_String (sp_Addr (sample_server ''n1'' ''10.0.0.1'')) = ''10.0.0.1:6868''"
    by (simp add: TCPAddr_String_def JoinHostPort_def sample_server_def show_6868)
  show ?thesis
    by (simp add: handle_event_def sample_joined_def add_peer_def Let_def addr get_peers_def maybeBootstrap_def
        sample_cluster_def ref_raft_def)
qed

theorem handle_event_peers_witness:
  "peers_ok (c_peers sample_cluster) \<and>
   handle_event ref_net ref_raft [sample_member ''n1'' ''10.0.0.1''] sample_cluster EventMemberJoin
     [sample_member ''n1'' ''10.0.0.1''] = Inr sample_joined \<and>
   peers_ok (c_peers sample_joined) \<and>
   peer_of (c_peers sample_joined) ''global'' ''n1'' = Some (sample_server ''n1'' ''10.0.0.1'')"
proof -
  have ok: "peers_ok (c_peers sample_cluster)" by (simp add: sample_cluster_def peers_ok_def)
  show ?thesis
    using handle_event_peers [OF ok sample_join] ok sample_join by (simp add: join_peer_def)
qed

end
