(* ===== verification/Leader.thy ===== *)
theory Leader
  imports Serf
begin

text \<open>
  \<open>src/dkron/leader.go\<close>: the leader keeps the Raft configuration in line with the gossip pool, and
  starts and stops the scheduler with the leadership. The goroutines \<open>monitorLeadership\<close> and
  \<open>leaderLoop\<close> are one step relation, so that every interleaving is covered; the deferred call of
  \<open>revokeLeadership\<close> runs when the loop is left after it was established. \<open>Agent.Stop\<close>, after
  which the process leaves the cluster, is not one of the steps. Raft is a parameter with the laws of
  \<open>raft_config\<close>.
\<close>

section \<open>Raft peers\<close>

definition minRaftProtocol :: int where "minRaftProtocol = 3"

text \<open>
  The loop of \<open>addRaftPeer\<close> over the servers of the configuration: \<open>Some e\<close> when the function
  returns \<open>e\<close> from inside the loop, \<open>None\<close> when the loop ends.
\<close>

fun clear_conflicts ::
    "'r raft_lib \<Rightarrow> string \<Rightarrow> string \<Rightarrow> 'r \<Rightarrow> raft_server list \<Rightarrow> err option \<times> 'r" where
  "clear_conflicts R addr ident r [] = (None, r)"
| "clear_conflicts R addr ident r (server # servers) =
     (if rs_Address server = addr \<or> rs_ID server = ident then
        (if rs_Address server = addr \<and> rs_ID server = ident then (Some None, r)
         else (case r_RemoveServer R r (rs_ID server) of
                 (Some e, r') \<Rightarrow>
                   (Some (Some (if rs_Address server = addr
                                then Errorf ''error removing server with duplicate address''
                                else Errorf ''error removing server with duplicate ID'')), r')
               | (None, r') \<Rightarrow> clear_conflicts R addr ident r' servers))
      else clear_conflicts R addr ident r servers)"

text \<open>Whether another server is in bootstrap mode.\<close>

definition other_bootstrap :: "net_lib \<Rightarrow> member list \<Rightarrow> string \<Rightarrow> bool" where
  "other_bootstrap N members name \<longleftrightarrow>
     list_ex (\<lambda>member. case isServer N member of
                None \<Rightarrow> False | Some p \<Rightarrow> m_Name member \<noteq> name \<and> sp_Bootstrap p) members"

definition addRaftPeer ::
    "net_lib \<Rightarrow> 'r raft_lib \<Rightarrow> member list \<Rightarrow> string \<Rightarrow> 'r \<Rightarrow> member \<Rightarrow> server_parts \<Rightarrow> err \<times> 'r" where
  "addRaftPeer N R members nodeName r m parts =
     (if sp_Bootstrap parts \<and> other_bootstrap N members (m_Name m) then (None, r)
      else
        (let addr = TCPAddr_String (m_Addr m, sp_Port parts) in
         case r_GetConfiguration R r of
           Inl e \<Rightarrow> (Some e, r)
         | Inr servers \<Rightarrow>
             if m_Name m = nodeName \<and> length servers < 3 then (None, r)
             else (case clear_conflicts R addr (sp_ID parts) r servers of
                     (Some e, r') \<Rightarrow> (e, r')
                   | (None, r') \<Rightarrow>
                       if 3 \<le> minRaftProtocol then r_AddVoter R r' (sp_ID parts) addr
                       else (None, r'))))"

definition removeRaftPeer :: "'r raft_lib \<Rightarrow> 'r \<Rightarrow> member \<Rightarrow> server_parts \<Rightarrow> err \<times> 'r" where
  "removeRaftPeer R r m parts =
     (case r_GetConfiguration R r of
        Inl e \<Rightarrow> (Some e, r)
      | Inr servers \<Rightarrow>
          if list_ex (\<lambda>server. 2 \<le> minRaftProtocol \<and> rs_ID server = sp_ID parts) servers
          then r_RemoveServer R r (sp_ID parts) else (None, r))"

definition reconcileMember ::
    "net_lib \<Rightarrow> 'r raft_lib \<Rightarrow> member list \<Rightarrow> 'r cluster \<Rightarrow> member \<Rightarrow> err \<times> 'r cluster" where
  "reconcileMember N R members a m =
     (case isServer N m of
        None \<Rightarrow> (None, a)
      | Some parts \<Rightarrow>
          if sp_Region parts \<noteq> c_Region a then (None, a)
          else if m_Status m = StatusAlive then
            (case addRaftPeer N R members (c_NodeName a) (c_raft a) m parts of
               (e, r) \<Rightarrow> (e, a\<lparr>c_raft := r\<rparr>))
          else if m_Status m = StatusLeft then
            (case removeRaftPeer R (c_raft a) m parts of (e, r) \<Rightarrow> (e, a\<lparr>c_raft := r\<rparr>))
          else (None, a))"

fun reconcile_all ::
    "net_lib \<Rightarrow> 'r raft_lib \<Rightarrow> member list \<Rightarrow> 'r cluster \<Rightarrow> member list \<Rightarrow> err \<times> 'r cluster" where
  "reconcile_all N R members a [] = (None, a)"
| "reconcile_all N R members a (m # ms) =
     (case reconcileMember N R members a m of
        (Some e, a') \<Rightarrow> (Some e, a')
      | (None, a') \<Rightarrow> reconcile_all N R members a' ms)"

definition reconcile :: "net_lib \<Rightarrow> 'r raft_lib \<Rightarrow> member list \<Rightarrow> 'r cluster \<Rightarrow> err \<times> 'r cluster" where
  "reconcile N R members a = reconcile_all N R members a members"

section \<open>Establishing and revoking leadership\<close>

text \<open>The error of \<open>establishLeadership\<close> is always nil; a store that cannot be read ends the process.\<close>

definition establishLeadership ::
    "'c cron_lib \<Rightarrow> 'db env \<Rightarrow> 'db \<Rightarrow> 'c scheduler \<Rightarrow> (err \<times> 'c scheduler) res" where
  "establishLeadership L E d s =
     (case GetJobs E d None of
        Inl e \<Rightarrow> Inl (Panic ''log.Fatal'')
      | Inr jobs \<Rightarrow> (case sched_Start L E s jobs of Inl e \<Rightarrow> Inl e | Inr s' \<Rightarrow> Inr (None, s')))"

definition revokeLeadership :: "'c cron_lib \<Rightarrow> 'c scheduler \<Rightarrow> (err \<times> 'c scheduler) res" where
  "revokeLeadership L s = (case sched_Stop L s of Inl e \<Rightarrow> Inl e | Inr s' \<Rightarrow> Inr (None, s'))"

section \<open>The leader loop and its monitor\<close>

text \<open>
  The two goroutines: \<open>monitorLeadership\<close>, where \<open>weAreLeaderCh\<close> is nil (\<open>Following\<close>), open
  (\<open>Leading\<close>), or closed while the monitor waits for the loop to end (\<open>Stopping\<close>); and
  \<open>leaderLoop\<close>, which is not running, at the label \<open>RECONCILE\<close>, or at the label \<open>WAIT\<close> with or
  without listening to \<open>reconcileCh\<close>. \<open>shutdownCh\<close> is never created, so its cases never fire; nor is
  \<open>reconcileCh\<close>, and \<open>member_step_never\<close> shows that its case never fires either.
\<close>

datatype monitor = Following | Leading | Stopping

datatype loop = NotRunning | AtReconcile | AtWait bool

record ('c, 'r) leadership =
  l_monitor :: monitor
  l_loop :: loop
  l_established :: bool
  l_sched :: "'c scheduler"
  l_cluster :: "'r cluster"

definition on_leaderCh :: "bool \<Rightarrow> ('c, 'r) leadership \<Rightarrow> ('c, 'r) leadership" where
  "on_leaderCh isLeader s =
     (if isLeader then
        (if l_monitor s \<noteq> Following then s
         else s\<lparr>l_monitor := Leading, l_loop := AtReconcile, l_established := False\<rparr>)
      else
        (if l_monitor s = Following then s else s\<lparr>l_monitor := Stopping\<rparr>))"

text \<open>
  From \<open>RECONCILE\<close> to \<open>WAIT\<close>, or to the end of the loop: \<open>barrier\<close> is the error of the Raft
  barrier, \<open>stopped\<close> whether the stop channel is found closed when it is polled.
\<close>

definition leave_loop :: "'c cron_lib \<Rightarrow> ('c, 'r) leadership \<Rightarrow> ('c, 'r) leadership res" where
  "leave_loop L s =
     (if l_established s then
        (case revokeLeadership L (l_sched s) of
           Inl e \<Rightarrow> Inl e | Inr (_, sc) \<Rightarrow> Inr (s\<lparr>l_sched := sc, l_loop := NotRunning, l_established := False\<rparr>))
      else Inr (s\<lparr>l_loop := NotRunning\<rparr>))"

definition reconcile_pass ::
    "net_lib \<Rightarrow> 'r raft_lib \<Rightarrow> 'c cron_lib \<Rightarrow> 'db env \<Rightarrow> 'db \<Rightarrow> member list \<Rightarrow> err \<Rightarrow> bool \<Rightarrow>
     ('c, 'r) leadership \<Rightarrow> ('c, 'r) leadership res" where
  "reconcile_pass N R L E d members barrier stopped s =
     (case barrier of
        Some e \<Rightarrow> Inr (s\<lparr>l_loop := AtWait False\<rparr>)
      | None \<Rightarrow>
          (case (if l_established s then Inr (None, l_sched s)
                 else establishLeadership L E d (l_sched s)) of
             Inl e \<Rightarrow> Inl e
           | Inr (Some e, sc) \<Rightarrow>
               (case revokeLeadership L sc of
                  Inl e' \<Rightarrow> Inl e'
                | Inr (_, sc') \<Rightarrow> Inr (s\<lparr>l_sched := sc', l_loop := AtWait False\<rparr>))
           | Inr (None, sc) \<Rightarrow>
               (case reconcile N R members (l_cluster s) of
                  (Some e, a) \<Rightarrow>
                    Inr (s\<lparr>l_sched := sc, l_established := True, l_cluster := a, l_loop := AtWait False\<rparr>)
                | (None, a) \<Rightarrow>
                    (let s' = s\<lparr>l_sched := sc, l_established := True, l_cluster := a, l_loop := AtWait True\<rparr>
                     in if stopped then leave_loop L s' else Inr s'))))"

text \<open>
  A step of either goroutine, or a change of the scheduler by a request the server handles.
\<close>

inductive leader_step ::
    "net_lib \<Rightarrow> 'r raft_lib \<Rightarrow> 'c cron_lib \<Rightarrow> 'db env \<Rightarrow> ('c, 'r) leadership \<Rightarrow> ('c, 'r) leadership \<Rightarrow> bool"
  for N R L E where
  leaderCh: "l_monitor s \<noteq> Stopping \<Longrightarrow> leader_step N R L E s (on_leaderCh b s)"
| loop_ended: "l_monitor s = Stopping \<Longrightarrow> l_loop s = NotRunning \<Longrightarrow>
    leader_step N R L E s (s\<lparr>l_monitor := Following\<rparr>)"
| pass: "l_loop s = AtReconcile \<Longrightarrow> (stopped \<longrightarrow> l_monitor s = Stopping) \<Longrightarrow>
    reconcile_pass N R L E d members barrier stopped s = Inr s' \<Longrightarrow> leader_step N R L E s s'"
| interval: "l_loop s = AtWait b \<Longrightarrow> leader_step N R L E s (s\<lparr>l_loop := AtReconcile\<rparr>)"
| stop: "l_loop s = AtWait b \<Longrightarrow> l_monitor s = Stopping \<Longrightarrow> leave_loop L s = Inr s' \<Longrightarrow>
    leader_step N R L E s s'"
| member: "l_loop s = AtWait True \<Longrightarrow> c_reconcileCh (l_cluster s) = Some (cap, m # q) \<Longrightarrow>
    reconcileMember N R members ((l_cluster s)\<lparr>c_reconcileCh := Some (cap, q)\<rparr>) m = (e, a) \<Longrightarrow>
    leader_step N R L E s (s\<lparr>l_cluster := a\<rparr>)"
| gossip: "handle_event N R members (l_cluster s) t ms = Inr a \<Longrightarrow> leader_step N R L E s (s\<lparr>l_cluster := a\<rparr>)"
| add_job: "AddJob L (l_sched s) j = Inr (e, sc) \<Longrightarrow> leader_step N R L E s (s\<lparr>l_sched := sc\<rparr>)"
| remove_job: "RemoveJob L (l_sched s) j = Inr sc \<Longrightarrow> leader_step N R L E s (s\<lparr>l_sched := sc\<rparr>)"

definition initial :: "'r cluster \<Rightarrow> ('c, 'r) leadership" where
  "initial a = \<lparr>l_monitor = Following, l_loop = NotRunning, l_established = False,
     l_sched = NewScheduler, l_cluster = a\<rparr>"

inductive_cases leader_stepE: "leader_step N R L E s s'"

text \<open>
  The invariant: a leader loop runs only on behalf of the monitor, one at a time, and the scheduler
  is started exactly while the loop has established the leadership, which it does after a barrier.
\<close>

definition leadership_ok :: "('c, 'r) leadership \<Rightarrow> bool" where
  "leadership_ok s \<longleftrightarrow>
     (l_monitor s = Following \<longrightarrow> l_loop s = NotRunning) \<and>
     (l_loop s = NotRunning \<longrightarrow> \<not> l_established s) \<and>
     (Started (l_sched s) \<longleftrightarrow> l_established s) \<and>
     (Started (l_sched s) \<longrightarrow> Cron (l_sched s) \<noteq> None)"

lemma RemoveJob_frame:
  "RemoveJob L s j = Inr s' \<Longrightarrow> Started s' = Started s \<and> (Cron s' = None \<longleftrightarrow> Cron s = None)"
  by (auto simp: RemoveJob_def split: option.splits)

lemma AddJob_frame:
  assumes "AddJob L s j = Inr (e, s')"
  shows "Started s' = Started s \<and> (Cron s' = None \<longleftrightarrow> Cron s = None)"
proof -
  obtain s1 where s1: "(if map_of (EntryJobMap s) (Name j) \<noteq> None then RemoveJob L s j else Inr s) = Inr s1"
    using assms by (auto simp: AddJob_def split: sum.splits)
  have "Started s1 = Started s \<and> (Cron s1 = None \<longleftrightarrow> Cron s = None)"
    using s1 RemoveJob_frame [of L s j s1] by (auto split: if_splits)
  moreover have "Started s' = Started s1 \<and> (Cron s' = None \<longleftrightarrow> Cron s1 = None)"
    using assms unfolding AddJob_def s1 by (auto split: if_splits option.splits sum.splits)
  ultimately show ?thesis by simp
qed

lemma add_jobs_frame:
  "add_jobs L s js = Inr s' \<Longrightarrow> Started s' = Started s \<and> (Cron s' = None \<longleftrightarrow> Cron s = None)"
proof (induction js arbitrary: s)
  case Nil
  then show ?case by simp
next
  case (Cons j js)
  then obtain e s1 where "AddJob L s j = Inr (e, s1)" "add_jobs L s1 js = Inr s'"
    by (auto split: sum.splits)
  then show ?case using Cons.IH [of s1] AddJob_frame [of L s j e s1] by simp
qed

lemma sched_Start_started: "sched_Start L E s js = Inr s' \<Longrightarrow> Started s' \<and> Cron s' \<noteq> None"
  by (auto simp: sched_Start_def split: sum.splits dest: add_jobs_frame)

lemma establishLeadership_started:
  "establishLeadership L E d s = Inr (e, s') \<Longrightarrow> e = None \<and> Started s' \<and> Cron s' \<noteq> None"
  by (auto simp: establishLeadership_def split: sum.splits dest: sched_Start_started)

lemma revokeLeadership_stopped:
  "revokeLeadership L s = Inr (e, s') \<Longrightarrow> e = None \<and> \<not> Started s'"
  by (auto simp: revokeLeadership_def sched_Stop_def split: sum.splits if_splits option.splits)

lemma leave_loop_ok:
  "leadership_ok s \<Longrightarrow> leave_loop L s = Inr s' \<Longrightarrow>
     leadership_ok s' \<and> l_loop s' = NotRunning \<and> l_monitor s' = l_monitor s \<and> \<not> Started (l_sched s')"
  by (auto simp: leave_loop_def leadership_ok_def split: if_splits sum.splits dest!: revokeLeadership_stopped)

lemma leave_loop_total:
  "leadership_ok s \<Longrightarrow> \<exists>s'. leave_loop L s = Inr s'"
  by (auto simp: leave_loop_def leadership_ok_def revokeLeadership_def sched_Stop_def split: option.splits)

lemma reconcile_pass_ok:
  assumes "leadership_ok s" "l_loop s = AtReconcile"
    "reconcile_pass N R L E d members barrier stopped s = Inr s'"
  shows "leadership_ok s' \<and> l_monitor s' = l_monitor s"
proof (cases barrier)
  case (Some e)
  then show ?thesis using assms by (auto simp: reconcile_pass_def leadership_ok_def)
next
  case None
  obtain e sc where est: "(if l_established s then Inr (None, l_sched s) else establishLeadership L E d (l_sched s))
      = Inr (e, sc)"
    using assms(3) None by (auto simp: reconcile_pass_def split: sum.splits)
  have sc: "e = None" "Started sc" "Cron sc \<noteq> None"
    using est assms(1) by (auto simp: leadership_ok_def dest: establishLeadership_started split: if_splits)
  obtain re a where rec: "reconcile N R members (l_cluster s) = (re, a)" by (cases "reconcile N R members (l_cluster s)")
  let ?s = "\<lambda>b. s\<lparr>l_sched := sc, l_established := True, l_cluster := a, l_loop := AtWait b\<rparr>"
  have "leadership_ok (?s b)" for b
    using assms(1,2) sc by (auto simp: leadership_ok_def)
  moreover have "s' = ?s False \<or> s' = ?s True \<or> leave_loop L (?s True) = Inr s'"
    using assms(3) None est sc(1) rec
    by (auto simp: reconcile_pass_def Let_def split: option.splits if_splits)
  ultimately show ?thesis using leave_loop_ok [of "?s True" L s'] by auto
qed

lemma leader_step_ok:
  assumes "leader_step N R L E s s'" "leadership_ok s"
  shows "leadership_ok s'"
  using assms
proof cases
  case (leaderCh b)
  then show ?thesis using assms(2) by (auto simp: on_leaderCh_def leadership_ok_def)
next
  case (pass stopped d members barrier)
  then show ?thesis using reconcile_pass_ok [OF assms(2) pass(1,3)] by blast
next
  case (stop b)
  then show ?thesis using leave_loop_ok [OF assms(2)] by blast
next
  case (add_job j e sc)
  then show ?thesis using assms(2) AddJob_frame by (fastforce simp: leadership_ok_def)
next
  case (remove_job j sc)
  then show ?thesis using assms(2) RemoveJob_frame by (fastforce simp: leadership_ok_def)
qed (use assms(2) in \<open>auto simp: leadership_ok_def\<close>)

lemma reachable_leadership_ok:
  "(leader_step N R L E)\<^sup>*\<^sup>* (initial a) s \<Longrightarrow> leadership_ok s"
  by (induction rule: rtranclp_induct)
    (simp add: leadership_ok_def initial_def NewScheduler_def, rule leader_step_ok)


lemma stopping_ends:
  assumes "leadership_ok s" "l_monitor s = Stopping"
  shows "\<exists>s'. (leader_step N R L E)\<^sup>*\<^sup>* s s' \<and> l_monitor s' = Following \<and> \<not> Started (l_sched s')"
proof -
  have ended: "\<exists>s'. (leader_step N R L E)\<^sup>*\<^sup>* t s' \<and> l_monitor s' = Following \<and> \<not> Started (l_sched s')"
    if "leadership_ok t" "l_monitor t = Stopping" "l_loop t = NotRunning" for t
    using leader_step.loop_ended [OF that(2,3), of N R L E] that
    by (intro exI [of _ "t\<lparr>l_monitor := Following\<rparr>"]) (auto simp: leadership_ok_def)
  have waiting: "\<exists>s'. (leader_step N R L E)\<^sup>*\<^sup>* t s' \<and> l_monitor s' = Following \<and> \<not> Started (l_sched s')"
    if t: "leadership_ok t" "l_monitor t = Stopping" "l_loop t = AtWait b" for t b
  proof -
    obtain u where u: "leave_loop L t = Inr u" using leave_loop_total [OF t(1)] by blast
    have "leader_step N R L E t u" by (rule leader_step.stop [OF t(3,2) u])
    moreover have "\<exists>s'. (leader_step N R L E)\<^sup>*\<^sup>* u s' \<and> l_monitor s' = Following \<and> \<not> Started (l_sched s')"
      using leave_loop_ok [OF t(1) u] t(2) ended by simp
    ultimately show ?thesis by (meson converse_rtranclp_into_rtranclp)
  qed
  show ?thesis
  proof (cases "l_loop s")
    case NotRunning
    then show ?thesis using ended assms by blast
  next
    case AtReconcile
    let ?t = "s\<lparr>l_loop := AtWait False\<rparr>"
    have "leader_step N R L E s ?t"
      by (rule leader_step.pass [OF AtReconcile, of False _ _ _ _ undefined "[]" "Some ErrNotFound"])
        (simp_all add: reconcile_pass_def)
    moreover have "leadership_ok ?t" "l_monitor ?t = Stopping"
      using assms AtReconcile by (auto simp: leadership_ok_def)
    ultimately show ?thesis using waiting [of ?t False] by (metis converse_rtranclp_into_rtranclp leadership.select_convs(2) leadership.surjective leadership.update_convs(2))
  next
    case (AtWait b)
    then show ?thesis using waiting assms by blast
  qed
qed

section \<open>What Raft promises\<close>

text \<open>
  The configuration calls of hashicorp/raft, for calls that succeed: \<open>cfg\<close> is the latest
  configuration.
\<close>

locale raft_config =
  fixes R :: "'r raft_lib" and cfg :: "'r \<Rightarrow> raft_server list"
  assumes get_config: "r_GetConfiguration R r = Inr ss \<Longrightarrow> ss = cfg r"
    and remove_server: "r_RemoveServer R r i = (None, r') \<Longrightarrow> cfg r' = filter (\<lambda>s. rs_ID s \<noteq> i) (cfg r)"
    and add_voter: "r_AddVoter R r i ad = (None, r') \<Longrightarrow> \<forall>s \<in> set (cfg r). rs_ID s \<noteq> i \<Longrightarrow>
      cfg r' = cfg r @ [\<lparr>rs_ID = i, rs_Address = ad, rs_Suffrage = Voter\<rparr>]"

text \<open>A configuration Raft accepts: no identifier and no address occurs twice.\<close>

definition config_ok :: "raft_server list \<Rightarrow> bool" where
  "config_ok ss \<longleftrightarrow> distinct (map rs_ID ss) \<and> distinct (map rs_Address ss)"

definition has_server :: "raft_server list \<Rightarrow> string \<Rightarrow> string \<Rightarrow> bool" where
  "has_server ss i ad \<longleftrightarrow> (\<exists>s \<in> set ss. rs_ID s = i \<and> rs_Address s = ad)"

definition without_conflicts :: "string \<Rightarrow> string \<Rightarrow> raft_server list \<Rightarrow> raft_server list" where
  "without_conflicts i ad ss = filter (\<lambda>s. rs_ID s \<noteq> i \<and> rs_Address s \<noteq> ad) ss"

lemma config_ok_filter: "config_ok ss \<Longrightarrow> config_ok (filter P ss)"
  by (simp add: config_ok_def distinct_map_filter)

lemma config_ok_add:
  "config_ok ss \<Longrightarrow> config_ok (without_conflicts i ad ss @ [\<lparr>rs_ID = i, rs_Address = ad, rs_Suffrage = su\<rparr>])"
  by (auto simp: config_ok_def without_conflicts_def distinct_map_filter)

context raft_config
begin

lemma clear_conflicts_None:
  assumes "clear_conflicts R ad i r ss = (None, r')"
  shows "cfg r' = filter (\<lambda>s. rs_ID s \<notin> rs_ID ` {t \<in> set ss. rs_ID t = i \<or> rs_Address t = ad}) (cfg r) \<and>
    \<not> has_server ss i ad"
  using assms
proof (induction ss arbitrary: r)
  case Nil
  then show ?case by (simp add: has_server_def)
next
  case (Cons s ss)
  show ?case
  proof (cases "rs_Address s = ad \<or> rs_ID s = i")
    case False
    then show ?thesis using Cons by (auto simp: has_server_def intro!: filter_cong)
  next
    case True
    with Cons.prems obtain r1 where r1: "r_RemoveServer R r (rs_ID s) = (None, r1)"
      "clear_conflicts R ad i r1 ss = (None, r')" "\<not> (rs_Address s = ad \<and> rs_ID s = i)"
      by (auto split: if_splits prod.splits option.splits)
    show ?thesis
      using Cons.IH [OF r1(2)] remove_server [OF r1(1)] r1(3) True
      by (auto simp: has_server_def intro!: filter_cong)
  qed
qed

lemma clear_conflicts_Some:
  assumes "clear_conflicts R ad i r ss = (Some None, r')" "config_ok ss"
  shows "has_server ss i ad \<and> r' = r"
  using assms
proof (induction ss arbitrary: r)
  case Nil
  then show ?case by simp
next
  case (Cons s ss)
  have ss: "config_ok ss" using Cons.prems(2) by (simp add: config_ok_def)
  show ?case
  proof (cases "rs_Address s = ad \<or> rs_ID s = i")
    case False
    then show ?thesis using Cons.IH [OF _ ss] Cons.prems by (auto simp: has_server_def)
  next
    case True
    then consider "rs_Address s = ad \<and> rs_ID s = i" | r1 where "clear_conflicts R ad i r1 ss = (Some None, r')"
      using Cons.prems(1) by (auto split: if_splits prod.splits option.splits)
    then show ?thesis
    proof cases
      case 1
      then show ?thesis using Cons.prems(1) by (auto simp: has_server_def)
    next
      case 2
      then have "has_server ss i ad" using Cons.IH [OF _ ss] by blast
      then show ?thesis using True Cons.prems(2) by (auto simp: has_server_def config_ok_def)
    qed
  qed
qed

lemma clear_conflicts_cfg:
  assumes "clear_conflicts R ad i r (cfg r) = (None, r')" "config_ok (cfg r)"
  shows "cfg r' = without_conflicts i ad (cfg r)"
proof -
  have "rs_ID s \<notin> rs_ID ` {t \<in> set (cfg r). rs_ID t = i \<or> rs_Address t = ad} \<longleftrightarrow> rs_ID s \<noteq> i \<and> rs_Address s \<noteq> ad"
    if "s \<in> set (cfg r)" for s
    using that assms(2) by (auto simp: config_ok_def distinct_map inj_on_def)
  then show ?thesis
    using clear_conflicts_None [OF assms(1)] by (auto simp: without_conflicts_def intro: filter_cong)
qed

text \<open>A successful call of \<open>addRaftPeer\<close> that is not skipped.\<close>

lemma addRaftPeer_cfg:
  assumes ok: "config_ok (cfg r)"
    and run: "addRaftPeer N R members node r m parts = (None, r')"
    and boot: "\<not> (sp_Bootstrap parts \<and> other_bootstrap N members (m_Name m))"
    and self: "m_Name m \<noteq> node \<or> 3 \<le> length (cfg r)"
  shows "cfg r' =
    (let ad = TCPAddr_String (m_Addr m, sp_Port parts)
     in if has_server (cfg r) (sp_ID parts) ad then cfg r
        else without_conflicts (sp_ID parts) ad (cfg r) @ [\<lparr>rs_ID = sp_ID parts, rs_Address = ad, rs_Suffrage = Voter\<rparr>])"
proof -
  define ad where "ad = TCPAddr_String (m_Addr m, sp_Port parts)"
  obtain ss where ss: "r_GetConfiguration R r = Inr ss"
    using run boot by (auto simp: addRaftPeer_def Let_def split: sum.splits)
  then have [simp]: "ss = cfg r" by (rule get_config)
  obtain o' r1 where o': "clear_conflicts R ad (sp_ID parts) r (cfg r) = (o', r1)" by fastforce
  show ?thesis
  proof (cases o')
    case None
    then have add: "r_AddVoter R r1 (sp_ID parts) ad = (None, r')"
      using run boot self ss o' by (auto simp: addRaftPeer_def Let_def ad_def minRaftProtocol_def split: if_splits)
    have cfg1: "cfg r1 = without_conflicts (sp_ID parts) ad (cfg r)"
      using clear_conflicts_cfg o' None ok by blast
    then have "cfg r' = cfg r1 @ [\<lparr>rs_ID = sp_ID parts, rs_Address = ad, rs_Suffrage = Voter\<rparr>]"
      using add_voter [OF add] by (simp add: without_conflicts_def)
    moreover have "\<not> has_server (cfg r) (sp_ID parts) ad"
      using clear_conflicts_None o' None by blast
    ultimately show ?thesis using cfg1 by (simp add: Let_def ad_def [symmetric])
  next
    case (Some e)
    then have "e = None" "r' = r1"
      using run boot self ss o' by (auto simp: addRaftPeer_def Let_def ad_def split: if_splits)
    with clear_conflicts_Some [of ad "sp_ID parts" r "cfg r" r1] o' Some ok show ?thesis
      by (simp add: Let_def ad_def [symmetric])
  qed
qed

lemma removeRaftPeer_cfg:
  assumes "removeRaftPeer R r m parts = (None, r')"
  shows "cfg r' = filter (\<lambda>s. rs_ID s \<noteq> sp_ID parts) (cfg r)"
proof -
  obtain ss where ss: "r_GetConfiguration R r = Inr ss"
    using assms by (auto simp: removeRaftPeer_def split: sum.splits)
  then have [simp]: "ss = cfg r" by (rule get_config)
  show ?thesis
  proof (cases "\<exists>s \<in> set (cfg r). rs_ID s = sp_ID parts")
    case True
    then show ?thesis using assms ss remove_server
      by (auto simp: removeRaftPeer_def minRaftProtocol_def list_ex_iff)
  next
    case False
    then show ?thesis using assms ss
      by (auto simp: removeRaftPeer_def minRaftProtocol_def list_ex_iff intro: filter_True [symmetric])
  qed
qed

end

interpretation refr: raft_config ref_raft "\<lambda>c. c"
  by unfold_locales (auto simp: ref_raft_def intro: filter_True)

section \<open>Reconciliation\<close>

text \<open>What reconciling a member is to achieve, and the address it is known under.\<close>

definition member_addr :: "net_lib \<Rightarrow> member \<Rightarrow> string" where
  "member_addr N m = (case isServer N m of None \<Rightarrow> [] | Some p \<Rightarrow> TCPAddr_String (m_Addr m, sp_Port p))"

definition alive_server :: "net_lib \<Rightarrow> member \<Rightarrow> bool" where
  "alive_server N m \<longleftrightarrow> isServer N m \<noteq> None \<and> m_Status m = StatusAlive"

definition reconciled :: "net_lib \<Rightarrow> member list \<Rightarrow> string \<Rightarrow> string \<Rightarrow> raft_server list \<Rightarrow> member \<Rightarrow> bool" where
  "reconciled N members region node ss m \<longleftrightarrow>
     (case isServer N m of
        None \<Rightarrow> True
      | Some p \<Rightarrow> sp_Region p = region \<longrightarrow>
          (m_Status m = StatusAlive \<and> m_Name m \<noteq> node \<and> \<not> (sp_Bootstrap p \<and> other_bootstrap N members (m_Name m)) \<longrightarrow>
             has_server ss (m_Name m) (member_addr N m)) \<and>
          (m_Status m = StatusLeft \<longrightarrow> (\<forall>s \<in> set ss. rs_ID s \<noteq> m_Name m)))"

lemma isServer_name: "isServer N m = Some p \<Longrightarrow> sp_Name p = m_Name m \<and> sp_ID p = m_Name m"
  by (auto simp: isServer_def Let_def split: if_splits sum.splits option.splits)

lemma has_server_other:
  "has_server ss i ad \<Longrightarrow> i \<noteq> j \<Longrightarrow> ad \<noteq> ad' \<Longrightarrow> has_server (without_conflicts j ad' ss @ ts) i ad"
  by (auto simp: has_server_def without_conflicts_def)

context raft_config
begin

lemma addRaftPeer_skip:
  assumes "addRaftPeer N R members node r m parts = (None, r')"
    "sp_Bootstrap parts \<and> other_bootstrap N members (m_Name m) \<or> m_Name m = node \<and> length (cfg r) < 3"
  shows "r' = r"
  using assms get_config by (force simp: addRaftPeer_def Let_def split: sum.splits if_splits)

text \<open>What reconciling a member does to the configuration.\<close>

lemma reconcileMember_cases:
  assumes ok: "config_ok (cfg (c_raft a))" and run: "reconcileMember N R members a m = (None, a')"
  obtains (same) "a' = a" "reconciled N members (c_Region a) (c_NodeName a) (cfg (c_raft a')) m"
    | (add) p where "isServer N m = Some p" "m_Status m = StatusAlive"
        "cfg (c_raft a') = without_conflicts (m_Name m) (member_addr N m) (cfg (c_raft a)) @
           [\<lparr>rs_ID = m_Name m, rs_Address = member_addr N m, rs_Suffrage = Voter\<rparr>]"
    | (present) p where "isServer N m = Some p" "m_Status m = StatusAlive"
        "cfg (c_raft a') = cfg (c_raft a)" "has_server (cfg (c_raft a)) (m_Name m) (member_addr N m)"
    | (remove) p where "isServer N m = Some p" "m_Status m = StatusLeft"
        "cfg (c_raft a') = filter (\<lambda>s. rs_ID s \<noteq> m_Name m) (cfg (c_raft a))"
proof (cases "isServer N m")
  case None
  then show ?thesis using run that(1) by (simp add: reconcileMember_def reconciled_def)
next
  case (Some p)
  note nm = isServer_name [OF Some]
  show ?thesis
  proof (cases "sp_Region p = c_Region a \<and> m_Status m \<in> {StatusAlive, StatusLeft}")
    case False
    then show ?thesis using run Some that(1)
      by (auto simp: reconcileMember_def reconciled_def split: if_splits)
  next
    case True
    show ?thesis
    proof (cases "m_Status m = StatusAlive")
      case alive: True
      then obtain r where r: "addRaftPeer N R members (c_NodeName a) (c_raft a) m p = (None, r)" "a' = a\<lparr>c_raft := r\<rparr>"
        using run Some True by (auto simp: reconcileMember_def split: prod.splits)
      show ?thesis
      proof (cases "sp_Bootstrap p \<and> other_bootstrap N members (m_Name m) \<or>
          m_Name m = c_NodeName a \<and> length (cfg (c_raft a)) < 3")
        case skip: True
        then have "r = c_raft a" using addRaftPeer_skip [OF r(1)] by simp
        then show ?thesis using that(1) r(2) alive skip Some
          by (auto simp: reconciled_def StatusAlive_def StatusLeft_def)
      next
        case False
        then have "cfg r = (if has_server (cfg (c_raft a)) (m_Name m) (member_addr N m) then cfg (c_raft a)
            else without_conflicts (m_Name m) (member_addr N m) (cfg (c_raft a)) @
              [\<lparr>rs_ID = m_Name m, rs_Address = member_addr N m, rs_Suffrage = Voter\<rparr>])"
          using addRaftPeer_cfg [OF ok r(1)] nm Some by (auto simp: Let_def member_addr_def)
        then show ?thesis using that(2,3) [OF Some alive] r(2) by (auto split: if_splits)
      qed
    next
      case False
      then obtain r where r: "removeRaftPeer R (c_raft a) m p = (None, r)" "a' = a\<lparr>c_raft := r\<rparr>"
        using run Some True by (auto simp: reconcileMember_def split: prod.splits)
      then show ?thesis using that(4) [OF Some] removeRaftPeer_cfg [OF r(1)] nm True False by simp
    qed
  qed
qed

lemma reconcileMember_ok:
  assumes ok: "config_ok (cfg (c_raft a))" and run: "reconcileMember N R members a m = (None, a')"
  shows "config_ok (cfg (c_raft a'))" "c_Region a' = c_Region a" "c_NodeName a' = c_NodeName a"
    and "reconciled N members (c_Region a) (c_NodeName a) (cfg (c_raft a')) m"
    and "has_server (cfg (c_raft a)) i ad \<Longrightarrow> i \<noteq> m_Name m \<Longrightarrow> (alive_server N m \<Longrightarrow> ad \<noteq> member_addr N m) \<Longrightarrow>
      has_server (cfg (c_raft a')) i ad"
    and "\<forall>s \<in> set (cfg (c_raft a)). rs_ID s \<noteq> i \<Longrightarrow> i \<noteq> m_Name m \<Longrightarrow> \<forall>s \<in> set (cfg (c_raft a')). rs_ID s \<noteq> i"
proof -
  note cases = reconcileMember_cases [OF ok run]
  show "c_Region a' = c_Region a" "c_NodeName a' = c_NodeName a"
    using run by (auto simp: reconcileMember_def split: option.splits if_splits prod.splits)
  show "config_ok (cfg (c_raft a'))"
    by (cases rule: cases) (simp_all add: ok config_ok_add config_ok_filter)
  show "reconciled N members (c_Region a) (c_NodeName a) (cfg (c_raft a')) m"
    by (cases rule: cases) (auto simp: reconciled_def has_server_def StatusAlive_def StatusLeft_def)
  show "has_server (cfg (c_raft a')) i ad"
    if "has_server (cfg (c_raft a)) i ad" "i \<noteq> m_Name m" "alive_server N m \<Longrightarrow> ad \<noteq> member_addr N m"
    by (cases rule: cases) (use that in \<open>auto simp: has_server_other alive_server_def has_server_def without_conflicts_def\<close>)
  show "\<forall>s \<in> set (cfg (c_raft a')). rs_ID s \<noteq> i"
    if "\<forall>s \<in> set (cfg (c_raft a)). rs_ID s \<noteq> i" "i \<noteq> m_Name m"
    by (cases rule: cases) (use that in \<open>auto simp: without_conflicts_def\<close>)
qed

lemma reconcile_all_ok:
  assumes "config_ok (cfg (c_raft a))" "reconcile_all N R members a ms = (None, a')"
  shows "config_ok (cfg (c_raft a'))" "c_Region a' = c_Region a" "c_NodeName a' = c_NodeName a"
    and "has_server (cfg (c_raft a)) i ad \<Longrightarrow> i \<notin> m_Name ` set ms \<Longrightarrow>
      ad \<notin> member_addr N ` {m \<in> set ms. alive_server N m} \<Longrightarrow> has_server (cfg (c_raft a')) i ad"
    and "\<forall>s \<in> set (cfg (c_raft a)). rs_ID s \<noteq> i \<Longrightarrow> i \<notin> m_Name ` set ms \<Longrightarrow>
      \<forall>s \<in> set (cfg (c_raft a')). rs_ID s \<noteq> i"
proof -
  have "config_ok (cfg (c_raft a')) \<and> c_Region a' = c_Region a \<and> c_NodeName a' = c_NodeName a \<and>
    (has_server (cfg (c_raft a)) i ad \<longrightarrow> i \<notin> m_Name ` set ms \<longrightarrow>
      ad \<notin> member_addr N ` {m \<in> set ms. alive_server N m} \<longrightarrow> has_server (cfg (c_raft a')) i ad) \<and>
    ((\<forall>s \<in> set (cfg (c_raft a)). rs_ID s \<noteq> i) \<longrightarrow> i \<notin> m_Name ` set ms \<longrightarrow>
      (\<forall>s \<in> set (cfg (c_raft a')). rs_ID s \<noteq> i))"
    using assms
  proof (induction ms arbitrary: a)
    case Nil
    then show ?case by simp
  next
    case (Cons m ms)
    then obtain a1 where a1: "reconcileMember N R members a m = (None, a1)" "reconcile_all N R members a1 ms = (None, a')"
      by (auto split: prod.splits option.splits)
    note step = reconcileMember_ok [OF Cons.prems(1) a1(1)]
    note rest = Cons.IH [OF step(1) a1(2)]
    have has: "has_server (cfg (c_raft a')) i ad"
      if "has_server (cfg (c_raft a)) i ad" "i \<notin> m_Name ` set (m # ms)"
        "ad \<notin> member_addr N ` {x \<in> set (m # ms). alive_server N x}"
    proof -
      have "has_server (cfg (c_raft a1)) i ad" by (rule step(5)) (use that in auto)
      moreover have "ad \<notin> member_addr N ` {x \<in> set ms. alive_server N x}" using that(3) by auto
      ultimately show ?thesis using rest that(2) by simp
    qed
    have "\<forall>s \<in> set (cfg (c_raft a')). rs_ID s \<noteq> i"
      if "\<forall>s \<in> set (cfg (c_raft a)). rs_ID s \<noteq> i" "i \<notin> m_Name ` set (m # ms)"
      using step(6) [OF that(1)] rest that(2) by simp
    then show ?case
      by (intro conjI impI has) (use rest step(2,3) in simp_all)
  qed
  note all = this
  show "config_ok (cfg (c_raft a'))" "c_Region a' = c_Region a" "c_NodeName a' = c_NodeName a"
    using all by simp_all
  show "has_server (cfg (c_raft a')) i ad"
    if "has_server (cfg (c_raft a)) i ad" "i \<notin> m_Name ` set ms" "ad \<notin> member_addr N ` {m \<in> set ms. alive_server N m}"
    using all that by simp
  show "\<forall>s \<in> set (cfg (c_raft a')). rs_ID s \<noteq> i"
    if "\<forall>s \<in> set (cfg (c_raft a)). rs_ID s \<noteq> i" "i \<notin> m_Name ` set ms"
    using all that by simp
qed

lemma reconcile_all_reconciles:
  assumes "config_ok (cfg (c_raft a))" "reconcile_all N R members a ms = (None, a')"
    "distinct (map m_Name ms)" "distinct (map (member_addr N) (filter (alive_server N) ms))"
  shows "\<forall>m \<in> set ms. reconciled N members (c_Region a) (c_NodeName a) (cfg (c_raft a')) m"
  using assms
proof (induction ms arbitrary: a)
  case Nil
  then show ?case by simp
next
  case (Cons m ms)
  then obtain a1 where a1: "reconcileMember N R members a m = (None, a1)" "reconcile_all N R members a1 ms = (None, a')"
    by (auto split: prod.splits option.splits)
  note step = reconcileMember_ok [OF Cons.prems(1) a1(1)]
  note rest = reconcile_all_ok [OF step(1) a1(2)]
  have tl: "distinct (map m_Name ms)" "distinct (map (member_addr N) (filter (alive_server N) ms))"
    "m_Name m \<notin> m_Name ` set ms" "alive_server N m \<Longrightarrow> member_addr N m \<notin> member_addr N ` {m \<in> set ms. alive_server N m}"
    using Cons.prems(3,4) by (auto split: if_splits)
  have "reconciled N members (c_Region a) (c_NodeName a) (cfg (c_raft a')) m"
    using step(4) rest(4) [of "m_Name m" "member_addr N m"] rest(5) [of "m_Name m"] tl(3,4)
    by (auto simp: reconciled_def alive_server_def split: option.splits)
  moreover have "\<forall>m \<in> set ms. reconciled N members (c_Region a) (c_NodeName a) (cfg (c_raft a')) m"
    using Cons.IH [OF step(1) a1(2) tl(1,2)] by (simp add: step(2,3))
  ultimately show ?case by simp
qed

end


text \<open>
  C22: A successful reconciliation brings the Raft configuration in line with the gossip pool. When
  the names of the members and the addresses of the alive servers are distinct, every alive server
  of the region other than the leader itself is in the configuration under its name and address
  afterwards, unless it is in bootstrap mode and another server is as well; no server that left is
  in it, and no identifier or address occurs twice.
\<close>

theorem reconcile_reconciles:
  assumes "raft_config R cfg" "config_ok (cfg (c_raft a))"
    "distinct (map m_Name members)" "distinct (map (member_addr N) (filter (alive_server N) members))"
    "reconcile N R members a = (None, a')"
  shows "config_ok (cfg (c_raft a')) \<and>
    (\<forall>m \<in> set members. reconciled N members (c_Region a) (c_NodeName a) (cfg (c_raft a')) m)"
  using raft_config.reconcile_all_ok(1) [OF assms(1,2), of N members members a']
    raft_config.reconcile_all_reconciles [OF assms(1,2) _ assms(3,4), of members a'] assms(5)
  by (simp add: reconcile_def)

definition sample_leader :: "raft_server list cluster" where
  "sample_leader = sample_cluster\<lparr>c_raft := [voter_of (sample_server ''n1'' ''10.0.0.1'')]\<rparr>"

lemma sample_addr:
  "TCPAddr_String (''10.0.0.1'', 6868) = ''10.0.0.1:6868''" "TCPAddr_String (''10.0.0.2'', 6868) = ''10.0.0.2:6868''"
  by (simp_all add: TCPAddr_String_def JoinHostPort_def show_6868)

lemma sample_server_addr [simp]:
  "sp_ID (sample_server n ip) = n" "sp_Port (sample_server n ip) = 6868" "sp_Addr (sample_server n ip) = (ip, 6868)"
  by (simp_all add: sample_server_def)

lemma sample_member_simps [simp]:
  "m_Name (sample_member n ip) = n" "m_Addr (sample_member n ip) = ip" "m_Status (sample_member n ip) = StatusAlive"
  by (simp_all add: sample_member_def)

lemma sample_reconcile:
  "reconcile ref_net ref_raft [sample_member ''n1'' ''10.0.0.1'', sample_member ''n2'' ''10.0.0.2''] sample_leader =
     (None, sample_leader\<lparr>c_raft := [voter_of (sample_server ''n1'' ''10.0.0.1''), voter_of (sample_server ''n2'' ''10.0.0.2'')]\<rparr>)"
  by (simp add: reconcile_def reconcileMember_def sample_leader_def sample_cluster_def addRaftPeer_def ref_raft_def Let_def
      minRaftProtocol_def voter_of_def sample_addr)

theorem reconcile_reconciles_witness:
  "reconcile ref_net ref_raft [sample_member ''n1'' ''10.0.0.1'', sample_member ''n2'' ''10.0.0.2''] sample_leader =
     (None, sample_leader\<lparr>c_raft := [voter_of (sample_server ''n1'' ''10.0.0.1''), voter_of (sample_server ''n2'' ''10.0.0.2'')]\<rparr>) \<and>
   has_server [voter_of (sample_server ''n1'' ''10.0.0.1''), voter_of (sample_server ''n2'' ''10.0.0.2'')] ''n2'' ''10.0.0.2:6868''"
proof -
  let ?ms = "[sample_member ''n1'' ''10.0.0.1'', sample_member ''n2'' ''10.0.0.2'']"
  have cfg: "config_ok (c_raft sample_leader)" by (simp add: sample_leader_def config_ok_def)
  have names: "distinct (map m_Name ?ms)" by simp
  have addrs: "distinct (map (member_addr ref_net) (filter (alive_server ref_net) ?ms))"
    by (simp add: member_addr_def sample_addr)
  show ?thesis
    using reconcile_reconciles [OF refr.raft_config_axioms cfg names addrs sample_reconcile] sample_reconcile
    by (simp add: reconciled_def member_addr_def sample_addr sample_leader_def sample_cluster_def)
qed

text \<open>
  C8: Leadership is exclusive and drives the scheduler. In every state the two goroutines can
  reach, whatever Raft reports and in whatever order, the leader loop runs only between the
  acquisition of leadership and the moment the monitor has seen it end, the scheduler is started
  exactly while the loop has established the leadership, and a node that follows has its
  scheduler stopped.
\<close>

theorem leadership_invariant:
  assumes "(leader_step N R L E)\<^sup>*\<^sup>* (initial a) s"
  shows "(Started (l_sched s) \<longleftrightarrow> l_established s) \<and>
    (l_established s \<longrightarrow> l_loop s \<noteq> NotRunning) \<and>
    (l_monitor s = Following \<longrightarrow> l_loop s = NotRunning \<and> \<not> Started (l_sched s))"
  using reachable_leadership_ok [OF assms] by (auto simp: leadership_ok_def)

text \<open>
  C31: A node that is told it lost the leadership can always finish: from every reachable state in
  which the stop channel is closed the loop can end and revoke the leadership without a panic, so
  that the monitor follows again and the scheduler is stopped.
\<close>

theorem leadership_loss_completes:
  assumes "(leader_step N R L E)\<^sup>*\<^sup>* (initial a) s" "l_monitor s = Stopping"
  shows "\<exists>s'. (leader_step N R L E)\<^sup>*\<^sup>* s s' \<and> l_monitor s' = Following \<and> \<not> Started (l_sched s')"
  using stopping_ends [OF reachable_leadership_ok [OF assms(1)] assms(2)] .

text \<open>
  \<open>reconcileCh\<close> stays nil, so the members that join, leave or are reaped while the loop waits are
  not reconciled before the interval is over.
\<close>

lemma reconcileMember_chan: "c_reconcileCh (snd (reconcileMember N R members a m)) = c_reconcileCh a"
  by (auto simp: reconcileMember_def split: option.splits prod.splits)

lemma reconcile_all_chan: "c_reconcileCh (snd (reconcile_all N R members a ms)) = c_reconcileCh a"
proof (induction ms arbitrary: a)
  case (Cons m ms)
  then show ?case using reconcileMember_chan [of N R members a m] by (auto split: prod.splits option.splits)
qed simp

lemma reconcile_pass_chan:
  assumes "reconcile_pass N R L E d members barrier stopped s = Inr s'"
  shows "c_reconcileCh (l_cluster s') = c_reconcileCh (l_cluster s)"
  using assms reconcile_all_chan [of N R members "l_cluster s" members]
  by (auto simp: reconcile_pass_def reconcile_def leave_loop_def Let_def split: option.splits sum.splits prod.splits if_splits)

lemma leader_step_chan:
  assumes "leader_step N R L E s s'" "c_reconcileCh (l_cluster s) = None"
  shows "c_reconcileCh (l_cluster s') = None"
  using assms
proof cases
  case (pass stopped d members barrier)
  then show ?thesis using reconcile_pass_chan assms(2) by metis
next
  case (gossip members t ms a)
  then show ?thesis using handle_event_nil assms(2) by simp
qed (use assms(2) in \<open>auto simp: on_leaderCh_def leave_loop_def split: if_splits sum.splits\<close>)

theorem member_step_never:
  assumes "(leader_step N R L E)\<^sup>*\<^sup>* (initial a) s" "c_reconcileCh a = None"
  shows "c_reconcileCh (l_cluster s) \<noteq> Some (cap, m # q)"
proof -
  have "c_reconcileCh (l_cluster s) = None"
    using assms by (induction rule: rtranclp_induct) (auto simp: initial_def leader_step_chan)
  then show ?thesis by simp
qed

text \<open>A run: the node acquires the leadership, establishes it on an empty store, and loses it.\<close>

definition run_pass :: "(ref_cron_state, raft_server list) leadership" where
  "run_pass = (initial sample_leader)\<lparr>l_monitor := Leading, l_loop := AtWait True, l_established := True,
     l_sched := \<lparr>Cron = Some (ext_Parse (ref_env sample_now), 0, []), Started = True, EntryJobMap = []\<rparr>\<rparr>"

lemma sample_pass:
  "reconcile_pass ref_net ref_raft ref_cron (ref_env sample_now) [] [] None False
     (on_leaderCh True (initial sample_leader)) = Inr run_pass"
proof -
  have "GetJobs (ref_env sample_now) [] None = Inr []"
    by (simp add: GetJobs_def ref_env_def ref_ascend_def)
  then show ?thesis
    by (simp add: reconcile_pass_def on_leaderCh_def initial_def establishLeadership_def sched_Start_def
        reconcile_def run_pass_def ref_cron_def NewScheduler_def Let_def)
qed

lemma sample_run:
  "(leader_step ref_net ref_raft ref_cron (ref_env sample_now))\<^sup>*\<^sup>* (initial sample_leader) run_pass"
  "(leader_step ref_net ref_raft ref_cron (ref_env sample_now))\<^sup>*\<^sup>* (initial sample_leader) (on_leaderCh False run_pass)"
proof -
  have 1: "leader_step ref_net ref_raft ref_cron (ref_env sample_now) (initial sample_leader)
      (on_leaderCh True (initial sample_leader))"
    by (rule leader_step.leaderCh) (simp add: initial_def)
  have 2: "leader_step ref_net ref_raft ref_cron (ref_env sample_now) (on_leaderCh True (initial sample_leader)) run_pass"
    by (rule leader_step.pass [OF _ _ sample_pass]) (simp_all add: on_leaderCh_def initial_def)
  show 3: "(leader_step ref_net ref_raft ref_cron (ref_env sample_now))\<^sup>*\<^sup>* (initial sample_leader) run_pass"
    using 1 2 by (rule converse_rtranclp_into_rtranclp [OF _ r_into_rtranclp])
  have "leader_step ref_net ref_raft ref_cron (ref_env sample_now) run_pass (on_leaderCh False run_pass)"
    by (rule leader_step.leaderCh) (simp add: run_pass_def)
  with 3 show "(leader_step ref_net ref_raft ref_cron (ref_env sample_now))\<^sup>*\<^sup>* (initial sample_leader) (on_leaderCh False run_pass)"
    by (rule rtranclp.rtrancl_into_rtrancl)
qed

theorem leadership_invariant_witness:
  "(leader_step ref_net ref_raft ref_cron (ref_env sample_now))\<^sup>*\<^sup>* (initial sample_leader) run_pass \<and>
   Started (l_sched run_pass) \<and> l_established run_pass"
  using leadership_invariant [OF sample_run(1)] sample_run(1) by (simp add: run_pass_def)

theorem leadership_loss_completes_witness:
  "\<exists>s'. (leader_step ref_net ref_raft ref_cron (ref_env sample_now))\<^sup>*\<^sup>* (on_leaderCh False run_pass) s' \<and>
     l_monitor s' = Following \<and> \<not> Started (l_sched s')"
  by (rule leadership_loss_completes [OF sample_run(2)]) (simp add: on_leaderCh_def run_pass_def)

end
