(* ===== verification/Agent.thy ===== *)
theory Agent
  imports Leader Fsm
begin

text \<open>
  The operations of \<open>src/dkron/agent.go\<close> and \<open>src/dkron/run.go\<close> on a running agent, and the part
  of \<open>src/dkron/job.go\<close> that needs the agent: the servers it knows, the choice of the nodes a job
  runs on, the writes through Raft, a run of a job, and stopping. The list of members is the one serf
  reports while an operation runs; a goroutine per target node is the list of the calls that are
  made.
\<close>

section \<open>Servers\<close>

definition Servers :: "net_lib \<Rightarrow> member list \<Rightarrow> server_parts list" where
  "Servers N members =
     List.map_filter (\<lambda>m. if m_Status m \<noteq> StatusAlive then None else isServer N m) members"

definition LocalServers :: "net_lib \<Rightarrow> string \<Rightarrow> member list \<Rightarrow> server_parts list" where
  "LocalServers N region members = filter (\<lambda>p. region = sp_Region p) (Servers N members)"

definition leaderMember :: "'r raft_lib \<Rightarrow> 'r \<Rightarrow> member list \<Rightarrow> member res" where
  "leaderMember R r members =
     (case List.find (\<lambda>m. get_str (m_Tags m) ''rpc_addr'' = r_Leader R r) members of
        Some m \<Rightarrow> Inr m | None \<Rightarrow> Inl ErrLeaderNotFound)"

text \<open>\<open>dial\<close> is the outcome of connecting to an address with a timeout.\<close>

definition checkAndSelectServer ::
    "(string \<Rightarrow> err) \<Rightarrow> net_lib \<Rightarrow> string \<Rightarrow> member list \<Rightarrow> string res" where
  "checkAndSelectServer dial N region members =
     (case List.find (\<lambda>peer. dial peer = None)
             (map (\<lambda>p. TCPAddr_String (sp_RPCAddr p)) (LocalServers N region members)) of
        Some peer \<Rightarrow> Inr peer | None \<Rightarrow> Inl ErrNoSuitableServer)"

text \<open>\<open>active_of\<close> is the call of \<open>GetActiveExecutions\<close> on the server at an address.\<close>

fun collect_active :: "(string \<Rightarrow> pb_execution list res) \<Rightarrow> string list \<Rightarrow> pb_execution list res" where
  "collect_active active_of [] = Inr []"
| "collect_active active_of (addr # addrs) =
     (case active_of addr of
        Inl e \<Rightarrow> Inl e
      | Inr exs \<Rightarrow> (case collect_active active_of addrs of Inl e \<Rightarrow> Inl e | Inr rest \<Rightarrow> Inr (exs @ rest)))"

definition agent_GetActiveExecutions ::
    "(string \<Rightarrow> pb_execution list res) \<Rightarrow> net_lib \<Rightarrow> string \<Rightarrow> member list \<Rightarrow> pb_execution list res" where
  "agent_GetActiveExecutions active_of N region members =
     collect_active active_of (map (\<lambda>p. TCPAddr_String (sp_RPCAddr p)) (LocalServers N region members))"

section \<open>The nodes a job runs on\<close>

text \<open>
  \<open>rand.Shuffle\<close> and the intersection of juliangruber/go-intersect: a permutation, and a list with
  the common elements.
\<close>

record choice =
  shuffle :: "string list \<Rightarrow> string list"
  isect :: "string list \<Rightarrow> string list \<Rightarrow> string list"

definition matching :: "member list \<Rightarrow> string \<Rightarrow> string \<Rightarrow> string list" where
  "matching members k v =
     concat (map (\<lambda>m. if m_Status m = StatusAlive
                      then map (\<lambda>_. m_Name m) (filter (\<lambda>(mtk, mtv). mtk = k \<and> mtv = v) (m_Tags m))
                      else []) members)"

text \<open>The candidates of one tag of the job: \<open>value\<close> or \<open>value:count\<close>.\<close>

definition tag_candidates :: "choice \<Rightarrow> member list \<Rightarrow> string \<Rightarrow> string \<Rightarrow> string list res" where
  "tag_candidates ch members k v =
     (let tc = Split v CHR '':'';
          cans = matching members k (hd tc)
      in if length tc = 2
         then (case Atoi (tc ! 1) of
                 Inl e \<Rightarrow> Inl e
               | Inr cnt \<Rightarrow> Inr (take (nat cnt) (shuffle ch cans)))
         else Inr cans)"

fun all_candidates :: "choice \<Rightarrow> member list \<Rightarrow> string gomap \<Rightarrow> string list list res" where
  "all_candidates ch members [] = Inr []"
| "all_candidates ch members ((k, v) # tags) =
     (case tag_candidates ch members k v of
        Inl e \<Rightarrow> Inl e
      | Inr cans \<Rightarrow> (case all_candidates ch members tags of Inl e \<Rightarrow> Inl e | Inr rest \<Rightarrow> Inr (cans # rest)))"

fun intersect_all :: "choice \<Rightarrow> string list list \<Rightarrow> string list" where
  "intersect_all ch [] = []"
| "intersect_all ch (r # rs) = foldl (isect ch) r rs"

definition node_addr :: "member \<Rightarrow> string" where
  "node_addr m = (case map_of (m_Tags m) ''rpc_addr'' of Some addr \<Rightarrow> addr | None \<Rightarrow> m_Addr m)"

definition add_nodes :: "member list \<Rightarrow> string \<Rightarrow> string gomap \<Rightarrow> string gomap" where
  "add_nodes members n nodes =
     fold (\<lambda>m ns. if n = m_Name m then AList.update n (node_addr m) ns else ns) members nodes"

definition job_tags :: "string \<Rightarrow> job \<Rightarrow> string gomap" where
  "job_tags region j = AList.update ''region'' region (Tags j)"

definition processFilteredNodes ::
    "choice \<Rightarrow> string \<Rightarrow> member list \<Rightarrow> job \<Rightarrow> (string gomap \<times> string gomap) res" where
  "processFilteredNodes ch region members j =
     (let tags = job_tags region j in
      case all_candidates ch members tags of
        Inl e \<Rightarrow> Inl e
      | Inr candidates \<Rightarrow>
          Inr (fold (add_nodes members) (intersect_all ch candidates) [],
               map (\<lambda>(k, v). (k, hd (Split v CHR '':''))) tags))"

section \<open>The laws of the choice\<close>

locale choice_laws =
  fixes ch :: choice
  assumes shuffle_mset: "mset (shuffle ch xs) = mset xs"
    and isect_set: "set (isect ch xs ys) = set xs \<inter> set ys"

definition ref_choice :: choice where
  "ref_choice = \<lparr>shuffle = (\<lambda>xs. xs), isect = (\<lambda>xs ys. filter (\<lambda>x. x \<in> set ys) xs)\<rparr>"

interpretation refch: choice_laws ref_choice
  by unfold_locales (auto simp: ref_choice_def)

text \<open>
  A member has a tag when its map says so; a node is eligible when it is alive and has every tag of
  the job, the counts left out, and the region.
\<close>

definition eligible :: "string \<Rightarrow> job \<Rightarrow> member \<Rightarrow> bool" where
  "eligible region j m \<longleftrightarrow> m_Status m = StatusAlive \<and>
     (\<forall>(k, v) \<in> set (job_tags region j). map_of (m_Tags m) k = Some (hd (Split v CHR '':'')))"

text \<open>What serf guarantees of its list: names are unique, and tags are maps.\<close>

definition members_ok :: "member list \<Rightarrow> bool" where
  "members_ok members \<longleftrightarrow> distinct (map m_Name members) \<and> (\<forall>m \<in> set members. distinct (map fst (m_Tags m)))"

lemma matching_set:
  assumes "members_ok members"
  shows "set (matching members k v) =
    {m_Name m |m. m \<in> set members \<and> m_Status m = StatusAlive \<and> map_of (m_Tags m) k = Some v}"
proof -
  have "(k, v) \<in> set (m_Tags m) \<longleftrightarrow> map_of (m_Tags m) k = Some v" if "m \<in> set members" for m
    using assms that by (simp add: members_ok_def)
  then show ?thesis by (auto simp: matching_def split: if_splits)
qed

context choice_laws
begin

lemma shuffle_set [simp]: "set (shuffle ch xs) = set xs"
  using shuffle_mset [of xs] by (rule mset_eq_setD)

lemma intersect_all_set: "rs \<noteq> [] \<Longrightarrow> set (intersect_all ch rs) = (\<Inter>r \<in> set rs. set r)"
proof -
  have "set (foldl (isect ch) r rs) = set r \<inter> (\<Inter>r \<in> set rs. set r)" for r rs
    by (induction rs arbitrary: r) (auto simp: isect_set)
  then show "rs \<noteq> [] \<Longrightarrow> ?thesis" by (cases rs) auto
qed

lemma tag_candidates_subset:
  "tag_candidates ch members k v = Inr cans \<Longrightarrow> set cans \<subseteq> set (matching members k (hd (Split v CHR '':'')))"
  by (auto simp: tag_candidates_def Let_def split: if_splits sum.splits dest: in_set_takeD)

lemma tag_candidates_count:
  assumes "tag_candidates ch members k v = Inr cans" "Split v CHR '':'' = [b, c]" "Atoi c = Inr n"
  shows "card (set cans) \<le> nat n"
  using assms card_length [of cans] by (auto simp: tag_candidates_def Let_def)

lemma tag_candidates_all:
  "tag_candidates ch members k v = Inr cans \<Longrightarrow> length (Split v CHR '':'') \<noteq> 2 \<Longrightarrow>
     cans = matching members k (hd (Split v CHR '':''))"
  by (auto simp: tag_candidates_def Let_def)

lemma all_candidates_set:
  assumes "all_candidates ch members tags = Inr cs"
  shows "length cs = length tags" "i < length tags \<Longrightarrow>
     tag_candidates ch members (fst (tags ! i)) (snd (tags ! i)) = Inr (cs ! i)"
proof -
  have "length cs = length tags \<and> (\<forall>i < length tags.
     tag_candidates ch members (fst (tags ! i)) (snd (tags ! i)) = Inr (cs ! i))"
    using assms
  proof (induction tags arbitrary: cs)
    case Nil
    then show ?case by simp
  next
    case (Cons t tags)
    obtain k v where t: "t = (k, v)" by fastforce
    with Cons.prems obtain c cs' where "tag_candidates ch members k v = Inr c"
      "all_candidates ch members tags = Inr cs'" "cs = c # cs'"
      by (auto split: sum.splits)
    with Cons.IH [of cs'] t show ?case by (auto simp: nth_Cons split: nat.splits)
  qed
  then show "length cs = length tags" "i < length tags \<Longrightarrow>
     tag_candidates ch members (fst (tags ! i)) (snd (tags ! i)) = Inr (cs ! i)" by auto
qed

end

lemma job_tags_nonempty [simp]: "job_tags region j \<noteq> []"
  by (cases "Tags j") (auto simp: job_tags_def)

lemma map_of_add_nodes:
  "map_of (add_nodes members n nodes) x =
     (if x = n \<and> n \<in> m_Name ` set members
      then Some (node_addr (last (filter (\<lambda>m. m_Name m = n) members))) else map_of nodes x)"
  unfolding add_nodes_def
proof (induction members arbitrary: nodes rule: rev_induct)
  case Nil
  then show ?case by simp
next
  case (snoc m members)
  then show ?case by (auto simp: update_conv')
qed

lemma map_of_nodes:
  "map_of (fold (add_nodes members) r nodes) x =
     (if x \<in> set r \<and> x \<in> m_Name ` set members
      then Some (node_addr (last (filter (\<lambda>m. m_Name m = x) members))) else map_of nodes x)"
  by (induction r arbitrary: nodes) (auto simp: map_of_add_nodes)

lemma distinct_add_nodes: "distinct (map fst nodes) \<Longrightarrow> distinct (map fst (add_nodes members n nodes))"
  unfolding add_nodes_def by (induction members arbitrary: nodes) (auto intro: distinct_update)

lemma processFilteredNodes_distinct:
  assumes "processFilteredNodes ch region members j = Inr (nodes, tags)"
  shows "distinct (map fst nodes)"
proof -
  have "distinct (map fst (fold (add_nodes members) r ns))" if "distinct (map fst ns)" for r ns
    using that by (induction r arbitrary: ns) (auto intro: distinct_add_nodes)
  then show ?thesis using assms by (auto simp: processFilteredNodes_def Let_def split: sum.splits)
qed

lemma last_filter_name:
  assumes "members_ok members" "m \<in> set members"
  shows "last (filter (\<lambda>x. m_Name x = m_Name m) members) = m"
proof -
  have "filter (\<lambda>x. m_Name x = m_Name m) members = [m]"
    using assms by (induction members) (auto simp: members_ok_def filter_empty_conv image_iff)
  then show ?thesis by simp
qed

context choice_laws
begin

lemma processFilteredNodes_sound:
  assumes ok: "members_ok members" and run: "processFilteredNodes ch region members j = Inr (nodes, tags)"
    and n: "map_of nodes n = Some addr"
  shows "\<exists>m \<in> set members. m_Name m = n \<and> eligible region j m \<and> addr = node_addr m"
proof -
  obtain cs where cs: "all_candidates ch members (job_tags region j) = Inr cs"
    "nodes = fold (add_nodes members) (intersect_all ch cs) []"
    using run by (auto simp: processFilteredNodes_def Let_def split: sum.splits)
  note len = all_candidates_set [OF cs(1)]
  have "cs \<noteq> []" using len(1) by auto
  from n cs(2) obtain m where m: "m \<in> set members" "m_Name m = n" "n \<in> set (intersect_all ch cs)"
    "addr = node_addr (last (filter (\<lambda>m. m_Name m = n) members))"
    by (auto simp: map_of_nodes split: if_splits)
  have addr: "addr = node_addr m" using m last_filter_name [OF ok m(1)] by simp
  have cand: "m_Status m = StatusAlive \<and> map_of (m_Tags m) k = Some (hd (Split v CHR '':''))"
    if kv: "(k, v) \<in> set (job_tags region j)" for k v
  proof -
    obtain i where i: "i < length (job_tags region j)" "job_tags region j ! i = (k, v)"
      using kv by (auto simp: in_set_conv_nth)
    then have "tag_candidates ch members k v = Inr (cs ! i)" using len(2) [OF i(1)] by simp
    moreover have "n \<in> set (cs ! i)"
      using m(3) intersect_all_set [OF \<open>cs \<noteq> []\<close>] i(1) len(1) by auto
    ultimately have "n \<in> set (matching members k (hd (Split v CHR '':'')))"
      using tag_candidates_subset by blast
    then obtain m' where m': "m' \<in> set members" "m_Name m' = n" "m_Status m' = StatusAlive"
      "map_of (m_Tags m') k = Some (hd (Split v CHR '':''))"
      by (auto simp: matching_set [OF ok])
    then have "m' = m"
      using ok m by (auto simp: members_ok_def distinct_map inj_on_def)
    with m' show ?thesis by simp
  qed
  moreover obtain k v where "(k, v) \<in> set (job_tags region j)"
    using job_tags_nonempty [of region j] by (metis list.set_intros(1) neq_Nil_conv surj_pair)
  ultimately have "eligible region j m" by (auto simp: eligible_def)
  with m(1,2) addr show ?thesis by blast
qed

lemma processFilteredNodes_count:
  assumes run: "processFilteredNodes ch region members j = Inr (nodes, tags)"
    and kv: "(k, v) \<in> set (job_tags region j)" "Split v CHR '':'' = [b, c]" "Atoi c = Inr n"
  shows "card (dom (map_of nodes)) \<le> nat n"
proof -
  obtain cs where cs: "all_candidates ch members (job_tags region j) = Inr cs"
    "nodes = fold (add_nodes members) (intersect_all ch cs) []"
    using run by (auto simp: processFilteredNodes_def Let_def split: sum.splits)
  note len = all_candidates_set [OF cs(1)]
  have "cs \<noteq> []" using len(1) by auto
  obtain i where i: "i < length (job_tags region j)" "job_tags region j ! i = (k, v)"
    using kv by (auto simp: in_set_conv_nth)
  then have t: "tag_candidates ch members k v = Inr (cs ! i)" using len(2) [OF i(1)] by simp
  have "dom (map_of nodes) \<subseteq> set (cs ! i)"
    using intersect_all_set [OF \<open>cs \<noteq> []\<close>] i(1) len(1) cs(2) by (auto simp: map_of_nodes split: if_splits)
  then have "card (dom (map_of nodes)) \<le> card (set (cs ! i))" by (intro card_mono) auto
  also have "\<dots> \<le> nat n" using tag_candidates_count [OF t kv(2,3)] .
  finally show ?thesis .
qed

lemma processFilteredNodes_complete:
  assumes ok: "members_ok members" and run: "processFilteredNodes ch region members j = Inr (nodes, tags)"
    and no: "\<forall>(k, v) \<in> set (job_tags region j). length (Split v CHR '':'') \<noteq> 2"
    and m: "m \<in> set members" "eligible region j m"
  shows "map_of nodes (m_Name m) = Some (node_addr m)"
proof -
  obtain cs where cs: "all_candidates ch members (job_tags region j) = Inr cs"
    "nodes = fold (add_nodes members) (intersect_all ch cs) []"
    using run by (auto simp: processFilteredNodes_def Let_def split: sum.splits)
  note len = all_candidates_set [OF cs(1)]
  have "cs \<noteq> []" using len(1) by auto
  have "m_Name m \<in> set (cs ! i)" if i: "i < length cs" for i
  proof -
    obtain k v where kv: "job_tags region j ! i = (k, v)" by fastforce
    with i len(1) have mem: "(k, v) \<in> set (job_tags region j)" by (metis nth_mem)
    have "tag_candidates ch members k v = Inr (cs ! i)" using len(2) [of i] i len(1) kv by simp
    then have "cs ! i = matching members k (hd (Split v CHR '':''))" using tag_candidates_all no mem by blast
    then show ?thesis using m mem by (auto simp: matching_set [OF ok] eligible_def)
  qed
  then have "m_Name m \<in> set (intersect_all ch cs)"
    using intersect_all_set [OF \<open>cs \<noteq> []\<close>] by (auto simp: in_set_conv_nth)
  then show ?thesis using m(1) last_filter_name [OF ok m(1)] cs(2) by (simp add: map_of_nodes)
qed

end


section \<open>Writing through the replicated log\<close>

text \<open>
  \<open>raft.Apply\<close> and the two results of its future, for the leader's own copy of the store. The
  locale states what the code relies on: a command whose future succeeds has been given to the
  state machine of \<open>fsm.go\<close>, at some index and at a time of \<open>T\<close>, the times its clock shows.
\<close>

type_synonym 'db raft_apply = "'db \<Rightarrow> string \<Rightarrow> response res \<times> 'db"

locale raft_log =
  fixes ap :: "'db raft_apply" and E :: "'db env" and pro :: "nat \<Rightarrow> 'db applier option" and T :: "time set"
  assumes applied: "ap d cmd = (Inr r, d') \<Longrightarrow>
    \<exists>t\<in>T. \<exists>index. Apply pro (E\<lparr>now := t\<rparr>) (store_ops (E\<lparr>now := t\<rparr>)) d cmd index = (r, d')"

definition fsm_apply :: "'db env \<Rightarrow> 'db raft_apply" where
  "fsm_apply E d cmd = (case Apply (\<lambda>_. None) E (store_ops E) d cmd 1 of (r, d') \<Rightarrow> (Inr r, d'))"

interpretation fsm_log: raft_log "fsm_apply E" E "\<lambda>_. None" "{now E}" for E
proof
  fix d cmd r d'
  assume "fsm_apply E d cmd = (Inr r, d')"
  then show "\<exists>t\<in>{now E}. \<exists>index. Apply (\<lambda>_. None) (E\<lparr>now := t\<rparr>) (store_ops (E\<lparr>now := t\<rparr>)) d cmd index = (r, d')"
    by (intro bexI [of _ "now E"] exI [of _ 1]) (simp_all add: fsm_apply_def split: prod.splits)
qed

definition agent_applySetJob :: "'db raft_apply \<Rightarrow> 'db env \<Rightarrow> 'db \<Rightarrow> pb_job \<Rightarrow> err \<times> 'db" where
  "agent_applySetJob ap E d job =
     (case Encode E SetJobType (MJob job) of
        Inl e \<Rightarrow> (Some e, d)
      | Inr cmd \<Rightarrow>
          (case ap d cmd of
             (Inl e, d') \<Rightarrow> (Some e, d')
           | (Inr res, d') \<Rightarrow>
               if res = RError ErrParentJobNotFound then (Some ErrParentJobNotFound, d')
               else if res = RError ErrSameParent then (Some ErrParentJobNotFound, d')
               else (None, d')))"

section \<open>Running a job\<close>

text \<open>The node of a retry: its address, or an error when the member is known and not alive.\<close>

fun retry_addr :: "string \<Rightarrow> string \<Rightarrow> member list \<Rightarrow> string res" where
  "retry_addr node addr [] = Inr addr"
| "retry_addr node addr (m # ms) =
     (if node = m_Name m then
        (if m_Status m = StatusAlive then retry_addr node (get_str (m_Tags m) ''rpc_addr'') ms
         else Inl (Errorf ''retry node is gone''))
      else retry_addr node addr ms)"

definition target_nodes :: "choice \<Rightarrow> string \<Rightarrow> member list \<Rightarrow> job \<Rightarrow> execution \<Rightarrow> string gomap res" where
  "target_nodes ch region members job ex =
     (if ex_Attempt ex \<le> 1 then
        (case processFilteredNodes ch region members job of
           Inl e \<Rightarrow> Inl (Errorf ''run error processing filtered nodes'')
         | Inr (nodes, _) \<Rightarrow> Inr nodes)
      else
        (case retry_addr (ex_NodeName ex) [] members of
           Inl e \<Rightarrow> Inl e
         | Inr addr \<Rightarrow> Inr [(ex_NodeName ex, addr)]))"

text \<open>
  A job without parent gets the next run its entry in the scheduler has, and is stored with it.
\<close>

definition store_next :: "'c cron_lib \<Rightarrow> 'db env \<Rightarrow> 'db raft_apply \<Rightarrow> 'c scheduler \<Rightarrow> 'db \<Rightarrow> string \<Rightarrow> job \<Rightarrow> job res \<times> 'db" where
  "store_next L E ap s d jobName job =
     (case Cron s of
        None \<Rightarrow> (Inl (Panic ''nil pointer dereference''), d)
      | Some c \<Rightarrow>
          (case GetEntry L s jobName of
             Inr (Some (entry_id, _)) \<Rightarrow>
               (let job' = job\<lparr>Next := cron_Next L c entry_id\<rparr> in
                case agent_applySetJob ap E d (ToProto E job') of
                  (Some e, d') \<Rightarrow> (Inl (Errorf ''agent: Run error storing job before running''), d')
                | (None, d') \<Rightarrow> (Inr job', d'))
           | Inr None \<Rightarrow> (Inl (Errorf ''agent: Run error retrieving job from scheduler''), d)
           | Inl e \<Rightarrow> (Inl e, d)))"

text \<open>
  \<open>Agent.Run\<close>: the job it returns, the store, and the calls of \<open>AgentRun\<close> it makes, one goroutine
  per target, with the address, the job and the execution of each.
\<close>

type_synonym agent_call = "string \<times> pb_job \<times> pb_execution"

definition agent_Run ::
    "'c cron_lib \<Rightarrow> 'db env \<Rightarrow> 'db raft_apply \<Rightarrow> choice \<Rightarrow> string \<Rightarrow> member list \<Rightarrow> 'c scheduler \<Rightarrow> 'db \<Rightarrow>
     string \<Rightarrow> execution \<Rightarrow> job res \<times> 'db \<times> agent_call list" where
  "agent_Run L E ap ch region members s d jobName ex =
     (case GetJob E d jobName of
        Inl e \<Rightarrow> (Inl (Errorf ''agent: Run error retrieving job from store''), d, [])
      | Inr job \<Rightarrow>
          (case (if ParentJob job = [] then store_next L E ap s d jobName job else (Inr job, d)) of
             (Inl e, d') \<Rightarrow> (Inl e, d', [])
           | (Inr job', d') \<Rightarrow>
               (case target_nodes ch region members job' ex of
                  Inl e \<Rightarrow> (Inl e, d', [])
                | Inr filterMap \<Rightarrow>
                    if length filterMap < 1 then (Inl (Errorf ''no target nodes found to run job''), d', [])
                    else (Inr job', d', map (\<lambda>(_, addr). (addr, ToProto E job', ex_ToProto E ex)) filterMap))))"

section \<open>Jobs as the scheduler runs them\<close>

definition isRunnable :: "bool \<Rightarrow> pb_execution list res \<Rightarrow> job \<Rightarrow> bool" where
  "isRunnable globalLock active j =
     (if Disabled j then False
      else if globalLock then False
      else if Concurrency j = ConcurrencyForbid then
        (case active of
           Inl e \<Rightarrow> False
         | Inr exs \<Rightarrow> \<not> list_ex (\<lambda>e. pe_JobName e = Name j) exs)
      else True)"

text \<open>\<open>Job.Run\<close> with its agent: an error of \<open>Agent.Run\<close> is only logged.\<close>

definition job_Run ::
    "'c cron_lib \<Rightarrow> 'db env \<Rightarrow> 'db raft_apply \<Rightarrow> choice \<Rightarrow> string \<Rightarrow> member list \<Rightarrow> bool \<Rightarrow> pb_execution list res \<Rightarrow>
     'c scheduler \<Rightarrow> 'db \<Rightarrow> job \<Rightarrow> 'db \<times> agent_call list" where
  "job_Run L E ap ch region members globalLock active s d j =
     (if isRunnable globalLock active j
      then snd (agent_Run L E ap ch region members s d (Name j) (NewExecution E (Name j)))
      else (d, []))"

text \<open>
  \<open>Agent.Stop\<close>: what it answers, and Raft, the store and the scheduler as it leaves them. A server
  shuts Raft down and closes its store first, and looks at neither result. \<open>raftShutdown\<close> and
  \<open>dbClose\<close> are \<open>Shutdown\<close> of Raft and \<open>Close\<close> of buntdb, \<open>leave\<close> and \<open>shutdown\<close> the results of serf's
  \<open>Leave\<close> and \<open>Shutdown\<close>.
\<close>

definition Store_Shutdown :: "('db \<Rightarrow> err \<times> 'db) \<Rightarrow> 'db \<Rightarrow> err \<times> 'db" where
  "Store_Shutdown dbClose d = dbClose d"

definition agent_Stop ::
    "'c cron_lib \<Rightarrow> ('r \<Rightarrow> 'r) \<Rightarrow> ('db \<Rightarrow> err \<times> 'db) \<Rightarrow> bool \<Rightarrow> err \<Rightarrow> err \<Rightarrow> 'r \<Rightarrow> 'db \<Rightarrow> 'c scheduler \<Rightarrow>
     err res \<times> 'r \<times> 'db \<times> 'c scheduler" where
  "agent_Stop L raftShutdown dbClose server leave shutdown r d s =
     (let r' = (if server then raftShutdown r else r);
          d' = (if server then snd (Store_Shutdown dbClose d) else d)
      in case (if server \<and> Started s then
                 (case sched_Stop L s of Inl e \<Rightarrow> Inl e | Inr s1 \<Rightarrow> Inr (ClearCron s1))
               else Inr s) of
           Inl e \<Rightarrow> (Inl e, r', d', s)
         | Inr s' \<Rightarrow> (Inr (case leave of Some e \<Rightarrow> Some e | None \<Rightarrow> shutdown), r', d', s'))"

text \<open>A server whose scheduler has an engine stops without a panic, and nothing is scheduled any more.\<close>

lemma agent_Stop_server:
  assumes "Cron s \<noteq> None" "agent_Stop L raftShutdown dbClose True leave shutdown r d s = (res, r', d', s')"
  shows "res = Inr (case leave of Some e \<Rightarrow> Some e | None \<Rightarrow> shutdown) \<and> r' = raftShutdown r \<and>
    d' = snd (dbClose d) \<and> \<not> Started s'"
  using assms by (auto simp: agent_Stop_def Store_Shutdown_def sched_Stop_def ClearCron_def Let_def split: if_splits)

section \<open>The correctness of the node filter\<close>

text \<open>
  C29: A job runs on the right nodes. Every node the filter selects is an alive member that has each
  tag of the job with the wanted value and is in the agent's region, and is addressed by what it
  advertises; when no tag limits the number of nodes, every such member is selected.
\<close>

theorem processFilteredNodes_selects:
  assumes "choice_laws ch" "members_ok members" "processFilteredNodes ch region members j = Inr (nodes, tags)"
  shows "(\<forall>n addr. map_of nodes n = Some addr \<longrightarrow>
      (\<exists>m \<in> set members. m_Name m = n \<and> eligible region j m \<and> addr = node_addr m)) \<and>
    ((\<forall>(k, v) \<in> set (job_tags region j). length (Split v CHR '':'') \<noteq> 2) \<longrightarrow>
      (\<forall>m \<in> set members. eligible region j m \<longrightarrow> map_of nodes (m_Name m) = Some (node_addr m)))"
  using choice_laws.processFilteredNodes_sound [OF assms(1,2,3)]
    choice_laws.processFilteredNodes_complete [OF assms(1,2,3)] by blast

text \<open>
  A tag of the form \<open>value:count\<close> bounds the number of nodes: whatever the other tags say, at
  most \<open>count\<close> nodes are selected, and none for a count that is not positive.
\<close>

theorem processFilteredNodes_cardinality:
  assumes "choice_laws ch" "processFilteredNodes ch region members j = Inr (nodes, tags)"
    "(k, v) \<in> set (job_tags region j)" "Split v CHR '':'' = [b, c]" "Atoi c = Inr n"
  shows "card (dom (map_of nodes)) \<le> nat n"
  using choice_laws.processFilteredNodes_count [OF assms] .

text \<open>
  The calls of a run. When \<open>Agent.Run\<close> succeeds for a first attempt, it calls at least one
  node, every node it calls is eligible for the job, and each gets the job and the execution; a
  retry calls exactly one node, the one the execution ran on before.
\<close>

theorem Run_calls:
  assumes "choice_laws ch" "members_ok members"
    "agent_Run L E ap ch region members s d jobName ex = (Inr job, d', calls)"
  shows "if ex_Attempt ex \<le> 1
    then calls \<noteq> [] \<and> (\<forall>call \<in> set calls. snd call = (ToProto E job, ex_ToProto E ex) \<and>
           (\<exists>m \<in> set members. eligible region job m \<and> fst call = node_addr m))
    else \<exists>addr. retry_addr (ex_NodeName ex) [] members = Inr addr \<and>
           calls = [(addr, ToProto E job, ex_ToProto E ex)]"
proof -
  obtain fm where fm: "target_nodes ch region members job ex = Inr fm" "fm \<noteq> []"
    "calls = map (\<lambda>(_, addr). (addr, ToProto E job, ex_ToProto E ex)) fm"
    using assms(3) by (auto simp: agent_Run_def split: sum.splits prod.splits if_splits)
  show ?thesis
  proof (cases "ex_Attempt ex \<le> 1")
    case False
    then show ?thesis using fm by (auto simp: target_nodes_def split: sum.splits)
  next
    case True
    with fm(1) obtain tags where run: "processFilteredNodes ch region members job = Inr (fm, tags)"
      by (auto simp: target_nodes_def split: sum.splits)
    have "\<exists>m \<in> set members. eligible region job m \<and> addr = node_addr m" if "(n, addr) \<in> set fm" for n addr
    proof -
      have "distinct (map fst fm)" using processFilteredNodes_distinct [OF run] .
      then have "map_of fm n = Some addr" using that by simp
      then show ?thesis using choice_laws.processFilteredNodes_sound [OF assms(1,2) run] by blast
    qed
    then show ?thesis using True fm(2,3) by auto
  qed
qed


text \<open>The servers of the region that answer, and what they answer.\<close>

lemma collect_active_Inr:
  "(\<exists>exs. collect_active active_of addrs = Inr exs \<and> (\<forall>e \<in> set exs. P e)) \<longleftrightarrow>
     (\<forall>addr \<in> set addrs. \<exists>exs. active_of addr = Inr exs \<and> (\<forall>e \<in> set exs. P e))"
proof (induction addrs)
  case (Cons addr addrs)
  have "(\<exists>exs. collect_active active_of (addr # addrs) = Inr exs \<and> (\<forall>e \<in> set exs. P e)) \<longleftrightarrow>
      (\<exists>exs. active_of addr = Inr exs \<and> (\<forall>e \<in> set exs. P e)) \<and>
      (\<exists>exs. collect_active active_of addrs = Inr exs \<and> (\<forall>e \<in> set exs. P e))"
    by (auto split: sum.splits)
  with Cons.IH show ?case by simp
qed simp

lemma isRunnable_iff:
  "isRunnable globalLock (agent_GetActiveExecutions active_of N region members) j \<longleftrightarrow>
     \<not> Disabled j \<and> \<not> globalLock \<and>
     (Concurrency j = ConcurrencyForbid \<longrightarrow>
       (\<forall>p \<in> set (LocalServers N region members). \<exists>exs.
          active_of (TCPAddr_String (sp_RPCAddr p)) = Inr exs \<and> (\<forall>e \<in> set exs. pe_JobName e \<noteq> Name j)))"
proof -
  let ?active = "agent_GetActiveExecutions active_of N region members"
  have "isRunnable globalLock ?active j \<longleftrightarrow> \<not> Disabled j \<and> \<not> globalLock \<and>
      (Concurrency j = ConcurrencyForbid \<longrightarrow> (\<exists>exs. ?active = Inr exs \<and> (\<forall>e \<in> set exs. pe_JobName e \<noteq> Name j)))"
    by (auto simp: isRunnable_def list_ex_iff split: sum.splits)
  then show ?thesis by (simp add: agent_GetActiveExecutions_def collect_active_Inr)
qed

text \<open>
  C30: Concurrency control of \<open>Job.Run\<close>, through which the scheduler starts the jobs of its entries
  and a finished job its dependents. It calls \<open>Agent.Run\<close> with a new execution exactly when the
  job is enabled, the cluster is not locked and, if the job forbids concurrent runs, every alive
  server of the region answered and none of them has an active execution of the job. Otherwise no
  node is called and nothing is stored. A run through the API (\<open>RunJob\<close>) and a retry call
  \<open>Agent.Run\<close> without this check.
\<close>

theorem job_Run_exclusive:
  "job_Run L E ap ch region members globalLock (agent_GetActiveExecutions active_of N region members) s d j =
     (if \<not> Disabled j \<and> \<not> globalLock \<and>
         (Concurrency j = ConcurrencyForbid \<longrightarrow>
           (\<forall>p \<in> set (LocalServers N region members). \<exists>exs.
              active_of (TCPAddr_String (sp_RPCAddr p)) = Inr exs \<and> (\<forall>e \<in> set exs. pe_JobName e \<noteq> Name j)))
      then snd (agent_Run L E ap ch region members s d (Name j) (NewExecution E (Name j)))
      else (d, []))"
  by (simp add: job_Run_def isRunnable_iff)

section \<open>Concrete runs\<close>

definition sample_pool :: "member list" where
  "sample_pool = [sample_member ''n1'' ''10.0.0.1'', sample_member ''n2'' ''10.0.0.2'']"

lemma sample_pool_ok: "members_ok sample_pool"
  by (simp add: sample_pool_def members_ok_def) (simp add: sample_member_def)

definition sample_limited :: job where
  "sample_limited = (sample_job ''mail'' [] ''backup'')\<lparr>Tags := [(''role'', ''dkron:1'')]\<rparr>"

lemma Atoi_1: "Atoi ''1'' = Inr 1"
  by code_simp

lemma sample_tags: "m_Tags (sample_member n ip) =
    [(''role'', ''dkron''), (''server'', ''true''), (''region'', ''global''), (''dc'', ''dc1''),
     (''expect'', ''2''), (''port'', ''6868''), (''version'', ''3.0.0'')]"
  by (simp add: sample_member_def)

lemma sample_filter:
  "processFilteredNodes ref_choice ''global'' sample_pool sample_limited =
     Inr ([(''n1'', ''10.0.0.1'')], [(''role'', ''dkron''), (''region'', ''global'')])"
  by (simp add: processFilteredNodes_def job_tags_def sample_limited_def sample_job_def tag_candidates_def
      matching_def sample_pool_def sample_tags Atoi_1 ref_choice_def add_nodes_def node_addr_def Let_def)

lemma sample_filter_all:
  "processFilteredNodes ref_choice ''global'' sample_pool sample_child =
     Inr ([(''n1'', ''10.0.0.1''), (''n2'', ''10.0.0.2'')], [(''region'', ''global'')])"
  by (simp add: processFilteredNodes_def job_tags_def sample_child_def sample_job_def tag_candidates_def
      matching_def sample_pool_def sample_tags ref_choice_def add_nodes_def node_addr_def Let_def)

theorem processFilteredNodes_selects_witness:
  "eligible ''global'' sample_child (sample_member ''n2'' ''10.0.0.2'') \<and>
   map_of [(''n1'', ''10.0.0.1''), (''n2'', ''10.0.0.2'')] ''n2'' = Some (node_addr (sample_member ''n2'' ''10.0.0.2''))"
proof -
  have el: "eligible ''global'' sample_child (sample_member ''n2'' ''10.0.0.2'')"
    by (simp add: eligible_def job_tags_def sample_child_def sample_job_def sample_tags)
  have "\<forall>(k, v) \<in> set (job_tags ''global'' sample_child). length (Split v CHR '':'') \<noteq> 2"
    by (simp add: job_tags_def sample_child_def sample_job_def)
  with processFilteredNodes_selects [OF refch.choice_laws_axioms sample_pool_ok sample_filter_all] el
  show ?thesis unfolding sample_pool_def by auto
qed

theorem processFilteredNodes_cardinality_witness:
  "(''role'', ''dkron:1'') \<in> set (job_tags ''global'' sample_limited) \<and>
   card (dom (map_of [(''n1'', ''10.0.0.1'')])) \<le> nat 1"
proof -
  have mem: "(''role'', ''dkron:1'') \<in> set (job_tags ''global'' sample_limited)"
    by (simp add: job_tags_def sample_limited_def)
  have split: "Split ''dkron:1'' CHR '':'' = [''dkron'', ''1'']" by simp
  show ?thesis
    using processFilteredNodes_cardinality [OF refch.choice_laws_axioms sample_filter mem split Atoi_1] mem by blast
qed

lemma sample_GetJob_mail:
  "GetJob (ref_env sample_now) (sample_db [sample_child]) ''mail'' = Inr sample_child"
proof -
  have "jobs_ok (ref_env sample_now) (sample_db [sample_child])"
    "jobs_of (ref_env sample_now) (sample_db [sample_child]) ''mail'' = Some sample_child"
    using sample_child_ok
    by (simp_all add: jobs_ok_sample_db jobs_of_sample_db sample_family_representable)
  then show ?thesis using lawful_env.GetJob_eq [OF ref.lawful_env_axioms] by simp
qed

lemma sample_Run:
  "agent_Run ref_cron (ref_env sample_now) (\<lambda>d cmd. (Inr RNil, d)) ref_choice ''global'' sample_pool NewScheduler
     (sample_db [sample_child]) ''mail'' (NewExecution (ref_env sample_now) ''mail'') =
   (Inr sample_child, sample_db [sample_child],
    [(''10.0.0.1'', ToProto (ref_env sample_now) sample_child,
        ex_ToProto (ref_env sample_now) (NewExecution (ref_env sample_now) ''mail'')),
     (''10.0.0.2'', ToProto (ref_env sample_now) sample_child,
        ex_ToProto (ref_env sample_now) (NewExecution (ref_env sample_now) ''mail''))])"
proof -
  have "ParentJob sample_child \<noteq> []" "ex_Attempt (NewExecution (ref_env sample_now) ''mail'') \<le> 1"
    by (simp_all add: sample_child_def sample_job_def NewExecution_def)
  then show ?thesis by (simp add: agent_Run_def sample_GetJob_mail target_nodes_def sample_filter_all)
qed

theorem Run_calls_witness:
  "\<exists>m \<in> set sample_pool. eligible ''global'' sample_child m \<and> ''10.0.0.1'' = node_addr m"
  using Run_calls [OF refch.choice_laws_axioms sample_pool_ok sample_Run]
  by (simp add: NewExecution_def)

theorem job_Run_exclusive_witness:
  "job_Run ref_cron (ref_env sample_now) (\<lambda>d cmd. (Inr RNil, d)) ref_choice ''global'' sample_pool False
     (agent_GetActiveExecutions (\<lambda>_. Inr []) ref_net ''global'' sample_pool) NewScheduler (sample_db [sample_child])
     (sample_child\<lparr>Concurrency := ConcurrencyForbid\<rparr>) =
   (sample_db [sample_child],
    [(''10.0.0.1'', ToProto (ref_env sample_now) sample_child,
        ex_ToProto (ref_env sample_now) (NewExecution (ref_env sample_now) ''mail'')),
     (''10.0.0.2'', ToProto (ref_env sample_now) sample_child,
        ex_ToProto (ref_env sample_now) (NewExecution (ref_env sample_now) ''mail''))]) \<and>
   job_Run ref_cron (ref_env sample_now) (\<lambda>d cmd. (Inr RNil, d)) ref_choice ''global'' sample_pool False
     (agent_GetActiveExecutions (\<lambda>_. Inl ErrNotFound) ref_net ''global'' sample_pool) NewScheduler (sample_db [sample_child])
     (sample_child\<lparr>Concurrency := ConcurrencyForbid\<rparr>) = (sample_db [sample_child], [])"
proof -
  have j: "\<not> Disabled sample_child" "Name sample_child = ''mail''" by (simp_all add: sample_child_def sample_job_def)
  have "sample_server ''n1'' ''10.0.0.1'' \<in> set (LocalServers ref_net ''global'' sample_pool)"
    by (simp add: LocalServers_def Servers_def sample_pool_def)
  then show ?thesis unfolding job_Run_exclusive using j by (auto simp: sample_Run)
qed

end
