(* ===== verification/Grpc.thy ===== *)
theory Grpc
  imports Agent
begin

text \<open>
  \<open>src/dkron/grpc.go\<close>: the handlers of the server that the nodes of the cluster and the command
  line call. A handler takes the state of the server it runs on and returns its answer, the new
  state, and what it sends to other nodes. A request whose message has no job or no execution is
  \<open>None\<close>. Requests are handled one at a time. \<open>ToggleJob\<close> does nothing in the code either.
\<close>

section \<open>The server and its surroundings\<close>

text \<open>
  What the handlers use and do not change: the libraries, the members and the configuration, the
  answers of other servers, the processor plugins, and the result of sending a notification.
\<close>

record ('db, 'c, 'r) world =
  w_env :: "'db env"
  w_cron :: "'c cron_lib"
  w_raft :: "'r raft_lib"
  w_apply :: "'db raft_apply"
  w_choice :: choice
  w_net :: net_lib
  w_members :: "member list"
  w_Region :: string
  w_NodeName :: string
  w_GlobalLock :: bool
  w_active_of :: "string \<Rightarrow> pb_execution list res"
  w_processors :: "string \<Rightarrow> (pb_execution \<Rightarrow> string gomap \<Rightarrow> pb_execution) option"
  w_notify :: "execution \<Rightarrow> execution list \<Rightarrow> job \<Rightarrow> err"

text \<open>What they change.\<close>

record ('db, 'c, 'r) server =
  sv_db :: 'db
  sv_sched :: "'c scheduler"
  sv_raft :: 'r
  sv_active :: "pb_execution gomap"

text \<open>What they send: calls of \<open>AgentRun\<close>, and executions forwarded to the leader.\<close>

datatype action = Called "agent_call list" | Forwarded string execution | Notified execution

definition world_Run ::
    "('db, 'c, 'r) world \<Rightarrow> ('db, 'c, 'r) server \<Rightarrow> string \<Rightarrow> execution \<Rightarrow>
     job res \<times> ('db, 'c, 'r) server \<times> agent_call list" where
  "world_Run W s jobName ex =
     (case agent_Run (w_cron W) (w_env W) (w_apply W) (w_choice W) (w_Region W) (w_members W) (sv_sched s) (sv_db s) jobName ex of
        (r, d, calls) \<Rightarrow> (r, s\<lparr>sv_db := d\<rparr>, calls))"

definition world_job_Run ::
    "('db, 'c, 'r) world \<Rightarrow> ('db, 'c, 'r) server \<Rightarrow> job \<Rightarrow> ('db, 'c, 'r) server \<times> agent_call list" where
  "world_job_Run W s j =
     (case job_Run (w_cron W) (w_env W) (w_apply W) (w_choice W) (w_Region W) (w_members W) (w_GlobalLock W)
             (agent_GetActiveExecutions (w_active_of W) (w_net W) (w_Region W) (w_members W)) (sv_sched s) (sv_db s) j of
        (d, calls) \<Rightarrow> (s\<lparr>sv_db := d\<rparr>, calls))"

section \<open>Jobs\<close>

definition grpc_SetJob ::
    "('db, 'c, 'r) world \<Rightarrow> ('db, 'c, 'r) server \<Rightarrow> pb_job option \<Rightarrow> unit res \<times> ('db, 'c, 'r) server" where
  "grpc_SetJob W s req =
     (case req of
        None \<Rightarrow> (Inl (Panic ''nil pointer dereference''), s)
      | Some pj \<Rightarrow>
          (case agent_applySetJob (w_apply W) (w_env W) (sv_db s) pj of
             (Some e, d) \<Rightarrow> (Inl e, s\<lparr>sv_db := d\<rparr>)
           | (None, d) \<Rightarrow>
               (case AddJob (w_cron W) (sv_sched s) (NewJobFromProto (w_env W) pj) of
                  Inl e \<Rightarrow> (Inl e, s\<lparr>sv_db := d\<rparr>)
                | Inr (Some e, sc) \<Rightarrow> (Inl e, s\<lparr>sv_db := d, sv_sched := sc\<rparr>)
                | Inr (None, sc) \<Rightarrow> (Inr (), s\<lparr>sv_db := d, sv_sched := sc\<rparr>))))"

definition grpc_DeleteJob ::
    "('db, 'c, 'r) world \<Rightarrow> ('db, 'c, 'r) server \<Rightarrow> string \<Rightarrow> pb_job res \<times> ('db, 'c, 'r) server" where
  "grpc_DeleteJob W s jobName =
     (case Encode (w_env W) DeleteJobType (MDelete \<lparr>djr_JobName = jobName\<rparr>) of
        Inl e \<Rightarrow> (Inl e, s)
      | Inr cmd \<Rightarrow>
          (case w_apply W (sv_db s) cmd of
             (Inl e, d) \<Rightarrow> (Inl e, s\<lparr>sv_db := d\<rparr>)
           | (Inr (RJob job), d) \<Rightarrow>
               (case RemoveJob (w_cron W) (sv_sched s) job of
                  Inl e \<Rightarrow> (Inl e, s\<lparr>sv_db := d\<rparr>)
                | Inr sc \<Rightarrow> (Inr (ToProto (w_env W) job), s\<lparr>sv_db := d, sv_sched := sc\<rparr>))
           | (Inr res, d) \<Rightarrow> (Inl (Errorf ''grpc: Error wrong response from apply in DeleteJob''), s\<lparr>sv_db := d\<rparr>)))"

definition grpc_GetJob :: "('db, 'c, 'r) world \<Rightarrow> ('db, 'c, 'r) server \<Rightarrow> string \<Rightarrow> pb_job res" where
  "grpc_GetJob W s jobName =
     (case GetJob (w_env W) (sv_db s) jobName of
        Inl e \<Rightarrow> Inl e
      | Inr j \<Rightarrow> Inr (pb_job_zero\<lparr>pj_Name := Name j, pj_Executor := Executor j, pj_ExecutorConfig := ExecutorConfig j\<rparr>))"

definition grpc_RunJob ::
    "('db, 'c, 'r) world \<Rightarrow> ('db, 'c, 'r) server \<Rightarrow> string \<Rightarrow> pb_job res \<times> ('db, 'c, 'r) server \<times> agent_call list" where
  "grpc_RunJob W s jobName =
     (case world_Run W s jobName (NewExecution (w_env W) jobName) of
        (Inl e, s', calls) \<Rightarrow> (Inl e, s', calls)
      | (Inr job, s', calls) \<Rightarrow> (Inr (ToProto (w_env W) job), s', calls))"

section \<open>Executions\<close>

definition grpc_SetExecution ::
    "('db, 'c, 'r) world \<Rightarrow> ('db, 'c, 'r) server \<Rightarrow> pb_execution \<Rightarrow> unit res \<times> ('db, 'c, 'r) server" where
  "grpc_SetExecution W s x =
     (case Encode (w_env W) SetExecutionType (MExecution x) of
        Inl e \<Rightarrow> (Inl (Panic ''agent: encode error in SetExecution''), s)
      | Inr cmd \<Rightarrow>
          (case w_apply W (sv_db s) cmd of
             (Inl e, d) \<Rightarrow> (Inl (Panic ''agent: error applying SetExecutionType''), s\<lparr>sv_db := d\<rparr>)
           | (Inr _, d) \<Rightarrow> (Inr (), s\<lparr>sv_db := d\<rparr>)))"

definition grpc_GetActiveExecutions :: "('db, 'c, 'r) server \<Rightarrow> pb_execution list" where
  "grpc_GetActiveExecutions s = map snd (sv_active s)"

text \<open>The processors of a job, in the order its map is visited.\<close>

definition run_processors :: "('db, 'c, 'r) world \<Rightarrow> string gomap gomap \<Rightarrow> pb_execution \<Rightarrow> pb_execution" where
  "run_processors W procs x =
     fold (\<lambda>(k, v) pbex. case w_processors W k of
             None \<Rightarrow> pbex
           | Some process \<Rightarrow> process pbex (AList.update ''reporting_node'' (w_NodeName W) v)) procs x"

text \<open>
  The dependent jobs of a finished job. The agent of a dependent job is set before the error of
  reading it is looked at, so that a job that is missing is a nil pointer.
\<close>

fun run_dependents ::
    "('db, 'c, 'r) world \<Rightarrow> ('db, 'c, 'r) server \<Rightarrow> string list \<Rightarrow> err \<times> ('db, 'c, 'r) server \<times> action list" where
  "run_dependents W s [] = (None, s, [])"
| "run_dependents W s (djn # djns) =
     (case GetJob (w_env W) (sv_db s) djn of
        Inl e \<Rightarrow> (Some (Panic ''nil pointer dereference''), s, [])
      | Inr dj \<Rightarrow>
          (case world_job_Run W s dj of
             (s1, calls) \<Rightarrow>
               (case run_dependents W s1 djns of (e, s2, acts) \<Rightarrow> (e, s2, Called calls # acts))))"

datatype done_payload = Retry | Saved

text \<open>Whether a failed execution is run again: \<open>uint\<close> arithmetic, which wraps around.\<close>

definition to_retry :: "execution \<Rightarrow> job \<Rightarrow> bool" where
  "to_retry x job \<longleftrightarrow> \<not> ex_Success x \<and> ex_Attempt x < Retries job + 1"

definition finish_execution ::
    "('db, 'c, 'r) world \<Rightarrow> ('db, 'c, 'r) server \<Rightarrow> execution \<Rightarrow> job \<Rightarrow>
     done_payload res \<times> ('db, 'c, 'r) server \<times> action list" where
  "finish_execution W s x job =
     (if to_retry x job then
        (case world_Run W s (Name job) (x\<lparr>ex_Attempt := ex_Attempt x + 1, ex_Output := []\<rparr>) of
           (Inl e, s', calls) \<Rightarrow> (Inl e, s', [Called calls])
         | (Inr _, s', calls) \<Rightarrow> (Inr Retry, s', [Called calls]))
      else
        (case GetExecutionGroup (w_env W) (sv_db s) x of
           Inl e \<Rightarrow> (Inl e, s, [])
         | Inr exg \<Rightarrow>
             (case w_notify W x exg job of
                Some e \<Rightarrow> (Inl e, s, [Notified x])
              | None \<Rightarrow>
                  if DependentJobs job \<noteq> [] \<and> Status job = StatusSuccess then
                    (case run_dependents W s (DependentJobs job) of
                       (Some e, s', acts) \<Rightarrow> (Inl e, s', Notified x # acts)
                     | (None, s', acts) \<Rightarrow> (Inr Saved, s', Notified x # acts))
                  else (Inr Saved, s, [Notified x]))))"

definition grpc_ExecutionDone ::
    "('db, 'c, 'r) world \<Rightarrow> ('db, 'c, 'r) server \<Rightarrow> pb_execution option \<Rightarrow>
     done_payload res \<times> ('db, 'c, 'r) server \<times> action list" where
  "grpc_ExecutionDone W s req =
     (case req of
        None \<Rightarrow> (Inl (Panic ''nil pointer dereference''), s, [])
      | Some px \<Rightarrow>
          if \<not> r_IsLeader (w_raft W) (sv_raft s) then
            (Inl ErrNotLeader, s,
             [Forwarded (r_Leader (w_raft W) (sv_raft s)) (NewExecutionFromProto (w_env W) px)])
          else
            (case GetJob (w_env W) (sv_db s) (pe_JobName px) of
               Inl e \<Rightarrow> (Inl e, s, [])
             | Inr job \<Rightarrow>
                 (let pbex = run_processors W (Processors job) px in
                  case Encode (w_env W) ExecutionDoneType (MDone \<lparr>edr_Execution = Some pbex\<rparr>) of
                    Inl e \<Rightarrow> (Inl e, s, [])
                  | Inr cmd \<Rightarrow>
                      (case w_apply W (sv_db s) cmd of
                         (Inl e, d) \<Rightarrow> (Inl e, s\<lparr>sv_db := d\<rparr>, [])
                       | (Inr _, d) \<Rightarrow>
                           (case GetJob (w_env W) d (Name job) of
                              Inl e \<Rightarrow> (Inl (Panic ''nil pointer dereference''), s\<lparr>sv_db := d\<rparr>, [])
                            | Inr job' \<Rightarrow>
                                finish_execution W (s\<lparr>sv_db := d\<rparr>) (NewExecutionFromProto (w_env W) pbex) job')))))"

definition grpc_Leave ::
    "('db, 'c, 'r) world \<Rightarrow> ('r \<Rightarrow> 'r) \<Rightarrow> ('db \<Rightarrow> err \<times> 'db) \<Rightarrow> bool \<Rightarrow> err \<Rightarrow> err \<Rightarrow> ('db, 'c, 'r) server \<Rightarrow>
     err res \<times> ('db, 'c, 'r) server" where
  "grpc_Leave W raftShutdown dbClose srv leave shutdown s =
     (case agent_Stop (w_cron W) raftShutdown dbClose srv leave shutdown (sv_raft s) (sv_db s) (sv_sched s) of
        (res, r, d, sc) \<Rightarrow> (res, s\<lparr>sv_raft := r, sv_db := d, sv_sched := sc\<rparr>))"

section \<open>The Raft configuration\<close>

record raft_entry =
  re_Id :: string
  re_Node :: string
  re_Address :: string
  re_Leader :: bool
  re_Voter :: bool
  re_RaftProtocol :: string

definition server_map :: "net_lib \<Rightarrow> member list \<Rightarrow> member gomap" where
  "server_map N members =
     fold (\<lambda>member m. case isServer N member of
             None \<Rightarrow> m
           | Some parts \<Rightarrow> AList.update (TCPAddr_String (m_Addr member, sp_Port parts)) member m) members []"

definition raft_entry_of :: "member gomap \<Rightarrow> string \<Rightarrow> raft_server \<Rightarrow> raft_entry" where
  "raft_entry_of sm leader srv =
     (let node = (case map_of sm (rs_Address srv) of None \<Rightarrow> ''(unknown)'' | Some m \<Rightarrow> m_Name m);
          vsn = (case map_of sm (rs_Address srv) of
                   None \<Rightarrow> ''unknown''
                 | Some m \<Rightarrow> (case map_of (m_Tags m) ''raft_vsn'' of None \<Rightarrow> ''unknown'' | Some v \<Rightarrow> v))
      in \<lparr>re_Id = rs_ID srv, re_Node = node, re_Address = rs_Address srv,
          re_Leader = (rs_Address srv = leader), re_Voter = (rs_Suffrage srv = Voter),
          re_RaftProtocol = vsn\<rparr>)"

definition RaftGetConfiguration :: "('db, 'c, 'r) world \<Rightarrow> ('db, 'c, 'r) server \<Rightarrow> raft_entry list res" where
  "RaftGetConfiguration W s =
     (case r_GetConfiguration (w_raft W) (sv_raft s) of
        Inl e \<Rightarrow> Inl e
      | Inr servers \<Rightarrow>
          Inr (map (raft_entry_of (server_map (w_net W) (w_members W)) (r_Leader (w_raft W) (sv_raft s))) servers))"

definition RaftRemovePeerByID ::
    "('db, 'c, 'r) world \<Rightarrow> ('db, 'c, 'r) server \<Rightarrow> string \<Rightarrow> unit res \<times> ('db, 'c, 'r) server" where
  "RaftRemovePeerByID W s ident =
     (case r_GetConfiguration (w_raft W) (sv_raft s) of
        Inl e \<Rightarrow> (Inl e, s)
      | Inr servers \<Rightarrow>
          if \<not> list_ex (\<lambda>srv. rs_ID srv = ident) servers
          then (Inl (Errorf ''id was not found in the Raft configuration''), s)
          else (case r_RemoveServer (w_raft W) (sv_raft s) ident of
                  (Some e, r) \<Rightarrow> (Inl e, s\<lparr>sv_raft := r\<rparr>)
                | (None, r) \<Rightarrow> (Inr (), s\<lparr>sv_raft := r\<rparr>)))"


section \<open>What a write did\<close>

text \<open>A log whose entries are applied to a store over lawful libraries.\<close>

locale lawful_log = lawful_env E + raft_log ap E pro T for E :: "'db env" and ap :: "'db raft_apply" and pro and T
begin

text \<open>What a successful write of each kind of command did to the store.\<close>

lemma applied_SetJob:
  assumes "Encode E SetJobType (MJob (ToProto E j)) = Inr cmd" "representable E j" "ap d cmd = (Inr r, d')"
  shows "\<exists>t\<in>T. \<exists>e. SetJob (E\<lparr>now := t\<rparr>) d j False = (e, d') \<and> r = (case e of None \<Rightarrow> RNil | Some e' \<Rightarrow> RError e')"
proof -
  obtain t i where T: "t \<in> T" and t: "Apply pro (E\<lparr>now := t\<rparr>) (store_ops (E\<lparr>now := t\<rparr>)) d cmd i = (r, d')"
    using applied [OF assms(3)] by blast
  note eqs = lawful_env.Apply_Encode_eqs(1) [OF now_lawful [OF lawful_env_axioms], of t, unfolded now_Encode]
  from eqs [OF assms(1), of pro "store_ops (E\<lparr>now := t\<rparr>)" d i] t obtain b where b: "fsm_applySetJob (E\<lparr>now := t\<rparr>) (store_ops (E\<lparr>now := t\<rparr>)) d b = (r, d')"
    "unmarshal_job E b = Inr (ToProto E j)"
    by auto
  have "fsm_applySetJob (E\<lparr>now := t\<rparr>) (store_ops (E\<lparr>now := t\<rparr>)) d b =
     (case SetJob (E\<lparr>now := t\<rparr>) d j False of (None, d') \<Rightarrow> (RNil, d') | (Some e, d') \<Rightarrow> (RError e, d'))"
    using b(2) assms(2) appliers_store(1) [of "E\<lparr>now := t\<rparr>" b j d] by (simp add: representable_def)
  with b(1) show ?thesis by (intro bexI [of _ t]) (auto simp: T split: prod.splits option.splits)
qed

lemma applied_DeleteJob:
  assumes "Encode E DeleteJobType (MDelete q) = Inr cmd" "ap d cmd = (Inr r, d')"
  shows "\<exists>t\<in>T. \<exists>k. DeleteJob (E\<lparr>now := t\<rparr>) d (djr_JobName q) = (k, d') \<and> r = (case k of Inl e \<Rightarrow> RError e | Inr j \<Rightarrow> RJob j)"
proof -
  obtain t i where T: "t \<in> T" and t: "Apply pro (E\<lparr>now := t\<rparr>) (store_ops (E\<lparr>now := t\<rparr>)) d cmd i = (r, d')"
    using applied [OF assms(2)] by blast
  note eqs = lawful_env.Apply_Encode_eqs(2) [OF now_lawful [OF lawful_env_axioms], of t, unfolded now_Encode]
  from eqs [OF assms(1), of pro "store_ops (E\<lparr>now := t\<rparr>)" d i] t obtain b where b: "applyDeleteJob (E\<lparr>now := t\<rparr>) (store_ops (E\<lparr>now := t\<rparr>)) d b = (r, d')"
    "unmarshal_djr E b = Inr q"
    by auto
  with appliers_store(2) [of "E\<lparr>now := t\<rparr>" b q d] show ?thesis
    by (intro bexI [of _ t]) (auto simp: T split: prod.splits sum.splits)
qed

lemma applied_ExecutionDone:
  assumes "Encode E ExecutionDoneType (MDone \<lparr>edr_Execution = Some p\<rparr>) = Inr cmd" "ap d cmd = (Inr r, d')"
  shows "\<exists>t\<in>T. \<exists>ok e. SetExecutionDone (E\<lparr>now := t\<rparr>) d (NewExecutionFromProto E p) = (ok, e, d') \<and>
    r = (case e of None \<Rightarrow> RNil | Some e' \<Rightarrow> RError e')"
proof -
  obtain t i where T: "t \<in> T" and t: "Apply pro (E\<lparr>now := t\<rparr>) (store_ops (E\<lparr>now := t\<rparr>)) d cmd i = (r, d')"
    using applied [OF assms(2)] by blast
  note eqs = lawful_env.Apply_Encode_eqs(4) [OF now_lawful [OF lawful_env_axioms], of t, unfolded now_Encode]
  from eqs [OF assms(1), of pro "store_ops (E\<lparr>now := t\<rparr>)" d i] t obtain b where b: "applyExecutionDone (E\<lparr>now := t\<rparr>) (store_ops (E\<lparr>now := t\<rparr>)) d b = (r, d')"
    "unmarshal_edr E b = Inr \<lparr>edr_Execution = Some p\<rparr>"
    by auto
  with appliers_store(4) [of "E\<lparr>now := t\<rparr>" b "\<lparr>edr_Execution = Some p\<rparr>" p d] show ?thesis
    by (intro bexI [of _ t]) (auto simp: T split: prod.splits option.splits)
qed

text \<open>\<open>applySetJob\<close>: a success may hide an error of the store, other than a missing parent.\<close>

lemma agent_applySetJob_ok:
  assumes "representable E j" "agent_applySetJob ap E d (ToProto E j) = (None, d')"
  shows "\<exists>t\<in>T. \<exists>e. SetJob (E\<lparr>now := t\<rparr>) d j False = (e, d') \<and> e \<notin> {Some ErrParentJobNotFound, Some ErrSameParent}"
proof -
  obtain cmd r where cmd: "Encode E SetJobType (MJob (ToProto E j)) = Inr cmd" "ap d cmd = (Inr r, d')"
    "r \<noteq> RError ErrParentJobNotFound" "r \<noteq> RError ErrSameParent"
    using assms(2) by (auto simp: agent_applySetJob_def split: sum.splits prod.splits if_splits)
  from applied_SetJob [OF cmd(1) assms(1) cmd(2)] cmd(3,4) show ?thesis by fastforce
qed

end

interpretation ref_log: lawful_log "ref_env t" "fsm_apply (ref_env t)" "\<lambda>_. None" "{now (ref_env t)}" for t
  by unfold_locales

section \<open>Setting and deleting jobs\<close>

text \<open>
  \<open>SetJob\<close> of the leader, when it succeeds, has put the job through the store's \<open>SetJob\<close> and
  then into the scheduler: the store is what \<open>SetJob\<close> leaves at the time the entry was applied,
  and the scheduler what \<open>AddJob\<close> leaves. A parent that does not exist is always an error.
\<close>

theorem grpc_SetJob_stores_and_schedules:
  assumes "lawful_log (w_env W) (w_apply W) pro T" "representable (w_env W) j"
    "grpc_SetJob W s (Some (ToProto (w_env W) j)) = (Inr (), s')"
  shows "\<exists>t\<in>T. \<exists>e. SetJob ((w_env W)\<lparr>now := t\<rparr>) (sv_db s) j False = (e, sv_db s') \<and>
    e \<notin> {Some ErrParentJobNotFound, Some ErrSameParent} \<and>
    AddJob (w_cron W) (sv_sched s) j = Inr (None, sv_sched s')"
proof -
  have job: "NewJobFromProto (w_env W) (ToProto (w_env W) j) = j" using assms(2) by (simp add: representable_def)
  obtain d sc where d: "agent_applySetJob (w_apply W) (w_env W) (sv_db s) (ToProto (w_env W) j) = (None, d)"
    "AddJob (w_cron W) (sv_sched s) j = Inr (None, sc)" "s' = s\<lparr>sv_db := d, sv_sched := sc\<rparr>"
    using assms(3) by (auto simp: grpc_SetJob_def job split: option.splits sum.splits prod.splits)
  from lawful_log.agent_applySetJob_ok [OF assms(1,2) d(1)] d(2,3) show ?thesis by simp
qed

text \<open>
  A job the store refuses is scheduled all the same. For a job that is not valid, other than by
  being its own parent, the request succeeds: the store does not change, because \<open>applySetJob\<close> looks
  for two errors only in the response of the log, and the job goes into the scheduler.
\<close>

theorem grpc_SetJob_schedules_invalid_job:
  assumes "lawful_env E" "w_env W = E" "w_apply W = fsm_apply E" "representable E j" "pb_job_utf8 (ToProto E j)"
    "Validate E j = Some e" "e \<noteq> ErrSameParent" "e \<noteq> ErrParentJobNotFound"
    "AddJob (w_cron W) (sv_sched s) j = Inr (None, sc)"
  shows "SetJob E (sv_db s) j False = (Some e, sv_db s) \<and>
    grpc_SetJob W s (Some (ToProto E j)) = (Inr (), s\<lparr>sv_sched := sc\<rparr>)"
proof -
  have set: "SetJob E (sv_db s) j False = (Some e, sv_db s)"
    using assms(6) by (simp add: SetJob_def numeral_2_eq_2 SetJob_n.simps(2))
  obtain b where "marshal_job E (ToProto E j) = Inr b"
    using pb_codec.job_marshal [OF lawful_env.axioms(2) [OF assms(1)] assms(5)] by blast
  then have enc: "Encode E SetJobType (MJob (ToProto E j)) = Inr (char_of SetJobType # b)" (is "_ = Inr ?cmd")
    by (simp add: Encode_def)
  have "Apply (\<lambda>_. None) E (store_ops E) (sv_db s) ?cmd 1 = (RError e, sv_db s)"
    using lawful_env.Apply_Encode_eqs(1) [OF assms(1) enc, of "\<lambda>_. None" "store_ops E" "sv_db s" 1]
      appliers_store(1) [OF _ assms(4), of _ "sv_db s"] set by auto
  then have "agent_applySetJob (w_apply W) E (sv_db s) (ToProto E j) = (None, sv_db s)"
    using assms(3,7,8) by (simp add: agent_applySetJob_def enc fsm_apply_def)
  moreover have "NewJobFromProto E (ToProto E j) = j" using assms(4) by (simp add: representable_def)
  ultimately show ?thesis using set assms(2,9) by (simp add: grpc_SetJob_def)
qed


section \<open>Finishing executions\<close>

text \<open>A retry: the calls it makes carry the execution with the next attempt number.\<close>

lemma retry_attempt:
  assumes "finish_execution W s x job = (Inr Retry, s', acts)" "unat (Retries job) < 2 ^ 32 - 1"
    "Called calls \<in> set acts" "call \<in> set calls"
  shows "unat (pe_Attempt (snd (snd call))) = unat (ex_Attempt x) + 1 \<and> unat (ex_Attempt x) \<le> unat (Retries job)"
proof -
  let ?x = "x\<lparr>ex_Attempt := ex_Attempt x + 1, ex_Output := []\<rparr>"
  obtain job' where run: "world_Run W s (Name job) ?x = (Inr job', s', calls)" "to_retry x job"
    using assms(1,3) by (auto simp: finish_execution_def split: if_splits sum.splits prod.splits option.splits)
  then have snd: "snd (snd call) = ex_ToProto (w_env W) ?x"
    using assms(4) by (auto simp: world_Run_def agent_Run_def split: prod.splits sum.splits if_splits)
  have suc: "unat (w + 1) = unat w + 1" if "unat w < 2 ^ 32" for w :: "64 word"
    using that by (simp add: unat_word_ariths(1))
  have "ex_Attempt x < Retries job + 1" using run(2) by (simp add: to_retry_def)
  then have lt: "unat (ex_Attempt x) < unat (Retries job) + 1"
    using suc [of "Retries job"] assms(2) by (simp add: word_less_nat_alt)
  have x1: "unat (ex_Attempt x + 1) = unat (ex_Attempt x) + 1" using suc lt assms(2) by simp
  have "unat (ucast (ex_Attempt x + 1) :: 32 word) = unat (ex_Attempt x + 1)"
    using x1 lt assms(2) by (simp add: unsigned_ucast_eq unsigned_take_bit_eq take_bit_nat_eq_self)
  then show ?thesis using snd x1 lt by (simp add: ex_ToProto_def Let_def)
qed

text \<open>
  The runs of one execution on a node: each is reported to a leader, which may be another one with
  another version of the job every time, and answered with a retry; the next is the run of one of
  the calls the leader made, and is reported with the attempt number the call carried.
\<close>

fun retry_chain :: "(('db, 'c, 'r) world \<times> ('db, 'c, 'r) server \<times> execution \<times> job) list \<Rightarrow> bool" where
  "retry_chain ((W, s, x, job) # (W', s', y, job') # runs) \<longleftrightarrow>
     (\<exists>s1 acts calls call. finish_execution W s x job = (Inr Retry, s1, acts) \<and> Called calls \<in> set acts \<and>
        call \<in> set calls \<and> ex_Attempt y = ucast (pe_Attempt (snd (snd call)))) \<and>
     retry_chain ((W', s', y, job') # runs)"
| "retry_chain _ \<longleftrightarrow> True"

text \<open>
  C16: The number of runs is bounded. An execution that fails again and again, from its first
  attempt on, is run at most once more than the retries of its job, and the runs carry the attempt
  numbers 1, 2 and so on, provided that the retries are below the largest 32-bit number and that
  the agent and the processors report each run with the attempt number it was called with.
\<close>

theorem retry_bounded:
  assumes "retry_chain runs" "runs \<noteq> []" "ex_Attempt (fst (snd (snd (hd runs)))) = 1"
    "\<forall>(W, s, x, job) \<in> set runs. unat (Retries job) \<le> R" "R < 2 ^ 32 - 1"
  shows "length runs \<le> R + 1 \<and> map (\<lambda>(W, s, x, job). unat (ex_Attempt x)) runs = [1..<length runs + 1]"
proof -
  have step: "map (\<lambda>(W, s, x, job). unat (ex_Attempt x)) runs = [a..<a + length runs] \<and> a + length runs \<le> R + 2"
    if "retry_chain runs" "runs \<noteq> []" "unat (ex_Attempt (fst (snd (snd (hd runs))))) = a" "a \<le> R + 1"
      "\<forall>(W, s, x, job) \<in> set runs. unat (Retries job) \<le> R" for runs a
    using that
  proof (induction runs arbitrary: a rule: retry_chain.induct)
    case (1 W s x job W' s' y job' runs)
    then obtain s1 acts calls call where run: "finish_execution W s x job = (Inr Retry, s1, acts)"
      "Called calls \<in> set acts" "call \<in> set calls" "ex_Attempt y = ucast (pe_Attempt (snd (snd call)))" by auto
    have "unat (Retries job) < 2 ^ 32 - 1" using 1(6) assms(5) by auto
    note att = retry_attempt [OF run(1) this run(2,3)]
    have le: "Suc a \<le> R + 1" using att 1(4,6) by auto
    then have "Suc a < 2 ^ 64" using assms(5) by simp
    then have y: "unat (ex_Attempt y) = Suc a" using att 1(4) run(4) by (simp add: unsigned_ucast_eq take_bit_nat_eq_self)
    have "map (\<lambda>(W, s, x, job). unat (ex_Attempt x)) ((W', s', y, job') # runs) =
        [Suc a..<Suc a + length ((W', s', y, job') # runs)] \<and> Suc a + length ((W', s', y, job') # runs) \<le> R + 2"
      by (rule "1.IH") (use 1(2,6) y le in auto)
    then show ?case using 1(4) by (simp add: upt_conv_Cons del: upt_Suc)
  qed auto
  from step [OF assms(1,2), of 1] assms(3,4) show ?thesis by auto
qed

text \<open>
  With the largest number of retries a job can be stored with, the attempt number wraps around: the
  execution that follows attempt \<open>2 ^ 32 - 1\<close> is sent as attempt 0, and the retries never end.
\<close>

lemma retry_attempt_wraps:
  assumes "ex_Attempt x = 2 ^ 32 - 1" "Retries job = 2 ^ 32 - 1" "\<not> ex_Success x"
  shows "to_retry x job \<and> pe_Attempt (ex_ToProto E (x\<lparr>ex_Attempt := ex_Attempt x + 1, ex_Output := []\<rparr>)) = 0"
  using assms by (simp add: to_retry_def ex_ToProto_def Let_def)

text \<open>The dependent jobs of a job, on a store where parents and dependent jobs refer to each other.\<close>

definition dependent_calls :: "('db, 'c, 'r) world \<Rightarrow> ('db, 'c, 'r) server \<Rightarrow> string \<Rightarrow> action" where
  "dependent_calls W s djn =
     Called (case GetJob (w_env W) (sv_db s) djn of Inl _ \<Rightarrow> [] | Inr dj \<Rightarrow> snd (world_job_Run W s dj))"

lemma world_job_Run_child:
  assumes "lawful_env (w_env W)" "jobs_ok (w_env W) (sv_db s)" "jobs_of (w_env W) (sv_db s) n = Some j" "ParentJob j \<noteq> []"
  shows "fst (world_job_Run W s j) = s"
proof -
  have "Name j = n" using lawful_env.jobs_of_SomeD [OF assms(1-3)] by simp
  then have "GetJob (w_env W) (sv_db s) (Name j) = Inr j"
    using lawful_env.GetJob_eq [OF assms(1,2)] assms(3) by simp
  then have "fst (snd (agent_Run (w_cron W) (w_env W) (w_apply W) (w_choice W) (w_Region W) (w_members W)
      (sv_sched s) (sv_db s) (Name j) ex)) = sv_db s" for ex
    using assms(4) by (auto simp: agent_Run_def split: sum.splits)
  then have "fst (job_Run (w_cron W) (w_env W) (w_apply W) (w_choice W) (w_Region W) (w_members W) lock act
      (sv_sched s) (sv_db s) j) = sv_db s" for lock act
    by (simp add: job_Run_def)
  then show ?thesis by (simp add: world_job_Run_def split_beta)
qed

lemma run_dependents_append:
  assumes "lawful_env (w_env W)" "jobs_ok (w_env W) (sv_db s)"
    "\<forall>c \<in> set djns. \<exists>C. jobs_of (w_env W) (sv_db s) c = Some C \<and> ParentJob C \<noteq> []"
  shows "run_dependents W s (djns @ rest) =
    (case run_dependents W s rest of (e, s', acts) \<Rightarrow> (e, s', map (dependent_calls W s) djns @ acts))"
  using assms(3)
proof (induction djns)
  case Nil
  then show ?case by simp
next
  case (Cons c djns)
  obtain C where C: "jobs_of (w_env W) (sv_db s) c = Some C" "ParentJob C \<noteq> []" using Cons.prems by auto
  have get: "GetJob (w_env W) (sv_db s) c = Inr C" using lawful_env.GetJob_eq [OF assms(1,2)] C(1) by simp
  obtain calls where "world_job_Run W s C = (s, calls)"
    using world_job_Run_child [OF assms(1,2) C] by (cases "world_job_Run W s C") simp
  with Cons get show ?case by (simp add: dependent_calls_def split: prod.splits)
qed

text \<open>
  A dependent job that does not exist brings the leader down: the agent of the job is set before
  the error of reading it is looked at. A job can name dependent jobs that do not exist, because
  \<open>SetJob\<close> stores the list as it is given.
\<close>

theorem missing_dependent_panics:
  assumes "lawful_env (w_env W)" "jobs_ok (w_env W) (sv_db s)" "DependentJobs job = djns @ djn # rest"
    "\<forall>c \<in> set djns. \<exists>C. jobs_of (w_env W) (sv_db s) c = Some C \<and> ParentJob C \<noteq> []"
    "jobs_of (w_env W) (sv_db s) djn = None" "Status job = StatusSuccess" "\<not> to_retry x job"
    "GetExecutionGroup (w_env W) (sv_db s) x = Inr exg" "w_notify W x exg job = None"
  shows "fst (finish_execution W s x job) = Inl (Panic ''nil pointer dereference'')"
proof -
  have "run_dependents W s (djns @ djn # rest) =
      (Some (Panic ''nil pointer dereference''), s, map (dependent_calls W s) djns)"
    using run_dependents_append [OF assms(1,2,4), of "djn # rest"] lawful_env.GetJob_eq [OF assms(1,2)] assms(5) by simp
  then show ?thesis using assms(3,6-9) by (simp add: finish_execution_def)
qed


section \<open>Operating on the Raft configuration\<close>

text \<open>
  Removing a peer by its identifier succeeds only for a server of the configuration, and then
  the configuration lists every other server and not this one; a request for an unknown
  identifier is refused and changes nothing.
\<close>

theorem RaftRemovePeerByID_removes:
  assumes "raft_config (w_raft W) cfg" "r_GetConfiguration (w_raft W) (sv_raft s) \<noteq> Inl e"
    "RaftRemovePeerByID W s ident = (res, s')"
  shows "(res = Inr () \<longrightarrow> (\<exists>srv \<in> set (cfg (sv_raft s)). rs_ID srv = ident) \<and>
      cfg (sv_raft s') = filter (\<lambda>srv. rs_ID srv \<noteq> ident) (cfg (sv_raft s))) \<and>
    ((\<forall>srv \<in> set (cfg (sv_raft s)). rs_ID srv \<noteq> ident) \<longrightarrow> isl res \<and> s' = s)"
proof (cases "r_GetConfiguration (w_raft W) (sv_raft s)")
  case (Inl e')
  then show ?thesis using assms(3) by (auto simp: RaftRemovePeerByID_def)
next
  case (Inr servers)
  have servers: "servers = cfg (sv_raft s)" by (rule raft_config.get_config [OF assms(1) Inr])
  show ?thesis
    using assms(3) Inr servers raft_config.remove_server [OF assms(1), of "sv_raft s" ident]
    by (auto simp: RaftRemovePeerByID_def list_ex_iff split: if_splits prod.splits option.splits)
qed

section \<open>Concrete requests\<close>

definition sample_world :: "(ref_db, ref_cron_state, raft_server list) world" where
  "sample_world = \<lparr>w_env = ref_env sample_now, w_cron = ref_cron, w_raft = ref_raft,
     w_apply = fsm_apply (ref_env sample_now), w_choice = ref_choice, w_net = ref_net, w_members = sample_pool,
     w_Region = ''global'', w_NodeName = ''n1'', w_GlobalLock = False, w_active_of = (\<lambda>_. Inr []),
     w_processors = (\<lambda>_. None), w_notify = (\<lambda>_ _ _. None)\<rparr>"

definition sample_sched :: "ref_cron_state scheduler" where
  "sample_sched = NewScheduler\<lparr>Cron := Some (cron_New ref_cron (ext_Parse (ref_env sample_now)))\<rparr>"

definition sample_srv :: "ref_db \<Rightarrow> (ref_db, ref_cron_state, raft_server list) server" where
  "sample_srv d = \<lparr>sv_db = d, sv_sched = sample_sched, sv_raft = [voter_of (sample_server ''n1'' ''10.0.0.1'')], sv_active = []\<rparr>"

lemma sample_world_simps [simp]:
  "w_env sample_world = ref_env sample_now" "w_cron sample_world = ref_cron" "w_raft sample_world = ref_raft"
  "w_apply sample_world = fsm_apply (ref_env sample_now)" "w_notify sample_world x exg j = None"
  "sv_db (sample_srv d) = d" "sv_sched (sample_srv d) = sample_sched"
  "sv_raft (sample_srv d) = [voter_of (sample_server ''n1'' ''10.0.0.1'')]"
  by (simp_all add: sample_world_def sample_srv_def)

lemma sample_AddJob:
  assumes "Schedule j = ''@every 1m''" "\<not> Disabled j" "ParentJob j = []"
  obtains sc where "AddJob ref_cron sample_sched j = Inr (None, sc)"
proof -
  have "schedulable (ext_Parse (ref_env sample_now)) j"
    using assms by (simp add: schedulable_def tz_schedule_def HasPrefix_def ext_Parse_def) (simp add: ref_env_def ref_cron_parse_def)
  then show ?thesis
    using refc.AddJob_step [of sample_sched "cron_New ref_cron (ext_Parse (ref_env sample_now))" j] that
    by (auto simp: sample_sched_def refc.new_parser [simplified])
qed

lemma sample_SetJob: "\<exists>d'. SetJob (ref_env sample_now) [] (sample_job ''backup'' ''@every 1m'' []) False = (None, d')"
  using lawful_env.SetJob_n_refines [OF sample_hyps(1) jobs_ok_Nil sample_hyps(2) sample_hyps(5) sample_hyps(3), of 0 False]
  by (auto simp: spec_SetJob_def sample_valid sample_stored found_job_def Let_def SetJob_def numeral_2_eq_2)
    (simp_all add: sample_job_def)

lemma sample_grpc_SetJob:
  "\<exists>s'. grpc_SetJob sample_world (sample_srv []) (Some (ToProto (ref_env sample_now) (sample_job ''backup'' ''@every 1m'' [])))
     = (Inr (), s')"
proof -
  let ?E = "ref_env sample_now" and ?j = "sample_job ''backup'' ''@every 1m'' []"
  obtain d' where d': "SetJob ?E [] ?j False = (None, d')" using sample_SetJob by blast
  obtain b where "Apply (\<lambda>_. None) ?E (store_ops ?E) [] sample_set_job 1 = fsm_applySetJob ?E (store_ops ?E) [] b"
    "unmarshal_job ?E b = Inr (ToProto ?E ?j)"
    using lawful_env.Apply_Encode_eqs(1) [OF sample_hyps(1) sample_set_job_Encode] by blast
  then have "Apply (\<lambda>_. None) ?E (store_ops ?E) [] sample_set_job 1 = (RNil, d')"
    using appliers_store(1) [of ?E b ?j "[]"] sample_hyps(2) d' by simp
  then have "agent_applySetJob (fsm_apply ?E) ?E [] (ToProto ?E ?j) = (None, d')"
    by (simp add: agent_applySetJob_def sample_set_job_Encode fsm_apply_def)
  moreover obtain sc where "AddJob ref_cron sample_sched ?j = Inr (None, sc)"
    by (rule sample_AddJob [of ?j]) (simp_all add: sample_job_def)
  ultimately show ?thesis using sample_hyps(2) by (simp add: grpc_SetJob_def representable_def)
qed

theorem grpc_SetJob_stores_and_schedules_witness:
  "\<exists>s' t e. grpc_SetJob sample_world (sample_srv []) (Some (ToProto (ref_env sample_now) (sample_job ''backup'' ''@every 1m'' [])))
     = (Inr (), s') \<and>
     SetJob ((ref_env sample_now)\<lparr>now := t\<rparr>) [] (sample_job ''backup'' ''@every 1m'' []) False = (e, sv_db s')"
proof -
  obtain s' where s': "grpc_SetJob sample_world (sample_srv [])
      (Some (ToProto (w_env sample_world) (sample_job ''backup'' ''@every 1m'' []))) = (Inr (), s')"
    using sample_grpc_SetJob by auto
  have "lawful_log (w_env sample_world) (w_apply sample_world) (\<lambda>_. None) {sample_now}"
    using ref_log.lawful_log_axioms [of sample_now] by (simp add: ref_env_def)
  from grpc_SetJob_stores_and_schedules [OF this _ s'] s' sample_hyps(2) show ?thesis by auto
qed

definition sample_bad_job :: job where
  "sample_bad_job = (sample_job ''backup'' ''@every 1m'' [])\<lparr>Concurrency := ''never''\<rparr>"

theorem grpc_SetJob_schedules_invalid_job_witness:
  "\<exists>sc. Validate (ref_env sample_now) sample_bad_job = Some ErrWrongConcurrency \<and>
     grpc_SetJob sample_world (sample_srv []) (Some (ToProto (ref_env sample_now) sample_bad_job)) =
       (Inr (), (sample_srv [])\<lparr>sv_sched := sc\<rparr>)"
proof -
  have val: "Validate (ref_env sample_now) sample_bad_job = Some ErrWrongConcurrency" by code_simp
  have rep: "representable (ref_env sample_now) sample_bad_job"
    by (rule pb_codec.representableI [OF ref_pb_codec])
      (simp add: job_fits_def sample_bad_job_def sample_job_def nt_ok_def nt_unset_def)
  have utf: "pb_job_utf8 (ToProto (ref_env sample_now) sample_bad_job)"
    by (simp add: pb_job_utf8_ToProto sample_bad_job_def sample_job_def map_strings_def proc_strings_def)
  obtain sc where "AddJob ref_cron sample_sched sample_bad_job = Inr (None, sc)"
    by (rule sample_AddJob [of sample_bad_job]) (simp_all add: sample_bad_job_def sample_job_def)
  then show ?thesis
    using grpc_SetJob_schedules_invalid_job [OF ref.lawful_env_axioms _ _ rep utf val, of sample_world "sample_srv []" sc] val
    by auto
qed

theorem RaftRemovePeerByID_removes_witness:
  "RaftRemovePeerByID sample_world (sample_srv []) ''n1'' = (Inr (), (sample_srv [])\<lparr>sv_raft := []\<rparr>) \<and>
   (\<exists>srv \<in> set (sv_raft (sample_srv [])). rs_ID srv = ''n1'')"
proof -
  have run: "RaftRemovePeerByID sample_world (sample_srv []) ''n1'' = (Inr (), (sample_srv [])\<lparr>sv_raft := []\<rparr>)"
    by (simp add: RaftRemovePeerByID_def ref_raft_def voter_of_def)
  have cfg: "r_GetConfiguration (w_raft sample_world) (sv_raft (sample_srv [])) \<noteq> Inl ErrNotFound"
    by (simp add: ref_raft_def)
  have "raft_config (w_raft sample_world) (\<lambda>c. c)" using refr.raft_config_axioms by simp
  from RaftRemovePeerByID_removes [OF this cfg run] run show ?thesis by auto
qed


lemma sample_exec_ok_backup: "exec_ok (ref_env sample_now) (sample_exec ''backup'' ''node1'' 1 b)"
  by (simp add: exec_ok_def sample_exec_def sample_now_def time_ok_def zero_time_def
      pb_execution_utf8_def ex_ToProto_def Let_def)

lemma sample_no_execs: "exec_at (ref_env sample_now) (sample_db js) (exec_key x) = None"
proof -
  have "kv (ref_env sample_now) (sample_db js) (exec_key x) = None"
    by (auto simp: kv_def ref_env_def map_of_ref_ascend sample_db_def job_key_def exec_key_def jobsPrefix_def
        executionsPrefix_def map_of_eq_None_iff)
  then show ?thesis by (simp add: exec_at_def)
qed

lemma sample_backup_recorded:
  assumes "exec_ok (ref_env sample_now) x"
  shows "recorded (ref_env sample_now) (sample_db js) x = {x}"
proof -
  have "CHR '':'' \<notin> set (ex_JobName x)" using assms by (simp add: exec_ok_def)
  from lawful_env.executions_set [OF ref.lawful_env_axioms sample_execs_ok this, of _ js] show ?thesis
    by (auto simp: recorded_def newest_def sample_no_execs)
qed

text \<open>A store in which the first execution of a job has just finished with success.\<close>

lemma sample_finished:
  assumes ok: "jobs_ok (ref_env sample_now) (sample_db js)" and x: "exec_ok (ref_env sample_now) x"
    and j: "jobs_of (ref_env sample_now) (sample_db js) (ex_JobName x) = Some j" and success: "ex_Success x"
  obtains d' exg where "SetExecutionDone (ref_env sample_now) (sample_db js) x = (True, None, d')"
    "jobs_ok (ref_env sample_now) d'"
    "jobs_of (ref_env sample_now) d' = (jobs_of (ref_env sample_now) (sample_db js))(ex_JobName x \<mapsto> done_job j x StatusSuccess)"
    "GetExecutionGroup (ref_env sample_now) d' x = Inr exg"
proof -
  let ?E = "ref_env sample_now"
  have colon: "CHR '':'' \<notin> set (ex_JobName x)" using x by (simp add: exec_ok_def)
  note rec = sample_backup_recorded [OF x, of js]
  then have st: "group_status (recorded ?E (sample_db js) x) (ex_Group x) = StatusSuccess"
    using success by (simp add: group_status_def)
  obtain d' where d0: "SetExecutionDone ?E (sample_db js) x = (True, None, d')" "jobs_ok ?E d'" "execs_ok ?E d'"
    "jobs_of ?E d' = (jobs_of ?E (sample_db js))(ex_JobName x \<mapsto>
       done_job j x (group_status (recorded ?E (sample_db js) x) (ex_Group x)))"
    "set (executions ?E d' (ex_JobName x)) = recorded ?E (sample_db js) x"
    by (rule lawful_env.SetExecutionDone_ok [OF ref.lawful_env_axioms ok sample_execs_ok x j])
  note d' = d0(1-3) d0(4) [unfolded st] d0(5) [unfolded rec]
  have "GetExecutions ?E d' (ex_JobName x) = Inr (executions ?E d' (ex_JobName x))"
    using lawful_env.executions_eq(2) [OF ref.lawful_env_axioms d'(3) colon] d'(5) by auto
  then have "GetExecutionGroup ?E d' x = Inr (filter (\<lambda>ex. ex_Group ex = ex_Group x) (executions ?E d' (ex_JobName x)))"
    by (simp add: GetExecutionGroup_def)
  with d' that show ?thesis by blast
qed

theorem missing_dependent_panics_witness:
  "\<exists>d job x. fst (finish_execution sample_world (sample_srv d) x job) = Inl (Panic ''nil pointer dereference'')"
proof -
  let ?E = "ref_env sample_now" and ?x = "sample_exec ''mail'' ''node1'' 1 True"
  have x: "ex_JobName ?x = ''mail''" "ex_Success ?x" by (simp_all add: sample_exec_def)
  have ok: "jobs_ok ?E (sample_db [sample_child])" "jobs_of ?E (sample_db [sample_child]) = [''mail'' \<mapsto> sample_child]"
    using sample_child_ok by (auto simp: jobs_ok_sample_db jobs_of_sample_db sample_family_representable)
  obtain d exg where d: "jobs_ok ?E d" "jobs_of ?E d = [''mail'' \<mapsto> done_job sample_child ?x StatusSuccess]"
    "GetExecutionGroup ?E d ?x = Inr exg"
    by (rule sample_finished [OF ok(1) sample_exec_ok [of True], of sample_child]) (auto simp: ok(2) x)
  let ?job = "(done_job sample_child ?x StatusSuccess)\<lparr>DependentJobs := [''ghost'']\<rparr>"
  have "fst (finish_execution sample_world (sample_srv d) ?x ?job) = Inl (Panic ''nil pointer dereference'')"
    by (rule missing_dependent_panics [of _ _ _ "[]" "''ghost''" "[]" _ exg])
      (use ref.lawful_env_axioms d x in \<open>simp_all add: to_retry_def\<close>)
  then show ?thesis by blast
qed

lemma sample_lawful_log: "lawful_log (w_env sample_world) (w_apply sample_world) (\<lambda>_. None) {sample_now}"
  using ref_log.lawful_log_axioms [of sample_now] by (simp add: ref_env_def)

theorem retry_bounded_witness:
  "\<exists>call. finish_execution sample_world (sample_srv (sample_db [sample_child])) (sample_exec ''mail'' ''n1'' 1 False)
       (sample_child\<lparr>Retries := 3\<rparr>) = (Inr Retry, sample_srv (sample_db [sample_child]), [Called [call]]) \<and>
     length [sample_exec ''mail'' ''n1'' 1 False, NewExecutionFromProto (ref_env sample_now) (snd (snd call))] \<le> 4 \<and>
     unat (ex_Attempt (NewExecutionFromProto (ref_env sample_now) (snd (snd call)))) = 2"
proof -
  let ?x = "sample_exec ''mail'' ''n1'' 1 False" and ?s = "sample_srv (sample_db [sample_child])"
  let ?job = "sample_child\<lparr>Retries := 3\<rparr>"
  have parent: "ParentJob sample_child \<noteq> []" by simp
  let ?y = "?x\<lparr>ex_Attempt := ex_Attempt ?x + 1, ex_Output := []\<rparr>"
  have y: "ex_Attempt ?y = 2" "ex_NodeName ?y = ''n1''" by (simp_all add: sample_exec_def)
  have "\<not> (2 :: 64 word) \<le> 1" by (simp add: word_le_nat_alt)
  then have nodes: "target_nodes ref_choice ''global'' sample_pool sample_child ?y = Inr [(''n1'', [])]"
    unfolding target_nodes_def y by (simp add: sample_pool_def sample_tags get_str_def)
  have "agent_Run ref_cron (ref_env sample_now) (fsm_apply (ref_env sample_now)) ref_choice ''global'' sample_pool
      sample_sched (sample_db [sample_child]) ''mail'' ?y = (Inr sample_child, sample_db [sample_child],
        [([], ToProto (ref_env sample_now) sample_child, ex_ToProto (ref_env sample_now) ?y)])"
    unfolding agent_Run_def sample_GetJob_mail by (simp add: nodes)
  then have world: "world_Run sample_world ?s ''mail'' ?y = (Inr sample_child, ?s,
        [([], ToProto (ref_env sample_now) sample_child, ex_ToProto (ref_env sample_now) ?y)])"
    by (simp add: world_Run_def sample_world_def sample_srv_def)
  have "to_retry ?x ?job" by (simp add: to_retry_def sample_exec_def)
  then obtain call where run: "finish_execution sample_world ?s ?x ?job = (Inr Retry, ?s, [Called [call]])"
    unfolding finish_execution_def by (simp add: world)
  let ?z = "NewExecutionFromProto (ref_env sample_now) (snd (snd call))"
  let ?runs = "[(sample_world, ?s, ?x, ?job), (sample_world, ?s, ?z, ?job)]"
  have chain: "retry_chain ?runs" using run by (cases call) (auto simp: NewExecutionFromProto_def)
  have "length ?runs \<le> 3 + 1 \<and> map (\<lambda>(W, s, x, job). unat (ex_Attempt x)) ?runs = [1..<length ?runs + 1]"
    by (rule retry_bounded [OF chain]) (simp_all add: sample_exec_def)
  then show ?thesis using run by (auto simp: numeral_2_eq_2)
qed

end
