(* ===== verification/Cluster.thy ===== *)
theory Cluster
  imports Replication Grpc
begin

text \<open>
  The servers of a cluster as one transition system over the state machines of \<open>fsm.go\<close>, and the handlers
  of \<open>grpc.go\<close> on its leader. The servers converge as long as snapshots are persisted before further
  entries are applied; what \<open>Snapshot\<close> and \<open>Restore\<close> do otherwise is shown too.
\<close>

section \<open>The replicas of a cluster\<close>

text \<open>
  A server: its store, the number of entries of the log it has applied, and the index of a snapshot
  that was asked for and not yet persisted. \<open>Snapshot\<close> of \<open>fsm.go\<close> returns at once; \<open>Persist\<close> then reads the
  store, and Raft may apply entries between the two.
\<close>

record 'db node =
  nd_db :: 'db
  nd_applied :: nat
  nd_snapshot :: "nat option"

text \<open>The servers by name, the entries that are committed, and the snapshots with their indices.\<close>

record 'db replica_set =
  cl_log :: "string list"
  cl_nodes :: "string \<Rightarrow> 'db node"
  cl_snaps :: "(nat \<times> string) set"

definition apply_entry :: "(nat \<Rightarrow> 'db applier option) \<Rightarrow> 'db env \<Rightarrow> time \<Rightarrow> string list \<Rightarrow> 'db node \<Rightarrow> 'db node" where
  "apply_entry pro E t log nd = nd\<lparr>
     nd_db := snd (Apply pro (E\<lparr>now := t\<rparr>) (store_ops (E\<lparr>now := t\<rparr>)) (nd_db nd) (log ! nd_applied nd) (Suc (nd_applied nd))),
     nd_applied := Suc (nd_applied nd)\<rparr>"

definition set_node :: "string \<Rightarrow> 'db node \<Rightarrow> 'db replica_set \<Rightarrow> 'db replica_set" where
  "set_node i nd c = c\<lparr>cl_nodes := (cl_nodes c)(i := nd)\<rparr>"

text \<open>
  What Raft lets happen to the state machines: an entry is committed, a server applies its next entry
  at a time of its clock, a snapshot is asked for and persisted, and a process starts again, with the
  fresh store of \<open>NewStore\<close> and with a snapshot if there is one. With \<open>quiet\<close> no entry is applied
  between asking for a snapshot and persisting it, and no snapshot is installed in a running server.
\<close>

inductive cluster_step ::
    "bool \<Rightarrow> (nat \<Rightarrow> 'db applier option) \<Rightarrow> 'db env \<Rightarrow> time set \<Rightarrow> 'db replica_set \<Rightarrow> 'db replica_set \<Rightarrow> bool"
  for quiet pro E T where
  commit: "cluster_step quiet pro E T c (c\<lparr>cl_log := cl_log c @ [cmd]\<rparr>)"
    if "command E T cmd"
| apply_next: "cluster_step quiet pro E T c (set_node i (apply_entry pro E t (cl_log c) (cl_nodes c i)) c)"
    if "nd_applied (cl_nodes c i) < length (cl_log c)" "t \<in> T"
| snapshot: "cluster_step quiet pro E T c
    (set_node i ((cl_nodes c i)\<lparr>nd_snapshot := Some (nd_applied (cl_nodes c i))\<rparr>) c)"
| persist: "cluster_step quiet pro E T c
    (set_node i ((cl_nodes c i)\<lparr>nd_snapshot := None\<rparr>) c\<lparr>cl_snaps := insert (k, s) (cl_snaps c)\<rparr>)"
    if "nd_snapshot (cl_nodes c i) = Some k" "quiet \<longrightarrow> nd_applied (cl_nodes c i) = k"
      "Persist (store_ops E) (nd_db (cl_nodes c i)) None = (None, Some s)"
| restart: "cluster_step quiet pro E T c (set_node i \<lparr>nd_db = d0, nd_applied = 0, nd_snapshot = None\<rparr> c)"
    if "kv E d0 = Map.empty"
| restore: "cluster_step quiet pro E T c (set_node i \<lparr>nd_db = d', nd_applied = k, nd_snapshot = None\<rparr> c)"
    if "kv E d0 = Map.empty" "(k, s) \<in> cl_snaps c" "fsm_Restore (store_ops E) d0 s = (None, d')"
| install: "cluster_step quiet pro E T c (set_node i \<lparr>nd_db = d', nd_applied = k, nd_snapshot = None\<rparr> c)"
    if "\<not> quiet" "(k, s) \<in> cl_snaps c" "nd_applied (cl_nodes c i) \<le> k"
      "fsm_Restore (store_ops E) (nd_db (cl_nodes c i)) s = (None, d')"

inductive reachable_cluster ::
    "bool \<Rightarrow> (nat \<Rightarrow> 'db applier option) \<Rightarrow> 'db env \<Rightarrow> time set \<Rightarrow> 'db replica_set \<Rightarrow> bool"
  for quiet pro E T where
  start: "reachable_cluster quiet pro E T \<lparr>cl_log = [], cl_nodes = nodes, cl_snaps = {}\<rparr>"
    if "\<And>i. kv E (nd_db (nodes i)) = Map.empty \<and> nd_applied (nodes i) = 0 \<and> nd_snapshot (nodes i) = None"
| step: "reachable_cluster quiet pro E T c'" if "reachable_cluster quiet pro E T c" "cluster_step quiet pro E T c c'"

section \<open>Convergence\<close>

text \<open>The store after a log, applied at one time: the reference every replica is compared with.\<close>

definition replay :: "(nat \<Rightarrow> 'db applier option) \<Rightarrow> 'db env \<Rightarrow> time \<Rightarrow> string list \<Rightarrow> 'db \<Rightarrow> 'db" where
  "replay pro E t log d =
     fold (\<lambda>cmd d. snd (Apply pro (E\<lparr>now := t\<rparr>) (store_ops (E\<lparr>now := t\<rparr>)) d cmd 1)) log d"

definition copy_of :: "'db env \<Rightarrow> 'db \<Rightarrow> 'db \<Rightarrow> bool" where
  "copy_of E d ref \<longleftrightarrow> store_inv E d \<and> agree E d ref"

lemma store_inv_empty: "kv E d = Map.empty \<Longrightarrow> store_inv E d"
  by (simp add: store_inv_def jobs_ok_def execs_ok_def)

lemma agree_empty:
  assumes "kv E d1 = Map.empty" "kv E d2 = Map.empty"
  shows "agree E d1 d2"
proof -
  have "jobs_of E d1 = jobs_of E d2" by (rule ext) (simp add: jobs_of_def assms)
  then show ?thesis using assms by (simp add: agree_def same_rest_def)
qed

context lawful_env
begin

lemma Restore_fresh:
  assumes "db_save E d = Inr s" "kv E d0 = Map.empty" "fsm_Restore (store_ops E) d0 s = (None, d')"
  shows "kv E d' = kv E d"
proof -
  have "db_load E d0 s = Inr d'"
    using assms(3) by (auto simp: fsm_Restore_def store_ops_def Restore_def split: sum.splits)
  with save_load [OF assms(1), of d0] assms(2) show ?thesis by (auto simp: kv_def)
qed

lemma store_kv_cong: "kv E d = kv E d' \<Longrightarrow> store_inv E d = store_inv E d' \<and> agree E d e = agree E d' e"
  using jobs_kv_cong(1) [of d d'] by (auto simp: store_inv_def jobs_ok_def execs_ok_def agree_def same_rest_def)

lemma copy_of_kv: "kv E d = kv E d' \<Longrightarrow> copy_of E d r = copy_of E d' r"
  using store_kv_cong [of d d'] by (auto simp: copy_of_def)

lemma replay_inv:
  assumes "\<forall>cmd \<in> set log. command E T cmd" "t \<in> T" "store_inv E d"
  shows "store_inv E (replay pro E t log d)"
  using assms(1,3)
proof (induction log arbitrary: d)
  case (Cons cmd log)
  have "store_inv E (snd (Apply pro (E\<lparr>now := t\<rparr>) (store_ops (E\<lparr>now := t\<rparr>)) d cmd 1))"
    using Cons.prems assms(2) by (intro replica_step_inv command_entry) auto
  with Cons show ?case by (simp add: replay_def)
qed (simp add: replay_def)

lemma replay_snoc:
  "replay pro E t (log @ [cmd]) d =
     snd (Apply pro (E\<lparr>now := t\<rparr>) (store_ops (E\<lparr>now := t\<rparr>)) (replay pro E t log d) cmd 1)"
  by (simp add: replay_def)

end

text \<open>What holds of every cluster whose snapshots are persisted while no entry is applied.\<close>

definition cluster_inv ::
    "(nat \<Rightarrow> 'db applier option) \<Rightarrow> 'db env \<Rightarrow> time set \<Rightarrow> time \<Rightarrow> 'db \<Rightarrow> 'db replica_set \<Rightarrow> bool" where
  "cluster_inv pro E T t d0 c \<longleftrightarrow>
     (\<forall>cmd \<in> set (cl_log c). command E T cmd) \<and>
     (\<forall>i. nd_applied (cl_nodes c i) \<le> length (cl_log c) \<and>
        copy_of E (nd_db (cl_nodes c i)) (replay pro E t (take (nd_applied (cl_nodes c i)) (cl_log c)) d0)) \<and>
     (\<forall>(k, s) \<in> cl_snaps c. k \<le> length (cl_log c) \<and>
        (\<exists>d. db_save E d = Inr s \<and> copy_of E d (replay pro E t (take k (cl_log c)) d0)))"

context lawful_env
begin

lemma copy_of_apply:
  assumes c: "copy_of E d (replay pro E t (take k log) d0)" and log: "\<forall>cmd \<in> set log. command E T cmd"
    and k: "k < length log" and t: "t \<in> T" "t' \<in> T" and d0: "kv E d0 = Map.empty"
  shows "copy_of E (snd (Apply pro (E\<lparr>now := t'\<rparr>) (store_ops (E\<lparr>now := t'\<rparr>)) d (log ! k) i))
    (replay pro E t (take (Suc k) log) d0)"
proof -
  have cmd: "command E T (log ! k)" using log k by simp
  have "store_inv E (replay pro E t (take k log) d0)"
    using log store_inv_empty [OF d0] by (intro replay_inv [OF _ t(1)]) (auto dest: in_set_takeD)
  then show ?thesis
    using c agree_Apply [OF lawful_env_axioms _ _ _ cmd t(2,1), of d "replay pro E t (take k log) d0" pro i 1]
      replica_step_inv [OF _ command_entry [OF cmd t(2)]]
    by (simp add: copy_of_def take_Suc_conv_app_nth [OF k] replay_snoc)
qed

lemma cluster_inv_step:
  assumes inv: "cluster_inv pro E T t d0 c" and d0: "kv E d0 = Map.empty" and t: "t \<in> T"
    and step: "cluster_step True pro E T c c'"
  shows "cluster_inv pro E T t d0 c'"
  using step
proof cases
  case (commit cmd)
  have "take k (cl_log c @ [cmd]) = take k (cl_log c)" "k \<le> length (cl_log c @ [cmd])" if "k \<le> length (cl_log c)" for k
    using that by simp_all
  then show ?thesis using inv commit by (fastforce simp: cluster_inv_def simp del: take_append length_append)
next
  case (apply_next i t')
  have "copy_of E (nd_db (apply_entry pro E t' (cl_log c) (cl_nodes c i)))
      (replay pro E t (take (Suc (nd_applied (cl_nodes c i))) (cl_log c)) d0)"
    using inv apply_next copy_of_apply [OF _ _ _ t _ d0] by (simp add: apply_entry_def cluster_inv_def)
  then show ?thesis using inv apply_next by (auto simp: cluster_inv_def set_node_def apply_entry_def)
next
  case (snapshot i)
  then show ?thesis using inv by (auto simp: cluster_inv_def set_node_def)
next
  case (persist i k s)
  have "db_save E (nd_db (cl_nodes c i)) = Inr s"
    using persist by (auto simp: Persist_def store_ops_def Snapshot_def split: sum.splits)
  then show ?thesis using inv persist by (auto simp: cluster_inv_def set_node_def)
next
  case (restart d i)
  then show ?thesis
    using inv store_inv_empty [of E d] agree_empty [of E d d0] d0
    by (auto simp: cluster_inv_def set_node_def copy_of_def replay_def)
next
  case (restore e k s d' i)
  obtain d where "k \<le> length (cl_log c)" "db_save E d = Inr s" "copy_of E d (replay pro E t (take k (cl_log c)) d0)"
    using inv restore(3) by (auto simp: cluster_inv_def)
  with Restore_fresh [of d s e d'] restore copy_of_kv [of d' d] inv show ?thesis
    by (auto simp: cluster_inv_def set_node_def)
qed simp

lemma cluster_inv_reachable:
  assumes "reachable_cluster True pro E T c" "kv E d0 = Map.empty" "t \<in> T"
  shows "cluster_inv pro E T t d0 c"
  using assms(1)
proof induction
  case (start nodes)
  have "copy_of E (nd_db (nodes i)) d0" for i
    using start store_inv_empty [of E] agree_empty [OF _ assms(2)] by (simp add: copy_of_def)
  then show ?case using start by (simp add: cluster_inv_def replay_def)
next
  case (step c c')
  then show ?case using cluster_inv_step [OF _ assms(2,3)] by blast
qed

end

text \<open>
  C7: Servers that have applied the same entries hold the same data, as long as every snapshot is
  persisted before its server applies further entries and no snapshot is installed in a running
  server. In every state a cluster can reach by committing and applying entries at any times, by
  persisting snapshots in this way, and by restarts with and without a snapshot, two servers with
  the same number of applied entries have the same jobs, up to the next runs, and the same
  executions of every job. \<open>late_snapshot_counts_twice\<close> and \<open>Restore_merges\<close> show what happens
  otherwise.
\<close>

theorem replicas_converge:
  assumes "lawful_env E" "reachable_cluster True pro E T c" "t \<in> T"
    and "nd_applied (cl_nodes c i) = nd_applied (cl_nodes c j)"
  shows "but_next (jobs_of E (nd_db (cl_nodes c i))) = but_next (jobs_of E (nd_db (cl_nodes c j))) \<and>
    (\<forall>n. CHR '':'' \<notin> set n \<longrightarrow>
       GetExecutions E (nd_db (cl_nodes c i)) n = GetExecutions E (nd_db (cl_nodes c j)) n)"
proof -
  obtain d0 where d0: "kv E d0 = Map.empty"
    using assms(2) by (induction rule: reachable_cluster.induct) blast+
  let ?di = "nd_db (cl_nodes c i)" and ?dj = "nd_db (cl_nodes c j)"
  have inv: "cluster_inv pro E T t d0 c" by (rule lawful_env.cluster_inv_reachable [OF assms(1,2) d0 assms(3)])
  then have ok: "store_inv E ?di" "store_inv E ?dj" by (simp_all add: cluster_inv_def copy_of_def)
  have a: "agree E ?di ?dj"
    using inv assms(4) agree_sym agree_trans unfolding cluster_inv_def copy_of_def by metis
  have "GetExecutions E ?di n = GetExecutions E ?dj n" if "CHR '':'' \<notin> set n" for n
    using lawful_env.executions_eq(2) [OF assms(1) _ that] lawful_env.agree_executions [OF assms(1) a ok that] ok
    by (simp add: store_inv_def)
  with a show ?thesis by (simp add: agree_def)
qed

section \<open>What the code does with snapshots\<close>

context lawful_env
begin

lemma reachable_inv:
  assumes "reachable_cluster quiet pro E T c"
  shows "(\<forall>cmd \<in> set (cl_log c). command E T cmd) \<and> (\<forall>i. store_inv E (nd_db (cl_nodes c i))) \<and>
    (\<forall>(k, s) \<in> cl_snaps c. \<exists>d. db_save E d = Inr s \<and> store_inv E d)"
  using assms
proof induction
  case (start nodes)
  then show ?case using store_inv_empty [of E] by simp
next
  case (step c c')
  show ?case
    using step(2)
  proof cases
    case (apply_next i t)
    then have "log_entry E t (cl_log c ! nd_applied (cl_nodes c i))" using step.IH command_entry [of E T _ t] nth_mem by blast
    from replica_step_inv [OF _ this] show ?thesis using apply_next step.IH by (auto simp: set_node_def apply_entry_def)
  next
    case (persist i k s)
    then have "db_save E (nd_db (cl_nodes c i)) = Inr s"
      by (auto simp: Persist_def store_ops_def Snapshot_def split: sum.splits)
    then show ?thesis using step.IH persist by (auto simp: set_node_def)
  next
    case (restart d i)
    then show ?thesis using step.IH store_inv_empty [of E d] by (auto simp: set_node_def)
  next
    case (restore d0 k s d' i)
    then obtain d where d: "db_save E d = Inr s" "store_inv E d" using step.IH by auto
    have "store_inv E d'" using store_kv_cong [OF Restore_fresh [OF d(1) restore(2,4)]] d(2) by simp
    then show ?thesis using restore(1) step.IH by (auto simp: set_node_def)
  next
    case (install k s i d')
    then obtain d where d: "db_save E d = Inr s" "store_inv E d" using step.IH by auto
    obtain d1 where d1: "fsm_Restore (store_ops E) (nd_db (cl_nodes c i)) s = (None, d1)"
      "kv E d1 = kv E (nd_db (cl_nodes c i)) ++ kv E d" using Restore_kv [OF d(1)] by metis
    have "store_inv E (nd_db (cl_nodes c i))" using step.IH by blast
    from store_inv_merge [OF this d(2) d1(2)] have "store_inv E d'" using d1(1) install(5) by simp
    then show ?thesis using install(1) step.IH by (auto simp: set_node_def)
  qed (use step.IH in \<open>auto simp: set_node_def\<close>)
qed

end

text \<open>
  Restoring a snapshot merges it into the store: \<open>Restore\<close> loads the snapshot without clearing the
  store first, so a job that the snapshot no longer has stays. Raft restores a snapshot into the running
  state machine of a server that is too far behind, which is to discard its state first.
\<close>

theorem Restore_merges:
  assumes "lawful_env E" "jobs_ok E d" "jobs_ok E d0" "Snapshot E d = Inr s"
  shows "\<exists>d'. Restore E d0 s = (None, d') \<and> jobs_of E d' = jobs_of E d0 ++ jobs_of E d"
proof -
  obtain d' where d': "Restore E d0 s = (None, d')" "kv E d' = kv E d0 ++ kv E d"
    using lawful_env.Restore_kv [OF assms(1), of d s d0] assms(4)
    by (auto simp: fsm_Restore_def store_ops_def Snapshot_def)
  have "jobs_of E d' n = (jobs_of E d0 ++ jobs_of E d) n" for n
  proof (cases "kv E d (job_key n)")
    case None
    then show ?thesis by (simp add: jobs_of_def d'(2) map_add_def)
  next
    case (Some b)
    then obtain j where "unmarshal_job E b = Inr (ToProto E j)" using assms(2) unfolding jobs_ok_def by blast
    with Some show ?thesis by (simp add: jobs_of_def d'(2) map_add_def)
  qed
  with d'(1) show ?thesis by blast
qed

text \<open>What applying the end of an execution does to its job, on any server.\<close>

lemma apply_done_job:
  assumes E: "lawful_env E" and x: "exec_ok E x" "Encode E ExecutionDoneType (MDone \<lparr>edr_Execution = Some (ex_ToProto E x)\<rparr>) = Inr cmd"
    and d: "store_inv E d" "jobs_of E d (ex_JobName x) = Some j"
  shows "\<exists>s. jobs_of E (snd (Apply pro (E\<lparr>now := t\<rparr>) (store_ops (E\<lparr>now := t\<rparr>)) d cmd i)) (ex_JobName x) = Some (done_job j x s) \<and>
    store_inv E (snd (Apply pro (E\<lparr>now := t\<rparr>) (store_ops (E\<lparr>now := t\<rparr>)) d cmd i))"
proof -
  have ok: "jobs_ok E d" "execs_ok E d" using d by (simp_all add: store_inv_def)
  obtain d' where "SetExecutionDone E d x = (True, None, d')" "jobs_ok E d'" "execs_ok E d'"
    "jobs_of E d' = (jobs_of E d)(ex_JobName x \<mapsto> done_job j x (group_status (recorded E d x) (ex_Group x)))"
    using lawful_env.SetExecutionDone_ok [OF E ok x(1) d(2)] by metis
  then show ?thesis
    by (intro exI [of _ "group_status (recorded E d x) (ex_Group x)"]) (simp add: Apply_clock(4) [OF E x(2,1)] store_inv_def)
qed

text \<open>
  A run of a cluster in which a snapshot is asked for, an entry is committed and applied, the snapshot is
  persisted, and another server starts from it and applies the entry.
\<close>

lemma late_snapshot_run:
  assumes c: "reachable_cluster False pro E T c" and i: "nd_applied (cl_nodes c i) = length (cl_log c)" "i \<noteq> i'"
    and cmd: "command E T cmd" and T: "t \<in> T" and d0: "kv E d0 = Map.empty"
    and ap: "ap = (\<lambda>d. snd (Apply pro (E\<lparr>now := t\<rparr>) (store_ops (E\<lparr>now := t\<rparr>)) d cmd (Suc (length (cl_log c)))))"
    and snap: "db_save E (ap (nd_db (cl_nodes c i))) = Inr snap" "fsm_Restore (store_ops E) d0 snap = (None, d')"
  shows "\<exists>c'. reachable_cluster False pro E T c' \<and> nd_applied (cl_nodes c' i) = nd_applied (cl_nodes c' i') \<and>
    nd_db (cl_nodes c' i) = ap (nd_db (cl_nodes c i)) \<and> nd_db (cl_nodes c' i') = ap d'"
proof -
  let ?k = "length (cl_log c)" and ?d = "nd_db (cl_nodes c i)"
  define c1 where "c1 = set_node i ((cl_nodes c i)\<lparr>nd_snapshot := Some ?k\<rparr>) c"
  define c2 where "c2 = c1\<lparr>cl_log := cl_log c1 @ [cmd]\<rparr>"
  define c3 where "c3 = set_node i (apply_entry pro E t (cl_log c2) (cl_nodes c2 i)) c2"
  define c4 where "c4 = set_node i ((cl_nodes c3 i)\<lparr>nd_snapshot := None\<rparr>) c3\<lparr>cl_snaps := insert (?k, snap) (cl_snaps c3)\<rparr>"
  define c5 where "c5 = set_node i' \<lparr>nd_db = d', nd_applied = ?k, nd_snapshot = None\<rparr> c4"
  define c6 where "c6 = set_node i' (apply_entry pro E t (cl_log c5) (cl_nodes c5 i')) c5"
  note defs = c1_def c2_def c3_def c4_def c5_def c6_def set_node_def apply_entry_def
  have nodes: "cl_log c2 = cl_log c @ [cmd]" "cl_log c5 = cl_log c @ [cmd]" "nd_applied (cl_nodes c2 i) = ?k"
    "nd_db (cl_nodes c3 i) = ap ?d" "nd_snapshot (cl_nodes c3 i) = Some ?k" "(?k, snap) \<in> cl_snaps c4"
    "nd_applied (cl_nodes c5 i') = ?k" "nd_db (cl_nodes c6 i) = ap ?d" "nd_db (cl_nodes c6 i') = ap d'"
    "nd_applied (cl_nodes c6 i) = nd_applied (cl_nodes c6 i')"
    using i by (simp_all add: defs ap)
  have "cluster_step False pro E T c c1" unfolding c1_def using cluster_step.snapshot [of False pro E T c i] i by simp
  moreover have "cluster_step False pro E T c1 c2" unfolding c2_def by (rule cluster_step.commit) fact
  moreover have "cluster_step False pro E T c2 c3" unfolding c3_def by (rule cluster_step.apply_next) (simp_all add: nodes T)
  moreover have "cluster_step False pro E T c3 c4" unfolding c4_def
    using nodes(4,5) snap(1) by (intro cluster_step.persist) (simp_all add: Persist_def store_ops_def Snapshot_def)
  moreover have "cluster_step False pro E T c4 c5" unfolding c5_def
    by (rule cluster_step.restore [OF d0 nodes(6) snap(2)])
  moreover have "cluster_step False pro E T c5 c6" unfolding c6_def
    by (rule cluster_step.apply_next) (simp_all add: nodes T)
  ultimately have "reachable_cluster False pro E T c6" using c reachable_cluster.step by metis
  then show ?thesis using nodes(8-10) by blast
qed

text \<open>
  C24: A snapshot that is persisted late makes a server count an execution twice. \<open>Snapshot\<close> keeps a
  reference to the live store, so an entry that is applied before \<open>Persist\<close> reads the store is in the
  snapshot, and is applied again by a server that starts from it: two servers that have applied the
  same entries then disagree about the number of successful executions.
\<close>

theorem late_snapshot_counts_twice:
  assumes E: "lawful_env E" and c: "reachable_cluster False pro E T c"
    and i: "nd_applied (cl_nodes c i) = length (cl_log c)" "i \<noteq> i'"
    and job: "jobs_of E (nd_db (cl_nodes c i)) (ex_JobName x) = Some j"
    and x: "exec_ok E x" "ex_Success x" "Encode E ExecutionDoneType (MDone \<lparr>edr_Execution = Some (ex_ToProto E x)\<rparr>) = Inr cmd"
    and T: "t \<in> T" and db: "kv E d0 = Map.empty" "\<And>d. \<exists>s. db_save E d = Inr s"
  shows "\<exists>c' j1 j2. reachable_cluster False pro E T c' \<and> nd_applied (cl_nodes c' i) = nd_applied (cl_nodes c' i') \<and>
    jobs_of E (nd_db (cl_nodes c' i)) (ex_JobName x) = Some j1 \<and> jobs_of E (nd_db (cl_nodes c' i')) (ex_JobName x) = Some j2 \<and>
    SuccessCount j1 = scast (ucast (SuccessCount j) + 1 :: 32 word) \<and>
    SuccessCount j2 = scast (ucast (SuccessCount j) + 2 :: 32 word)"
proof -
  let ?n = "ex_JobName x" and ?d = "nd_db (cl_nodes c i)"
  define ap where "ap = (\<lambda>d. snd (Apply pro (E\<lparr>now := t\<rparr>) (store_ops (E\<lparr>now := t\<rparr>)) d cmd (Suc (length (cl_log c)))))"
  have inv: "store_inv E ?d" using lawful_env.reachable_inv [OF E c] by blast
  obtain s1 where s1: "jobs_of E (ap ?d) ?n = Some (done_job j x s1)" "store_inv E (ap ?d)"
    using apply_done_job [OF E x(1,3) inv job] unfolding ap_def by blast
  obtain snap where snap: "db_save E (ap ?d) = Inr snap" using db(2) by blast
  obtain d' where d': "fsm_Restore (store_ops E) d0 snap = (None, d')" "kv E d' = kv E (ap ?d)"
    using lawful_env.Restore_kv [OF E snap, of d0] lawful_env.Restore_fresh [OF E snap db(1)] by metis
  have d'2: "store_inv E d'" "jobs_of E d' ?n = Some (done_job j x s1)"
    using lawful_env.store_kv_cong [OF E d'(2)] s1 d'(2) by (simp_all add: jobs_of_def)
  obtain s2 where s2: "jobs_of E (ap d') ?n = Some (done_job (done_job j x s1) x s2)"
    using apply_done_job [OF E x(1,3) d'2] unfolding ap_def by blast
  have "SuccessCount (done_job j x s1) = scast (ucast (SuccessCount j) + 1 :: 32 word)"
    "SuccessCount (done_job (done_job j x s1) x s2) = scast (ucast (SuccessCount j) + 2 :: 32 word)"
    using x(2) by (simp_all add: done_job_def add.assoc)
  then show ?thesis
    using late_snapshot_run [OF c i command.execution_done [OF x(3,1)] T db(1) ap_def snap d'(1)] s1(1) s2 by metis
qed

section \<open>Requests on the leader\<close>

text \<open>The stores a handler can leave when it changes the store only by commands it gives to Raft.\<close>

definition wrote :: "'db raft_apply \<Rightarrow> 'db \<Rightarrow> 'db \<Rightarrow> bool" where
  "wrote ap = (\<lambda>d d'. \<exists>cmd. snd (ap d cmd) = d')\<^sup>*\<^sup>*"

lemma wrote_refl [simp]: "wrote ap d d"
  by (simp add: wrote_def)

lemma wrote_trans [trans]: "wrote ap d d' \<Longrightarrow> wrote ap d' d'' \<Longrightarrow> wrote ap d d''"
  by (simp add: wrote_def)

lemma wrote_ap: "ap d cmd = (r, d') \<Longrightarrow> wrote ap d d'"
  unfolding wrote_def by (rule r_into_rtranclp) (metis snd_conv)

lemma wrote_applySetJob: "agent_applySetJob ap E d job = (e, d') \<Longrightarrow> wrote ap d d'"
  by (auto simp: agent_applySetJob_def dest: wrote_ap split: sum.splits prod.splits if_splits)

lemma wrote_store_next: "store_next L E ap s d n job = (r, d') \<Longrightarrow> wrote ap d d'"
  by (auto simp: store_next_def Let_def dest: wrote_applySetJob split: sum.splits prod.splits option.splits)

lemma wrote_agent_Run: "agent_Run L E ap ch region members s d n x = (r, d', calls) \<Longrightarrow> wrote ap d d'"
  by (auto simp: agent_Run_def dest: wrote_store_next split: sum.splits prod.splits if_splits)

lemma wrote_world_Run: "world_Run W s n x = (r, s', calls) \<Longrightarrow> wrote (w_apply W) (sv_db s) (sv_db s')"
  by (auto simp: world_Run_def dest: wrote_agent_Run split: prod.splits)

lemma wrote_world_job_Run: "wrote (w_apply W) (sv_db s) (sv_db (fst (world_job_Run W s j)))"
proof -
  have "wrote ap d (fst (snd (agent_Run L E ap ch region members sc d n x)))" for ap d L E ch region members sc n x
    by (cases "agent_Run L E ap ch region members sc d n x") (auto dest: wrote_agent_Run)
  then show ?thesis by (auto simp: world_job_Run_def job_Run_def split_beta)
qed

lemma wrote_run_dependents: "wrote (w_apply W) (sv_db s) (sv_db (fst (snd (run_dependents W s djns))))"
proof (induction djns arbitrary: s)
  case (Cons djn djns)
  show ?case
  proof (cases "GetJob (w_env W) (sv_db s) djn")
    case (Inr dj)
    have "wrote (w_apply W) (sv_db s) (sv_db (fst (world_job_Run W s dj)))" by (rule wrote_world_job_Run)
    also have "wrote (w_apply W) (sv_db (fst (world_job_Run W s dj)))
        (sv_db (fst (snd (run_dependents W (fst (world_job_Run W s dj)) djns))))" by (rule Cons.IH)
    finally show ?thesis using Inr by (simp add: split_beta)
  qed simp
qed simp

lemma wrote_finish: "finish_execution W s x job = (r, s', acts) \<Longrightarrow> wrote (w_apply W) (sv_db s) (sv_db s')"
  using wrote_run_dependents [of W s "DependentJobs job"]
  by (auto simp: finish_execution_def dest: wrote_world_Run split: sum.splits prod.splits option.splits if_splits)

text \<open>
  C19: The handlers change the store only through the log. Whatever a request does on the leader,
  the store it leaves is reached from the store before by commands that were given to Raft, so that
  every change is one that the other servers apply too.
\<close>

theorem handlers_write_through_log:
  "wrote (w_apply W) (sv_db s) (sv_db (snd (grpc_SetJob W s req))) \<and>
   wrote (w_apply W) (sv_db s) (sv_db (snd (grpc_DeleteJob W s n))) \<and>
   wrote (w_apply W) (sv_db s) (sv_db (fst (snd (grpc_RunJob W s n)))) \<and>
   wrote (w_apply W) (sv_db s) (sv_db (snd (grpc_SetExecution W s px))) \<and>
   wrote (w_apply W) (sv_db s) (sv_db (fst (snd (grpc_ExecutionDone W s done_req))))"
proof (intro conjI)
  show "wrote (w_apply W) (sv_db s) (sv_db (snd (grpc_SetJob W s req)))"
    by (auto simp: grpc_SetJob_def dest: wrote_applySetJob split: option.splits prod.splits sum.splits)
  show "wrote (w_apply W) (sv_db s) (sv_db (snd (grpc_DeleteJob W s n)))"
    by (auto simp: grpc_DeleteJob_def dest: wrote_ap split: sum.splits prod.splits response.splits)
  show "wrote (w_apply W) (sv_db s) (sv_db (fst (snd (grpc_RunJob W s n))))"
    by (auto simp: grpc_RunJob_def dest: wrote_world_Run split: sum.splits prod.splits)
  show "wrote (w_apply W) (sv_db s) (sv_db (snd (grpc_SetExecution W s px)))"
    by (auto simp: grpc_SetExecution_def dest: wrote_ap split: sum.splits prod.splits)
  show "wrote (w_apply W) (sv_db s) (sv_db (fst (snd (grpc_ExecutionDone W s done_req))))"
  proof (cases done_req)
    case (Some px)
    have "wrote (w_apply W) (sv_db s) (sv_db (fst (snd (finish_execution W (s\<lparr>sv_db := d\<rparr>) x job))))"
      if "w_apply W (sv_db s) cmd = (r, d)" for cmd r d x job
      using wrote_trans [OF wrote_ap [of "w_apply W", OF that]] wrote_finish [of W "s\<lparr>sv_db := d\<rparr>" x job]
      by (cases "finish_execution W (s\<lparr>sv_db := d\<rparr>) x job") auto
    then show ?thesis
      by (auto simp: grpc_ExecutionDone_def Some Let_def dest: wrote_ap split: sum.splits prod.splits)
  qed (simp add: grpc_ExecutionDone_def)
qed

section \<open>A job on every replica\<close>

lemma Apply_index: "Apply (\<lambda>_. None) E S d buf i = Apply (\<lambda>_. None) E S d buf i'"
  by (simp add: Apply_def Let_def split: list.splits)

lemma step_log: "cluster_step quiet pro E T c c' \<Longrightarrow> \<exists>l. cl_log c' = cl_log c @ l"
  by (induction rule: cluster_step.induct) (auto simp: set_node_def)

lemma steps_log: "(cluster_step quiet pro E T)\<^sup>*\<^sup>* c c' \<Longrightarrow> \<exists>l. cl_log c' = cl_log c @ l"
proof (induction rule: rtranclp_induct)
  case (step c1 c2)
  then show ?case using step_log by (metis append_assoc)
qed simp

lemma steps_reachable:
  "(cluster_step quiet pro E T)\<^sup>*\<^sup>* c c' \<Longrightarrow> reachable_cluster quiet pro E T c \<Longrightarrow> reachable_cluster quiet pro E T c'"
  by (induction rule: rtranclp_induct) (auto intro: reachable_cluster.step)

lemma cluster_inv_copies:
  assumes E: "lawful_env E" and c1: "reachable_cluster True pro E T c1" and t: "t \<in> T"
    and i: "nd_applied (cl_nodes c1 i) = length (cl_log c1)"
    and c2: "(cluster_step True pro E T)\<^sup>*\<^sup>* c1 c2" and k: "nd_applied (cl_nodes c2 k) = length (cl_log c1)"
  shows "agree E (nd_db (cl_nodes c2 k)) (nd_db (cl_nodes c1 i)) \<and> store_inv E (nd_db (cl_nodes c2 k))"
proof -
  obtain d0 where d0: "kv E d0 = Map.empty"
    using c1 by (induction rule: reachable_cluster.induct) blast+
  have inv: "cluster_inv pro E T t d0 c" if "reachable_cluster True pro E T c" for c
    by (rule lawful_env.cluster_inv_reachable [OF E that d0 t])
  obtain l where l: "cl_log c2 = cl_log c1 @ l" using steps_log [OF c2] by blast
  have "copy_of E (nd_db (cl_nodes c1 i)) (replay pro E t (cl_log c1) d0)"
    using inv [OF c1] i unfolding cluster_inv_def by (metis take_all_iff order_refl)
  moreover have "copy_of E (nd_db (cl_nodes c2 k)) (replay pro E t (cl_log c1) d0)"
    using inv [OF steps_reachable [OF c2 c1]] k l unfolding cluster_inv_def
    by (metis append_eq_conv_conj)
  ultimately show ?thesis using agree_sym agree_trans unfolding copy_of_def by metis
qed

text \<open>
  C14: A job that a request stored is on every server, in a cluster whose snapshots are, before and
  after the request, persisted before further entries are applied and never installed in a running
  server. When \<open>SetJob\<close> on a leader that has applied the whole log succeeds, it has put one entry on
  the log; every server that has applied the log up to this entry has the jobs the leader had when
  it answered, up to the next runs, whatever is committed, applied, persisted, restarted or restored
  in between.
\<close>

theorem committed_job_on_every_replica:
  assumes E: "lawful_env E" and c: "reachable_cluster True (\<lambda>_. None) E T c"
    and W: "w_env W = E" "w_apply W = fsm_apply E" "now E \<in> T"
    and leader: "nd_applied (cl_nodes c l) = length (cl_log c)" "sv_db s = nd_db (cl_nodes c l)"
    and j: "\<forall>t\<in>T. job_arg E t j" and req: "grpc_SetJob W s (Some (ToProto E j)) = (Inr (), s')"
  shows "\<exists>c1 cmd. (cluster_step True (\<lambda>_. None) E T)\<^sup>*\<^sup>* c c1 \<and> cl_log c1 = cl_log c @ [cmd] \<and>
    nd_db (cl_nodes c1 l) = sv_db s' \<and>
    (\<forall>c2 k. (cluster_step True (\<lambda>_. None) E T)\<^sup>*\<^sup>* c1 c2 \<longrightarrow> nd_applied (cl_nodes c2 k) = length (cl_log c1) \<longrightarrow>
       but_next (jobs_of E (nd_db (cl_nodes c2 k))) = but_next (jobs_of E (sv_db s')))"
proof -
  let ?step = "cluster_step True (\<lambda>_. None) E T"
  obtain cmd r d where cmd: "Encode E SetJobType (MJob (ToProto E j)) = Inr cmd" "fsm_apply E (sv_db s) cmd = (Inr r, d)" "sv_db s' = d"
    using req by (auto simp: grpc_SetJob_def agent_applySetJob_def W(1,2) split: sum.splits prod.splits if_splits option.splits)
  define c0 where "c0 = c\<lparr>cl_log := cl_log c @ [cmd]\<rparr>"
  define c1 where "c1 = set_node l (apply_entry (\<lambda>_. None) E (now E) (cl_log c0) (cl_nodes c0 l)) c0"
  have "?step c c0" unfolding c0_def by (rule cluster_step.commit) (rule command.set_job [OF cmd(1) j])
  moreover have "?step c0 c1" unfolding c1_def
    by (rule cluster_step.apply_next) (simp_all add: c0_def leader W(3))
  ultimately have steps: "?step\<^sup>*\<^sup>* c c1" by simp
  have now: "E\<lparr>now := now E\<rparr> = E" by simp
  have log: "cl_log c1 = cl_log c @ [cmd]" by (simp add: c1_def c0_def set_node_def)
  have "nd_db (cl_nodes c1 l) = snd (Apply (\<lambda>_. None) E (store_ops E) (sv_db s) cmd (Suc (length (cl_log c))))"
    by (simp add: c1_def c0_def set_node_def apply_entry_def leader)
  then have db: "nd_db (cl_nodes c1 l) = sv_db s'"
    using cmd(2,3) Apply_index [of E "store_ops E" "sv_db s" cmd "Suc (length (cl_log c))" 1]
    by (simp add: fsm_apply_def split: prod.splits)
  have app: "nd_applied (cl_nodes c1 l) = length (cl_log c1)"
    by (simp add: c1_def c0_def set_node_def apply_entry_def leader)
  have "but_next (jobs_of E (nd_db (cl_nodes c2 k))) = but_next (jobs_of E (sv_db s'))"
    if "?step\<^sup>*\<^sup>* c1 c2" "nd_applied (cl_nodes c2 k) = length (cl_log c1)" for c2 k
    using cluster_inv_copies [OF E steps_reachable [OF steps c] W(3) app that] by (simp add: db agree_def)
  with steps log db show ?thesis by blast
qed

section \<open>A concrete cluster\<close>

definition sample_cluster :: "ref_db replica_set" where
  "sample_cluster = \<lparr>cl_log = [], cl_nodes = (\<lambda>_. \<lparr>nd_db = [], nd_applied = 0, nd_snapshot = None\<rparr>), cl_snaps = {}\<rparr>"

lemma kv_ref_Nil [simp]: "kv (ref_env t) [] = Map.empty"
  by (simp add: kv_def ref_env_def ref_ascend_def)

lemma sample_cluster_reachable: "reachable_cluster quiet pro (ref_env sample_now) T sample_cluster"
  unfolding sample_cluster_def by (rule reachable_cluster.start) simp

lemma sample_job_command: "command (ref_env sample_now) {sample_now, 0} sample_set_job"
  by (rule command.set_job [OF sample_set_job_Encode]) (use sample_job_arg in auto)

text \<open>The job is committed, and two nodes apply it at different times.\<close>

lemma sample_committed:
  obtains c where "reachable_cluster quiet pro (ref_env sample_now) {sample_now, 0} c"
    "cl_log c = [sample_set_job]" "nd_applied (cl_nodes c ''a'') = 1" "nd_applied (cl_nodes c ''b'') = 1"
    "nd_db (cl_nodes c ''a'') = snd (Apply pro (ref_env sample_now) (store_ops (ref_env sample_now)) [] sample_set_job 1)"
proof -
  let ?E = "ref_env sample_now" and ?T = "{sample_now, 0}"
  define c0 where "c0 = sample_cluster\<lparr>cl_log := cl_log sample_cluster @ [sample_set_job]\<rparr>"
  define c1 where "c1 = set_node ''a'' (apply_entry pro ?E sample_now (cl_log c0) (cl_nodes c0 ''a'')) c0"
  define c2 where "c2 = set_node ''b'' (apply_entry pro ?E 0 (cl_log c1) (cl_nodes c1 ''b'')) c1"
  note defs = c0_def c1_def c2_def set_node_def apply_entry_def sample_cluster_def
  have "cluster_step quiet pro ?E ?T sample_cluster c0" unfolding c0_def
    by (rule cluster_step.commit) (rule sample_job_command)
  moreover have "cluster_step quiet pro ?E ?T c0 c1" unfolding c1_def
    by (rule cluster_step.apply_next) (simp_all add: c0_def sample_cluster_def)
  moreover have "cluster_step quiet pro ?E ?T c1 c2" unfolding c2_def
    by (rule cluster_step.apply_next) (simp_all add: c0_def c1_def set_node_def sample_cluster_def)
  ultimately have "reachable_cluster quiet pro ?E ?T c2"
    using sample_cluster_reachable reachable_cluster.step by metis
  then show ?thesis by (rule that) (simp_all add: defs sample_now_env)
qed

theorem replicas_converge_witness:
  "\<exists>c :: ref_db replica_set. nd_applied (cl_nodes c ''a'') = 1 \<and> nd_applied (cl_nodes c ''b'') = 1 \<and>
     but_next (jobs_of (ref_env sample_now) (nd_db (cl_nodes c ''a''))) =
     but_next (jobs_of (ref_env sample_now) (nd_db (cl_nodes c ''b'')))"
proof -
  obtain c where c: "reachable_cluster True (\<lambda>_. None) (ref_env sample_now) {sample_now, 0} c"
    "nd_applied (cl_nodes c ''a'') = 1" "nd_applied (cl_nodes c ''b'') = 1"
    by (rule sample_committed)
  moreover have "but_next (jobs_of (ref_env sample_now) (nd_db (cl_nodes c ''a''))) =
      but_next (jobs_of (ref_env sample_now) (nd_db (cl_nodes c ''b'')))"
    using replicas_converge [OF sample_hyps(1) c(1), of 0 "''a''" "''b''"] c(2,3) by simp
  ultimately show ?thesis by blast
qed

lemma sample_applied:
  "jobs_of (ref_env sample_now) (snd (Apply pro (ref_env sample_now) (store_ops (ref_env sample_now)) [] sample_set_job 1)) ''backup'' =
     Some ((sample_job ''backup'' ''@every 1m'' [])\<lparr>Next := 1602226860000000000\<rparr>)"
proof -
  let ?E = "ref_env sample_now" and ?j = "sample_job ''backup'' ''@every 1m'' []"
  obtain d' where d': "SetJob ?E [] ?j False = (None, d')" "jobs_of ?E d' ''backup'' = Some (?j\<lparr>Next := 1602226860000000000\<rparr>)"
  proof -
    have f: "Name ?j = ''backup''" "ParentJob ?j = []" by (simp_all add: sample_job_def)
    have "spec_SetJob ?E (jobs_of ?E []) ?j False = (None, (jobs_of ?E [])(''backup'' \<mapsto> ?j\<lparr>Next := 1602226860000000000\<rparr>))"
      by (simp add: spec_SetJob_def f sample_valid sample_stored found_job_def)
    then show ?thesis
      using that lawful_env.SetJob_n_refines [OF sample_hyps(1) jobs_ok_Nil sample_hyps(2) sample_hyps(5) sample_hyps(3), of 0 False]
      by (auto simp: SetJob_def numeral_2_eq_2)
  qed
  have "Apply pro ?E (store_ops ?E) [] sample_set_job 1 = (RNil, d')"
    using Apply_clock(1) [OF sample_hyps(1) sample_set_job_Encode sample_hyps(2), of pro sample_now "[]" 1] d'(1)
    by (simp add: sample_now_env)
  with d'(2) show ?thesis by simp
qed

theorem late_snapshot_counts_twice_witness:
  "\<exists>(c :: ref_db replica_set) j1 j2. nd_applied (cl_nodes c ''a'') = nd_applied (cl_nodes c ''c'') \<and>
     jobs_of (ref_env sample_now) (nd_db (cl_nodes c ''a'')) ''backup'' = Some j1 \<and>
     jobs_of (ref_env sample_now) (nd_db (cl_nodes c ''c'')) ''backup'' = Some j2 \<and> SuccessCount j1 = 1 \<and> SuccessCount j2 = 2"
proof -
  let ?E = "ref_env sample_now" and ?x = "sample_exec ''backup'' ''node1'' 1 True"
  obtain c where c: "reachable_cluster False (\<lambda>_. None) ?E {sample_now, 0} c" "cl_log c = [sample_set_job]" "nd_applied (cl_nodes c ''a'') = 1"
    "nd_db (cl_nodes c ''a'') = snd (Apply (\<lambda>_. None) ?E (store_ops ?E) [] sample_set_job 1)"
    by (rule sample_committed)
  have x: "ex_JobName ?x = ''backup''" "ex_Success ?x" by (simp_all add: sample_exec_def)
  obtain cmd where "Encode ?E ExecutionDoneType (MDone \<lparr>edr_Execution = Some (ex_ToProto ?E ?x)\<rparr>) = Inr cmd"
    by (simp add: Encode_def) (simp add: ref_env_def)
  note cmd = this
  let ?j = "(sample_job ''backup'' ''@every 1m'' [])\<lparr>Next := 1602226860000000000\<rparr>"
  have save: "\<exists>s. db_save ?E d = Inr s" for d by (simp add: ref_env_def)
  have job: "jobs_of ?E (nd_db (cl_nodes c ''a'')) (ex_JobName ?x) = Some ?j"
    unfolding c(4) x(1) by (rule sample_applied)
  have count: "SuccessCount ?j = 0" by (simp add: sample_job_def)
  have a: "nd_applied (cl_nodes c ''a'') = length (cl_log c)" "''a'' \<noteq> ''c''" using c(2,3) by simp_all
  have "0 \<in> {sample_now, 0}" by simp
  from late_snapshot_counts_twice [OF sample_hyps(1) c(1) a job sample_exec_ok_backup x(2) cmd this kv_ref_Nil save]
  show ?thesis unfolding count x(1) by auto
qed

theorem committed_job_on_every_replica_witness:
  "\<exists>(c1 :: ref_db replica_set) cmd s'. grpc_SetJob sample_world (sample_srv []) (Some (ToProto (ref_env sample_now) (sample_job ''backup'' ''@every 1m'' []))) = (Inr (), s') \<and>
     cl_log c1 = [cmd] \<and> nd_db (cl_nodes c1 ''n1'') = sv_db s'"
proof -
  let ?E = "ref_env sample_now"
  obtain s' where s': "grpc_SetJob sample_world (sample_srv []) (Some (ToProto ?E (sample_job ''backup'' ''@every 1m'' []))) = (Inr (), s')"
    using sample_grpc_SetJob by blast
  have "now ?E \<in> {sample_now, 0}" by (simp add: ref_env_def)
  from committed_job_on_every_replica [OF sample_hyps(1) sample_cluster_reachable _ _ this _ _ _ s', of "''n1''"] sample_job_arg
  obtain c1 :: "ref_db replica_set" and cmd where "cl_log c1 = cl_log sample_cluster @ [cmd]" "nd_db (cl_nodes c1 ''n1'') = sv_db s'"
    by (auto simp: sample_cluster_def)
  moreover have "cl_log sample_cluster = []" by (simp add: sample_cluster_def)
  ultimately show ?thesis using s' by (metis append_Nil)
qed

theorem Restore_merges_witness:
  "\<exists>d'. Restore (ref_env sample_now) (sample_db [sample_child]) (projr (Snapshot (ref_env sample_now) [])) = (None, d') \<and>
     jobs_of (ref_env sample_now) d' ''mail'' = Some sample_child"
proof -
  let ?E = "ref_env sample_now"
  have ok: "jobs_ok ?E (sample_db [sample_child])" "jobs_of ?E (sample_db [sample_child]) ''mail'' = Some sample_child"
    using sample_child_ok by (simp_all add: jobs_ok_sample_db jobs_of_sample_db sample_family_representable)
  have none: "jobs_of ?E [] = Map.empty" by (simp add: fun_eq_iff)
  have "Snapshot ?E [] = Inr (projr (Snapshot ?E []))" by (simp add: Snapshot_def ref_env_def)
  from Restore_merges [OF sample_hyps(1) jobs_ok_Nil ok(1) this] ok(2) show ?thesis by (auto simp: none)
qed

end
