(* ===== verification/Grpc_Client.thy ===== *)
theory Grpc_Client
  imports Grpc
begin

text \<open>
  \<open>src/dkron/grpc_client.go\<close> and \<open>src/dkron/grpc_agent.go\<close>: the calls a node makes to other nodes,
  the stream over which an agent reports a running execution, and both of its ends. A stream is
  the list of messages it delivers and the way it ends; a stream that never ends keeps the client
  waiting, and is not represented. Connections are opened per call and closed on return; logging
  and metrics are left out.
\<close>

section \<open>The client\<close>

text \<open>
  What a client sees of the other nodes: whether it can connect to an address, and the answer of
  each call, which may change the state \<open>'w\<close> of the cluster. An error of a handler arrives as the
  error it returned. \<open>call_AgentRun\<close> opens a stream: the messages it will deliver, and how it ends,
  with \<open>None\<close> for the regular end and an error when it breaks.
\<close>

record 'w remote =
  dial :: "'w \<Rightarrow> string \<Rightarrow> err"
  call_ExecutionDone :: "'w \<Rightarrow> string \<Rightarrow> pb_execution \<Rightarrow> done_payload res \<times> 'w"
  call_GetJob :: "'w \<Rightarrow> string \<Rightarrow> string \<Rightarrow> pb_job res"
  call_SetJob :: "'w \<Rightarrow> string \<Rightarrow> pb_job \<Rightarrow> unit res \<times> 'w"
  call_DeleteJob :: "'w \<Rightarrow> string \<Rightarrow> string \<Rightarrow> pb_job res \<times> 'w"
  call_Leave :: "'w \<Rightarrow> string \<Rightarrow> err \<times> 'w"
  call_RunJob :: "'w \<Rightarrow> string \<Rightarrow> string \<Rightarrow> pb_job res \<times> 'w"
  call_RaftGetConfiguration :: "'w \<Rightarrow> string \<Rightarrow> raft_entry list res"
  call_RaftRemovePeerByID :: "'w \<Rightarrow> string \<Rightarrow> string \<Rightarrow> unit res \<times> 'w"
  call_GetActiveExecutions :: "'w \<Rightarrow> string \<Rightarrow> pb_execution list res"
  call_SetExecution :: "'w \<Rightarrow> string \<Rightarrow> pb_execution \<Rightarrow> unit res \<times> 'w"
  call_AgentRun :: "'w \<Rightarrow> string \<Rightarrow> pb_job \<Rightarrow> pb_execution \<Rightarrow> (pb_execution option list \<times> err) res \<times> 'w"

definition client_ExecutionDone :: "'w remote \<Rightarrow> 'db env \<Rightarrow> 'w \<Rightarrow> string \<Rightarrow> execution \<Rightarrow> err \<times> 'w" where
  "client_ExecutionDone M E w addr x =
     (case dial M w addr of
        Some e \<Rightarrow> (Some e, w)
      | None \<Rightarrow>
          (case call_ExecutionDone M w addr (ex_ToProto E x) of
             (Inl e, w') \<Rightarrow> if e = ErrNotLeader then (None, w') else (Some e, w')
           | (Inr _, w') \<Rightarrow> (None, w')))"

definition client_GetJob :: "'w remote \<Rightarrow> 'db env \<Rightarrow> 'w \<Rightarrow> string \<Rightarrow> string \<Rightarrow> job res" where
  "client_GetJob M E w addr jobName =
     (case dial M w addr of
        Some e \<Rightarrow> Inl e
      | None \<Rightarrow> (case call_GetJob M w addr jobName of Inl e \<Rightarrow> Inl e | Inr pj \<Rightarrow> Inr (NewJobFromProto E pj)))"

definition client_Leave :: "'w remote \<Rightarrow> 'w \<Rightarrow> string \<Rightarrow> err \<times> 'w" where
  "client_Leave M w addr = (case dial M w addr of Some e \<Rightarrow> (Some e, w) | None \<Rightarrow> call_Leave M w addr)"

text \<open>The calls that go to the leader: \<open>leader\<close> is the address Raft gives.\<close>

definition client_SetJob :: "'w remote \<Rightarrow> 'db env \<Rightarrow> 'w \<Rightarrow> string \<Rightarrow> job \<Rightarrow> err \<times> 'w" where
  "client_SetJob M E w leader job =
     (case dial M w leader of
        Some e \<Rightarrow> (Some e, w)
      | None \<Rightarrow>
          (case call_SetJob M w leader (ToProto E job) of
             (Inl e, w') \<Rightarrow> (Some e, w') | (Inr _, w') \<Rightarrow> (None, w')))"

definition client_DeleteJob :: "'w remote \<Rightarrow> 'db env \<Rightarrow> 'w \<Rightarrow> string \<Rightarrow> string \<Rightarrow> job res \<times> 'w" where
  "client_DeleteJob M E w leader jobName =
     (case dial M w leader of
        Some e \<Rightarrow> (Inl e, w)
      | None \<Rightarrow>
          (case call_DeleteJob M w leader jobName of
             (Inl e, w') \<Rightarrow> (Inl e, w') | (Inr pj, w') \<Rightarrow> (Inr (NewJobFromProto E pj), w')))"

definition client_RunJob :: "'w remote \<Rightarrow> 'db env \<Rightarrow> 'w \<Rightarrow> string \<Rightarrow> string \<Rightarrow> job res \<times> 'w" where
  "client_RunJob M E w leader jobName =
     (case dial M w leader of
        Some e \<Rightarrow> (Inl e, w)
      | None \<Rightarrow>
          (case call_RunJob M w leader jobName of
             (Inl e, w') \<Rightarrow> (Inl e, w') | (Inr pj, w') \<Rightarrow> (Inr (NewJobFromProto E pj), w')))"

definition client_RaftGetConfiguration :: "'w remote \<Rightarrow> 'w \<Rightarrow> string \<Rightarrow> raft_entry list res" where
  "client_RaftGetConfiguration M w addr =
     (case dial M w addr of Some e \<Rightarrow> Inl e | None \<Rightarrow> call_RaftGetConfiguration M w addr)"

definition client_RaftRemovePeerByID :: "'w remote \<Rightarrow> 'w \<Rightarrow> string \<Rightarrow> string \<Rightarrow> err \<times> 'w" where
  "client_RaftRemovePeerByID M w addr peerID =
     (case dial M w addr of
        Some e \<Rightarrow> (Some e, w)
      | None \<Rightarrow>
          (case call_RaftRemovePeerByID M w addr peerID of
             (Inl e, w') \<Rightarrow> (Some e, w') | (Inr _, w') \<Rightarrow> (None, w')))"

definition client_GetActiveExecutions :: "'w remote \<Rightarrow> 'w \<Rightarrow> string \<Rightarrow> pb_execution list res" where
  "client_GetActiveExecutions M w addr =
     (case dial M w addr of Some e \<Rightarrow> Inl e | None \<Rightarrow> call_GetActiveExecutions M w addr)"

definition client_SetExecution :: "'w remote \<Rightarrow> 'w \<Rightarrow> string \<Rightarrow> pb_execution \<Rightarrow> err \<times> 'w" where
  "client_SetExecution M w leader x =
     (case dial M w leader of
        Some e \<Rightarrow> (Some e, w)
      | None \<Rightarrow>
          (case call_SetExecution M w leader x of
             (Inl e, w') \<Rightarrow> (Some e, w') | (Inr _, w') \<Rightarrow> (None, w')))"

section \<open>Following an execution\<close>

definition broken_stream :: string where
  "broken_stream = ''grpc: Error on execution streaming, agent connection was abruptly terminated''"

text \<open>The end of the stream: the execution is reported to the leader, marked when the stream broke.\<close>

definition report_execution ::
    "'w remote \<Rightarrow> 'db env \<Rightarrow> string \<Rightarrow> 'w \<Rightarrow> pb_execution \<Rightarrow> err \<Rightarrow> err \<times> 'w" where
  "report_execution M E leader w x ending =
     (case ending of
        None \<Rightarrow> client_ExecutionDone M E w leader (NewExecutionFromProto E x)
      | Some e \<Rightarrow>
          (let x' = x\<lparr>pe_FinishedAt := ts_proto E (now E), pe_Output := broken_stream\<rparr> in
           case client_ExecutionDone M E w leader (NewExecutionFromProto E x') of
             (Some e', w') \<Rightarrow> (Some e', w')
           | (None, w') \<Rightarrow> (Some e, w')))"

text \<open>
  The loop of \<open>AgentRun\<close>: \<open>active\<close> is the map of active executions, \<open>deferred\<close> the keys whose
  deletion is deferred until the function returns.
\<close>

fun recv_loop ::
    "'w remote \<Rightarrow> 'db env \<Rightarrow> string \<Rightarrow> err \<Rightarrow> 'w \<Rightarrow> pb_execution gomap \<Rightarrow> string list \<Rightarrow> bool \<Rightarrow> pb_execution \<Rightarrow>
     pb_execution option list \<Rightarrow> err \<times> 'w \<times> pb_execution gomap \<times> string list" where
  "recv_loop M E leader ending w active deferred first x [] =
     (case report_execution M E leader w x ending of (e, w') \<Rightarrow> (e, w', active, deferred))"
| "recv_loop M E leader ending w active deferred first x (None # ms) =
     (Some (Panic ''nil pointer dereference''), w, active, deferred)"
| "recv_loop M E leader ending w active deferred first x (Some y # ms) =
     (let active' = AList.update (pe_Key E y) y active;
          deferred' = pe_Key E y # deferred
      in if \<not> first then
           (case client_SetExecution M w leader y of
              (Some e, w') \<Rightarrow> (Some e, w', active', deferred')
            | (None, w') \<Rightarrow> recv_loop M E leader ending w' active' deferred' True y ms)
         else recv_loop M E leader ending w active' deferred' first y ms)"

definition client_AgentRun ::
    "'w remote \<Rightarrow> 'db env \<Rightarrow> string \<Rightarrow> 'w \<Rightarrow> pb_execution gomap \<Rightarrow> string \<Rightarrow> pb_job \<Rightarrow> pb_execution \<Rightarrow>
     err \<times> 'w \<times> pb_execution gomap" where
  "client_AgentRun M E leader w active addr job x =
     (case dial M w addr of
        Some e \<Rightarrow> (Some e, w, active)
      | None \<Rightarrow>
          (case call_AgentRun M w addr job x of
             (Inl e, w') \<Rightarrow> (Some e, w', active)
           | (Inr (ms, ending), w') \<Rightarrow>
               (case recv_loop M E leader ending w' active [] False x ms of
                  (e, w'', active', deferred) \<Rightarrow> (e, w'', fold AList.delete deferred active'))))"

section \<open>Running on the agent\<close>

text \<open>
  An executor plugin: the updates it sends while it runs, and its response (the output and the
  error text) and error. \<open>output_of\<close> is what the circular buffer of armon/circbuf holds after a
  list of writes.
\<close>

record exec_result =
  er_updates :: "string list"
  er_out :: "(string \<times> string) option"
  er_err :: err

record agent_host =
  h_NodeName :: string
  h_executors :: "string \<Rightarrow> (string \<Rightarrow> string gomap \<Rightarrow> exec_result) option"
  h_output_of :: "nat \<Rightarrow> string list \<Rightarrow> string"
  h_error_text :: "error \<Rightarrow> string"

definition maxBufSize :: nat where "maxBufSize = 256000"

text \<open>\<open>statusAgentHelper.Update\<close> sends the execution with a partial output.\<close>

definition helper_update :: "pb_execution \<Rightarrow> string \<Rightarrow> pb_execution" where
  "helper_update x b = x\<lparr>pe_Output := b\<rparr>"

text \<open>The outcome of the executor: success, and the writes to the output buffer.\<close>

definition execute_result :: "agent_host \<Rightarrow> exec_result \<Rightarrow> (bool \<times> string list) res" where
  "execute_result H r =
     (case (er_err r, er_out r) of
        (None, None) \<Rightarrow> Inl (Panic ''nil pointer dereference'')
      | (err, out) \<Rightarrow>
          (let failure = (case (err, out) of
                            (Some e, _) \<Rightarrow> Some (h_error_text H e)
                          | (None, Some (_, msg)) \<Rightarrow> if msg \<noteq> [] then Some msg else None
                          | (None, None) \<Rightarrow> None);
               writes = (case failure of None \<Rightarrow> [] | Some msg \<Rightarrow> [msg @ [CHR 0x0A]]) @
                        (case out of None \<Rightarrow> [] | Some (o1, _) \<Rightarrow> [o1])
           in Inr (failure = None, writes)))"

text \<open>
  \<open>AgentServer.AgentRun\<close> at the times \<open>t0\<close> and \<open>t1\<close>: its error, the messages it sent, and the running
  executions by group. \<open>send\<close> is the result of sending a message, \<open>fallback\<close> that of reporting the
  execution to another server.
\<close>

definition server_AgentRun ::
    "agent_host \<Rightarrow> 'db env \<Rightarrow> time \<Rightarrow> time \<Rightarrow> (pb_execution \<Rightarrow> err) \<Rightarrow> (pb_execution \<Rightarrow> err) \<Rightarrow>
     (int \<times> pb_execution) list \<Rightarrow> pb_job \<Rightarrow> pb_execution \<Rightarrow> err \<times> pb_execution list \<times> (int \<times> pb_execution) list" where
  "server_AgentRun H E t0 t1 send fallback running job x =
     (if pj_Executor job = [] then (Some (Errorf ''grpc_agent: No executor defined, nothing to do''), [], running)
      else
        (let x0 = x\<lparr>pe_StartedAt := ts_proto E t0, pe_NodeName := h_NodeName H\<rparr> in
         case send x0 of
           Some e \<Rightarrow> (Some e, [x0], running)
         | None \<Rightarrow>
             (let run = (case h_executors H (pj_Executor job) of
                           None \<Rightarrow> Inr (False, [''grpc_agent: Specified executor is not present''], [])
                         | Some execute \<Rightarrow>
                             (let r = execute (pj_Name job) (pj_ExecutorConfig job) in
                              case execute_result H r of
                                Inl e \<Rightarrow> Inl e
                              | Inr (ok, writes) \<Rightarrow> Inr (ok, writes, er_updates r)))
              in case run of
                   Inl e \<Rightarrow> (Some e, [x0], (pe_Group x0, x0) # running)
                 | Inr (ok, writes, updates) \<Rightarrow>
                     (let sent = x0 # map (helper_update x0) updates;
                          x1 = x0\<lparr>pe_FinishedAt := ts_proto E t1, pe_Success := ok,
                                  pe_Output := h_output_of H maxBufSize writes\<rparr>;
                          running' = AList.delete (pe_Group x1) running
                      in case send x1 of
                           Some e \<Rightarrow> (fallback x1, sent @ [x1], running')
                         | None \<Rightarrow> (None, sent @ [x1], running')))))"

text \<open>
  The fallback when the final message cannot be sent: the execution is reported to a server that
  accepts a connection. \<open>probe\<close> is the outcome of a plain connection.
\<close>

definition agent_fallback ::
    "(string \<Rightarrow> err) \<Rightarrow> net_lib \<Rightarrow> string \<Rightarrow> member list \<Rightarrow> 'w remote \<Rightarrow> 'db env \<Rightarrow> 'w \<Rightarrow> pb_execution \<Rightarrow> err \<times> 'w" where
  "agent_fallback probe N region members M E w x =
     (case checkAndSelectServer probe N region members of
        Inl e \<Rightarrow> (Some e, w)
      | Inr rpcServer \<Rightarrow> client_ExecutionDone M E w rpcServer (NewExecutionFromProto E x))"

section \<open>The correctness of an execution's report\<close>

lemma map_of_delete_all: "map_of (fold AList.delete ks m) k = (if k \<in> set ks then None else map_of m k)"
  by (induction ks arbitrary: m) (auto simp: delete_conv')

lemma recv_loop_active:
  assumes "recv_loop M E leader ending w active deferred first x ms = (e, w', active', deferred')"
  shows "set deferred \<subseteq> set deferred' \<and>
    (\<forall>k. k \<notin> set deferred' \<longrightarrow> map_of active' k = map_of active k) \<and>
    (\<forall>k \<in> set deferred' - set deferred. \<exists>y. Some y \<in> set ms \<and> k = pe_Key E y)"
  using assms
proof (induction ms arbitrary: w active deferred first x)
  case Nil
  then show ?case by (auto split: prod.splits)
next
  case (Cons m ms)
  show ?case
  proof (cases m)
    case None
    then show ?thesis using Cons.prems by simp
  next
    case (Some y)
    show ?thesis
    proof (cases "\<not> first \<and> fst (client_SetExecution M w leader y) \<noteq> None")
      case True
      then show ?thesis using Cons.prems Some
        by (cases "client_SetExecution M w leader y") (fastforce simp: Let_def update_conv' split: if_splits)
    next
      case False
      then obtain w1 b where "recv_loop M E leader ending w1 (AList.update (pe_Key E y) y active)
          (pe_Key E y # deferred) b y ms = (e, w', active', deferred')"
        using Cons.prems Some by (cases "client_SetExecution M w leader y") (auto simp: Let_def split: if_splits)
      from Cons.IH [OF this] Some show ?thesis by (auto simp: update_conv')
    qed
  qed
qed

lemma recv_loop_report:
  assumes "first \<or> xs = [] \<or> client_SetExecution M w leader (hd xs) = (None, w1)" "first \<or> xs = [] \<longrightarrow> w1 = w"
  shows "\<exists>active' deferred'. recv_loop M E leader ending w active deferred first x (map Some xs) =
    (fst (report_execution M E leader w1 (last (x # xs)) ending),
     snd (report_execution M E leader w1 (last (x # xs)) ending), active', deferred')"
  using assms
proof (induction xs arbitrary: w active deferred first x)
  case Nil
  then show ?case by (simp split: prod.splits)
next
  case (Cons y ys)
  show ?case
  proof (cases first)
    case True
    then show ?thesis using Cons.IH [of True w] Cons.prems by simp
  next
    case False
    then have "client_SetExecution M w leader y = (None, w1)" using Cons.prems by simp
    then show ?thesis using False Cons.IH [of True w1] by simp
  qed
qed


text \<open>
  What is written of a run: the error of the executor or the error text of its response on a line,
  and then its output.
\<close>

definition result_text :: "agent_host \<Rightarrow> exec_result \<Rightarrow> string" where
  "result_text H r =
     (case (er_err r, er_out r) of
        (Some e, _) \<Rightarrow> h_error_text H e @ [CHR 0x0A]
      | (None, Some (_, msg)) \<Rightarrow> if msg = [] then [] else msg @ [CHR 0x0A]
      | (None, None) \<Rightarrow> []) @
     (case er_out r of None \<Rightarrow> [] | Some (out, _) \<Rightarrow> out)"

definition run_text :: "agent_host \<Rightarrow> pb_job \<Rightarrow> string" where
  "run_text H job =
     (case h_executors H (pj_Executor job) of
        None \<Rightarrow> ''grpc_agent: Specified executor is not present''
      | Some execute \<Rightarrow> result_text H (execute (pj_Name job) (pj_ExecutorConfig job)))"

text \<open>The messages of a run in which every message gets through.\<close>

lemma execute_result_ok:
  assumes "execute_result H r = Inr (ok, writes)"
  shows "ok \<longleftrightarrow> er_err r = None \<and> (\<exists>out. er_out r = Some (out, []))" and "concat writes = result_text H r"
  using assms by (auto simp: execute_result_def result_text_def Let_def split: option.splits if_splits prod.splits)

lemma server_AgentRun_sent:
  assumes "server_AgentRun H E t0 t1 (\<lambda>_. None) fallback running job x = (None, sent, running')"
  shows "\<exists>ok writes us.
    (let x0 = x\<lparr>pe_StartedAt := ts_proto E t0, pe_NodeName := h_NodeName H\<rparr>
     in sent = x0 # map (helper_update x0) us @
       [x0\<lparr>pe_FinishedAt := ts_proto E t1, pe_Success := ok, pe_Output := h_output_of H maxBufSize writes\<rparr>]) \<and>
    running' = AList.delete (pe_Group x) running \<and> concat writes = run_text H job \<and>
    (ok \<longleftrightarrow> (\<exists>execute out. h_executors H (pj_Executor job) = Some execute \<and>
       er_err (execute (pj_Name job) (pj_ExecutorConfig job)) = None \<and>
       er_out (execute (pj_Name job) (pj_ExecutorConfig job)) = Some (out, [])))"
proof (cases "h_executors H (pj_Executor job)")
  case None
  then show ?thesis using assms
    by (intro exI [of _ False] exI [of _ "[''grpc_agent: Specified executor is not present'']"] exI [of _ "[]"])
      (auto simp: server_AgentRun_def run_text_def Let_def split: if_splits)
next
  case (Some execute)
  let ?r = "execute (pj_Name job) (pj_ExecutorConfig job)"
  obtain ok writes where r: "execute_result H ?r = Inr (ok, writes)"
    using assms Some by (auto simp: server_AgentRun_def Let_def split: if_splits sum.splits)
  show ?thesis
    using assms Some r execute_result_ok [OF r]
    by (intro exI [of _ ok] exI [of _ writes] exI [of _ "er_updates ?r"])
      (auto simp: server_AgentRun_def run_text_def Let_def split: if_splits)
qed

text \<open>
  The law of the circular buffer: a buffer of a positive size holds the last bytes that were
  written, as many as fit.
\<close>

locale circular_buffer =
  fixes output_of :: "nat \<Rightarrow> string list \<Rightarrow> string"
  assumes output_last: "0 < n \<Longrightarrow> output_of n ws = drop (length (concat ws) - n) (concat ws)"

definition ref_output :: "nat \<Rightarrow> string list \<Rightarrow> string" where
  "ref_output n ws = drop (length (concat ws) - n) (concat ws)"

interpretation refo: circular_buffer ref_output
  by unfold_locales (simp_all add: ref_output_def)

text \<open>
  The client follows a stream without leaving traces: whatever happened on the stream, when
  \<open>AgentRun\<close> returns, the executions it registered as active are no longer registered, and the
  other active executions are as before.
\<close>

theorem AgentRun_cleans_up:
  assumes "client_AgentRun M E leader w active addr job x = (e, w', active')"
  shows "\<exists>K. map_of active' = (\<lambda>k. if k \<in> K then None else map_of active k) \<and>
    (K = {} \<or> (\<exists>ms ending w1. call_AgentRun M w addr job x = (Inr (ms, ending), w1) \<and>
       (\<forall>k \<in> K. \<exists>y. Some y \<in> set ms \<and> k = pe_Key E y)))"
proof (cases "\<exists>ms ending w1. dial M w addr = None \<and> call_AgentRun M w addr job x = (Inr (ms, ending), w1)")
  case False
  then have "active' = active"
    using assms by (auto simp: client_AgentRun_def split: option.splits prod.splits sum.splits)
  then show ?thesis by (intro exI [of _ "{}"]) auto
next
  case True
  then obtain ms ending w1 where call: "dial M w addr = None" "call_AgentRun M w addr job x = (Inr (ms, ending), w1)"
    by blast
  obtain e' w'' a' ds where loop: "recv_loop M E leader ending w1 active [] False x ms = (e', w'', a', ds)"
    by (metis prod_cases4)
  have a: "active' = fold AList.delete ds a'"
    using assms call loop by (simp add: client_AgentRun_def)
  show ?thesis
    using recv_loop_active [OF loop] call(2)
    by (intro exI [of _ "set ds"]) (auto simp: a map_of_delete_all fun_eq_iff)
qed

lemma AgentRun_follows:
  assumes "dial M w addr = None" "call_AgentRun M w addr job x = (Inr (map Some sent, None), w1)" "sent \<noteq> []"
    "client_SetExecution M w1 leader (hd sent) = (None, w2)"
  shows "\<exists>active'. client_AgentRun M E leader w active addr job x =
      (fst (client_ExecutionDone M E w2 leader (NewExecutionFromProto E (last sent))),
       snd (client_ExecutionDone M E w2 leader (NewExecutionFromProto E (last sent))), active')"
proof -
  have "last (x # sent) = last sent" using assms(3) by simp
  then obtain a' ds where "recv_loop M E leader None w1 active [] False x (map Some sent) =
      (fst (report_execution M E leader w2 (last sent) None), snd (report_execution M E leader w2 (last sent) None), a', ds)"
    using recv_loop_report [of False sent M w1 leader w2 E None active "[]" x] assms(3,4) by auto
  then show ?thesis using assms(1,2) by (simp add: client_AgentRun_def report_execution_def)
qed

text \<open>
  C18: An execution is reported with its outcome. An agent whose messages all get through runs the
  executor of the job and ends its stream with a message that says where and when the execution
  ran, that it succeeded exactly when the executor is present and reports no error, and its output:
  the error, if there is one, and what the executor printed, of which the last 256000 bytes are
  kept. The client that follows this stream first has the
  leader store the initial state, and then reports exactly that last message as the finished
  execution; its result is the result of the report.
\<close>

theorem execution_reported:
  assumes "circular_buffer (h_output_of H)"
    "server_AgentRun H E t0 t1 (\<lambda>_. None) fallback running job x = (None, sent, running')"
    "dial M w addr = None" "call_AgentRun M w addr job x = (Inr (map Some sent, None), w1)"
    "client_SetExecution M w1 leader (hd sent) = (None, w2)"
  shows "\<exists>final active'. final = last sent \<and>
    client_AgentRun M E leader w active addr job x =
      (fst (client_ExecutionDone M E w2 leader (NewExecutionFromProto E final)),
       snd (client_ExecutionDone M E w2 leader (NewExecutionFromProto E final)), active') \<and>
    hd sent = x\<lparr>pe_StartedAt := ts_proto E t0, pe_NodeName := h_NodeName H\<rparr> \<and>
    pe_JobName final = pe_JobName x \<and> pe_Group final = pe_Group x \<and> pe_Attempt final = pe_Attempt x \<and>
    pe_NodeName final = h_NodeName H \<and> pe_StartedAt final = ts_proto E t0 \<and> pe_FinishedAt final = ts_proto E t1 \<and>
    (pe_Success final \<longleftrightarrow> (\<exists>execute out. h_executors H (pj_Executor job) = Some execute \<and>
       er_err (execute (pj_Name job) (pj_ExecutorConfig job)) = None \<and>
       er_out (execute (pj_Name job) (pj_ExecutorConfig job)) = Some (out, []))) \<and>
    pe_Output final = drop (length (run_text H job) - maxBufSize) (run_text H job) \<and> map_of running' (pe_Group x) = None"
proof -
  let ?x0 = "x\<lparr>pe_StartedAt := ts_proto E t0, pe_NodeName := h_NodeName H\<rparr>"
  obtain ok writes us where
    sent: "sent = ?x0 # map (helper_update ?x0) us @
       [?x0\<lparr>pe_FinishedAt := ts_proto E t1, pe_Success := ok, pe_Output := h_output_of H maxBufSize writes\<rparr>]"
    and running: "running' = AList.delete (pe_Group x) running" and wr: "concat writes = run_text H job"
    and ok: "ok \<longleftrightarrow> (\<exists>execute out. h_executors H (pj_Executor job) = Some execute \<and>
       er_err (execute (pj_Name job) (pj_ExecutorConfig job)) = None \<and>
       er_out (execute (pj_Name job) (pj_ExecutorConfig job)) = Some (out, []))"
    using server_AgentRun_sent [OF assms(2), unfolded Let_def] by blast
  define final where "final = ?x0\<lparr>pe_FinishedAt := ts_proto E t1, pe_Success := ok, pe_Output := h_output_of H maxBufSize writes\<rparr>"
  have last: "last sent = final" "sent \<noteq> []" by (simp_all add: sent final_def)
  obtain active' where run: "client_AgentRun M E leader w active addr job x =
      (fst (client_ExecutionDone M E w2 leader (NewExecutionFromProto E final)),
       snd (client_ExecutionDone M E w2 leader (NewExecutionFromProto E final)), active')"
    using AgentRun_follows [OF assms(3,4) last(2) assms(5)] last(1) by metis
  have out: "pe_Output final = drop (length (run_text H job) - maxBufSize) (run_text H job)"
    using circular_buffer.output_last [OF assms(1), of maxBufSize writes] by (simp add: final_def wr maxBufSize_def)
  show ?thesis
    by (intro exI [of _ final] exI [of _ active'])
      (simp add: last run out running delete_conv' sent, simp add: final_def ok)
qed


section \<open>A concrete run\<close>

text \<open>An agent with one executor, and a cluster whose state is the list of executions it was told of.\<close>

definition sample_host :: agent_host where
  "sample_host = \<lparr>h_NodeName = ''n2'',
     h_executors = (\<lambda>n. if n = ''shell''
       then Some (\<lambda>_ _. \<lparr>er_updates = [''da''], er_out = Some (''date'', []), er_err = None\<rparr>) else None),
     h_output_of = ref_output, h_error_text = (\<lambda>_. ''error'')\<rparr>"

definition sample_stream :: "pb_job \<Rightarrow> pb_execution \<Rightarrow> err \<times> pb_execution list \<times> (int \<times> pb_execution) list" where
  "sample_stream job x =
     server_AgentRun sample_host (ref_env sample_now) sample_now sample_now (\<lambda>_. None) (\<lambda>_. None) [] job x"

definition ref_remote :: "pb_execution list remote" where
  "ref_remote = \<lparr>dial = (\<lambda>w addr. None),
     call_ExecutionDone = (\<lambda>w addr x. (Inr Saved, x # w)), call_GetJob = (\<lambda>w addr n. Inl ErrNotFound),
     call_SetJob = (\<lambda>w addr j. (Inr (), w)), call_DeleteJob = (\<lambda>w addr n. (Inl ErrNotFound, w)),
     call_Leave = (\<lambda>w addr. (None, w)), call_RunJob = (\<lambda>w addr n. (Inl ErrNotFound, w)),
     call_RaftGetConfiguration = (\<lambda>w addr. Inr []), call_RaftRemovePeerByID = (\<lambda>w addr i. (Inr (), w)),
     call_GetActiveExecutions = (\<lambda>w addr. Inr []), call_SetExecution = (\<lambda>w addr x. (Inr (), x # w)),
     call_AgentRun = (\<lambda>w addr j x. (Inr (map Some (fst (snd (sample_stream j x))), fst (sample_stream j x)), w))\<rparr>"

definition sample_run_job :: pb_job where
  "sample_run_job = pb_job_zero\<lparr>pj_Name := ''mail'', pj_Executor := ''shell''\<rparr>"

definition sample_run_exec :: pb_execution where
  "sample_run_exec = pb_execution_zero\<lparr>pe_JobName := ''mail'', pe_Group := 7, pe_Attempt := 1\<rparr>"

lemma sample_stream_run:
  "\<exists>sent running'. sample_stream sample_run_job sample_run_exec = (None, sent, running') \<and> sent \<noteq> []"
  by (simp add: sample_stream_def server_AgentRun_def sample_run_job_def sample_host_def execute_result_def Let_def)

theorem AgentRun_cleans_up_witness:
  "\<exists>e w' active'. client_AgentRun ref_remote (ref_env sample_now) ''leader'' [] [(''k'', sample_run_exec)] ''n2''
     sample_run_job sample_run_exec = (e, w', active') \<and>
   (\<exists>K. map_of active' = (\<lambda>k. if k \<in> K then None else map_of [(''k'', sample_run_exec)] k))"
proof -
  obtain e w' active' where run: "client_AgentRun ref_remote (ref_env sample_now) ''leader'' [] [(''k'', sample_run_exec)] ''n2''
     sample_run_job sample_run_exec = (e, w', active')"
    by (metis prod_cases3)
  from AgentRun_cleans_up [OF this] run show ?thesis by blast
qed

theorem execution_reported_witness:
  "\<exists>w' active'. client_AgentRun ref_remote (ref_env sample_now) ''leader'' [] [] ''n2'' sample_run_job sample_run_exec =
     (None, w', active') \<and> (\<exists>sent running'. sample_stream sample_run_job sample_run_exec = (None, sent, running') \<and>
     pe_Success (last sent) \<and> pe_NodeName (last sent) = ''n2'' \<and> pe_Output (last sent) = ''date'')"
proof -
  let ?E = "ref_env sample_now"
  obtain sent running' where sent: "sample_stream sample_run_job sample_run_exec = (None, sent, running')"
    using sample_stream_run by blast
  have buf: "circular_buffer (h_output_of sample_host)"
    using refo.circular_buffer_axioms by (simp add: sample_host_def)
  have call: "dial ref_remote [] ''n2'' = None"
    "call_AgentRun ref_remote [] ''n2'' sample_run_job sample_run_exec = (Inr (map Some sent, None), [])"
    "client_SetExecution ref_remote [] ''leader'' (hd sent) = (None, [hd sent])"
    using sent by (simp_all add: ref_remote_def client_SetExecution_def)
  have fin: "fst (client_ExecutionDone ref_remote ?E w ''leader'' y) = None" for w y
    by (simp add: client_ExecutionDone_def ref_remote_def)
  have "h_executors sample_host (pj_Executor sample_run_job) =
      Some (\<lambda>_ _. \<lparr>er_updates = [''da''], er_out = Some (''date'', []), er_err = None\<rparr>)" "h_NodeName sample_host = ''n2''"
    by (simp_all add: sample_host_def sample_run_job_def)
  moreover have "run_text sample_host sample_run_job = ''date''"
    using calculation by (simp add: run_text_def result_text_def)
  ultimately show ?thesis
    using execution_reported [OF buf sent [unfolded sample_stream_def] call, of "[]"] sent
    by (auto simp: fin maxBufSize_def)
qed

end
