(* ===== verification/Lifecycle.thy ===== *)
theory Lifecycle
  imports Cluster Grpc_Client
begin

text \<open>
  The run of a job from the call of the agent to the record in the leader's store: the client of
  \<open>grpc_client.go\<close>, the agent of \<open>grpc_agent.go\<close> and the handlers of \<open>grpc.go\<close> put together.
  What \<open>ExecutionDone\<close> does on the leader is shown on the way: what it records, whether the job is run again,
  and which dependent jobs are run.
\<close>

section \<open>The leader and the agents\<close>

definition run_remote ::
    "('db, 'c, 'r) world \<Rightarrow> (string \<Rightarrow> agent_host) \<Rightarrow> time \<Rightarrow> time \<Rightarrow> ('db, 'c, 'r) server remote \<Rightarrow> ('db, 'c, 'r) server remote" where
  "run_remote W hosts t0 t1 M = M\<lparr>dial := (\<lambda>_ _. None),
     call_SetExecution := (\<lambda>s _ px. grpc_SetExecution W s px),
     call_ExecutionDone := (\<lambda>s _ px. case grpc_ExecutionDone W s (Some px) of (r, s', acts) \<Rightarrow> (r, s')),
     call_AgentRun := (\<lambda>s addr job x.
       case server_AgentRun (hosts addr) (w_env W) t0 t1 (\<lambda>_. None) (\<lambda>_. None) [] job x of
         (e, sent, running) \<Rightarrow> (Inr (map Some sent, e), s))\<rparr>"

section \<open>What the handlers do to the leader's store\<close>

lemma apply_SetExecution:
  assumes E: "lawful_env E" and p: "pb_execution_utf8 p" "exec_ok E (NewExecutionFromProto E p)" and inv: "store_inv E d"
  obtains cmd r d1 where "Encode E SetExecutionType (MExecution p) = Inr cmd" "fsm_apply E d cmd = (Inr r, d1)"
    "store_inv E d1" "jobs_of E d1 = jobs_of E d"
    "exec_at E d1 (exec_key (NewExecutionFromProto E p)) \<in>
       {None, Some (newest (exec_at E d (exec_key (NewExecutionFromProto E p))) (NewExecutionFromProto E p))}"
proof -
  let ?x = "NewExecutionFromProto E p"
  obtain b where "marshal_exec E p = Inr b"
    using pb_codec.exec_marshal [OF lawful_env.axioms(2) [OF E] p(1)] by blast
  then have cmd: "Encode E SetExecutionType (MExecution p) = Inr (char_of SetExecutionType # b)" (is "_ = Inr ?cmd")
    by (simp add: Encode_def)
  obtain c where c: "Apply (\<lambda>_. None) E (store_ops E) d ?cmd 1 = applySetExecution E (store_ops E) d c" "unmarshal_exec E c = Inr p"
    using lawful_env.Apply_Encode_eqs(3) [OF E cmd] by blast
  have ok: "execs_ok E d" using inv by (simp add: store_inv_def)
  obtain d1 where d1: "SetExecution E d ?x = (Inr (exec_key ?x), d1)" "execs_ok E d1"
    "set (executions E d1 (ex_JobName ?x)) \<subseteq> recorded E d ?x"
    "\<And>k. \<not> HasPrefix k (exec_prefix (ex_JobName ?x)) \<Longrightarrow> kv E d1 k = kv E d k"
    using lawful_env.SetExecution_ok [OF E ok p(2)] by metis
  have ap: "fsm_apply E d ?cmd = (Inr (RKey (exec_key ?x)), d1)"
    using c d1(1) appliers_store(3) [OF c(2), of d] by (simp add: fsm_apply_def)
  have jk: "kv E d1 (job_key n) = kv E d (job_key n)" for n
    by (rule d1(4)) (simp add: job_key_def exec_prefix_def jobsPrefix_def executionsPrefix_def)
  have colon: "CHR '':'' \<notin> set (ex_JobName ?x)" using p(2) by (simp add: exec_ok_def)
  have at: "exec_at E d1 (exec_key ?x) \<in> {None, Some (newest (exec_at E d (exec_key ?x)) ?x)}"
  proof (cases "exec_at E d1 (exec_key ?x)")
    case (Some y)
    have y: "exec_key ?x = exec_key y" "exec_ok E y"
      using lawful_env.exec_at_SomeD [OF E d1(2) Some exec_key_prefix] by simp_all
    then have "HasPrefix (exec_key y) (exec_prefix (ex_JobName ?x))"
      by (metis HasPrefix_append append.assoc exec_key_def exec_prefix_def)
    then have "ex_JobName y = ex_JobName ?x" using exec_key_exec_prefix [OF _ colon, of y] y(2) by (simp add: exec_ok_def)
    then have "y \<in> set (executions E d1 (ex_JobName ?x))"
      using lawful_env.executions_set [OF E d1(2) colon, of y] Some y(1) by simp
    then have "y = newest (exec_at E d (exec_key ?x)) ?x" using d1(3) y(1) by (auto simp: recorded_def)
    with Some show ?thesis by simp
  qed simp
  show ?thesis
    using lawful_env.jobs_kv_cong [OF E jk] d1(2) inv at
    by (intro that [OF cmd ap]) (simp_all add: store_inv_def)
qed

lemma apply_ExecutionDone:
  assumes E: "lawful_env E" and x: "exec_ok E x" and inv: "store_inv E d" and j: "jobs_of E d (ex_JobName x) = Some j"
  obtains cmd r d1 where "Encode E ExecutionDoneType (MDone \<lparr>edr_Execution = Some (ex_ToProto E x)\<rparr>) = Inr cmd"
    "fsm_apply E d cmd = (Inr r, d1)" "store_inv E d1"
    "jobs_of E d1 = (jobs_of E d)(ex_JobName x \<mapsto> done_job j x (group_status (recorded E d x) (ex_Group x)))"
    "set (executions E d1 (ex_JobName x)) = recorded E d x"
proof -
  have "pb_execution_utf8 (ex_ToProto E x)" using x by (simp add: exec_ok_def)
  then obtain b where "marshal_edr E \<lparr>edr_Execution = Some (ex_ToProto E x)\<rparr> = Inr b"
    using pb_codec.edr_marshal [OF lawful_env.axioms(2) [OF E], of "\<lparr>edr_Execution = Some (ex_ToProto E x)\<rparr>"] by auto
  then have cmd: "Encode E ExecutionDoneType (MDone \<lparr>edr_Execution = Some (ex_ToProto E x)\<rparr>) = Inr (char_of ExecutionDoneType # b)"
    (is "_ = Inr ?cmd") by (simp add: Encode_def)
  have ok: "jobs_ok E d" "execs_ok E d" using inv by (simp_all add: store_inv_def)
  obtain d1 where d1: "SetExecutionDone E d x = (True, None, d1)" "jobs_ok E d1" "execs_ok E d1"
    "jobs_of E d1 = (jobs_of E d)(ex_JobName x \<mapsto> done_job j x (group_status (recorded E d x) (ex_Group x)))"
    "set (executions E d1 (ex_JobName x)) = recorded E d x"
    using lawful_env.SetExecutionDone_ok [OF E ok x j] by metis
  have "Apply (\<lambda>_. None) E (store_ops E) d ?cmd 1 = (RNil, d1)"
    using Apply_clock(4) [OF E cmd x, of "\<lambda>_. None" "now E" d 1] d1(1) by simp
  then have "fsm_apply E d ?cmd = (Inr RNil, d1)" by (simp add: fsm_apply_def)
  from that [OF cmd this _ d1(4,5)] d1(2,3) show ?thesis by (simp add: store_inv_def)
qed

lemma family_done:
  assumes "family J" "J n = Some j"
  shows "family (J(n \<mapsto> done_job j x s))"
  using assms unfolding family_def by (auto split: if_splits)

lemma finish_success:
  assumes E: "lawful_env (w_env W)" and inv: "jobs_ok (w_env W) (sv_db s)" "family (jobs_of (w_env W) (sv_db s))"
    and job: "jobs_of (w_env W) (sv_db s) n = Some job" and x: "ex_Success x"
    and exg: "GetExecutionGroup (w_env W) (sv_db s) x = Inr exg" and notify: "w_notify W x exg job = None"
  shows "\<exists>acts. finish_execution W s x job = (Inr Saved, s, acts)"
proof -
  have "n \<noteq> []" using lawful_env.jobs_of_SomeD [OF E inv(1) job] by (auto simp: job_ok_def Validate_def)
  then have "\<forall>c \<in> set (DependentJobs job). \<exists>C. jobs_of (w_env W) (sv_db s) c = Some C \<and> ParentJob C \<noteq> []"
    using inv(2) job by (fastforce simp: family_def)
  then have "run_dependents W s (DependentJobs job) = (None, s, map (dependent_calls W s) (DependentJobs job))"
    using run_dependents_append [OF E inv(1), of "DependentJobs job" "[]"] by simp
  then show ?thesis using x exg notify by (auto simp: finish_execution_def to_retry_def)
qed

section \<open>What a run changes in the store\<close>

text \<open>
  A valid job that the leader puts through its log: the answer is that of the store, because the errors the
  store has for such a job are the ones that \<open>applySetJob\<close> passes on.
\<close>

lemma applySetJob_valid:
  assumes E: "lawful_env E" and inv: "store_inv E d" and j: "job_ok E j" "next_ok E j"
  obtains r d' where "spec_SetJob E (jobs_of E d) j False = (r, jobs_of E d')"
    "agent_applySetJob (fsm_apply E) E d (ToProto E j) = (r, d')" "store_inv E d'" "same_rest E d d'"
    "r = None \<or> r = Some ErrParentJobNotFound"
proof -
  have val: "Validate E j = None" and rep: "representable E j" "pb_job_utf8 (ToProto E j)" using j(1) by (simp_all add: job_ok_def)
  have ok: "jobs_ok E d" using inv by (simp add: store_inv_def)
  obtain r d' where d': "SetJob E d j False = (r, d')" "r = fst (spec_SetJob E (jobs_of E d) j False)"
    "jobs_of E d' = snd (spec_SetJob E (jobs_of E d) j False)" "same_rest E d d'"
    using lawful_env.SetJob_n_refines [OF E ok rep j(2), of 0 False] by (auto simp: SetJob_def numeral_2_eq_2)
  have r: "r = None \<or> r = Some ErrParentJobNotFound"
    using stored_job_valid [OF val] spec_SetJob_valid_errors [OF val] d'(2) by metis
  have "store_inv E d'"
    using store_inv_SetJob [OF E inv, of "now E" j False] rep j(2) d'(1) by (simp add: job_arg_def)
  moreover obtain b where "marshal_job E (ToProto E j) = Inr b"
    using pb_codec.job_marshal [OF lawful_env.axioms(2) [OF E] rep(2)] by blast
  then obtain cmd where cmd: "Encode E SetJobType (MJob (ToProto E j)) = Inr cmd" by (simp add: Encode_def)
  have "fsm_apply E d cmd = (Inr (case r of None \<Rightarrow> RNil | Some e \<Rightarrow> RError e), d')"
    using Apply_clock(1) [OF E cmd rep(1), of "\<lambda>_. None" "now E" d 1] d'(1) by (simp add: fsm_apply_def split: option.splits)
  then have "agent_applySetJob (fsm_apply E) E d (ToProto E j) = (r, d')" using r cmd by (auto simp: agent_applySetJob_def)
  ultimately show ?thesis using that d'(2-4) r by (metis prod.collapse)
qed

lemma job_ok_Next:
  assumes "lawful_env E" "job_ok E j" "time_ok t"
  shows "job_ok E (j\<lparr>Next := t\<rparr>)"
proof -
  have "ts_of E (ts_proto E t) = t" using pb_codec.ts_roundtrip [OF lawful_env.axioms(2) [OF assms(1)] assms(3)] by auto
  moreover have "Validate E (j\<lparr>Next := t\<rparr>) = Validate E j" by (rule Validate_cong) simp_all
  ultimately show ?thesis using assms(2) by (simp add: job_ok_def representable_iff pb_job_utf8_ToProto)
qed

lemma spec_SetJob_Next:
  assumes "J n = Some job" "Name job = n" "ParentJob job = []" "Validate E job = None"
  shows "\<exists>u'. spec_SetJob E J (job\<lparr>Next := u\<rparr>) False = (None, J(n \<mapsto> job\<lparr>Next := u'\<rparr>))"
proof -
  have "Validate E (job\<lparr>Next := u\<rparr>) = None" using assms(4) Validate_cong [of "job\<lparr>Next := u\<rparr>" job E] by simp
  moreover have "keep_stored job (job\<lparr>Next := u\<rparr>) False = job\<lparr>Next := u\<rparr>" by (simp add: keep_stored_def Let_def)
  moreover obtain j' where j': "next_run E job (job\<lparr>Next := u\<rparr>) = Inr j'" by (simp add: next_run_def)
  ultimately show ?thesis using assms next_run_InrD(1) [OF j']
    by (intro exI [of _ "Next j'"]) (simp add: spec_SetJob_def stored_job_def found_job_def)
qed

text \<open>A store whose jobs all have next runs with a timestamp, and a change of next runs alone.\<close>

definition runs_ok :: "'db env \<Rightarrow> 'db \<Rightarrow> bool" where
  "runs_ok E d \<longleftrightarrow> store_inv E d \<and> (\<forall>n j. jobs_of E d n = Some j \<longrightarrow> next_ok E j)"

definition only_next :: "'db env \<Rightarrow> 'db \<Rightarrow> 'db \<Rightarrow> bool" where
  "only_next E d d' \<longleftrightarrow> (runs_ok E d \<longrightarrow>
     runs_ok E d' \<and> but_next (jobs_of E d') = but_next (jobs_of E d) \<and> same_rest E d d')"

lemma only_next_refl [simp]: "only_next E d d"
  by (simp add: only_next_def)

lemma only_next_trans: "only_next E d d' \<Longrightarrow> only_next E d' d'' \<Longrightarrow> only_next E d d''"
  using same_rest_trans by (fastforce simp: only_next_def)

lemma next_ok_Schedule: "Schedule i = Schedule j \<Longrightarrow> next_ok E i = next_ok E j"
  using GetNext_cong [of i j E] by (simp add: next_ok_def)

lemma store_next_only:
  assumes E: "lawful_env E" and t: "\<And>c i. time_ok (cron_Next L c i)" and d: "jobs_of E d n = Some job" "ParentJob job = []"
    and run: "store_next L E (fsm_apply E) sc d n job = (r, d')"
  shows "only_next E d d'"
proof (cases "runs_ok E d \<and> (\<exists>u e. time_ok u \<and> agent_applySetJob (fsm_apply E) E d (ToProto E (job\<lparr>Next := u\<rparr>)) = (e, d'))")
  case False
  then have "runs_ok E d \<longrightarrow> d' = d"
    using run t by (auto simp: store_next_def Let_def split: option.splits sum.splits prod.splits)
  then show ?thesis by (auto simp: only_next_def)
next
  case True
  then obtain u e where u: "time_ok u" "agent_applySetJob (fsm_apply E) E d (ToProto E (job\<lparr>Next := u\<rparr>)) = (e, d')" by blast
  have inv: "store_inv E d" "jobs_ok E d" "next_ok E job" using True d by (auto simp: runs_ok_def store_inv_def)
  have job: "Name job = n" "job_ok E job" using lawful_env.jobs_of_SomeD [OF E inv(2) d(1)] by simp_all
  have nxt: "next_ok E (job\<lparr>Next := u\<rparr>)" using inv(3) next_ok_Schedule [of "job\<lparr>Next := u\<rparr>" job E] by simp
  obtain d1 where d1: "agent_applySetJob (fsm_apply E) E d (ToProto E (job\<lparr>Next := u\<rparr>)) = (e, d1)" "store_inv E d1" "same_rest E d d1"
    "jobs_of E d1 = snd (spec_SetJob E (jobs_of E d) (job\<lparr>Next := u\<rparr>) False)"
    using applySetJob_valid [OF E inv(1) job_ok_Next [OF E job(2) u(1)] nxt] u(2) by (metis fst_conv snd_conv)
  have [simp]: "d' = d1" using d1(1) u(2) by simp
  have "Validate E job = None" using job(2) by (simp add: job_ok_def)
  then obtain u' where J: "jobs_of E d1 = (jobs_of E d)(n \<mapsto> job\<lparr>Next := u'\<rparr>)"
    using spec_SetJob_Next [of "jobs_of E d" n job E u] d job(1) d1(4) by auto
  have "next_ok E (job\<lparr>Next := u'\<rparr>)" using inv(3) next_ok_Schedule [of "job\<lparr>Next := u'\<rparr>" job E] by simp
  then have "runs_ok E d1" using True d1(2) by (auto simp: runs_ok_def J)
  moreover have "but_next (jobs_of E d1) = but_next (jobs_of E d)" using d(1) by (auto simp: J but_next_def)
  ultimately show ?thesis using d1(3) by (simp add: only_next_def)
qed

lemma agent_Run_only:
  assumes E: "lawful_env E" and t: "\<And>c i. time_ok (cron_Next L c i)"
  shows "only_next E d (fst (snd (agent_Run L E (fsm_apply E) ch region members sc d n x)))"
proof (cases "GetJob E d n")
  case (Inr job)
  have "only_next E d d'"
    if "(if ParentJob job = [] then store_next L E (fsm_apply E) sc d n job else (Inr job, d)) = (r, d')" for r d'
  proof (cases "runs_ok E d")
    case True
    then have "jobs_of E d n = Some job"
      using Inr lawful_env.GetJob_eq [OF E, of d n] by (auto simp: runs_ok_def store_inv_def split: option.splits)
    then show ?thesis using that store_next_only [OF E t] by (auto split: if_splits)
  qed (simp add: only_next_def)
  then show ?thesis by (auto simp: agent_Run_def Inr split: prod.splits sum.splits)
qed (simp add: agent_Run_def)

lemma world_Run_only:
  assumes "lawful_env (w_env W)" "w_apply W = fsm_apply (w_env W)" "\<And>c i. time_ok (cron_Next (w_cron W) c i)"
  shows "only_next (w_env W) (sv_db s) (sv_db (fst (snd (world_Run W s n x))))"
  using agent_Run_only [OF assms(1,3), of "sv_db s" "w_choice W" "w_Region W" "w_members W" "sv_sched s" n x]
  by (simp add: world_Run_def assms(2) split_beta)

lemma world_job_Run_only:
  assumes "lawful_env (w_env W)" "w_apply W = fsm_apply (w_env W)" "\<And>c i. time_ok (cron_Next (w_cron W) c i)"
  shows "only_next (w_env W) (sv_db s) (sv_db (fst (world_job_Run W s j)))"
  using agent_Run_only [OF assms(1,3), of "sv_db s" "w_choice W" "w_Region W" "w_members W" "sv_sched s" "Name j" "NewExecution (w_env W) (Name j)"]
  by (simp add: world_job_Run_def job_Run_def assms(2) split_beta)

lemma run_dependents_only:
  assumes "lawful_env (w_env W)" "w_apply W = fsm_apply (w_env W)" "\<And>c i. time_ok (cron_Next (w_cron W) c i)"
  shows "only_next (w_env W) (sv_db s) (sv_db (fst (snd (run_dependents W s djns))))"
proof (induction djns arbitrary: s)
  case (Cons djn djns)
  show ?case
  proof (cases "GetJob (w_env W) (sv_db s) djn")
    case (Inr dj)
    then show ?thesis
      using only_next_trans [OF world_job_Run_only [OF assms, of s dj] Cons.IH [of "fst (world_job_Run W s dj)"]] by (simp add: split_beta)
  qed simp
qed simp

lemma finish_execution_cases:
  assumes "finish_execution W s x job = (r, s', acts)"
  obtains "s' = s" | n y where "s' = fst (snd (world_Run W s n y))" | "s' = fst (snd (run_dependents W s (DependentJobs job)))"
  using assms by (auto simp: finish_execution_def split: if_splits sum.splits option.splits prod.splits) (metis fst_conv snd_conv)+

lemma finish_execution_only:
  assumes "lawful_env (w_env W)" "w_apply W = fsm_apply (w_env W)" "\<And>c i. time_ok (cron_Next (w_cron W) c i)"
    and "finish_execution W s x job = (r, s', acts)"
  shows "only_next (w_env W) (sv_db s) (sv_db s')"
  using assms(4) by (rule finish_execution_cases) (simp_all add: world_Run_only [OF assms(1-3)] run_dependents_only [OF assms(1-3)])

section \<open>The end of an execution on the leader\<close>

lemma ExecutionDone_command:
  assumes "lawful_env E" "exec_ok E y"
  obtains cmd where "Encode E ExecutionDoneType (MDone \<lparr>edr_Execution = Some (ex_ToProto E y)\<rparr>) = Inr cmd"
  using pb_codec.edr_marshal [OF lawful_env.axioms(2) [OF assms(1)], of "\<lparr>edr_Execution = Some (ex_ToProto E y)\<rparr>"] assms(2) that
  by (auto simp: exec_ok_def Encode_def)

lemma ExecutionDone_leader:
  assumes log: "lawful_log E (w_apply W) pro T" and W: "w_env W = E" "r_IsLeader (w_raft W) (sv_raft s)"
    and store: "store_inv E (sv_db s)" "jobs_of E (sv_db s) n = Some j"
    and y: "pe_JobName px = n" "run_processors W (Processors j) px = ex_ToProto E y" "exec_ok E y" "ex_JobName y = n"
    and cmd: "Encode E ExecutionDoneType (MDone \<lparr>edr_Execution = Some (ex_ToProto E y)\<rparr>) = Inr cmd"
  defines "job \<equiv> done_job j y (group_status (recorded E (sv_db s) y) (ex_Group y))"
  shows "w_apply W (sv_db s) cmd = (Inl e, d) \<Longrightarrow> grpc_ExecutionDone W s (Some px) = (Inl e, s\<lparr>sv_db := d\<rparr>, [])"
    and "w_apply W (sv_db s) cmd = (Inr r, d) \<Longrightarrow> store_inv E d \<and>
      jobs_of E d = (jobs_of E (sv_db s))(n \<mapsto> job) \<and> set (executions E d n) = recorded E (sv_db s) y \<and>
      (\<forall>m. CHR '':'' \<notin> set m \<longrightarrow> m \<noteq> n \<longrightarrow> set (executions E d m) = set (executions E (sv_db s) m)) \<and>
      grpc_ExecutionDone W s (Some px) = finish_execution W (s\<lparr>sv_db := d\<rparr>) y job"
proof -
  have E: "lawful_env E" using log by (simp add: lawful_log_def)
  have px: "NewExecutionFromProto E (ex_ToProto E y) = y" by (rule lawful_env.exec_ok_representable [OF E y(3)])
  have jok: "jobs_ok E (sv_db s)" "execs_ok E (sv_db s)" "jobs_of E (sv_db s) (ex_JobName y) = Some j"
    using store y(4) by (simp_all add: store_inv_def)
  obtain d' where d': "SetExecutionDone E (sv_db s) y = (True, None, d')" "store_inv E d'"
    "jobs_of E d' = (jobs_of E (sv_db s))(n \<mapsto> job)" "set (executions E d' n) = recorded E (sv_db s) y"
    "\<forall>m. CHR '':'' \<notin> set m \<longrightarrow> m \<noteq> n \<longrightarrow> set (executions E d' m) = set (executions E (sv_db s) m)"
    using lawful_env.SetExecutionDone_ok [OF E jok(1,2) y(3) jok(3)] y(4) unfolding job_def store_inv_def by metis
  have get: "GetJob E (sv_db s) n = Inr j" "Name j = n"
    using lawful_env.GetJob_eq [OF E jok(1)] store(2) lawful_env.jobs_of_SomeD [OF E jok(1), of n j] by simp_all
  have get': "GetJob E d' n = Inr job" using lawful_env.GetJob_eq [OF E, of d' n] d'(2,3) by (simp add: store_inv_def)
  show "grpc_ExecutionDone W s (Some px) = (Inl e, s\<lparr>sv_db := d\<rparr>, [])" if "w_apply W (sv_db s) cmd = (Inl e, d)"
    using that cmd get W y by (simp add: grpc_ExecutionDone_def)
  assume ap: "w_apply W (sv_db s) cmd = (Inr r, d)"
  have "d = d'" using lawful_log.applied_ExecutionDone [OF log cmd ap] d'(1) px by auto
  moreover have "grpc_ExecutionDone W s (Some px) = finish_execution W (s\<lparr>sv_db := d'\<rparr>) y job"
    using ap calculation cmd get get' W y px by (simp add: grpc_ExecutionDone_def)
  ultimately show "store_inv E d \<and>
      jobs_of E d = (jobs_of E (sv_db s))(n \<mapsto> job) \<and> set (executions E d n) = recorded E (sv_db s) y \<and>
      (\<forall>m. CHR '':'' \<notin> set m \<longrightarrow> m \<noteq> n \<longrightarrow> set (executions E d m) = set (executions E (sv_db s) m)) \<and>
      grpc_ExecutionDone W s (Some px) = finish_execution W (s\<lparr>sv_db := d\<rparr>) y job"
    using d'(2-5) by blast
qed

lemma done_job_Retries [simp]: "Retries (done_job j x st) = Retries j"
  by (simp add: done_job_def)

text \<open>
  C15: A finished execution on the leader, for a well-formed store that holds the job and an execution
  that can be represented, also after the processors of the job. The handler applies the
  processors and then puts the result on the log once. When the log refuses it, the error is the
  answer and nothing else happens. When the log applied it, the store it left has the execution
  recorded and the counter, the time and the status of the job updated, with no other job and no
  execution of another job changed; the handler goes on from this store, with this version of the
  job, to the retry or to the notification and the dependent jobs; and a request that is answered
  without an error is answered with a retry exactly when the execution failed and the job has
  attempts left.
\<close>

theorem ExecutionDone_recorded:
  assumes log: "lawful_log E (w_apply W) pro T" and W: "w_env W = E" "r_IsLeader (w_raft W) (sv_raft s)"
    and store: "store_inv E (sv_db s)" "jobs_of E (sv_db s) n = Some j"
    and y: "pe_JobName px = n" "run_processors W (Processors j) px = ex_ToProto E y" "exec_ok E y" "ex_JobName y = n"
  shows "\<exists>cmd. Encode E ExecutionDoneType (MDone \<lparr>edr_Execution = Some (ex_ToProto E y)\<rparr>) = Inr cmd \<and>
    (case w_apply W (sv_db s) cmd of
       (Inl e, d) \<Rightarrow> grpc_ExecutionDone W s (Some px) = (Inl e, s\<lparr>sv_db := d\<rparr>, [])
     | (Inr r, d) \<Rightarrow>
         (let job = done_job j y (group_status (recorded E (sv_db s) y) (ex_Group y))
          in store_inv E d \<and> jobs_of E d = (jobs_of E (sv_db s))(n \<mapsto> job) \<and>
             set (executions E d n) = recorded E (sv_db s) y \<and>
             (\<forall>m. CHR '':'' \<notin> set m \<longrightarrow> m \<noteq> n \<longrightarrow> set (executions E d m) = set (executions E (sv_db s) m)) \<and>
             grpc_ExecutionDone W s (Some px) = finish_execution W (s\<lparr>sv_db := d\<rparr>) y job \<and>
             (\<forall>p. fst (grpc_ExecutionDone W s (Some px)) = Inr p \<longrightarrow>
                (p = Retry \<longleftrightarrow> \<not> ex_Success y \<and> ex_Attempt y < Retries j + 1))))"
proof -
  let ?job = "done_job j y (group_status (recorded E (sv_db s) y) (ex_Group y))"
  have retry: "p = Retry \<longleftrightarrow> \<not> ex_Success y \<and> ex_Attempt y < Retries j + 1"
    if "fst (finish_execution W s' y ?job) = Inr p" for s' p
    using that by (auto simp: finish_execution_def to_retry_def split: if_splits sum.splits prod.splits option.splits)
  obtain cmd where cmd: "Encode E ExecutionDoneType (MDone \<lparr>edr_Execution = Some (ex_ToProto E y)\<rparr>) = Inr cmd"
    using ExecutionDone_command [of E y] log y(3) by (auto simp: lawful_log_def)
  obtain a d where ap: "w_apply W (sv_db s) cmd = (a, d)" by fastforce
  note leader = ExecutionDone_leader [OF log W store y cmd]
  show ?thesis
  proof (cases a)
    case (Inl e)
    then show ?thesis using cmd ap leader(1) [of e d] by (intro exI [of _ cmd]) simp
  next
    case (Inr r)
    then have run: "w_apply W (sv_db s) cmd = (Inr r, d)" using ap by simp
    note l = leader(2) [OF run]
    show ?thesis
      unfolding Let_def
      by (rule exI [of _ cmd], unfold run prod.case sum.case, intro conjI allI impI) (use cmd l retry in \<open>metis+\<close>)
  qed
qed

lemma recorded_group:
  assumes "lawful_env E" "store_inv E d" "exec_ok E y" "set (executions E d (ex_JobName y)) = recorded E d0 y"
  obtains exg where "GetExecutionGroup E d y = Inr exg"
proof -
  have "CHR '':'' \<notin> set (ex_JobName y)" "execs_ok E d" using assms(2,3) by (simp_all add: exec_ok_def store_inv_def)
  moreover have "executions E d (ex_JobName y) \<noteq> []" using assms(4) by (auto simp: recorded_def)
  ultimately have "GetExecutions E d (ex_JobName y) = Inr (executions E d (ex_JobName y))"
    using lawful_env.executions_eq(2) [OF assms(1)] by simp
  then show ?thesis using that by (simp add: GetExecutionGroup_def)
qed

text \<open>
  C17: The dependent jobs of a finished job. On a store in which parents and dependent jobs refer to
  each other, when the log applied the finished execution and there is no retry, the handler
  sends the notification; an error of the notification is the answer, and no dependent job is
  started. Otherwise, if the execution group of the job is a success, each job that has the
  finished job as its parent is read and run, once and in the order of the list, nothing panics,
  and the store is as the log left it; if it is not a success, no dependent job is started.
\<close>

theorem dependents_started_once:
  assumes log: "lawful_log E (w_apply W) pro T" and W: "w_env W = E" "r_IsLeader (w_raft W) (sv_raft s)"
    and store: "store_inv E (sv_db s)" "family (jobs_of E (sv_db s))" "jobs_of E (sv_db s) n = Some j"
    and y: "pe_JobName px = n" "run_processors W (Processors j) px = ex_ToProto E y" "exec_ok E y" "ex_JobName y = n"
      "ex_Success y \<or> \<not> ex_Attempt y < Retries j + 1"
    and cmd: "Encode E ExecutionDoneType (MDone \<lparr>edr_Execution = Some (ex_ToProto E y)\<rparr>) = Inr cmd"
      "w_apply W (sv_db s) cmd = (Inr r, d)"
  shows "\<exists>exg. GetExecutionGroup E d y = Inr exg \<and>
    (let st = group_status (recorded E (sv_db s) y) (ex_Group y); s' = s\<lparr>sv_db := d\<rparr>
     in grpc_ExecutionDone W s (Some px) =
          (case w_notify W y exg (done_job j y st) of
             Some e \<Rightarrow> (Inl e, s', [Notified y])
           | None \<Rightarrow> (Inr Saved, s', Notified y # (if st = StatusSuccess then map (dependent_calls W s') (DependentJobs j) else [])))) \<and>
    distinct (DependentJobs j) \<and>
    set (DependentJobs j) = {c. \<exists>C. jobs_of E (sv_db s) c = Some C \<and> ParentJob C = n}"
proof -
  let ?job = "done_job j y (group_status (recorded E (sv_db s) y) (ex_Group y))" and ?s = "s\<lparr>sv_db := d\<rparr>"
  have E: "lawful_env E" using log by (simp add: lawful_log_def)
  have d: "store_inv E d" "jobs_of E d = (jobs_of E (sv_db s))(n \<mapsto> ?job)" "set (executions E d n) = recorded E (sv_db s) y"
    "grpc_ExecutionDone W s (Some px) = finish_execution W ?s y ?job"
    using ExecutionDone_leader(2) [OF log W store(1,3) y(1-4) cmd] by simp_all
  have ok: "jobs_ok (w_env W) (sv_db ?s)" "family (jobs_of E d)"
    using d(1,2) W(1) family_done [OF store(2,3)] by (simp_all add: store_inv_def)
  have "n \<noteq> []"
    using lawful_env.jobs_of_SomeD [OF E _ store(3)] store(1) by (auto simp: job_ok_def Validate_def store_inv_def)
  then have "\<forall>c \<in> set (DependentJobs j). \<exists>C. jobs_of (w_env W) (sv_db ?s) c = Some C \<and> ParentJob C \<noteq> []"
    using family_children(2) [OF store(2,3)] d(2) W(1) store(3) by auto
  then have deps: "run_dependents W ?s (DependentJobs j) = (None, ?s, map (dependent_calls W ?s) (DependentJobs j))"
    using run_dependents_append [OF _ ok(1), of "DependentJobs j" "[]"] E W(1) by simp
  obtain exg where exg: "GetExecutionGroup E d y = Inr exg"
    by (rule recorded_group [OF E d(1) y(3), of "sv_db s"]) (simp add: y(4) d(3))
  show ?thesis
    using family_children [OF store(2,3)] exg deps y(5) W(1) unfolding d(4) by (auto simp: finish_execution_def to_retry_def Let_def split: option.split)
qed

lemma fsm_lawful_log: "lawful_env E \<Longrightarrow> lawful_log E (fsm_apply E) (\<lambda>_. None) {now E}"
  by (simp add: lawful_log_def fsm_log.raft_log_axioms)

text \<open>With the store behind the log, what the leader's store holds when the request is answered.\<close>

lemma ExecutionDone_final:
  assumes E: "lawful_env E" and W: "w_env W = E" "w_apply W = fsm_apply E" "r_IsLeader (w_raft W) (sv_raft s)"
      "\<And>c i. time_ok (cron_Next (w_cron W) c i)"
    and store: "runs_ok E (sv_db s)" "jobs_of E (sv_db s) n = Some j"
    and y: "pe_JobName px = n" "run_processors W (Processors j) px = ex_ToProto E y" "exec_ok E y" "ex_JobName y = n"
    and run: "grpc_ExecutionDone W s (Some px) = (r, s', acts)"
  shows "runs_ok E (sv_db s') \<and> set (executions E (sv_db s') n) = recorded E (sv_db s) y \<and>
    but_next (jobs_of E (sv_db s')) =
      but_next ((jobs_of E (sv_db s))(n \<mapsto> done_job j y (group_status (recorded E (sv_db s) y) (ex_Group y))))"
proof -
  let ?job = "done_job j y (group_status (recorded E (sv_db s) y) (ex_Group y))"
  have inv: "store_inv E (sv_db s)" using store(1) by (simp add: runs_ok_def)
  have log: "lawful_log E (w_apply W) (\<lambda>_. None) {now E}" using fsm_lawful_log [OF E] W(2) by simp
  obtain cmd where cmd: "Encode E ExecutionDoneType (MDone \<lparr>edr_Execution = Some (ex_ToProto E y)\<rparr>) = Inr cmd"
    by (rule ExecutionDone_command [OF E y(3)])
  obtain a d where ap: "w_apply W (sv_db s) cmd = (Inr a, d)" by (simp add: W(2) fsm_apply_def split_beta)
  have d: "store_inv E d" "jobs_of E d = (jobs_of E (sv_db s))(n \<mapsto> ?job)"
    "set (executions E d n) = recorded E (sv_db s) y" "finish_execution W (s\<lparr>sv_db := d\<rparr>) y ?job = (r, s', acts)"
    using ExecutionDone_leader(2) [OF log W(1,3) inv store(2) y cmd ap] run by simp_all
  have "next_ok E ?job" using store next_ok_Schedule [of ?job j E] by (simp add: runs_ok_def)
  then have runs: "runs_ok E d" using store(1) d(1) by (auto simp: runs_ok_def d(2))
  have "only_next E d (sv_db s')" using finish_execution_only [of W "s\<lparr>sv_db := d\<rparr>"] E W d(4) by simp
  then have fin: "runs_ok E (sv_db s')" "but_next (jobs_of E (sv_db s')) = but_next (jobs_of E d)" "same_rest E d (sv_db s')"
    using runs by (simp_all add: only_next_def)
  have "CHR '':'' \<notin> set n" "execs_ok E d" using y(3,4) d(1) by (auto simp: exec_ok_def store_inv_def)
  then have "set (executions E (sv_db s') n) = set (executions E d n)"
    using lawful_env.execs_same_rest(2) [OF E fin(3)] by simp
  with fin d(2,3) show ?thesis by simp
qed

section \<open>From the start of a job to its record\<close>

text \<open>The end of a successful execution on the leader.\<close>

lemma ExecutionDone_success:
  assumes E: "lawful_env E" and W: "w_env W = E" "w_apply W = fsm_apply E" "r_IsLeader (w_raft W) (sv_raft s)"
      "\<And>x exg j. w_notify W x exg j = None"
    and store: "store_inv E (sv_db s)" "family (jobs_of E (sv_db s))" "jobs_of E (sv_db s) n = Some j" "Processors j = []"
    and x: "exec_ok E x" "ex_JobName x = n" "ex_Success x" "newest (exec_at E (sv_db s) (exec_key x)) x = x"
  shows "\<exists>d acts j'. grpc_ExecutionDone W s (Some (ex_ToProto E x)) = (Inr Saved, s\<lparr>sv_db := d\<rparr>, acts) \<and>
    store_inv E d \<and> family (jobs_of E d) \<and> x \<in> set (executions E d n) \<and> jobs_of E d n = Some j' \<and>
    SuccessCount j' = scast (ucast (SuccessCount j) + 1 :: 32 word) \<and> LastSuccess j' = nt_Set nt_unset (ex_FinishedAt x)"
proof -
  let ?d = "sv_db s"
  obtain cmd r d where d: "Encode E ExecutionDoneType (MDone \<lparr>edr_Execution = Some (ex_ToProto E x)\<rparr>) = Inr cmd"
    "fsm_apply E ?d cmd = (Inr r, d)" "store_inv E d"
    "jobs_of E d = (jobs_of E ?d)(n \<mapsto> done_job j x (group_status (recorded E ?d x) (ex_Group x)))"
    "set (executions E d n) = recorded E ?d x"
    using apply_ExecutionDone [OF E x(1) store(1)] store(3) x(2) by metis
  define j' where "j' = done_job j x (group_status (recorded E ?d x) (ex_Group x))"
  have jok: "jobs_ok E ?d" "jobs_ok E d" "execs_ok E d" using store(1) d(3) by (simp_all add: store_inv_def)
  have get: "GetJob E ?d n = Inr j" "GetJob E d n = Inr j'" "Name j = n"
    using lawful_env.GetJob_eq [OF E jok(1)] lawful_env.GetJob_eq [OF E jok(2)] d(4) store(3)
      lawful_env.jobs_of_SomeD [OF E jok(1), of n j] by (simp_all add: j'_def)
  have colon: "CHR '':'' \<notin> set n" using x(1,2) by (simp add: exec_ok_def)
  have mem: "x \<in> set (executions E d n)" using d(5) x(4) by (simp add: recorded_def)
  then have "GetExecutions E d n = Inr (executions E d n)"
    using lawful_env.executions_eq(2) [OF E jok(3) colon] by auto
  then obtain exg where exg: "GetExecutionGroup E d x = Inr exg" by (simp add: GetExecutionGroup_def x(2))
  have fam: "family (jobs_of E d)" unfolding d(4) using family_done [OF store(2,3)] by simp
  obtain acts where fin: "finish_execution W (s\<lparr>sv_db := d\<rparr>) x j' = (Inr Saved, s\<lparr>sv_db := d\<rparr>, acts)"
    using finish_success [of W "s\<lparr>sv_db := d\<rparr>" n j' x exg] E W jok(2) fam d(4) x(3) exg by (auto simp: j'_def)
  have px: "NewExecutionFromProto E (ex_ToProto E x) = x" "pe_JobName (ex_ToProto E x) = n"
    using lawful_env.exec_ok_representable [OF E x(1)] x(2) by (simp_all add: ex_ToProto_def Let_def)
  have "grpc_ExecutionDone W s (Some (ex_ToProto E x)) = (Inr Saved, s\<lparr>sv_db := d\<rparr>, acts)"
    using d(1,2) get fin px by (simp add: grpc_ExecutionDone_def W store(4) run_processors_def)
  moreover have "jobs_of E d n = Some j'" "SuccessCount j' = scast (ucast (SuccessCount j) + 1 :: 32 word)"
    "LastSuccess j' = nt_Set nt_unset (ex_FinishedAt x)"
    using d(4) x(3) by (simp_all add: j'_def done_job_def)
  ultimately show ?thesis using d(3) fam mem by blast
qed

text \<open>
  C12: A run that succeeds is recorded. On a leader whose store is well formed, an agent that runs a job
  of the store with success, and whose messages get through, leaves a store that holds the execution
  as the agent reported it, in which the job has one more success at the time the execution finished,
  and in which parents and dependent jobs still refer to each other; the call succeeds.
\<close>

theorem successful_run_recorded:
  assumes E: "lawful_env E" and W: "w_env W = E" "w_apply W = fsm_apply E" "r_IsLeader (w_raft W) (sv_raft s)"
      "\<And>x exg j. w_notify W x exg j = None"
    and store: "store_inv E (sv_db s)" "family (jobs_of E (sv_db s))" "jobs_of E (sv_db s) n = Some j" "Processors j = []"
    and run: "server_AgentRun (hosts addr) E t0 t1 (\<lambda>_. None) (\<lambda>_. None) [] job px = (None, sent, running)"
      "pe_JobName px = n" "pe_Success (last sent)"
    and x0: "x0 = NewExecutionFromProto E (hd sent)" "exec_ok E x0" "pb_execution_utf8 (hd sent)"
    and x: "x = NewExecutionFromProto E (last sent)" "exec_ok E x" "ex_FinishedAt x0 \<le> ex_FinishedAt x"
    and new: "exec_at E (sv_db s) (exec_key x) = None"
  shows "\<exists>s' active' j'. client_AgentRun (run_remote W hosts t0 t1 M) E leader s active addr job px = (None, s', active') \<and>
    store_inv E (sv_db s') \<and> family (jobs_of E (sv_db s')) \<and>
    x \<in> set (executions E (sv_db s') n) \<and> jobs_of E (sv_db s') n = Some j' \<and>
    SuccessCount j' = scast (ucast (SuccessCount j) + 1 :: 32 word) \<and> LastSuccess j' = nt_Set nt_unset (ex_FinishedAt x)"
proof -
  let ?M = "run_remote W hosts t0 t1 M" and ?h = "hosts addr"
  let ?p0 = "px\<lparr>pe_StartedAt := ts_proto E t0, pe_NodeName := h_NodeName ?h\<rparr>"
  obtain ok writes us where sent: "sent = ?p0 # map (helper_update ?p0) us @
      [?p0\<lparr>pe_FinishedAt := ts_proto E t1, pe_Success := ok, pe_Output := h_output_of ?h maxBufSize writes\<rparr>]"
    using server_AgentRun_sent [OF run(1), unfolded Let_def] by blast
  have name: "ex_JobName x = n" "ex_JobName x0 = n" "exec_key x0 = exec_key x" "ex_Success x"
    using run(2,3) by (simp_all add: x(1) x0(1) sent NewExecutionFromProto_def exec_key_def ex_Key_def)
  obtain cmd r d1 where d1: "Encode E SetExecutionType (MExecution (hd sent)) = Inr cmd" "fsm_apply E (sv_db s) cmd = (Inr r, d1)"
    "store_inv E d1" "jobs_of E d1 = jobs_of E (sv_db s)"
    "exec_at E d1 (exec_key x0) \<in> {None, Some (newest (exec_at E (sv_db s) (exec_key x0)) x0)}"
    using apply_SetExecution [OF E x0(3) _ store(1)] x0(1,2) by metis
  define s1 where "s1 = s\<lparr>sv_db := d1\<rparr>"
  have first: "client_SetExecution ?M s leader (hd sent) = (None, s1)"
    using d1(1,2) by (simp add: client_SetExecution_def run_remote_def grpc_SetExecution_def W s1_def)
  have newest: "newest (exec_at E d1 (exec_key x)) x = x"
    using d1(5) new x(3) name(3) by (auto simp: newest_def dest: zdiv_mono1 [of _ _ 1000000000])
  have "store_inv E (sv_db s1)" "family (jobs_of E (sv_db s1))" "jobs_of E (sv_db s1) n = Some j" "r_IsLeader (w_raft W) (sv_raft s1)"
    using d1(3,4) store W(3) by (simp_all add: s1_def)
  then obtain d2 acts j' where d2: "grpc_ExecutionDone W s1 (Some (ex_ToProto E x)) = (Inr Saved, s1\<lparr>sv_db := d2\<rparr>, acts)"
    and after: "store_inv E d2" "family (jobs_of E d2)" "x \<in> set (executions E d2 n)" "jobs_of E d2 n = Some j'"
      "SuccessCount j' = scast (ucast (SuccessCount j) + 1 :: 32 word)" "LastSuccess j' = nt_Set nt_unset (ex_FinishedAt x)"
    using ExecutionDone_success [OF E W(1,2) _ W(4) _ _ _ store(4) x(2) name(1,4), of s1] newest by (auto simp: s1_def)
  have second: "client_ExecutionDone ?M E s1 leader x = (None, s1\<lparr>sv_db := d2\<rparr>)"
    using d2 by (simp add: client_ExecutionDone_def run_remote_def)
  have call: "dial ?M s addr = None" "call_AgentRun ?M s addr job px = (Inr (map Some sent, None), s)" "sent \<noteq> []"
    using run(1) by (simp_all add: run_remote_def W sent)
  obtain active' where "client_AgentRun ?M E leader s active addr job px = (None, s1\<lparr>sv_db := d2\<rparr>, active')"
    using AgentRun_follows [OF call first, of E active] second by (auto simp: x(1) [symmetric])
  then show ?thesis using after by (intro exI [of _ "s1\<lparr>sv_db := d2\<rparr>"]) auto
qed

theorem successful_run_recorded_witness:
  "\<forall>M. \<exists>s' active' j'. client_AgentRun (run_remote sample_world (\<lambda>_. sample_host) sample_now sample_now M) (ref_env sample_now) ''leader''
     (sample_srv (sample_db [sample_parent, sample_child])) [] ''n2'' sample_run_job sample_run_exec = (None, s', active') \<and>
     jobs_of (ref_env sample_now) (sv_db s') ''mail'' = Some j' \<and> SuccessCount j' = 1"
proof
  fix M
  let ?E = "ref_env sample_now" and ?d = "sample_db [sample_parent, sample_child]"
  obtain sent running' where sent: "server_AgentRun sample_host ?E sample_now sample_now (\<lambda>_. None) (\<lambda>_. None) [] sample_run_job sample_run_exec =
      (None, sent, running')" and
    ends: "hd sent = sample_run_exec\<lparr>pe_StartedAt := ts_proto ?E sample_now, pe_NodeName := ''n2''\<rparr>"
      "last sent = (hd sent)\<lparr>pe_FinishedAt := ts_proto ?E sample_now, pe_Success := True, pe_Output := ref_output maxBufSize [''date'']\<rparr>"
    by (simp add: server_AgentRun_def sample_run_job_def sample_host_def execute_result_def Let_def)
  have store: "store_inv ?E (sv_db (sample_srv ?d))" "family (jobs_of ?E (sv_db (sample_srv ?d)))"
    "jobs_of ?E (sv_db (sample_srv ?d)) ''mail'' = Some sample_child" "Processors sample_child = []"
    using sample_family_ok sample_execs_ok sample_family
    by (simp_all add: store_inv_def sample_family_jobs) (simp add: sample_child_def sample_job_def)
  have lead: "r_IsLeader (w_raft sample_world) (sv_raft (sample_srv ?d))" by (simp add: ref_raft_def)
  have nt: "ts_of ?E (ts_proto ?E sample_now) = sample_now" "ts_of ?E None = 0"
    by (simp_all add: ref_env_def ref_ts_of_def ref_ts_proto_def time_ok_def sample_now_def zero_time_def)
  have out: "ref_output maxBufSize [''date''] = ''date''" by (simp add: ref_output_def maxBufSize_def)
  have x0: "exec_ok ?E (NewExecutionFromProto ?E (hd sent))" "pb_execution_utf8 (hd sent)"
    using nt by (simp_all add: ends exec_ok_def NewExecutionFromProto_def sample_run_exec_def pb_execution_zero_def
        time_ok_def sample_now_def zero_time_def pb_execution_utf8_def ex_ToProto_def Let_def)
  have x: "exec_ok ?E (NewExecutionFromProto ?E (last sent))"
    "ex_FinishedAt (NewExecutionFromProto ?E (hd sent)) \<le> ex_FinishedAt (NewExecutionFromProto ?E (last sent))"
    using nt by (simp_all add: ends out exec_ok_def NewExecutionFromProto_def sample_run_exec_def pb_execution_zero_def
        time_ok_def sample_now_def zero_time_def pb_execution_utf8_def ex_ToProto_def Let_def)
  have "SuccessCount sample_child = 0" by (simp add: sample_child_def sample_job_def)
  with successful_run_recorded [of ?E sample_world "sample_srv ?d" "''mail''" sample_child "\<lambda>_. sample_host" "''n2''" sample_now sample_now
      sample_run_job sample_run_exec sent running' _ _ M "''leader''" "[]", OF sample_hyps(1) _ _ lead _ store sent _ _ refl x0 refl x]
  show "\<exists>s' active' j'. client_AgentRun (run_remote sample_world (\<lambda>_. sample_host) sample_now sample_now M) ?E ''leader''
     (sample_srv ?d) [] ''n2'' sample_run_job sample_run_exec = (None, s', active') \<and>
     jobs_of ?E (sv_db s') ''mail'' = Some j' \<and> SuccessCount j' = 1"
    using sample_no_execs by (auto simp: ends sample_run_exec_def)
qed

theorem ExecutionDone_recorded_witness:
  "\<exists>d job. jobs_of (ref_env sample_now) d ''mail'' = Some job \<and> ErrorCount job = 1 \<and>
     set (executions (ref_env sample_now) d ''mail'') = {sample_exec ''mail'' ''node1'' 1 False} \<and>
     grpc_ExecutionDone sample_world (sample_srv (sample_db [sample_child]))
       (Some (ex_ToProto (ref_env sample_now) (sample_exec ''mail'' ''node1'' 1 False))) =
     finish_execution sample_world ((sample_srv (sample_db [sample_child]))\<lparr>sv_db := d\<rparr>) (sample_exec ''mail'' ''node1'' 1 False) job"
proof -
  let ?E = "ref_env sample_now" and ?x = "sample_exec ''mail'' ''node1'' 1 False" and ?s = "sample_srv (sample_db [sample_child])"
  have log: "lawful_log ?E (w_apply sample_world) (\<lambda>_. None) {now ?E}" using fsm_lawful_log [OF ref.lawful_env_axioms] by simp
  have lead: "r_IsLeader (w_raft sample_world) (sv_raft ?s)" by (simp add: ref_raft_def)
  have store: "store_inv ?E (sv_db ?s)" "jobs_of ?E (sv_db ?s) ''mail'' = Some sample_child"
    using sample_child_ok sample_execs_ok
    by (simp_all add: store_inv_def jobs_ok_sample_db jobs_of_sample_db sample_family_representable)
  have x: "pe_JobName (ex_ToProto ?E ?x) = ''mail''" "ex_JobName ?x = ''mail''" "\<not> ex_Success ?x"
    by (simp_all add: sample_exec_def ex_ToProto_def Let_def)
  have child: "Processors sample_child = []" "ErrorCount sample_child = 0" by (simp_all add: sample_child_def sample_job_def)
  have procs: "run_processors sample_world (Processors sample_child) (ex_ToProto ?E ?x) = ex_ToProto ?E ?x"
    by (simp add: run_processors_def child)
  obtain r d where ap: "w_apply sample_world (sv_db ?s) cmd = (Inr (r cmd), d cmd)" for cmd
    by (rule that [of "\<lambda>cmd. fst (Apply (\<lambda>_. None) ?E (store_ops ?E) (sv_db ?s) cmd 1)"
          "\<lambda>cmd. snd (Apply (\<lambda>_. None) ?E (store_ops ?E) (sv_db ?s) cmd 1)"]) (simp add: fsm_apply_def split_beta)
  define job where "job = done_job sample_child ?x (group_status (recorded ?E (sv_db ?s) ?x) (ex_Group ?x))"
  obtain cmd where "jobs_of ?E (d cmd) = (jobs_of ?E (sv_db ?s))(''mail'' \<mapsto> job)"
    "set (executions ?E (d cmd) ''mail'') = recorded ?E (sv_db ?s) ?x"
    "grpc_ExecutionDone sample_world ?s (Some (ex_ToProto ?E ?x)) = finish_execution sample_world (?s\<lparr>sv_db := d cmd\<rparr>) ?x job"
    using ExecutionDone_recorded [of ?E sample_world "\<lambda>_. None" "{now ?E}" ?s "''mail''" sample_child,
        OF log _ lead store x(1) procs sample_exec_ok x(2)] unfolding ap by (auto simp: Let_def job_def)
  moreover have "ErrorCount job = 1" by (simp add: job_def done_job_def x(3) child(2))
  ultimately show ?thesis
    using sample_backup_recorded [OF sample_exec_ok [of False], of "[sample_child]"]
    by (intro exI [of _ "d cmd"] exI [of _ job]) simp
qed

theorem dependents_started_once_witness:
  "\<exists>d. grpc_ExecutionDone sample_world (sample_srv (sample_db [sample_parent, sample_child]))
       (Some (ex_ToProto (ref_env sample_now) (sample_exec ''backup'' ''node1'' 1 True))) =
     (Inr Saved, (sample_srv (sample_db [sample_parent, sample_child]))\<lparr>sv_db := d\<rparr>,
      [Notified (sample_exec ''backup'' ''node1'' 1 True),
       dependent_calls sample_world ((sample_srv (sample_db [sample_parent, sample_child]))\<lparr>sv_db := d\<rparr>) ''mail''])"
proof -
  let ?E = "ref_env sample_now" and ?x = "sample_exec ''backup'' ''node1'' 1 True" and ?s = "sample_srv (sample_db [sample_parent, sample_child])"
  have log: "lawful_log ?E (w_apply sample_world) (\<lambda>_. None) {now ?E}" using fsm_lawful_log [OF ref.lawful_env_axioms] by simp
  have lead: "r_IsLeader (w_raft sample_world) (sv_raft ?s)" by (simp add: ref_raft_def)
  have store: "store_inv ?E (sv_db ?s)" "family (jobs_of ?E (sv_db ?s))" "jobs_of ?E (sv_db ?s) ''backup'' = Some sample_parent"
    using sample_family_ok sample_execs_ok sample_family by (simp_all add: store_inv_def sample_family_jobs)
  have x: "pe_JobName (ex_ToProto ?E ?x) = ''backup''" "ex_JobName ?x = ''backup''" "ex_Success ?x"
    by (simp_all add: sample_exec_def ex_ToProto_def Let_def)
  have procs: "run_processors sample_world (Processors sample_parent) (ex_ToProto ?E ?x) = ex_ToProto ?E ?x"
    by (simp add: run_processors_def sample_parent_def sample_job_def)
  obtain cmd where cmd: "Encode ?E ExecutionDoneType (MDone \<lparr>edr_Execution = Some (ex_ToProto ?E ?x)\<rparr>) = Inr cmd"
    by (rule ExecutionDone_command [OF ref.lawful_env_axioms sample_exec_ok_backup])
  obtain r d where ap: "w_apply sample_world (sv_db ?s) cmd = (Inr r, d)" by (simp add: fsm_apply_def split_beta)
  have st: "group_status (recorded ?E (sv_db ?s) ?x) (ex_Group ?x) = StatusSuccess"
    using x(3) sample_backup_recorded [OF sample_exec_ok_backup [of True]] by (simp add: group_status_def)
  have deps: "DependentJobs sample_parent = [''mail'']" by simp
  from dependents_started_once [of ?E sample_world "\<lambda>_. None" "{now ?E}" ?s "''backup''" sample_parent,
      OF log _ lead store x(1) procs sample_exec_ok_backup x(2) _ cmd ap] x(3)
  show ?thesis unfolding st by (auto simp: Let_def deps)
qed

end
