(* ===== verification/Failover.thy ===== *)
theory Failover
  imports Lifecycle
begin

text \<open>
  Reports of executions to any server of a cluster: the client of \<open>grpc_client.go\<close> and the handler
  \<open>ExecutionDone\<close> of \<open>grpc.go\<close>, which calls the client again on a server that is no leader. When a report comes
  to an end, that it is recorded when it reaches the leader, and how it is lost.
\<close>

section \<open>The servers of a cluster and the calls between them\<close>

text \<open>
  The client of the gRPC server, with the servers of a cluster at the other end. \<open>Ws\<close> are the
  surroundings of the servers by address, and the state of the connections is that of the servers, by
  address. A server that is no leader calls \<open>ExecutionDone\<close> of its own client at the address that its
  Raft gives for the leader, whose outcome it ignores. A report is passed on less than \<open>n\<close> times; the state \<open>None\<close>
  is that of a report that is still being passed on.
\<close>

primrec forwarding ::
    "nat \<Rightarrow> (string \<Rightarrow> ('db, 'c, 'r) world) \<Rightarrow> (string \<Rightarrow> ('db, 'c, 'r) server) option remote \<Rightarrow>
     (string \<Rightarrow> ('db, 'c, 'r) server) option remote" where
  "forwarding 0 Ws M = M\<lparr>call_ExecutionDone := (\<lambda>_ _ _. (Inl ErrNotLeader, None))\<rparr>"
| "forwarding (Suc n) Ws M = M\<lparr>call_ExecutionDone := (\<lambda>w addr px.
     case w of
       None \<Rightarrow> (Inl ErrNotLeader, None)
     | Some S \<Rightarrow>
         (case grpc_ExecutionDone (Ws addr) (S addr) (Some px) of
            (r, s', acts) \<Rightarrow>
              (r, fold (\<lambda>a w. case a of
                          Forwarded leader x \<Rightarrow> snd (client_ExecutionDone (forwarding n Ws M) (w_env (Ws addr)) w leader x)
                        | _ \<Rightarrow> w) acts (Some (S(addr := s'))))))\<rparr>"

lemma forwarding_dial [simp]: "dial (forwarding n Ws M) = dial M"
  by (cases n) simp_all

lemma forwarding_call: "call_ExecutionDone (forwarding (Suc n) Ws M) (Some S) addr px =
    (case grpc_ExecutionDone (Ws addr) (S addr) (Some px) of
       (r, s', acts) \<Rightarrow> (r, fold (\<lambda>a w. case a of
          Forwarded leader x \<Rightarrow> snd (client_ExecutionDone (forwarding n Ws M) (w_env (Ws addr)) w leader x) | _ \<Rightarrow> w)
          acts (Some (S(addr := s')))))"
  by simp

declare forwarding.simps(2) [simp del]

section \<open>A report on its way\<close>

text \<open>A leader does not pass a report on.\<close>

definition forwards :: "action \<Rightarrow> bool" where
  "forwards a = (case a of Forwarded _ _ \<Rightarrow> True | _ \<Rightarrow> False)"

lemma run_dependents_kept: "run_dependents W s djns = (e, s', acts) \<Longrightarrow> list_all (Not \<circ> forwards) acts"
  by (induction djns arbitrary: W s e s' acts) (fastforce simp: forwards_def split: sum.splits prod.splits)+

lemma finish_execution_kept: "finish_execution W s x job = (r, s', acts) \<Longrightarrow> list_all (Not \<circ> forwards) acts"
  by (auto simp: finish_execution_def forwards_def dest: run_dependents_kept split: sum.splits prod.splits option.splits if_splits)

lemma leader_keeps_report:
  assumes "grpc_ExecutionDone W s (Some px) = (r, s', acts)" "r_IsLeader (w_raft W) (sv_raft s)"
  shows "list_all (Not \<circ> forwards) acts"
  using assms by (auto simp: grpc_ExecutionDone_def Let_def dest: finish_execution_kept split: sum.splits prod.splits)

lemma fold_kept:
  "list_all (Not \<circ> forwards) acts \<Longrightarrow> fold (\<lambda>a w. case a of Forwarded leader x \<Rightarrow> f leader x w | _ \<Rightarrow> w) acts w = w"
  by (induction acts arbitrary: w) (auto simp: forwards_def split: action.splits)

lemma report_to_leader:
  assumes "dial M (Some S) addr = None" "r_IsLeader (w_raft (Ws addr)) (sv_raft (S addr))"
    "grpc_ExecutionDone (Ws addr) (S addr) (Some (ex_ToProto E x)) = (r, s', acts)"
  shows "client_ExecutionDone (forwarding (Suc n) Ws M) E (Some S) addr x =
    (case r of Inl e \<Rightarrow> if e = ErrNotLeader then None else Some e | Inr _ \<Rightarrow> None, Some (S(addr := s')))"
  using fold_kept [OF leader_keeps_report [OF assms(3,2)],
      of "\<lambda>leader x w. snd (client_ExecutionDone (forwarding n Ws M) (w_env (Ws addr)) w leader x)" "Some (S(addr := s'))"]
  by (subst client_ExecutionDone_def) (simp add: forwarding_call assms split: sum.split)

text \<open>
  A server that is no leader: the outcome of passing the report on is lost, and \<open>ErrNotLeader\<close> is no error to the client.
\<close>

lemma report_to_follower:
  assumes "dial M (Some S) addr = None" "\<not> r_IsLeader (w_raft (Ws addr)) (sv_raft (S addr))"
    "w_env (Ws addr) = E" "NewExecutionFromProto E (ex_ToProto E x) = x"
  shows "client_ExecutionDone (forwarding (Suc n) Ws M) E (Some S) addr x =
    (None, snd (client_ExecutionDone (forwarding n Ws M) E (Some S) (r_Leader (w_raft (Ws addr)) (sv_raft (S addr))) x))"
  by (subst client_ExecutionDone_def) (simp add: forwarding_call assms grpc_ExecutionDone_def)

text \<open>A report ends at a server that cannot be connected to, or at a leader.\<close>

lemma report_unreachable:
  "dial M (Some S) addr = Some e \<Longrightarrow> client_ExecutionDone (forwarding n Ws M) E (Some S) addr x = (Some e, Some S)"
  by (simp add: client_ExecutionDone_def)

lemma report_at_leader:
  assumes "dial M (Some S) addr = None" "r_IsLeader (w_raft (Ws addr)) (sv_raft (S addr))"
  shows "snd (client_ExecutionDone (forwarding (Suc n) Ws M) E (Some S) addr x) \<noteq> None"
proof -
  obtain r s' acts where h: "grpc_ExecutionDone (Ws addr) (S addr) (Some (ex_ToProto E x)) = (r, s', acts)" using prod_cases3 by blast
  show ?thesis using report_to_leader [of M S addr Ws, OF assms h, of n] by simp
qed

text \<open>The address that the Raft of a server gives for the leader.\<close>

definition believed :: "(string \<Rightarrow> ('db, 'c, 'r) world) \<Rightarrow> (string \<Rightarrow> ('db, 'c, 'r) server) \<Rightarrow> string \<Rightarrow> string" where
  "believed Ws S addr = r_Leader (w_raft (Ws addr)) (sv_raft (S addr))"

definition ends_at ::
    "(string \<Rightarrow> ('db, 'c, 'r) world) \<Rightarrow> (string \<Rightarrow> ('db, 'c, 'r) server) option remote \<Rightarrow> (string \<Rightarrow> ('db, 'c, 'r) server) \<Rightarrow> string \<Rightarrow> bool" where
  "ends_at Ws M S addr \<longleftrightarrow> dial M (Some S) addr \<noteq> None \<or> r_IsLeader (w_raft (Ws addr)) (sv_raft (S addr))"

lemma report_passed_on:
  assumes "\<not> ends_at Ws M S addr" "w_env (Ws addr) = E" "NewExecutionFromProto E (ex_ToProto E x) = x"
  shows "client_ExecutionDone (forwarding (Suc n) Ws M) E (Some S) addr x =
    (None, snd (client_ExecutionDone (forwarding n Ws M) E (Some S) (believed Ws S addr) x))"
  using assms report_to_follower [of M S addr Ws E x n] by (simp add: ends_at_def believed_def)

lemma report_passed_on_times:
  assumes "\<And>a. w_env (Ws a) = E" "NewExecutionFromProto E (ex_ToProto E x) = x" "\<And>i. i < k \<Longrightarrow> \<not> ends_at Ws M S ((believed Ws S ^^ i) addr)"
  shows "snd (client_ExecutionDone (forwarding (n + k) Ws M) E (Some S) addr x) =
    snd (client_ExecutionDone (forwarding n Ws M) E (Some S) ((believed Ws S ^^ k) addr) x)"
  using assms(3)
proof (induction k arbitrary: addr)
  case (Suc k)
  have "\<not> ends_at Ws M S ((believed Ws S ^^ i) (believed Ws S addr))" if "i < k" for i
    using Suc.prems [of "Suc i"] that by (simp add: funpow_swap1)
  with Suc.IH report_passed_on [of Ws M S addr E x "n + k", OF _ assms(1,2)] Suc.prems [of 0] show ?case by (simp add: funpow_swap1)
qed simp

text \<open>
  C39: Whether a report comes to an end: if and only if one of the servers to which it is passed on can not be
  connected to or is the leader. Servers that take each other for the leader pass a report on for ever.
\<close>

theorem report_ends_iff:
  assumes "\<And>a. w_env (Ws a) = E" "NewExecutionFromProto E (ex_ToProto E x) = x"
  shows "(\<exists>n. snd (client_ExecutionDone (forwarding n Ws M) E (Some S) addr x) \<noteq> None) \<longleftrightarrow>
    (\<exists>k. ends_at Ws M S ((believed Ws S ^^ k) addr))"
proof
  assume "\<exists>n. snd (client_ExecutionDone (forwarding n Ws M) E (Some S) addr x) \<noteq> None"
  then obtain n where n: "snd (client_ExecutionDone (forwarding n Ws M) E (Some S) addr x) \<noteq> None" ..
  show "\<exists>k. ends_at Ws M S ((believed Ws S ^^ k) addr)"
  proof (rule ccontr)
    assume on: "\<nexists>k. ends_at Ws M S ((believed Ws S ^^ k) addr)"
    then have "snd (client_ExecutionDone (forwarding (0 + n) Ws M) E (Some S) addr x) =
        snd (client_ExecutionDone (forwarding 0 Ws M) E (Some S) ((believed Ws S ^^ n) addr) x)"
      by (intro report_passed_on_times assms) blast
    also have "\<dots> = None" using on by (auto simp: client_ExecutionDone_def ends_at_def)
    finally show False using n by simp
  qed
next
  assume ends: "\<exists>k. ends_at Ws M S ((believed Ws S ^^ k) addr)"
  define k where "k = (LEAST k. ends_at Ws M S ((believed Ws S ^^ k) addr))"
  let ?a = "(believed Ws S ^^ k) addr"
  have "ends_at Ws M S ?a" using ends unfolding k_def by (rule LeastI_ex)
  then have "snd (client_ExecutionDone (forwarding (Suc 0) Ws M) E (Some S) ?a x) \<noteq> None"
    using report_unreachable [of M S ?a _ "Suc 0" Ws E x] report_at_leader [of M S ?a Ws 0 E x]
    by (cases "dial M (Some S) ?a") (auto simp: ends_at_def)
  moreover have "snd (client_ExecutionDone (forwarding (Suc 0 + k) Ws M) E (Some S) addr x) =
      snd (client_ExecutionDone (forwarding (Suc 0) Ws M) E (Some S) ?a x)"
    by (intro report_passed_on_times assms) (auto simp: k_def dest: not_less_Least)
  ultimately show "\<exists>n. snd (client_ExecutionDone (forwarding n Ws M) E (Some S) addr x) \<noteq> None" by metis
qed

text \<open>
  C13: A report that reaches the leader, directly or by servers that pass it on, is recorded, whatever the outcome of the
  execution. For a job of the leader's store, and processors that give an execution that can be represented, the leader's
  store afterwards has this execution recorded and the counter, the time and the status of its job updated, and up to next
  runs every other job is as it was; the other servers are as they were. The agent that reports sees the error of the
  leader's handler, of a notification or a retry, only when it reported to the leader itself; when a server passed the
  report on, it sees no error.
\<close>

theorem forwarded_execution_recorded:
  assumes E: "lawful_env E" "\<And>a. w_env (Ws a) = E"
    and path: "\<And>i. i < k \<Longrightarrow> \<not> ends_at Ws M S ((believed Ws S ^^ i) addr)" "(believed Ws S ^^ k) addr = L" "k < n"
      "dial M (Some S) L = None"
    and W: "w_apply (Ws L) = fsm_apply E" "r_IsLeader (w_raft (Ws L)) (sv_raft (S L))" "\<And>c i. time_ok (cron_Next (w_cron (Ws L)) c i)"
    and store: "runs_ok E (sv_db (S L))" "jobs_of E (sv_db (S L)) (ex_JobName x) = Some j"
    and x: "exec_ok E x" "run_processors (Ws L) (Processors j) (ex_ToProto E x) = ex_ToProto E y" "exec_ok E y" "ex_JobName y = ex_JobName x"
  shows "\<exists>r s' acts. grpc_ExecutionDone (Ws L) (S L) (Some (ex_ToProto E x)) = (r, s', acts) \<and>
    client_ExecutionDone (forwarding n Ws M) E (Some S) addr x =
      (if k = 0 then (case r of Inl e \<Rightarrow> if e = ErrNotLeader then None else Some e | Inr _ \<Rightarrow> None) else None,
       Some (S(L := s'))) \<and>
    store_inv E (sv_db s') \<and> set (executions E (sv_db s') (ex_JobName x)) = recorded E (sv_db (S L)) y \<and>
    but_next (jobs_of E (sv_db s')) = but_next ((jobs_of E (sv_db (S L)))
      (ex_JobName x \<mapsto> done_job j y (group_status (recorded E (sv_db (S L)) y) (ex_Group y))))"
proof -
  have px: "NewExecutionFromProto E (ex_ToProto E x) = x" "pe_JobName (ex_ToProto E x) = ex_JobName x"
    using lawful_env.exec_ok_representable [OF E(1) x(1)] by (simp_all add: ex_ToProto_def Let_def)
  obtain r s' acts where run: "grpc_ExecutionDone (Ws L) (S L) (Some (ex_ToProto E x)) = (r, s', acts)" using prod_cases3 by blast
  note final = ExecutionDone_final [OF E(1) E(2) W store px(2) x(2,3,4) run]
  obtain m where m: "n = Suc m + k" using path(3) by (metis add.commute add_Suc_right less_imp_Suc_add)
  let ?answer = "case r of Inl e \<Rightarrow> if e = ErrNotLeader then None else Some e | Inr _ \<Rightarrow> None"
  have leader: "client_ExecutionDone (forwarding (Suc m) Ws M) E (Some S) L x = (?answer, Some (S(L := s')))"
    using report_to_leader [of M S L Ws, OF path(4) W(2) run, of m] by simp
  have "fst (client_ExecutionDone (forwarding n Ws M) E (Some S) addr x) = (if k = 0 then ?answer else None)"
  proof (cases k)
    case 0
    with leader m path(2) show ?thesis by simp
  next
    case (Suc k')
    with report_passed_on [of Ws M S addr E x "m + k", OF _ E(2) px(1)] path(1) [of 0] m show ?thesis by simp
  qed
  then have "client_ExecutionDone (forwarding n Ws M) E (Some S) addr x = (if k = 0 then ?answer else None, Some (S(L := s')))"
    using report_passed_on_times [of Ws E x k M S addr "Suc m", OF E(2) px(1) path(1)] path(2) m leader by (simp add: prod_eq_iff)
  with run final show ?thesis by (simp add: runs_ok_def)
qed

text \<open>
  An execution can be lost. A server that is no leader and can not connect to the one it takes for the leader answers
  as if the report had been passed on: the agent sees no error and no server has recorded anything.
\<close>

theorem report_lost_without_leader:
  assumes "lawful_env E" "w_env (Ws addr) = E" "exec_ok E x" "dial M (Some S) addr = None"
    "\<not> r_IsLeader (w_raft (Ws addr)) (sv_raft (S addr))" "dial M (Some S) (believed Ws S addr) = Some e"
  shows "client_ExecutionDone (forwarding (Suc n) Ws M) E (Some S) addr x = (None, Some S)"
  using report_passed_on [of Ws M S addr E x n] report_unreachable [OF assms(6), of n Ws E x] assms(2,4,5)
    lawful_env.exec_ok_representable [OF assms(1,3)] by (simp add: ends_at_def)

section \<open>Concrete reports\<close>

text \<open>A cluster in which the server at \<open>leader\<close> leads, and every server takes the server \<open>believes\<close> says for the leader.\<close>

definition sample_worlds :: "string \<Rightarrow> (string \<Rightarrow> string) \<Rightarrow> string \<Rightarrow> (ref_db, ref_cron_state, raft_server list) world" where
  "sample_worlds leader believes addr = sample_world\<lparr>w_raft := ref_raft\<lparr>r_IsLeader := (\<lambda>_. addr = leader), r_Leader := (\<lambda>_. believes addr)\<rparr>\<rparr>"

lemma sample_worlds_simps [simp]:
  "w_env (sample_worlds l b a) = ref_env sample_now" "w_apply (sample_worlds l b a) = fsm_apply (ref_env sample_now)"
  "w_notify (sample_worlds l b a) x exg j = None" "r_IsLeader (w_raft (sample_worlds l b a)) r \<longleftrightarrow> a = l"
  "believed (sample_worlds l b) S a = b a"
  by (simp_all add: sample_worlds_def believed_def)

lemma sample_done_exec:
  "exec_ok (ref_env sample_now) (sample_exec ''mail'' ''n2'' 1 True)"
  "NewExecutionFromProto (ref_env sample_now) (ex_ToProto (ref_env sample_now) (sample_exec ''mail'' ''n2'' 1 True)) = sample_exec ''mail'' ''n2'' 1 True"
proof -
  show ok: "exec_ok (ref_env sample_now) (sample_exec ''mail'' ''n2'' 1 True)"
    by (simp add: exec_ok_def sample_exec_def sample_now_def time_ok_def zero_time_def pb_execution_utf8_def ex_ToProto_def Let_def)
  show "NewExecutionFromProto (ref_env sample_now) (ex_ToProto (ref_env sample_now) (sample_exec ''mail'' ''n2'' 1 True)) = sample_exec ''mail'' ''n2'' 1 True"
    by (rule lawful_env.exec_ok_representable [OF sample_hyps(1) ok])
qed

theorem report_ends_iff_witness:
  "\<forall>M n. snd (client_ExecutionDone (forwarding n (sample_worlds ''n0'' (\<lambda>a. if a = ''n1'' then ''n2'' else ''n1'')) (M\<lparr>dial := \<lambda>_ _. None\<rparr>))
     (ref_env sample_now) (Some (\<lambda>_. sample_srv [])) ''n1'' (sample_exec ''mail'' ''n2'' 1 True)) = None"
proof (intro allI)
  fix M :: "(string \<Rightarrow> (ref_db, ref_cron_state, raft_server list) server) option remote" and n
  let ?Ws = "sample_worlds ''n0'' (\<lambda>a. if a = ''n1'' then ''n2'' else ''n1'')"
    and ?M = "M\<lparr>dial := \<lambda>_ _. None\<rparr>" and ?S = "\<lambda>_. sample_srv []"
  have ring: "(believed ?Ws ?S ^^ k) ''n1'' = ''n1'' \<or> (believed ?Ws ?S ^^ k) ''n1'' = ''n2''" for k by (induction k) auto
  have "\<not> ends_at ?Ws ?M ?S ((believed ?Ws ?S ^^ k) ''n1'')" for k using ring [of k] by (auto simp: ends_at_def)
  then show "snd (client_ExecutionDone (forwarding n ?Ws ?M) (ref_env sample_now) (Some ?S) ''n1'' (sample_exec ''mail'' ''n2'' 1 True)) = None"
    using report_ends_iff [of ?Ws "ref_env sample_now" "sample_exec ''mail'' ''n2'' 1 True" ?M ?S "''n1''"] sample_done_exec(2) by auto
qed

text \<open>A failed execution that the server at \<open>n2\<close> passes on to the leader \<open>n1\<close>.\<close>

lemma sample_failed_exec: "exec_ok (ref_env sample_now) (sample_exec ''mail'' ''n2'' 1 False)"
  by (simp add: exec_ok_def sample_exec_def sample_now_def time_ok_def zero_time_def pb_execution_utf8_def ex_ToProto_def Let_def)

lemma sample_family_next_ok: "next_ok (ref_env sample_now) sample_parent" "next_ok (ref_env sample_now) sample_child"
proof -
  have "Schedule sample_parent = Schedule (sample_job ''backup'' ''@every 1m'' [])" by (simp add: sample_parent_def)
  from next_ok_Schedule [OF this, of "ref_env sample_now"] sample_next_ok [of "''backup''" "[]"] show "next_ok (ref_env sample_now) sample_parent" by simp
  show "next_ok (ref_env sample_now) sample_child" using sample_next_ok [of "''mail''" "''backup''"] by (simp add: sample_child_def)
qed

theorem forwarded_execution_recorded_witness:
  "\<forall>M. \<exists>r s' acts j'. grpc_ExecutionDone (sample_worlds ''n1'' (\<lambda>_. ''n1'') ''n1'') (sample_srv (sample_db [sample_parent, sample_child]))
      (Some (ex_ToProto (ref_env sample_now) (sample_exec ''mail'' ''n2'' 1 False))) = (r, s', acts) \<and>
    client_ExecutionDone (forwarding 2 (sample_worlds ''n1'' (\<lambda>_. ''n1'')) (M\<lparr>dial := \<lambda>_ _. None\<rparr>)) (ref_env sample_now)
      (Some (\<lambda>_. sample_srv (sample_db [sample_parent, sample_child]))) ''n2'' (sample_exec ''mail'' ''n2'' 1 False) =
      (None, Some ((\<lambda>_. sample_srv (sample_db [sample_parent, sample_child]))(''n1'' := s'))) \<and>
    set (executions (ref_env sample_now) (sv_db s') ''mail'') = {sample_exec ''mail'' ''n2'' 1 False} \<and>
    jobs_of (ref_env sample_now) (sv_db s') ''mail'' = Some j' \<and> ErrorCount j' = 1"
proof
  fix M :: "(string \<Rightarrow> (ref_db, ref_cron_state, raft_server list) server) option remote"
  let ?E = "ref_env sample_now" and ?d = "sample_db [sample_parent, sample_child]" and ?x = "sample_exec ''mail'' ''n2'' 1 False"
  let ?S = "\<lambda>_ :: string. sample_srv ?d" and ?Ws = "sample_worlds ''n1'' (\<lambda>_. ''n1'')" and ?M = "M\<lparr>dial := \<lambda>_ _. None\<rparr>"
  have name: "ex_JobName ?x = ''mail''" "\<not> ex_Success ?x" by (simp_all add: sample_exec_def)
  have child: "Processors sample_child = []" "ErrorCount sample_child = 0" by (simp_all add: sample_child_def sample_job_def)
  have cron: "time_ok (cron_Next (w_cron (?Ws a)) c i)" for a c i
    by (simp add: sample_worlds_def ref_cron_def time_ok_def zero_time_def)
  have store: "runs_ok ?E (sv_db (?S ''n1''))" "jobs_of ?E (sv_db (?S ''n1'')) (ex_JobName ?x) = Some sample_child"
    using sample_family_ok sample_execs_ok sample_family_next_ok by (auto simp: name runs_ok_def store_inv_def sample_family_jobs split: if_splits)
  have procs: "run_processors (?Ws ''n1'') (Processors sample_child) (ex_ToProto ?E ?x) = ex_ToProto ?E ?x"
    by (simp add: run_processors_def child)
  have path: "\<not> ends_at ?Ws ?M ?S ((believed ?Ws ?S ^^ i) ''n2'')" if "i < 1" for i using that by (simp add: ends_at_def)
  obtain r s' acts where run: "grpc_ExecutionDone (?Ws ''n1'') (?S ''n1'') (Some (ex_ToProto ?E ?x)) = (r, s', acts)"
    "client_ExecutionDone (forwarding 2 ?Ws ?M) ?E (Some ?S) ''n2'' ?x = (None, Some (?S(''n1'' := s')))"
    "set (executions ?E (sv_db s') ''mail'') = recorded ?E ?d ?x"
    "but_next (jobs_of ?E (sv_db s')) = but_next ((jobs_of ?E ?d)(''mail'' \<mapsto> done_job sample_child ?x (group_status (recorded ?E ?d ?x) (ex_Group ?x))))"
    using forwarded_execution_recorded [of ?E ?Ws 1 ?M ?S "''n2''" "''n1''" 2 ?x sample_child ?x,
        OF sample_hyps(1) _ path _ _ _ _ _ cron store sample_failed_exec procs sample_failed_exec refl] by (auto simp: name)
  obtain j' where "jobs_of ?E (sv_db s') ''mail'' = Some j'" "j'\<lparr>Next := 0\<rparr> = (done_job sample_child ?x (group_status (recorded ?E ?d ?x) (ex_Group ?x)))\<lparr>Next := 0\<rparr>"
    using fun_cong [OF run(4), of "''mail''"] by (auto simp: but_next_def)
  moreover have "ErrorCount j' = 1"
    using arg_cong [OF calculation(2), of ErrorCount] by (simp add: done_job_def name child)
  ultimately show "\<exists>r s' acts j'. grpc_ExecutionDone (?Ws ''n1'') (sample_srv ?d) (Some (ex_ToProto ?E ?x)) = (r, s', acts) \<and>
      client_ExecutionDone (forwarding 2 ?Ws ?M) ?E (Some ?S) ''n2'' ?x = (None, Some (?S(''n1'' := s'))) \<and>
      set (executions ?E (sv_db s') ''mail'') = {?x} \<and> jobs_of ?E (sv_db s') ''mail'' = Some j' \<and> ErrorCount j' = 1"
    using run sample_backup_recorded [OF sample_failed_exec, of "[sample_parent, sample_child]"] by auto
qed

theorem report_lost_without_leader_witness:
  "\<forall>M. client_ExecutionDone (forwarding 1 (sample_worlds ''n1'' (\<lambda>_. ''n1'')) (M\<lparr>dial := \<lambda>_ a. if a = ''n1'' then Some ErrNotFound else None\<rparr>))
     (ref_env sample_now) (Some (\<lambda>_. sample_srv (sample_db [sample_child]))) ''n2'' (sample_exec ''mail'' ''n2'' 1 True) =
     (None, Some (\<lambda>_. sample_srv (sample_db [sample_child])))"
proof
  fix M :: "(string \<Rightarrow> (ref_db, ref_cron_state, raft_server list) server) option remote"
  show "client_ExecutionDone (forwarding 1 (sample_worlds ''n1'' (\<lambda>_. ''n1'')) (M\<lparr>dial := \<lambda>_ a. if a = ''n1'' then Some ErrNotFound else None\<rparr>))
     (ref_env sample_now) (Some (\<lambda>_. sample_srv (sample_db [sample_child]))) ''n2'' (sample_exec ''mail'' ''n2'' 1 True) =
     (None, Some (\<lambda>_. sample_srv (sample_db [sample_child])))"
    using report_lost_without_leader [of "ref_env sample_now" "sample_worlds ''n1'' (\<lambda>_. ''n1'')" "''n2''" "sample_exec ''mail'' ''n2'' 1 True"
      "M\<lparr>dial := \<lambda>_ a. if a = ''n1'' then Some ErrNotFound else None\<rparr>" "\<lambda>_. sample_srv (sample_db [sample_child])" ErrNotFound 0]
      sample_hyps(1) sample_done_exec(1) by simp
qed

end
