(* ===== verification/Job_Tree.thy ===== *)
theory Job_Tree
  imports Store_Jobs
begin

text \<open>
  The tree of jobs of a restore: \<open>generateJobTree\<close>, \<open>findParentJobAndValidateJob\<close> and
  \<open>findParentJobInChildJobs\<close> of \<open>src/dkron/job.go\<close>, and \<open>recursiveSetJob\<close> of
  \<open>src/dkron/agent.go\<close>, which sends the tree to the leader. A node of the tree is in one
  place at a time, so the pointers of \<open>ChildJobs\<close> are a datatype.
\<close>

section \<open>Trees of jobs\<close>

text \<open>A job with its \<open>ChildJobs\<close>. A job without children is a leaf.\<close>

datatype jtree = JNode (jt_job: job) (jt_children: "jtree list")

fun findParentJobInChildJobs :: "jtree list \<Rightarrow> jtree \<Rightarrow> bool \<times> jtree list" where
  "findParentJobInChildJobs [] c = (False, [])"
| "findParentJobInChildJobs (JNode p cs # ts) c =
     (if ParentJob (jt_job c) = Name p then (True, JNode p (cs @ [c]) # ts)
      else case (if length cs > 0 then findParentJobInChildJobs cs c else (False, cs)) of
             (True, cs') \<Rightarrow> (True, JNode p cs' # ts)
           | (False, _) \<Rightarrow>
               (case findParentJobInChildJobs ts c of (flag, ts') \<Rightarrow> (flag, JNode p cs # ts')))"

text \<open>The loop over the top-level jobs: \<open>None\<close> when it ends without finding the parent.\<close>

fun attach_child :: "jtree list \<Rightarrow> jtree \<Rightarrow> jtree list option" where
  "attach_child [] c = None"
| "attach_child (JNode p cs # ts) c =
     (if Name p = Name (jt_job c) then map_option ((#) (JNode p cs)) (attach_child ts c)
      else if ParentJob (jt_job c) = Name p then Some (JNode p (cs @ [c]) # ts)
      else case (if length cs > 0 then findParentJobInChildJobs cs c else (False, cs)) of
             (True, cs') \<Rightarrow> Some (JNode p cs' # ts)
           | (False, _) \<Rightarrow> map_option ((#) (JNode p cs)) (attach_child ts c))"

definition findParentJobAndValidateJob ::
    "'db env \<Rightarrow> jtree list \<Rightarrow> nat \<Rightarrow> (jtree list \<times> bool) res" where
  "findParentJobAndValidateJob E jobs index =
     (if index \<ge> length jobs then Inl (Panic ''index out of range'')
      else (let childJob = jobs ! index in
        case Validate E (jt_job childJob) of
          Some e \<Rightarrow> Inl e
        | None \<Rightarrow>
            if ParentJob (jt_job childJob) = [] then Inr (jobs, True)
            else (case attach_child jobs childJob of
                    None \<Rightarrow> Inl ErrNoParent
                  | Some jobs' \<Rightarrow> Inr (take index jobs' @ drop (index + 1) jobs', False))))"

primrec generate_loop :: "nat \<Rightarrow> 'db env \<Rightarrow> jtree list \<Rightarrow> nat \<Rightarrow> jtree list res" where
  "generate_loop 0 E jobs j = Inr jobs"
| "generate_loop (Suc n) E jobs j =
     (case findParentJobAndValidateJob E jobs j of
        Inl e \<Rightarrow> Inl e
      | Inr (rejobs, isTopParentNodeFlag) \<Rightarrow>
          generate_loop n E rejobs (if isTopParentNodeFlag then j + 1 else j))"

definition generateJobTree :: "'db env \<Rightarrow> jtree list \<Rightarrow> jtree list res" where
  "generateJobTree E jobs = generate_loop (length jobs) E jobs 0"

text \<open>
  \<open>recursiveSetJob\<close> of \<open>agent.go\<close>: \<open>setJob\<close> is the client call, on the state of the cluster.
\<close>

fun recursiveSetJob :: "('s \<Rightarrow> job \<Rightarrow> err \<times> 's) \<Rightarrow> 's \<Rightarrow> jtree list \<Rightarrow> string list \<times> 's" where
  "recursiveSetJob setJob s [] = ([], s)"
| "recursiveSetJob setJob s (JNode j cs # ts) =
     (case setJob s j of
        (Some e, s1) \<Rightarrow>
          (case recursiveSetJob setJob s1 ts of
             (result, s2) \<Rightarrow> ((''fail create '' @ Name j) # result, s2))
      | (None, s1) \<Rightarrow>
          (case (if length cs > 0 then recursiveSetJob setJob s1 cs else ([], s1)) of
             (children, s2) \<Rightarrow>
               (case recursiveSetJob setJob s2 ts of
                  (result, s3) \<Rightarrow> ((''success create '' @ Name j) # children @ result, s3))))"

section \<open>The trees that are built\<close>

fun nodes :: "jtree \<Rightarrow> job list" where
  "nodes (JNode j cs) = j # concat (map nodes cs)"

fun linked :: "jtree \<Rightarrow> bool" where
  "linked (JNode j cs) \<longleftrightarrow> (\<forall>c \<in> set cs. ParentJob (jt_job c) = Name j \<and> linked c)"

definition forest_nodes :: "jtree list \<Rightarrow> job list" where
  "forest_nodes ts = concat (map nodes ts)"

lemma nodes_root: "jt_job t \<in> set (nodes t)"
  by (cases t) simp

text \<open>Induction on a forest: the children of the first tree, and the other trees.\<close>

lemma forest_induct [case_names Nil Cons]:
  assumes "P []" "\<And>p cs ts. P cs \<Longrightarrow> P ts \<Longrightarrow> P (JNode p cs # ts)"
  shows "P ts"
proof (induction ts rule: measure_induct_rule [of "size_list size"])
  case (less ts)
  show ?case
  proof (cases ts)
    case (Cons t us)
    obtain p cs where "t = JNode p cs" by (cases t)
    with Cons less show ?thesis by (auto intro!: assms(2))
  qed (simp add: assms(1))
qed

lemma findParent_guard:
  "(if cs \<noteq> [] then findParentJobInChildJobs cs c else (False, cs)) = findParentJobInChildJobs cs c"
  by simp

text \<open>The three ways in which the search goes on at a node.\<close>

lemma findParent_cases:
  assumes "findParentJobInChildJobs (JNode p cs # ts) c = (f, ts')"
  obtains (here) "ParentJob (jt_job c) = Name p" "f" "ts' = JNode p (cs @ [c]) # ts"
  | (below) cs' where "findParentJobInChildJobs cs c = (True, cs')" "f" "ts' = JNode p cs' # ts"
      "ParentJob (jt_job c) \<noteq> Name p"
  | (later) ts1 cs1 where "findParentJobInChildJobs cs c = (False, cs1)"
      "findParentJobInChildJobs ts c = (f, ts1)" "ts' = JNode p cs # ts1" "ParentJob (jt_job c) \<noteq> Name p"
  using assms by (auto simp: findParent_guard split: if_splits prod.splits bool.splits)

lemma findParent_nodes:
  "findParentJobInChildJobs ts c = (f, ts') \<Longrightarrow>
     mset (forest_nodes ts') = mset (forest_nodes ts) + (if f then mset (nodes c) else {#}) \<and>
     map jt_job ts' = map jt_job ts"
proof (induction ts arbitrary: f ts' rule: forest_induct)
  case (Cons p cs ts)
  from Cons.prems show ?case
  proof (cases rule: findParent_cases)
    case (below cs')
    with Cons.IH(1) [of True cs'] show ?thesis by (auto simp: forest_nodes_def)
  next
    case (later ts1 cs1)
    with Cons.IH(2) [of f ts1] show ?thesis by (auto simp: forest_nodes_def)
  qed (auto simp: forest_nodes_def)
qed (auto simp: forest_nodes_def)

lemma findParent_linked:
  "findParentJobInChildJobs ts c = (f, ts') \<Longrightarrow> list_all linked ts \<Longrightarrow> linked c \<Longrightarrow> list_all linked ts'"
proof (induction ts arbitrary: f ts' rule: forest_induct)
  case (Cons p cs ts)
  from Cons.prems(1) show ?case
  proof (cases rule: findParent_cases)
    case (below cs')
    have "list_all linked cs'"
      using Cons.IH(1) [of True cs'] below Cons.prems by (auto simp: list_all_iff)
    moreover have "jt_job ` set cs' = jt_job ` set cs"
      using findParent_nodes [OF below(1)] by (metis list.set_map)
    then have "\<forall>x \<in> set cs'. ParentJob (jt_job x) = Name p"
      using Cons.prems(2) by (auto simp: image_iff) (metis image_iff)
    ultimately show ?thesis using below Cons.prems(2) by (auto simp: list_all_iff)
  next
    case (later ts1 cs1)
    with Cons.IH(2) [of f ts1] Cons.prems show ?thesis by auto
  qed (use Cons.prems in \<open>auto simp: list_all_iff\<close>)
qed auto

lemma findParent_finds:
  "findParentJobInChildJobs ts c = (f, ts') \<Longrightarrow>
     f \<longleftrightarrow> (\<exists>p \<in> set (forest_nodes ts). Name p = ParentJob (jt_job c))"
proof (induction ts arbitrary: f ts' rule: forest_induct)
  case (Cons p cs ts)
  from Cons.prems show ?case
  proof (cases rule: findParent_cases)
    case (below cs')
    with Cons.IH(1) [of True cs'] show ?thesis by (auto simp: forest_nodes_def)
  next
    case (later ts1 cs1)
    with Cons.IH(1) [of False cs1] Cons.IH(2) [of f ts1] show ?thesis
      by (auto simp: forest_nodes_def)
  qed (auto simp: forest_nodes_def)
qed (auto simp: forest_nodes_def)

lemma attach_cases:
  assumes "attach_child (JNode p cs # ts) c = Some ts'"
  obtains (same) ts1 where "Name p = Name (jt_job c)" "attach_child ts c = Some ts1" "ts' = JNode p cs # ts1"
  | (here) "Name p \<noteq> Name (jt_job c)" "ParentJob (jt_job c) = Name p" "ts' = JNode p (cs @ [c]) # ts"
  | (below) cs' where "Name p \<noteq> Name (jt_job c)" "findParentJobInChildJobs cs c = (True, cs')"
      "ts' = JNode p cs' # ts" "ParentJob (jt_job c) \<noteq> Name p"
  | (later) ts1 cs1 where "Name p \<noteq> Name (jt_job c)" "findParentJobInChildJobs cs c = (False, cs1)"
      "attach_child ts c = Some ts1" "ts' = JNode p cs # ts1" "ParentJob (jt_job c) \<noteq> Name p"
  using assms by (auto simp: findParent_guard split: if_splits prod.splits bool.splits)

lemma attach_nodes:
  "attach_child ts c = Some ts' \<Longrightarrow>
     mset (forest_nodes ts') = mset (forest_nodes ts) + mset (nodes c) \<and>
     map jt_job ts' = map jt_job ts \<and>
     (\<forall>i < length ts. Name (jt_job (ts ! i)) = Name (jt_job c) \<longrightarrow> ts' ! i = ts ! i)"
proof (induction ts arbitrary: ts' rule: forest_induct)
  case (Cons p cs ts)
  from Cons.prems show ?case
  proof (cases rule: attach_cases)
    case (same ts1)
    with Cons.IH(2) show ?thesis by (auto simp: forest_nodes_def nth_Cons split: nat.splits)
  next
    case (below cs')
    with findParent_nodes [OF below(2)] show ?thesis by (auto simp: forest_nodes_def nth_Cons split: nat.splits)
  next
    case (later ts1 cs1)
    with Cons.IH(2) [of ts1] show ?thesis by (auto simp: forest_nodes_def nth_Cons split: nat.splits)
  qed (auto simp: forest_nodes_def nth_Cons split: nat.splits)
qed simp

lemma attach_linked:
  "attach_child ts c = Some ts' \<Longrightarrow> list_all linked ts \<Longrightarrow> linked c \<Longrightarrow> list_all linked ts'"
proof (induction ts arbitrary: ts' rule: forest_induct)
  case (Cons p cs ts)
  from Cons.prems(1) show ?case
  proof (cases rule: attach_cases)
    case (same ts1)
    with Cons.IH(2) Cons.prems show ?thesis by auto
  next
    case (below cs')
    have "list_all linked (JNode p cs # ts)" by (rule Cons.prems(2))
    then show ?thesis
      using findParent_linked [of "[JNode p cs]" c True "[JNode p cs']"] below Cons.prems(3)
      by (auto simp: findParent_guard)
  next
    case (later ts1 cs1)
    with Cons.IH(2) [of ts1] Cons.prems show ?thesis by auto
  qed (use Cons.prems in \<open>auto simp: list_all_iff\<close>)
qed simp

lemma attach_finds:
  assumes "p \<in> set (forest_nodes (filter (\<lambda>t. Name (jt_job t) \<noteq> Name (jt_job c)) ts))"
    "Name p = ParentJob (jt_job c)"
  shows "\<exists>ts'. attach_child ts c = Some ts'"
  using assms(1)
proof (induction ts)
  case (Cons t ts)
  obtain q cs where t: "t = JNode q cs" by (cases t)
  obtain f cs1 where f: "findParentJobInChildJobs cs c = (f, cs1)" by fastforce
  from findParent_finds [OF f] show ?case
    using Cons assms(2) f by (cases f) (auto simp: t forest_nodes_def split: if_splits)
qed (simp add: forest_nodes_def)

section \<open>One step of the loop\<close>

lemma forest_nodes_remove:
  assumes "i < length ts"
  shows "mset (forest_nodes ts) = mset (forest_nodes (take i ts @ drop (i + 1) ts)) + mset (nodes (ts ! i))"
  by (subst id_take_nth_drop [OF assms]) (simp add: forest_nodes_def)

lemma step_sound:
  assumes "findParentJobAndValidateJob E jobs j = Inr (jobs', tp)" "list_all linked jobs"
  shows "j < length jobs" "Validate E (jt_job (jobs ! j)) = None"
    "mset (forest_nodes jobs') = mset (forest_nodes jobs)" "list_all linked jobs'"
    "tp \<longleftrightarrow> ParentJob (jt_job (jobs ! j)) = []"
    "map jt_job jobs' = (if tp then map jt_job jobs else take j (map jt_job jobs) @ drop (j + 1) (map jt_job jobs))"
proof -
  let ?c = "jobs ! j"
  show j: "j < length jobs" and v: "Validate E (jt_job ?c) = None"
    using assms(1) by (auto simp: findParentJobAndValidateJob_def Let_def split: if_splits option.splits)
  show tp: "tp \<longleftrightarrow> ParentJob (jt_job ?c) = []"
    using assms(1) j v by (auto simp: findParentJobAndValidateJob_def Let_def split: if_splits option.splits)
  have res: "mset (forest_nodes jobs') = mset (forest_nodes jobs) \<and> list_all linked jobs' \<and>
    map jt_job jobs' = (if tp then map jt_job jobs else take j (map jt_job jobs) @ drop (j + 1) (map jt_job jobs))"
  proof (cases "tp")
    case True
    with assms j v tp show ?thesis by (auto simp: findParentJobAndValidateJob_def)
  next
    case False
    with assms(1) j v tp obtain us where us: "attach_child jobs ?c = Some us"
      "jobs' = take j us @ drop (j + 1) us"
      by (auto simp: findParentJobAndValidateJob_def Let_def split: option.splits)
    note an = attach_nodes [OF us(1)]
    have "length us = length jobs" using an by (metis length_map)
    then have "mset (forest_nodes us) = mset (forest_nodes jobs') + mset (nodes ?c)"
      using forest_nodes_remove [of j us] j an us(2) by simp
    then have "mset (forest_nodes jobs') = mset (forest_nodes jobs)" using an by simp
    moreover have "linked ?c" using assms(2) j by (simp add: list_all_length)
    then have "list_all linked us" using attach_linked [OF us(1) assms(2)] by blast
    then have "list_all linked jobs'"
      unfolding us(2) by (auto simp: list_all_iff dest: in_set_takeD in_set_dropD)
    moreover have "map jt_job jobs' = take j (map jt_job jobs) @ drop (j + 1) (map jt_job jobs)"
      using an unfolding us(2) by (metis map_append take_map drop_map)
    ultimately show ?thesis using False by simp
  qed
  then show "mset (forest_nodes jobs') = mset (forest_nodes jobs)" "list_all linked jobs'"
    "map jt_job jobs' = (if tp then map jt_job jobs else take j (map jt_job jobs) @ drop (j + 1) (map jt_job jobs))"
    by blast+
qed

text \<open>The invariant of the loop, with \<open>n\<close> iterations to go.\<close>

definition tree_inv :: "'db env \<Rightarrow> nat \<Rightarrow> jtree list \<Rightarrow> nat \<Rightarrow> bool" where
  "tree_inv E n jobs j \<longleftrightarrow> length jobs = j + n \<and> list_all linked jobs \<and>
     (\<forall>x \<in> set (take j (map jt_job jobs)). ParentJob x = []) \<and>
     (\<forall>x \<in> set (forest_nodes jobs). Validate E x = None \<or> x \<in> set (drop j (map jt_job jobs)))"

lemma set_remove_nth:
  "j < length xs \<Longrightarrow> x \<in> set (drop j xs) \<Longrightarrow> x = xs ! j \<or> x \<in> set (drop (Suc j) xs)"
  by (metis Cons_nth_drop_Suc set_ConsD)

lemma step_inv:
  assumes "findParentJobAndValidateJob E jobs j = Inr (jobs', tp)" "tree_inv E (Suc n) jobs j"
  shows "tree_inv E n jobs' (if tp then j + 1 else j)"
proof -
  have lk: "list_all linked jobs" using assms(2) by (simp add: tree_inv_def)
  note s = step_sound [OF assms(1) lk]
  have sets: "set (forest_nodes jobs') = set (forest_nodes jobs)" using s(3) by (rule mset_eq_setD)
  have len: "length jobs = j + Suc n" using assms(2) by (simp add: tree_inv_def)
  have l': "length jobs' = (if tp then j + Suc n else j + n)"
    using arg_cong [OF s(6), of length] len by (auto split: if_splits)
  show ?thesis
  proof (cases tp)
    case True
    then have "take (Suc j) (map jt_job jobs) = take j (map jt_job jobs) @ [jt_job (jobs ! j)]"
      using s(1) by (simp add: take_Suc_conv_app_nth)
    with True assms(2) s l' sets set_remove_nth [of j "map jt_job jobs"] show ?thesis
      by (auto simp: tree_inv_def)
  next
    case False
    then have m: "take j (map jt_job jobs') = take j (map jt_job jobs)"
      "drop j (map jt_job jobs') = drop (Suc j) (map jt_job jobs)"
      using s(1,6) by (simp_all add: min_def)
    with False assms(2) s l' sets set_remove_nth [of j "map jt_job jobs"] show ?thesis
      by (auto simp: tree_inv_def)
  qed
qed

lemma loop_sound:
  "generate_loop n E jobs j = Inr ts \<Longrightarrow> tree_inv E n jobs j \<Longrightarrow>
     \<exists>j'. tree_inv E 0 ts j' \<and> mset (forest_nodes ts) = mset (forest_nodes jobs)"
proof (induction n arbitrary: jobs j)
  case (Suc n)
  then obtain jobs' tp where st: "findParentJobAndValidateJob E jobs j = Inr (jobs', tp)"
    "generate_loop n E jobs' (if tp then j + 1 else j) = Inr ts"
    by (auto split: sum.splits prod.splits)
  from Suc.IH [OF st(2) step_inv [OF st(1) Suc.prems(2)]] step_sound(3) [OF st(1)] Suc.prems(2)
  show ?case by (auto simp: tree_inv_def)
qed auto

section \<open>When the tree exists\<close>

text \<open>A rank that grows along the links of a tree is smallest at its root.\<close>

lemma linked_rank:
  assumes "linked t" "\<forall>x \<in> set (nodes t). Name x \<noteq> [] \<and> (ParentJob x \<noteq> [] \<longrightarrow> rank (ParentJob x) < (rank (Name x) :: nat))"
  shows "x \<in> set (nodes t) \<Longrightarrow> rank (Name (jt_job t)) \<le> rank (Name x)"
  using assms
proof (induction t arbitrary: x)
  case (JNode j cs)
  show ?case
  proof (cases "x = j")
    case False
    then obtain c where c: "c \<in> set cs" "x \<in> set (nodes c)" using JNode.prems(1) by auto
    with JNode have "rank (Name (jt_job c)) \<le> rank (Name x)" by auto
    moreover have "ParentJob (jt_job c) = Name j" "jt_job c \<in> set (nodes (JNode j cs))"
      using JNode.prems(2) c(1) nodes_root [of c] by auto
    then have "rank (Name j) < rank (Name (jt_job c))" using JNode.prems(3) by (metis nodes_root jtree.sel(1))
    ultimately show ?thesis by simp
  qed simp
qed

definition acyclic_jobs :: "(string \<Rightarrow> nat) \<Rightarrow> job list \<Rightarrow> bool" where
  "acyclic_jobs rank js \<longleftrightarrow>
     (\<forall>j \<in> set js. ParentJob j \<noteq> [] \<longrightarrow> rank (ParentJob j) < rank (Name j) \<and> ParentJob j \<in> Name ` set js)"

lemma step_complete:
  assumes inv: "tree_inv E (Suc n) jobs j" and nodes: "mset (forest_nodes jobs) = mset js"
    and valid: "\<forall>x \<in> set js. Validate E x = None" and acyc: "acyclic_jobs rank js"
  shows "\<exists>r. findParentJobAndValidateJob E jobs j = Inr r"
proof -
  let ?c = "jobs ! j"
  have j: "j < length jobs" and lk: "list_all linked jobs" using inv by (auto simp: tree_inv_def)
  have sets: "set (forest_nodes jobs) = set js" using nodes by (rule mset_eq_setD)
  have sub: "set (nodes t) \<subseteq> set js" if "t \<in> set jobs" for t
    using that sets by (auto simp: forest_nodes_def)
  have c: "jt_job ?c \<in> set js" using sub [of ?c] j nodes_root [of ?c] by auto
  show ?thesis
  proof (cases "ParentJob (jt_job ?c) = []")
    case True
    with j c valid show ?thesis by (intro exI [of _ "(jobs, True)"]) (simp add: findParentJobAndValidateJob_def)
  next
    case False
    with acyc c obtain p where p: "p \<in> set js" "Name p = ParentJob (jt_job ?c)"
      "rank (Name p) < rank (Name (jt_job ?c))" by (auto simp: acyclic_jobs_def)
    with sets obtain t where t: "t \<in> set jobs" "p \<in> set (nodes t)" by (auto simp: forest_nodes_def)
    have "Name x \<noteq> []" if "x \<in> set js" for x
      using valid that by (auto simp: Validate_def split: if_splits)
    then have "rank (Name (jt_job t)) \<le> rank (Name p)"
      using t lk sub [OF t(1)] acyc
      by (intro linked_rank) (auto simp: list_all_iff acyclic_jobs_def)
    with p(3) t have "p \<in> set (forest_nodes (filter (\<lambda>t. Name (jt_job t) \<noteq> Name (jt_job ?c)) jobs))"
      by (auto simp: forest_nodes_def)
    from attach_finds [OF this p(2)] obtain us where "attach_child jobs ?c = Some us" by blast
    with False j c valid show ?thesis
      by (intro exI [of _ "(take j us @ drop (j + 1) us, False)"]) (simp add: findParentJobAndValidateJob_def)
  qed
qed

lemma loop_complete:
  assumes "\<forall>x \<in> set js. Validate E x = None" "acyclic_jobs rank js"
  shows "tree_inv E n jobs j \<Longrightarrow> mset (forest_nodes jobs) = mset js \<Longrightarrow> \<exists>ts. generate_loop n E jobs j = Inr ts"
proof (induction n arbitrary: jobs j)
  case (Suc n)
  obtain jobs' tp where st: "findParentJobAndValidateJob E jobs j = Inr (jobs', tp)"
    using step_complete [OF Suc.prems assms] by fastforce
  have "list_all linked jobs" using Suc.prems(1) by (simp add: tree_inv_def)
  then have "mset (forest_nodes jobs') = mset js" using step_sound(3) [OF st] Suc.prems(2) by simp
  from Suc.IH [OF step_inv [OF st Suc.prems(1)] this] st show ?case by simp
qed simp

definition leaves :: "job list \<Rightarrow> jtree list" where
  "leaves js = map (\<lambda>j. JNode j []) js"

lemma leaves_inv: "tree_inv E (length js) (leaves js) 0" "forest_nodes (leaves js) = js"
  by (auto simp: tree_inv_def leaves_def forest_nodes_def comp_def list_all_iff)

text \<open>
  C35: \<open>generateJobTree\<close> arranges the jobs of a backup into trees and loses none. When it
  succeeds, every job has been validated and occurs exactly as often as in the input, the
  roots are the jobs without parent, and every other job is a child of a job whose name is
  its \<open>ParentJob\<close>.
\<close>

theorem generateJobTree_sound:
  assumes "generateJobTree E (leaves js) = Inr ts"
  shows "mset (forest_nodes ts) = mset js \<and> list_all linked ts \<and>
    (\<forall>t \<in> set ts. ParentJob (jt_job t) = []) \<and> (\<forall>j \<in> set js. Validate E j = None)"
proof -
  obtain j where "tree_inv E 0 ts j" "mset (forest_nodes ts) = mset js"
    using loop_sound [of "length js" E "leaves js" 0 ts] assms leaves_inv(1) [of E js] leaves_inv(2) [of js]
    by (auto simp: generateJobTree_def leaves_def)
  moreover have "set (forest_nodes ts) = set js" using calculation(2) by (rule mset_eq_setD)
  ultimately show ?thesis by (auto simp: tree_inv_def)
qed

text \<open>
  \<open>generateJobTree\<close> succeeds on every list of valid jobs whose parents are in the list and
  not in a cycle, in whatever order the jobs come.
\<close>

theorem generateJobTree_complete:
  assumes "\<forall>j \<in> set js. Validate E j = None" "acyclic_jobs rank js"
  shows "\<exists>ts. generateJobTree E (leaves js) = Inr ts"
  using loop_complete [OF assms, of "length js" "leaves js" 0] leaves_inv(1) [of E js] leaves_inv(2) [of js]
  by (simp add: generateJobTree_def leaves_def)

definition sample_grandchild :: job where
  "sample_grandchild = sample_job ''report'' ''@every 1m'' ''mail''"

lemma sample_grandchild_valid: "Validate (ref_env sample_now) sample_grandchild = None"
  by code_simp

theorem generateJobTree_complete_witness:
  "\<exists>ts. generateJobTree (ref_env sample_now) (leaves [sample_grandchild, sample_child, sample_parent]) = Inr ts"
proof (rule generateJobTree_complete)
  show "\<forall>j \<in> set [sample_grandchild, sample_child, sample_parent]. Validate (ref_env sample_now) j = None"
    using sample_grandchild_valid sample_child_ok sample_parent_ok by (simp add: job_ok_def)
  show "acyclic_jobs (\<lambda>n. if n = ''backup'' then 0 else if n = ''mail'' then 1 else 2)
      [sample_grandchild, sample_child, sample_parent]"
    by (simp add: acyclic_jobs_def sample_grandchild_def sample_job_def)
qed

theorem generateJobTree_sound_witness:
  "generateJobTree (ref_env sample_now) (leaves [sample_child, sample_parent]) =
     Inr [JNode sample_parent [JNode sample_child []]] \<and>
   mset (forest_nodes [JNode sample_parent [JNode sample_child []]]) = {#sample_child, sample_parent#}"
proof -
  have "generateJobTree (ref_env sample_now) (leaves [sample_child, sample_parent]) =
      Inr [JNode sample_parent [JNode sample_child []]]"
    using sample_child_ok sample_parent_ok
    by (simp add: generateJobTree_def leaves_def findParentJobAndValidateJob_def job_ok_def)
  from this generateJobTree_sound [OF this] show ?thesis by simp
qed

section \<open>Sending the jobs of a tree\<close>

text \<open>A client that also keeps the list of its calls, the latest first.\<close>

definition logged :: "('s \<Rightarrow> job \<Rightarrow> err \<times> 's) \<Rightarrow> 's \<times> (job \<times> bool) list \<Rightarrow> job \<Rightarrow> err \<times> 's \<times> (job \<times> bool) list" where
  "logged f sl j = (case f (fst sl) j of (e, s') \<Rightarrow> (e, s', (j, e = None) # snd sl))"

definition report :: "job \<times> bool \<Rightarrow> string" where
  "report c = (if snd c then ''success create '' else ''fail create '') @ Name (fst c)"

lemma report_simps:
  "report (j, True) = ''success create '' @ Name j" "report (j, False) = ''fail create '' @ Name j"
  by (simp_all add: report_def)

text \<open>Every call for a job with a parent comes after a successful call for the parent.\<close>

definition after_parent :: "(job \<times> bool) list \<Rightarrow> job \<Rightarrow> bool" where
  "after_parent log j \<longleftrightarrow> ParentJob j = [] \<or> (\<exists>p. (p, True) \<in> set log \<and> Name p = ParentJob j)"

primrec ordered :: "(job \<times> bool) list \<Rightarrow> bool" where
  "ordered [] \<longleftrightarrow> True"
| "ordered (c # log) \<longleftrightarrow> ordered log \<and> after_parent log (fst c)"

lemma after_parent_mono: "after_parent log j \<Longrightarrow> after_parent (new @ log) j"
  by (auto simp: after_parent_def)

lemma recursiveSetJob_log:
  assumes "list_all linked ts" "\<forall>t \<in> set ts. after_parent log (jt_job t)" "ordered log"
  shows "\<exists>new s'. recursiveSetJob (logged f) (s, log) ts = (map report (rev new), s', new @ log) \<and>
    ordered (new @ log) \<and> set (map fst new) \<subseteq> set (forest_nodes ts) \<and>
    ((\<forall>s j. fst (f s j) = None) \<longrightarrow> map fst (rev new) = forest_nodes ts)"
  using assms
proof (induction ts arbitrary: s log rule: forest_induct)
  case (Cons p cs ts)
  obtain e s1 where fe: "f s p = (e, s1)" by fastforce
  then have f: "logged f (s, log) p = (e, s1, (p, e = None) # log)" by (simp add: logged_def)
  let ?log1 = "(p, e = None) # log"
  have ord1: "ordered ?log1" using Cons.prems by simp
  show ?case
  proof (cases e)
    case (Some err)
    have "\<forall>t \<in> set ts. after_parent ?log1 (jt_job t)"
      using Cons.prems(2) after_parent_mono [of log _ "[(p, e = None)]"] by auto
    with Cons.IH(2) [OF _ _ ord1, of s1] Cons.prems(1) obtain new s' where n:
      "recursiveSetJob (logged f) (s1, ?log1) ts = (map report (rev new), s', new @ ?log1)"
      "ordered (new @ ?log1)" "set (map fst new) \<subseteq> set (forest_nodes ts)" by auto
    moreover have "\<not> (\<forall>s j. fst (f s j) = None)" using fe Some by (metis fst_conv option.distinct(1))
    ultimately show ?thesis using f Some
      by (intro exI [of _ "new @ [(p, False)]"] exI [of _ s']) (auto simp: report_simps forest_nodes_def)
  next
    case None
    have "\<forall>t \<in> set cs. after_parent ?log1 (jt_job t)" "list_all linked cs"
      using Cons.prems(1) None by (auto simp: after_parent_def list_all_iff)
    with Cons.IH(1) [OF _ _ ord1, of s1] obtain nc s2 where c:
      "recursiveSetJob (logged f) (s1, ?log1) cs = (map report (rev nc), s2, nc @ ?log1)"
      "ordered (nc @ ?log1)" "set (map fst nc) \<subseteq> set (forest_nodes cs)"
      "(\<forall>s j. fst (f s j) = None) \<longrightarrow> map fst (rev nc) = forest_nodes cs" by blast
    have "\<forall>t \<in> set ts. after_parent (nc @ ?log1) (jt_job t)"
      using Cons.prems(2) after_parent_mono [of log _ "nc @ [(p, e = None)]"] by auto
    with Cons.IH(2) [OF _ _ c(2), of s2] Cons.prems(1) obtain new s3 where n:
      "recursiveSetJob (logged f) (s2, nc @ ?log1) ts = (map report (rev new), s3, new @ nc @ ?log1)"
      "ordered (new @ nc @ ?log1)" "set (map fst new) \<subseteq> set (forest_nodes ts)"
      "(\<forall>s j. fst (f s j) = None) \<longrightarrow> map fst (rev new) = forest_nodes ts" by auto
    have "(if length cs > 0 then recursiveSetJob (logged f) (s1, ?log1) cs else ([], s1, ?log1)) =
        (map report (rev nc), s2, nc @ ?log1)"
      using c(1) by (cases cs) auto
    with f None c n show ?thesis
      by (intro exI [of _ "new @ nc @ [(p, True)]"] exI [of _ s3])
        (auto simp: report_simps forest_nodes_def)
  qed
qed (simp add: forest_nodes_def)

text \<open>
  \<open>recursiveSetJob\<close> sends the jobs of a tree from the root down. Whatever the client calls
  answer, its result reports every call in order, only jobs of the trees are sent, and no job
  is sent before its parent has been accepted; when every call succeeds, each job is sent
  once, in preorder.
\<close>

theorem recursiveSetJob_parents_first:
  assumes "list_all linked ts" "\<forall>t \<in> set ts. ParentJob (jt_job t) = []"
  shows "\<exists>calls s'. recursiveSetJob (logged f) (s, []) ts = (map report (rev calls), s', calls) \<and>
    ordered calls \<and> set (map fst calls) \<subseteq> set (forest_nodes ts) \<and>
    ((\<forall>s j. fst (f s j) = None) \<longrightarrow> map fst (rev calls) = forest_nodes ts)"
  using recursiveSetJob_log [OF assms(1), of "[]" f s] assms(2) by (auto simp: after_parent_def)

theorem recursiveSetJob_parents_first_witness:
  "\<exists>calls. recursiveSetJob (logged (\<lambda>s j. (None, ()))) ((), []) [JNode sample_parent [JNode sample_child []]] =
     (map report (rev calls), (), calls) \<and> map fst (rev calls) = [sample_parent, sample_child]"
  using recursiveSetJob_parents_first [of "[JNode sample_parent [JNode sample_child []]]" "\<lambda>s j. (None, ())" "()"]
  by (auto simp: forest_nodes_def)

end
