(* ===== verification/Api.thy ===== *)
theory Api
  imports Grpc_Client Job_Tree
begin

text \<open>
The HTTP API (\<open>src/dkron/api.go\<close>): one definition per handler, over the client of the cluster and the
local store. The framework gin is not modelled: a reply is the list of calls on its context.
\<close>

section \<open>Requests and replies\<close>

text \<open>
  The handlers talk to the client through the context of gin. What a handler does to the reply is
  the list of the calls it makes on that context, in their order; the framework turns them into the
  reply. \<open>BindFailed\<close> is a failed \<open>BindJSON\<close>, which aborts the request by itself.
\<close>

datatype body =
    JobBody job | JobsBody "job list" | ExecutionsBody "execution list" | MembersBody "member list"
  | MemberBody "member option" | PeersBody "server_parts list gomap" | TextBody string
  | StatsBody "(string \<times> string gomap) list"

datatype gin_call =
    Header string string | SetStatus int | AbortWithStatus int | AbortWithError int error
  | BindFailed error | WriteString string | JSON int body | IndentedJSON int body

definition StatusOK :: int where "StatusOK = 200"
definition StatusCreated :: int where "StatusCreated = 201"
definition StatusAccepted :: int where "StatusAccepted = 202"
definition StatusBadRequest :: int where "StatusBadRequest = 400"
definition StatusNotFound :: int where "StatusNotFound = 404"
definition StatusUnprocessableEntity :: int where "StatusUnprocessableEntity = 422"
definition StatusInternalServerError :: int where "StatusInternalServerError = 500"

lemmas http_status_defs = StatusOK_def StatusCreated_def StatusAccepted_def StatusBadRequest_def StatusNotFound_def
  StatusUnprocessableEntity_def StatusInternalServerError_def

text \<open>
  A request: the path parameter, the query, and what the decoders make of its body. \<open>rq_BindJSON\<close>
  decodes the body into a given job; the file of a restore may be missing, unreadable or no JSON.
\<close>

record request =
  rq_job :: string
  rq_URI :: string
  rq_pretty :: bool
  rq_runoncreate :: bool
  rq_metadata :: "string gomap"
  rq_BindJSON :: "job \<Rightarrow> job res"
  rq_FormFile :: "string res res"
  rq_Unmarshal :: "string \<Rightarrow> job list res"

text \<open>
  The agent of a transport: the state \<open>'w\<close> is that of the cluster, of which the local store and the
  answers of Raft and serf are views.
\<close>

record ('db, 'w) http_agent =
  ha_env :: "'db env"
  ha_remote :: "'w remote"
  ha_store :: "'w \<Rightarrow> 'db"
  ha_raft :: "'w raft_lib"
  ha_members :: "'w \<Rightarrow> member list"
  ha_local :: "'w \<Rightarrow> member"
  ha_serf_Stats :: "'w \<Rightarrow> string gomap"
  ha_peers :: "'w \<Rightarrow> server_parts list gomap"
  ha_Stop :: "'w \<Rightarrow> err \<times> 'w"
  ha_net :: net_lib
  ha_Region :: string
  ha_Version :: string
  ha_Message :: "error \<Rightarrow> string"
  ha_MarshalJSON :: "string list \<Rightarrow> string res"

abbreviation ha_leader :: "('db, 'w) http_agent \<Rightarrow> 'w \<Rightarrow> string" where
  "ha_leader h w \<equiv> r_Leader (ha_raft h) w"

definition renderJSON :: "request \<Rightarrow> int \<Rightarrow> body \<Rightarrow> gin_call list" where
  "renderJSON q status v = [if rq_pretty q then IndentedJSON status v else JSON status v]"

section \<open>The handlers\<close>

definition indexHandler :: "('db, 'w) http_agent \<Rightarrow> 'w \<Rightarrow> request \<Rightarrow> gin_call list" where
  "indexHandler h w q = renderJSON q StatusOK
     (StatsBody [(''agent'', [(''name'', m_Name (ha_local h w)), (''version'', ha_Version h)]),
                 (''serf'', ha_serf_Stats h w), (''tags'', m_Tags (ha_local h w))])"

definition jobsHandler :: "('db, 'w) http_agent \<Rightarrow> 'w \<Rightarrow> request \<Rightarrow> gin_call list" where
  "jobsHandler h w q =
     (case GetJobs (ha_env h) (ha_store h w) (Some (rq_metadata q)) of
        Inl e \<Rightarrow> []
      | Inr jobs \<Rightarrow> renderJSON q StatusOK (JobsBody jobs))"

definition jobGetHandler :: "('db, 'w) http_agent \<Rightarrow> 'w \<Rightarrow> request \<Rightarrow> gin_call list" where
  "jobGetHandler h w q =
     (case GetJob (ha_env h) (ha_store h w) (rq_job q) of
        Inl e \<Rightarrow> [AbortWithStatus StatusNotFound]
      | Inr job \<Rightarrow> renderJSON q StatusOK (JobBody job))"

text \<open>The job a request starts from: all fields zero but the concurrency.\<close>

definition empty_job :: job where
  "empty_job = \<lparr>Name = [], DisplayName = [], Timezone = [], Schedule = [], Owner = [], OwnerEmail = [],
     SuccessCount = 0, ErrorCount = 0, LastSuccess = \<lparr>hasValue = False, nt_time = zero_time\<rparr>,
     LastError = \<lparr>hasValue = False, nt_time = zero_time\<rparr>, Disabled = False, Tags = [], Metadata = [],
     Retries = 0, DependentJobs = [], ParentJob = [], Processors = [], Concurrency = ConcurrencyAllow,
     Executor = [], ExecutorConfig = [], Status = [], Next = zero_time\<rparr>"

definition jobCreateOrUpdateHandler :: "('db, 'w) http_agent \<Rightarrow> 'w \<Rightarrow> request \<Rightarrow> gin_call list \<times> 'w" where
  "jobCreateOrUpdateHandler h w q =
     (case rq_BindJSON q empty_job of
        Inl e \<Rightarrow> ([BindFailed e, WriteString (''Unable to parse payload: '' @ ha_Message h e @ ''.'')], w)
      | Inr job \<Rightarrow>
          (case Validate (ha_env h) job of
             Some e \<Rightarrow>
               ([AbortWithStatus StatusBadRequest, WriteString (''Job contains invalid value: '' @ ha_Message h e @ ''.'')], w)
           | None \<Rightarrow>
               (case client_SetJob (ha_remote h) (ha_env h) w (ha_leader h w) job of
                  (Some e, w1) \<Rightarrow>
                    ([AbortWithStatus (if ha_Message h e = ha_Message h ErrParentJobNotFound then StatusNotFound
                                       else StatusInternalServerError),
                      WriteString (ha_Message h e)], w1)
                | (None, w1) \<Rightarrow>
                    (Header ''Location'' (rq_URI q @ ''/'' @ Name job) # renderJSON q StatusCreated (JobBody job),
                     if rq_runoncreate q then snd (client_RunJob (ha_remote h) (ha_env h) w1 (ha_leader h w1) (Name job)) else w1))))"

definition jobDeleteHandler :: "('db, 'w) http_agent \<Rightarrow> 'w \<Rightarrow> request \<Rightarrow> gin_call list \<times> 'w" where
  "jobDeleteHandler h w q =
     (case client_DeleteJob (ha_remote h) (ha_env h) w (ha_leader h w) (rq_job q) of
        (Inl e, w1) \<Rightarrow> ([AbortWithError StatusNotFound e], w1)
      | (Inr job, w1) \<Rightarrow> (renderJSON q StatusOK (JobBody job), w1))"

definition jobRunHandler :: "('db, 'w) http_agent \<Rightarrow> 'w \<Rightarrow> request \<Rightarrow> gin_call list \<times> 'w" where
  "jobRunHandler h w q =
     (case client_RunJob (ha_remote h) (ha_env h) w (ha_leader h w) (rq_job q) of
        (Inl e, w1) \<Rightarrow> ([AbortWithError StatusNotFound e], w1)
      | (Inr job, w1) \<Rightarrow>
          ([Header ''Location'' (rq_URI q), SetStatus StatusAccepted] @ renderJSON q StatusOK (JobBody job), w1))"

definition restoreHandler :: "('db, 'w) http_agent \<Rightarrow> 'w \<Rightarrow> request \<Rightarrow> gin_call list \<times> 'w" where
  "restoreHandler h w q =
     (case rq_FormFile q of
        Inl e \<Rightarrow> ([AbortWithError StatusNotFound e], w)
      | Inr file \<Rightarrow>
          (case file of
             Inl e \<Rightarrow> ([AbortWithError StatusBadRequest e], w)
           | Inr data \<Rightarrow>
               (case rq_Unmarshal q data of
                  Inl e \<Rightarrow> ([AbortWithError StatusBadRequest e], w)
                | Inr jobs \<Rightarrow>
                    (case generateJobTree (ha_env h) (leaves jobs) of
                       Inl e \<Rightarrow> ([AbortWithError StatusBadRequest e], w)
                     | Inr jobTree \<Rightarrow>
                         (case recursiveSetJob (\<lambda>w job. client_SetJob (ha_remote h) (ha_env h) w (ha_leader h w) job) w jobTree of
                            (result, w1) \<Rightarrow>
                              (case ha_MarshalJSON h result of
                                 Inl e \<Rightarrow> ([AbortWithError StatusBadRequest e], w1)
                               | Inr resp \<Rightarrow> (renderJSON q StatusOK (TextBody resp), w1)))))))"

definition executionsHandler :: "('db, 'w) http_agent \<Rightarrow> 'w \<Rightarrow> request \<Rightarrow> gin_call list" where
  "executionsHandler h w q =
     (case GetJob (ha_env h) (ha_store h w) (rq_job q) of
        Inl e \<Rightarrow> [AbortWithError StatusNotFound e]
      | Inr job \<Rightarrow>
          (case GetExecutions (ha_env h) (ha_store h w) (Name job) of
             Inl e \<Rightarrow> if e = ErrNotFound then renderJSON q StatusOK (ExecutionsBody []) else []
           | Inr exs \<Rightarrow> renderJSON q StatusOK (ExecutionsBody exs)))"

definition membersHandler :: "('db, 'w) http_agent \<Rightarrow> 'w \<Rightarrow> request \<Rightarrow> gin_call list" where
  "membersHandler h w q = renderJSON q StatusOK (MembersBody (ha_members h w))"

text \<open>After an error the handler goes on and renders the missing member as well.\<close>

definition leaderHandler :: "('db, 'w) http_agent \<Rightarrow> 'w \<Rightarrow> request \<Rightarrow> gin_call list" where
  "leaderHandler h w q =
     (case leaderMember (ha_raft h) w (ha_members h w) of
        Inl e \<Rightarrow> [AbortWithError StatusInternalServerError e, AbortWithStatus StatusNotFound] @
                renderJSON q StatusOK (MemberBody None)
      | Inr m \<Rightarrow> renderJSON q StatusOK (MemberBody (Some m)))"

definition isLeaderHandler :: "('db, 'w) http_agent \<Rightarrow> 'w \<Rightarrow> request \<Rightarrow> gin_call list" where
  "isLeaderHandler h w q =
     (if r_IsLeader (ha_raft h) w then renderJSON q StatusOK (TextBody ''I am a leader'')
      else renderJSON q StatusNotFound (TextBody ''I am a follower''))"

definition leaveHandler :: "('db, 'w) http_agent \<Rightarrow> 'w \<Rightarrow> request \<Rightarrow> gin_call list \<times> 'w" where
  "leaveHandler h w q =
     (case ha_Stop h w of
        (e, w1) \<Rightarrow>
          ((case e of None \<Rightarrow> [] | Some e' \<Rightarrow> [AbortWithError StatusInternalServerError e']) @
           renderJSON q StatusOK (PeersBody (ha_peers h w1)), w1))"

definition jobToggleHandler :: "('db, 'w) http_agent \<Rightarrow> 'w \<Rightarrow> request \<Rightarrow> gin_call list \<times> 'w" where
  "jobToggleHandler h w q =
     (case GetJob (ha_env h) (ha_store h w) (rq_job q) of
        Inl e \<Rightarrow> ([AbortWithError StatusNotFound e], w)
      | Inr job0 \<Rightarrow>
          (let job = job0\<lparr>Disabled := \<not> Disabled job0\<rparr> in
           case client_SetJob (ha_remote h) (ha_env h) w (ha_leader h w) job of
             (Some e, w1) \<Rightarrow> ([AbortWithError StatusUnprocessableEntity e], w1)
           | (None, w1) \<Rightarrow> (Header ''Location'' (rq_URI q) # renderJSON q StatusOK (JobBody job), w1)))"

text \<open>The active executions of the servers, sorted by their start; the sort is stable.\<close>

definition busyHandler :: "('db, 'w) http_agent \<Rightarrow> 'w \<Rightarrow> request \<Rightarrow> gin_call list" where
  "busyHandler h w q =
     (case agent_GetActiveExecutions (client_GetActiveExecutions (ha_remote h) w) (ha_net h) (ha_Region h) (ha_members h w) of
        Inl e \<Rightarrow> [AbortWithError StatusInternalServerError e]
      | Inr exs \<Rightarrow>
          renderJSON q StatusOK (ExecutionsBody (sort_key ex_StartedAt (map (NewExecutionFromProto (ha_env h)) exs))))"


section \<open>Only valid jobs reach the cluster\<close>

lemma generated_valid:
  assumes "generateJobTree E (leaves js) = Inr ts"
  shows "\<forall>j \<in> set js. Validate E j = None"
proof -
  obtain j where "tree_inv E 0 ts j" "mset (forest_nodes ts) = mset js"
    using loop_sound [of "length js" E "leaves js" 0 ts] assms leaves_inv(1) [of E js] leaves_inv(2) [of js]
    by (auto simp: generateJobTree_def leaves_def)
  moreover have "set (forest_nodes ts) = set js" using calculation(2) by (rule mset_eq_setD)
  ultimately show ?thesis by (auto simp: tree_inv_def)
qed

text \<open>
  C36: A request with an invalid job changes nothing and is refused. For the creation of a job and for
  the restore of a file of jobs: if the job, or one of the jobs of the file, is not valid, the state
  of the cluster is as before, and the first call on the reply aborts with status 400.
\<close>

theorem invalid_jobs_refused:
  "(\<forall>j e. rq_BindJSON q empty_job = Inr j \<longrightarrow> Validate (ha_env h) j = Some e \<longrightarrow>
      (\<exists>msg. jobCreateOrUpdateHandler h w q = ([AbortWithStatus 400, WriteString msg], w))) \<and>
   (\<forall>data js j e. rq_FormFile q = Inr (Inr data) \<longrightarrow> rq_Unmarshal q data = Inr js \<longrightarrow> j \<in> set js \<longrightarrow>
      Validate (ha_env h) j = Some e \<longrightarrow> (\<exists>e'. restoreHandler h w q = ([AbortWithError 400 e'], w)))"
proof (intro conjI allI impI)
  fix j e assume "rq_BindJSON q empty_job = Inr j" "Validate (ha_env h) j = Some e"
  then show "\<exists>msg. jobCreateOrUpdateHandler h w q = ([AbortWithStatus 400, WriteString msg], w)"
    by (simp add: jobCreateOrUpdateHandler_def StatusBadRequest_def)
next
  fix data js j e
  assume upload: "rq_FormFile q = Inr (Inr data)" "rq_Unmarshal q data = Inr js"
    and bad: "j \<in> set js" "Validate (ha_env h) j = Some e"
  then obtain e' where "generateJobTree (ha_env h) (leaves js) = Inl e'"
    using generated_valid [of "ha_env h" js] by (cases "generateJobTree (ha_env h) (leaves js)") auto
  with upload show "\<exists>e'. restoreHandler h w q = ([AbortWithError 400 e'], w)"
    by (simp add: restoreHandler_def StatusBadRequest_def)
qed

section \<open>Creating a job and reading it back\<close>

text \<open>The cluster as the leader sees it that serves its own requests.\<close>

definition leader_remote ::
    "('db, 'c, 'r) world \<Rightarrow> ('db, 'c, 'r) server remote \<Rightarrow> ('db, 'c, 'r) server remote" where
  "leader_remote W M = M\<lparr>dial := (\<lambda>_ _. None), call_SetJob := (\<lambda>s _ pj. grpc_SetJob W s (Some pj)),
     call_DeleteJob := (\<lambda>s _ n. grpc_DeleteJob W s n), call_GetJob := (\<lambda>s _ n. grpc_GetJob W s n)\<rparr>"

text \<open>Two jobs with the same definition: they differ in what the executions record and in the next run.\<close>

definition same_definition :: "job \<Rightarrow> job \<Rightarrow> bool" where
  "same_definition i j \<longleftrightarrow>
     i = j\<lparr>SuccessCount := SuccessCount i, ErrorCount := ErrorCount i, LastSuccess := LastSuccess i,
           LastError := LastError i, Status := Status i, Next := Next i\<rparr>"

lemma same_definition_fields:
  assumes "same_definition i j"
  shows "Name i = Name j" "Disabled i = Disabled j" "ParentJob i = ParentJob j" "Schedule i = Schedule j"
  using assms by (cases i; cases j; simp add: same_definition_def)+

lemma keep_stored_same: "same_definition (keep_stored ej j False) j"
  by (simp add: same_definition_def keep_stored_def Let_def)

lemma same_definition_Next: "same_definition k j \<Longrightarrow> same_definition (k\<lparr>Next := n\<rparr>) j"
  by (cases k; cases j) (simp add: same_definition_def)

lemma stored_job_same:
  assumes "stored_job E ejo j False = Inr j'"
  shows "same_definition j' j"
proof -
  have "j' = (keep_stored (found_job E ejo) j False)\<lparr>Next := Next j'\<rparr>"
    using next_run_InrD(1) assms unfolding stored_job_def by blast
  then show ?thesis using same_definition_Next [OF keep_stored_same] by metis
qed

text \<open>On a family the only error that storing a valid job can give is a missing parent.\<close>

lemma SetJob_valid:
  assumes "lawful_env E" "jobs_ok E d" "representable E j" "pb_job_utf8 (ToProto E j)" "next_ok E j"
    and fam: "family (jobs_of E d)" "keeps_dependents (jobs_of E d) j c" and val: "Validate E j = None"
    and set: "SetJob E d j c = (e, d')" "e \<noteq> Some ErrParentJobNotFound"
  shows "jobs_ok E d' \<and> family (jobs_of E d') \<and>
    (\<exists>j'. jobs_of E d' (Name j) = Some j' \<and> stored_job E (jobs_of E d (Name j)) j c = Inr j')"
proof -
  have d': "e = fst (spec_SetJob E (jobs_of E d) j c)" "jobs_ok E d'" "jobs_of E d' = snd (spec_SetJob E (jobs_of E d) j c)"
    using lawful_env.SetJob_n_refines [OF assms(1-5), of 0 c] set(1) by (auto simp: SetJob_def numeral_2_eq_2)
  obtain j' where j': "stored_job E (jobs_of E d (Name j)) j c = Inr j'" using stored_job_valid [OF val] by blast
  note spec = spec_SetJob_family [OF fam(1) lawful_env.jobs_ok_named [OF assms(1,2)] fam(2), of E]
  have "e = None" using spec_SetJob_valid_errors [where J = "jobs_of E d", OF val j'] d'(1) set(2) by auto
  then show ?thesis using spec d' by simp
qed


text \<open>What a successful \<open>SetJob\<close> of the leader leaves in the store and in the scheduler.\<close>

lemma leader_SetJob_stored:
  assumes log: "lawful_log E (w_apply W) pro T" and W: "w_env W = E"
    and store: "jobs_ok E (sv_db s)" "family (jobs_of E (sv_db s))"
    and job: "job_ok E j" "\<And>t. t \<in> T \<Longrightarrow> next_ok (E\<lparr>now := t\<rparr>) j" "keeps_dependents (jobs_of E (sv_db s)) j False"
    and sent: "grpc_SetJob W s (Some (ToProto E j)) = (Inr (), s')"
  shows "\<exists>j'. GetJob E (sv_db s') (Name j) = Inr j' \<and> same_definition j' j \<and>
    jobs_ok E (sv_db s') \<and> family (jobs_of E (sv_db s'))"
proof -
  have val: "Validate E j = None" and rep: "representable E j" "pb_job_utf8 (ToProto E j)"
    using job(1) by (simp_all add: job_ok_def)
  obtain d sc where d: "agent_applySetJob (w_apply W) E (sv_db s) (ToProto E j) = (None, d)" "s' = s\<lparr>sv_db := d, sv_sched := sc\<rparr>"
    using sent by (auto simp: grpc_SetJob_def W split: option.splits sum.splits prod.splits)
  obtain t e where T: "t \<in> T" and t: "SetJob (E\<lparr>now := t\<rparr>) (sv_db s) j False = (e, d)" "e \<noteq> Some ErrParentJobNotFound"
    using lawful_log.agent_applySetJob_ok [OF log rep(1) d(1)] by blast
  have E: "lawful_env E" using log by (simp add: lawful_log_def)
  have after: "jobs_ok E d \<and> family (jobs_of E d) \<and>
    (\<exists>j'. jobs_of E d (Name j) = Some j' \<and> stored_job (E\<lparr>now := t\<rparr>) (jobs_of E (sv_db s) (Name j)) j False = Inr j')"
    using SetJob_valid [OF now_lawful [OF E, of t], of "sv_db s" j False e d] store rep job(3) job(2) [OF T] val t by simp
  then obtain j' where j': "jobs_of E d (Name j) = Some j'" "same_definition j' j"
    using stored_job_same by blast
  have "GetJob E d (Name j) = Inr j'"
    using lawful_env.GetJob_eq [OF E, of d "Name j"] after j'(1) by simp
  then show ?thesis using after d(2) j'(2) by simp
qed

lemma leader_SetJob_scheduled:
  assumes cron: "cron_engine (w_cron W) parser last_id" "sched_ok (w_cron W) last_id (sv_sched s)" "Cron (sv_sched s) = Some c"
    and "w_env W = E" "representable E j" "grpc_SetJob W s (Some (ToProto E j)) = (Inr (), s')"
  shows "\<exists>i. sched_ok (w_cron W) last_id (sv_sched s') \<and> entries (w_cron W) (sv_sched s') =
    others (w_cron W) (sv_sched s) (Name j) \<union> (if schedulable (parser c) j then {(i, tz_schedule j, j)} else {})"
proof -
  have "AddJob (w_cron W) (sv_sched s) j = Inr (None, sv_sched s')"
    using assms(4-6) by (auto simp: grpc_SetJob_def representable_def split: option.splits sum.splits prod.splits)
  then show ?thesis using cron_engine.AddJob_ok [OF cron, of j] by (metis Inr_inject prod.inject)
qed

text \<open>
  C11: What is created can be read back. On the leader, with a store whose jobs are a family, a request
  that creates or updates a job and is answered with its location has stored it: reading the job
  returns the definition that was sent, with the recorded results and the next run of the store, and
  the jobs are a family again.
\<close>

theorem create_then_get:
  assumes log: "lawful_log (ha_env h) (w_apply W) pro T" and leader: "w_env W = ha_env h" "ha_remote h = leader_remote W M" "ha_store h = sv_db"
    and store: "jobs_ok (ha_env h) (sv_db s)" "family (jobs_of (ha_env h) (sv_db s))"
    and job: "rq_BindJSON q empty_job = Inr j" "representable (ha_env h) j" "pb_job_utf8 (ToProto (ha_env h) j)"
      "\<And>t. t \<in> T \<Longrightarrow> next_ok ((ha_env h)\<lparr>now := t\<rparr>) j" "keeps_dependents (jobs_of (ha_env h) (sv_db s)) j False"
    and run: "\<not> rq_runoncreate q" "jobCreateOrUpdateHandler h s q = (calls, s')" "Header ''Location'' loc \<in> set calls"
  shows "\<exists>j'. jobGetHandler h s' (q'\<lparr>rq_job := Name j\<rparr>) = renderJSON q' StatusOK (JobBody j') \<and> same_definition j' j \<and>
    family (jobs_of (ha_env h) (sv_db s'))"
proof -
  let ?E = "ha_env h"
  have val: "Validate ?E j = None"
    using run(2,3) job(1) by (auto simp: jobCreateOrUpdateHandler_def split: option.splits)
  have sent: "grpc_SetJob W s (Some (ToProto ?E j)) = (Inr (), s')"
    using run job(1) val leader
    by (auto simp: jobCreateOrUpdateHandler_def client_SetJob_def leader_remote_def split: option.splits prod.splits sum.splits)
  have "job_ok ?E j" using val job(2,3) by (simp add: job_ok_def)
  from leader_SetJob_stored [OF log leader(1) store this job(4,5) sent] show ?thesis
    using leader(3) by (auto simp: jobGetHandler_def renderJSON_def)
qed

lemma job_ok_Disabled:
  assumes "job_ok E j"
  shows "job_ok E (j\<lparr>Disabled := b\<rparr>)"
proof -
  have "Validate E (j\<lparr>Disabled := b\<rparr>) = Validate E j" 
    by (simp add: Validate_def cong: option.case_cong)
  then show ?thesis using assms by (simp add: job_ok_def representable_iff pb_job_utf8_ToProto)
qed

text \<open>
  C20: Toggling a job. When a request to toggle a stored job succeeds on the leader, reading the job
  gives the same definition with the flag \<open>Disabled\<close> inverted, and the scheduler follows: a job
  that was enabled has no entry any more, and one that was disabled has exactly one entry, under its
  schedule, if it has no parent and the schedule parses. The entries of the other jobs stay, and the
  jobs are a family again.
\<close>

theorem toggle_flips:
  assumes log: "lawful_log (ha_env h) (w_apply W) pro T" and leader: "w_env W = ha_env h" "ha_remote h = leader_remote W M" "ha_store h = sv_db"
    and store: "jobs_ok (ha_env h) (sv_db s)" "family (jobs_of (ha_env h) (sv_db s))"
    and cron: "cron_engine (w_cron W) parser last_id" "sched_ok (w_cron W) last_id (sv_sched s)" "Cron (sv_sched s) = Some c"
    and job: "jobs_of (ha_env h) (sv_db s) (rq_job q) = Some j" "\<And>t. t \<in> T \<Longrightarrow> next_ok ((ha_env h)\<lparr>now := t\<rparr>) j"
    and run: "jobToggleHandler h s q = (calls, s')" "Header ''Location'' loc \<in> set calls"
  shows "\<exists>j' i. jobGetHandler h s' q = renderJSON q StatusOK (JobBody j') \<and> same_definition j' (j\<lparr>Disabled := \<not> Disabled j\<rparr>) \<and>
    family (jobs_of (ha_env h) (sv_db s')) \<and> sched_ok (w_cron W) last_id (sv_sched s') \<and>
    entries (w_cron W) (sv_sched s') = others (w_cron W) (sv_sched s) (rq_job q) \<union>
      (if Disabled j \<and> schedulable (parser c) (j\<lparr>Disabled := False\<rparr>) then {(i, tz_schedule j, j\<lparr>Disabled := False\<rparr>)} else {})"
proof -
  let ?E = "ha_env h" and ?t = "j\<lparr>Disabled := \<not> Disabled j\<rparr>"
  have E: "lawful_env ?E" using log by (simp add: lawful_log_def)
  have get: "GetJob ?E (sv_db s) (rq_job q) = Inr j" and nm: "Name j = rq_job q" and ok: "job_ok ?E j"
    using lawful_env.GetJob_eq [OF E store(1), of "rq_job q"] job(1) lawful_env.jobs_of_SomeD [OF E store(1) job(1)] by simp_all
  have sent: "grpc_SetJob W s (Some (ToProto ?E ?t)) = (Inr (), s')"
    using run leader get
    by (auto simp: jobToggleHandler_def client_SetJob_def leader_remote_def Let_def split: option.splits prod.splits sum.splits)
  have tok: "job_ok ?E ?t" using ok by (rule job_ok_Disabled)
  have nxt: "next_ok (?E\<lparr>now := t\<rparr>) ?t" if "t \<in> T" for t
    using job(2) [OF that] GetNext_cong [of ?t j "?E\<lparr>now := t\<rparr>"] by (simp add: next_ok_def)
  have deps: "keeps_dependents (jobs_of ?E (sv_db s)) ?t False"
    by (simp add: keeps_dependents_def deps_of_def nm job(1))
  obtain j' where j': "GetJob ?E (sv_db s') (rq_job q) = Inr j'" "same_definition j' ?t" "family (jobs_of ?E (sv_db s'))"
    using leader_SetJob_stored [OF log leader(1) store tok nxt deps sent] nm by auto
  obtain i where "sched_ok (w_cron W) last_id (sv_sched s')" "entries (w_cron W) (sv_sched s') =
      others (w_cron W) (sv_sched s) (rq_job q) \<union> (if schedulable (parser c) ?t then {(i, tz_schedule ?t, ?t)} else {})"
    using leader_SetJob_scheduled [OF cron leader(1) _ sent] tok nm by (auto simp: job_ok_def)
  moreover have "tz_schedule ?t = tz_schedule j" by (simp add: tz_schedule_def)
  ultimately show ?thesis
    using j' leader(3) by (cases "Disabled j") (auto simp: jobGetHandler_def schedulable_def)
qed

section \<open>Further replies\<close>

text \<open>
  The list of the active executions is complete and sorted by their start.
\<close>

lemma busyHandler_sorted:
  assumes "agent_GetActiveExecutions (client_GetActiveExecutions (ha_remote h) w) (ha_net h) (ha_Region h) (ha_members h w) = Inr exs"
  shows "\<exists>xs. busyHandler h w q = renderJSON q StatusOK (ExecutionsBody xs) \<and> sorted (map ex_StartedAt xs) \<and>
    mset xs = mset (map (NewExecutionFromProto (ha_env h)) exs)"
  by (rule exI [of _ "sort_key ex_StartedAt (map (NewExecutionFromProto (ha_env h)) exs)"])
    (simp add: busyHandler_def assms)

text \<open>
  When there is no leader, three calls are made on one reply: two that abort it, with different
  status codes, and one that renders a missing member with status 200.
\<close>

theorem leaderHandler_no_leader:
  assumes "leaderMember (ha_raft h) w (ha_members h w) = Inl e" "\<not> rq_pretty q"
  shows "leaderHandler h w q = [AbortWithError 500 e, AbortWithStatus 404, JSON 200 (MemberBody None)]"
  using assms by (simp add: leaderHandler_def renderJSON_def http_status_defs)

text \<open>A job that was started is answered with status 200, after the status was set to 202.\<close>

theorem jobRunHandler_status:
  assumes "client_RunJob (ha_remote h) (ha_env h) w (ha_leader h w) (rq_job q) = (Inr job, w')" "\<not> rq_pretty q"
  shows "jobRunHandler h w q = ([Header ''Location'' (rq_URI q), SetStatus 202, JSON 200 (JobBody job)], w')"
  using assms by (simp add: jobRunHandler_def renderJSON_def http_status_defs)


section \<open>Concrete requests\<close>

definition sample_http :: "(ref_db, (ref_db, ref_cron_state, raft_server list) server) http_agent" where
  "sample_http = \<lparr>ha_env = ref_env sample_now,
     ha_remote = leader_remote sample_world \<lparr>dial = (\<lambda>_ _. None), call_ExecutionDone = (\<lambda>s _ _. (Inr Saved, s)),
       call_GetJob = (\<lambda>_ _ _. Inl ErrNotFound), call_SetJob = (\<lambda>s _ _. (Inr (), s)), call_DeleteJob = (\<lambda>s _ _. (Inl ErrNotFound, s)),
       call_Leave = (\<lambda>s _. (None, s)), call_RunJob = (\<lambda>s _ _. (Inl ErrNotFound, s)), call_RaftGetConfiguration = (\<lambda>_ _. Inr []),
       call_RaftRemovePeerByID = (\<lambda>s _ _. (Inr (), s)), call_GetActiveExecutions = (\<lambda>_ _. Inr []),
       call_SetExecution = (\<lambda>s _ _. (Inr (), s)), call_AgentRun = (\<lambda>s _ _ _. (Inr ([], None), s))\<rparr>,
     ha_store = sv_db,
     ha_raft = \<lparr>r_LastIndex = (\<lambda>_. None), r_BootstrapCluster = (\<lambda>s _. (None, s)), r_GetConfiguration = (\<lambda>s. Inr (sv_raft s)),
       r_RemoveServer = (\<lambda>s _. (None, s)), r_AddVoter = (\<lambda>s _ _. (None, s)), r_Leader = (\<lambda>_. ''10.0.0.1:6868''), r_IsLeader = (\<lambda>_. True)\<rparr>,
     ha_members = (\<lambda>_. sample_pool), ha_local = (\<lambda>_. sample_member ''n1'' ''10.0.0.1''), ha_serf_Stats = (\<lambda>_. []), ha_peers = (\<lambda>_. []),
     ha_Stop = (\<lambda>s. (None, s)), ha_net = ref_net, ha_Region = ''global'', ha_Version = ''devel'', ha_Message = (\<lambda>_. []),
     ha_MarshalJSON = (\<lambda>_. Inr [])\<rparr>"

definition sample_request :: "job \<Rightarrow> request" where
  "sample_request j = \<lparr>rq_job = [], rq_URI = ''/v1/jobs'', rq_pretty = False, rq_runoncreate = False, rq_metadata = [],
     rq_BindJSON = (\<lambda>_. Inr j), rq_FormFile = Inl ErrNotFound, rq_Unmarshal = (\<lambda>_. Inr [])\<rparr>"

lemma sample_created:
  fixes j defines "j \<equiv> sample_job ''backup'' ''@every 1m'' []"
  shows "\<exists>s'. grpc_SetJob sample_world (sample_srv []) (Some (ToProto (ref_env sample_now) j)) = (Inr (), s') \<and>
    jobCreateOrUpdateHandler sample_http (sample_srv []) (sample_request j) =
      (Header ''Location'' (''/v1/jobs/'' @ Name j) # renderJSON (sample_request j) StatusCreated (JobBody j), s')"
proof -
  obtain s' where s': "grpc_SetJob sample_world (sample_srv []) (Some (ToProto (ref_env sample_now) j)) = (Inr (), s')"
    using sample_grpc_SetJob unfolding j_def by blast
  obtain M where M: "ha_remote sample_http = leader_remote sample_world M" by (simp add: sample_http_def)
  have "ha_env sample_http = ref_env sample_now" by (simp add: sample_http_def)
  then show ?thesis
    using s' sample_valid unfolding j_def
    by (simp add: jobCreateOrUpdateHandler_def client_SetJob_def sample_request_def M) (simp add: leader_remote_def)
qed

theorem create_then_get_witness:
  "\<exists>calls s' j'. jobCreateOrUpdateHandler sample_http (sample_srv []) (sample_request (sample_job ''backup'' ''@every 1m'' [])) = (calls, s') \<and>
     jobGetHandler sample_http s' ((sample_request empty_job)\<lparr>rq_job := ''backup''\<rparr>) =
       renderJSON (sample_request empty_job) StatusOK (JobBody j') \<and> same_definition j' (sample_job ''backup'' ''@every 1m'' [])"
proof -
  let ?j = "sample_job ''backup'' ''@every 1m'' []" and ?E = "ref_env sample_now"
  obtain s' where run: "jobCreateOrUpdateHandler sample_http (sample_srv []) (sample_request ?j) =
      (Header ''Location'' (''/v1/jobs/'' @ Name ?j) # renderJSON (sample_request ?j) StatusCreated (JobBody ?j), s')"
    using sample_created by blast
  have env: "ha_env sample_http = ?E" "ha_store sample_http = sv_db" by (simp_all add: sample_http_def)
  obtain M where M: "ha_remote sample_http = leader_remote sample_world M" by (simp add: sample_http_def)
  have log: "lawful_log (ha_env sample_http) (w_apply sample_world) (\<lambda>_. None) {sample_now}"
    using sample_lawful_log by (simp add: env)
  have nxt: "next_ok (?E\<lparr>now := t\<rparr>) ?j" if "t \<in> {sample_now}" for t
  proof -
    have "?E\<lparr>now := t\<rparr> = ?E" using that by (simp add: ref_env_def)
    then show ?thesis using sample_hyps(3) by simp
  qed
  have fam: "family (jobs_of ?E [])" "keeps_dependents (jobs_of ?E []) ?j False"
    by (simp_all add: family_def keeps_dependents_def deps_of_def sample_job_def)
  have "Name ?j = ''backup''" by (simp add: sample_job_def)
  with create_then_get [OF log _ M _ _ _ _ _ _ _ _ _ run, of ?j "''/v1/jobs/'' @ Name ?j" "sample_request empty_job"]
  have "\<exists>j'. jobGetHandler sample_http s' ((sample_request empty_job)\<lparr>rq_job := ''backup''\<rparr>) =
       renderJSON (sample_request empty_job) StatusOK (JobBody j') \<and> same_definition j' ?j"
    using nxt fam sample_hyps jobs_ok_Nil by (auto simp: env sample_request_def)
  then show ?thesis using run by blast
qed

lemma sample_applySetJob:
  assumes "representable (ref_env t) j" "SetJob (ref_env t) d j False = (None, d')"
  shows "agent_applySetJob (fsm_apply (ref_env t)) (ref_env t) d (ToProto (ref_env t) j) = (None, d')"
proof -
  obtain cmd where cmd: "Encode (ref_env t) SetJobType (MJob (ToProto (ref_env t) j)) = Inr cmd"
    by (simp add: Encode_def) (simp add: ref_env_def)
  obtain b where "Apply (\<lambda>_. None) (ref_env t) (store_ops (ref_env t)) d cmd 1 = fsm_applySetJob (ref_env t) (store_ops (ref_env t)) d b"
    "unmarshal_job (ref_env t) b = Inr (ToProto (ref_env t) j)"
    using lawful_env.Apply_Encode_eqs(1) [OF ref.lawful_env_axioms cmd] by blast
  then have "fsm_apply (ref_env t) d cmd = (Inr RNil, d')"
    using appliers_store(1) [of "ref_env t" b j d] assms by (simp add: fsm_apply_def)
  then show ?thesis by (simp add: agent_applySetJob_def cmd)
qed

lemma sample_stored_job:
  obtains d j where "jobs_ok (ref_env sample_now) d" "family (jobs_of (ref_env sample_now) d)"
    "jobs_of (ref_env sample_now) d ''backup'' = Some j" "Name j = ''backup''" "\<not> Disabled j" "ParentJob j = []" "job_ok (ref_env sample_now) j"
    "\<And>b. next_ok (ref_env sample_now) (j\<lparr>Disabled := b\<rparr>)"
proof -
  let ?j = "sample_job ''backup'' ''@every 1m'' []" and ?E = "ref_env sample_now"
  have fam: "family (jobs_of ?E [])" "keeps_dependents (jobs_of ?E []) ?j False"
    by (simp_all add: family_def keeps_dependents_def deps_of_def sample_job_def)
  obtain d where d: "SetJob ?E [] ?j False = (None, d)" using sample_SetJob by blast
  have nm: "Name ?j = ''backup''" by (simp add: sample_job_def)
  obtain j where store: "jobs_ok ?E d" "family (jobs_of ?E d)" and j: "jobs_of ?E d ''backup'' = Some j" "same_definition j ?j"
    using SetJob_valid [OF sample_hyps(1) jobs_ok_Nil sample_hyps(2,5,3) fam sample_hyps(4) d] stored_job_same
    unfolding nm by blast
  have "Name j = ''backup''" "\<not> Disabled j" "ParentJob j = []" "Schedule j = Schedule ?j" "job_ok ?E j"
    using lawful_env.jobs_of_SomeD [OF sample_hyps(1) store(1) j(1)] same_definition_fields [OF j(2)]
    by (simp_all add: sample_job_def)
  moreover from this(4) have "next_ok ?E (j\<lparr>Disabled := b\<rparr>)" for b
    using sample_hyps(3) GetNext_cong [of "j\<lparr>Disabled := b\<rparr>" ?j ?E] by (simp add: next_ok_def)
  ultimately show ?thesis using that [OF store j(1)] by blast
qed

lemma sample_toggled:
  assumes store: "jobs_ok (ref_env sample_now) d" "jobs_of (ref_env sample_now) d ''backup'' = Some j" and j: "Name j = ''backup''"
      "\<not> Disabled j" "ParentJob j = []" "job_ok (ref_env sample_now) j" "next_ok (ref_env sample_now) (j\<lparr>Disabled := True\<rparr>)"
    and q: "q = (sample_request empty_job)\<lparr>rq_job := ''backup''\<rparr>"
  shows "\<exists>s'. jobToggleHandler sample_http (sample_srv d) q =
    (Header ''Location'' ''/v1/jobs'' # renderJSON q StatusOK (JobBody (j\<lparr>Disabled := True\<rparr>)), s')"
proof -
  let ?E = "ref_env sample_now" and ?t = "j\<lparr>Disabled := True\<rparr>"
  have tok: "Validate ?E ?t = None" "representable ?E ?t" "pb_job_utf8 (ToProto ?E ?t)"
    using job_ok_Disabled [OF j(4), of True] by (simp_all add: job_ok_def)
  obtain j1 where "stored_job ?E (jobs_of ?E d (Name ?t)) ?t False = Inr j1" using stored_job_valid [OF tok(1)] by blast
  then have "fst (spec_SetJob ?E (jobs_of ?E d) ?t False) = None"
    using j store(2) by (simp add: spec_SetJob_def tok(1) Let_def found_job_def)
  then obtain d2 where d2: "SetJob ?E d ?t False = (None, d2)"
    using lawful_env.SetJob_n_refines [OF sample_hyps(1) store(1) tok(2,3) j(5), of 0 False]
    by (auto simp: SetJob_def numeral_2_eq_2)
  have add: "AddJob ref_cron sample_sched ?t = Inr (None, sample_sched)"
    by (simp add: AddJob_def sample_sched_def NewScheduler_def)
  have env: "ha_env sample_http = ?E" "ha_store sample_http = sv_db" by (simp_all add: sample_http_def)
  obtain M where M: "ha_remote sample_http = leader_remote sample_world M" by (simp add: sample_http_def)
  have "grpc_SetJob sample_world (sample_srv d) (Some (ToProto ?E ?t)) = (Inr (), (sample_srv d)\<lparr>sv_db := d2, sv_sched := sample_sched\<rparr>)"
    using sample_applySetJob [OF tok(2) d2] add tok(2) by (simp add: grpc_SetJob_def representable_def)
  then show ?thesis
    using lawful_env.GetJob_eq [OF sample_hyps(1) store(1), of "''backup''"] store(2) j(2)
    by (simp add: jobToggleHandler_def env client_SetJob_def M sample_request_def Let_def q)
      (simp add: leader_remote_def sample_srv_def)
qed

theorem toggle_flips_witness:
  "\<exists>d j calls s' j'. jobs_of (ref_env sample_now) d ''backup'' = Some j \<and> \<not> Disabled j \<and>
     jobToggleHandler sample_http (sample_srv d) ((sample_request empty_job)\<lparr>rq_job := ''backup''\<rparr>) = (calls, s') \<and>
     jobGetHandler sample_http s' ((sample_request empty_job)\<lparr>rq_job := ''backup''\<rparr>) =
       renderJSON (sample_request empty_job) StatusOK (JobBody j') \<and> Disabled j'"
proof -
  let ?E = "ref_env sample_now" and ?q = "(sample_request empty_job)\<lparr>rq_job := ''backup''\<rparr>"
  obtain d j where store: "jobs_ok ?E d" "family (jobs_of ?E d)" and j: "jobs_of ?E d ''backup'' = Some j" "Name j = ''backup''"
      "\<not> Disabled j" "ParentJob j = []" "job_ok ?E j" "\<And>b. next_ok ?E (j\<lparr>Disabled := b\<rparr>)"
    by (rule sample_stored_job, rule that)
  let ?t = "j\<lparr>Disabled := True\<rparr>"
  obtain s' where run: "jobToggleHandler sample_http (sample_srv d) ?q = (Header ''Location'' ''/v1/jobs'' # renderJSON ?q StatusOK (JobBody ?t), s')"
    using sample_toggled [OF store(1) j(1-6) refl] by blast
  have env: "ha_env sample_http = ?E" "ha_store sample_http = sv_db" by (simp_all add: sample_http_def)
  obtain M where M: "ha_remote sample_http = leader_remote sample_world M" by (simp add: sample_http_def)
  have log: "lawful_log (ha_env sample_http) (w_apply sample_world) (\<lambda>_. None) {sample_now}"
    using sample_lawful_log by (simp add: env)
  have sched: "sched_ok (w_cron sample_world) (\<lambda>c. fst (snd c)) (sv_sched (sample_srv d))"
    using refc.fresh_ok [of NewScheduler] by (simp add: sample_srv_def sample_sched_def NewScheduler_def)
  have "next_ok ?E j" using j(6) [of False] j(3) by (simp add: next_ok_def GetNext_def)
  then have "\<exists>j'. jobGetHandler sample_http s' ?q = renderJSON ?q StatusOK (JobBody j') \<and> same_definition j' ?t"
    using toggle_flips [OF log _ M env(2) _ _ _ sched _ _ _ run, of "\<lambda>c. fst c" "cron_New ref_cron (ext_Parse ?E)" j "''/v1/jobs''"]
      refc.cron_engine_axioms store j(1,3) sample_now_env
    by (auto simp: env sample_srv_def sample_sched_def sample_request_def)
  then obtain j' where j': "jobGetHandler sample_http s' ?q = renderJSON ?q StatusOK (JobBody j')" "Disabled j'"
    using same_definition_fields(2) by fastforce
  have "renderJSON ?q = renderJSON (sample_request empty_job)" by (simp add: renderJSON_def fun_eq_iff)
  then show ?thesis using j(1,3) run j' by metis
qed

theorem invalid_jobs_refused_witness:
  "\<exists>msg. jobCreateOrUpdateHandler sample_http (sample_srv []) (sample_request sample_bad_job) =
     ([AbortWithStatus 400, WriteString msg], sample_srv [])"
proof -
  have "Validate (ha_env sample_http) sample_bad_job = Some ErrWrongConcurrency"
    unfolding sample_http_def http_agent.simps by code_simp
  then show ?thesis
    using invalid_jobs_refused [of "sample_request sample_bad_job" sample_http "sample_srv []"] by (simp add: sample_request_def)
qed

end
