(* ===== verification/Schedule_Sync.thy ===== *)
theory Schedule_Sync
  imports Failover Api
begin

text \<open>
  The schedule of a leader against its store: the composition of the store, the handlers of \<open>grpc.go\<close>, the
  scheduler and the goroutines of \<open>leader.go\<close> on one server, from its start on. The entries of the scheduler
  are compared with the jobs that are stored; the steps of a server are those of its leadership, with the
  elections of Raft, the work a leader does and the log that replaces the store of a follower.
\<close>

section \<open>What the store asks to be scheduled\<close>

text \<open>The fields of a job that decide on its entry in the scheduler, and the entries the store asks for.\<close>

definition sched_of :: "job \<Rightarrow> bool \<times> string \<times> string \<times> string" where
  "sched_of j = (Disabled j, ParentJob j, Schedule j, Timezone j)"

definition store_view :: "'db env \<Rightarrow> 'db \<Rightarrow> (string \<times> string) set" where
  "store_view E d = {(n, tz_schedule j) |n j. jobs_of E d n = Some j \<and> schedulable (ext_Parse E) j}"

text \<open>The entries a scheduler has: the name of the job and the schedule that was given to the engine.\<close>

definition entry_view :: "'c cron_lib \<Rightarrow> 'c scheduler \<Rightarrow> (string \<times> string) set" where
  "entry_view L sc = {(Name j, spec) |i spec j. (i, spec, j) \<in> entries L sc}"

definition synced ::
    "'c cron_lib \<Rightarrow> ('c \<Rightarrow> string \<Rightarrow> schedule res) \<Rightarrow> ('c \<Rightarrow> nat) \<Rightarrow> 'db env \<Rightarrow> 'db \<Rightarrow> 'c scheduler \<Rightarrow> bool" where
  "synced L parser last_id E d sc \<longleftrightarrow>
     sched_ok L last_id sc \<and> (\<exists>c. Cron sc = Some c \<and> parser c = ext_Parse E) \<and> entry_view L sc = store_view E d"

lemma schedulable_sched_of: "sched_of i = sched_of j \<Longrightarrow> schedulable p i = schedulable p j \<and> tz_schedule i = tz_schedule j"
  by (simp add: sched_of_def schedulable_def tz_schedule_def)

lemma same_definition_sched: "same_definition i j \<Longrightarrow> sched_of i = sched_of j"
  by (cases i; cases j; simp add: same_definition_def sched_of_def tz_schedule_def)

definition same_sched :: "(string \<Rightarrow> job option) \<Rightarrow> (string \<Rightarrow> job option) \<Rightarrow> string set \<Rightarrow> bool" where
  "same_sched J J' ns \<longleftrightarrow> (\<forall>n. n \<notin> ns \<longrightarrow> map_option sched_of (J n) = map_option sched_of (J' n))"

lemma same_sched_refl [simp]: "same_sched J J ns"
  by (simp add: same_sched_def)

lemma same_sched_trans: "same_sched J J' ns \<Longrightarrow> same_sched J' J'' ns \<Longrightarrow> same_sched J J'' ns"
  by (simp add: same_sched_def)

lemma same_sched_SomeD:
  assumes "same_sched J J' ns" "J n = Some j" "n \<notin> ns"
  obtains j' where "J' n = Some j'" "sched_of j' = sched_of j"
  using assms unfolding same_sched_def by (cases "J' n") (force dest: spec [of _ n])+

lemma same_sched_sym: "same_sched J J' ns \<Longrightarrow> same_sched J' J ns"
  by (simp add: same_sched_def)

lemma same_sched_fill:
  "same_sched J J' {n} \<Longrightarrow> map_option sched_of (J n) = map_option sched_of (J' n) \<Longrightarrow> same_sched J J' {}"
  unfolding same_sched_def by (metis singletonD)

lemma store_view_cong:
  assumes "same_sched (jobs_of E d) (jobs_of E d') {}"
  shows "store_view E d = store_view E d'"
proof -
  have "store_view E a \<subseteq> store_view E b" if "same_sched (jobs_of E a) (jobs_of E b) {}" for a b
    using that by (auto simp: store_view_def elim!: same_sched_SomeD dest!: schedulable_sched_of [of _ _ "ext_Parse E"])
  with assms same_sched_sym show ?thesis by blast
qed

lemma store_view_upd:
  assumes "same_sched (jobs_of E d) (jobs_of E d') {n}"
  shows "store_view E d' = {e \<in> store_view E d. fst e \<noteq> n} \<union>
    (case jobs_of E d' n of None \<Rightarrow> {} | Some j \<Rightarrow> if schedulable (ext_Parse E) j then {(n, tz_schedule j)} else {})"
proof -
  have "{e \<in> store_view E a. fst e \<noteq> n} \<subseteq> {e \<in> store_view E b. fst e \<noteq> n}" if "same_sched (jobs_of E a) (jobs_of E b) {n}" for a b
    using that by (auto simp: store_view_def elim!: same_sched_SomeD dest!: schedulable_sched_of [of _ _ "ext_Parse E"])
  then have "{e \<in> store_view E d'. fst e \<noteq> n} = {e \<in> store_view E d. fst e \<noteq> n}" using assms same_sched_sym by blast
  moreover have "{e \<in> store_view E d'. fst e = n} =
      (case jobs_of E d' n of None \<Rightarrow> {} | Some j \<Rightarrow> if schedulable (ext_Parse E) j then {(n, tz_schedule j)} else {})"
    by (auto simp: store_view_def split: option.splits)
  ultimately show ?thesis by blast
qed

section \<open>What the operations of the store change\<close>

lemma relink_sched: "relink J p f = (e, J') \<Longrightarrow> same_sched J J' ns"
  by (auto simp: relink_def same_sched_def sched_of_def tz_schedule_def split: if_splits option.splits)

lemma spec_SetJob_sched:
  assumes "spec_SetJob E J j c = (e, J')"
  shows "same_sched J J' {Name j}"
proof -
  have "same_sched J (J(Name j \<mapsto> j')) {Name j}" for j' by (simp add: same_sched_def)
  then show ?thesis
    using assms by (auto simp: spec_SetJob_def Let_def intro: same_sched_trans dest!: relink_sched [where ns = "{Name j}"]
        split: option.splits if_splits sum.splits prod.splits)
qed

lemma spec_DeleteJob_sched:
  assumes "spec_DeleteJob J n = (r, J')"
  shows "same_sched J J' {n}"
proof -
  have "same_sched J (J(n := None)) {n}" by (simp add: same_sched_def)
  then show ?thesis
    using assms by (auto simp: spec_DeleteJob_def intro: same_sched_trans dest!: relink_sched [where ns = "{n}"]
        split: option.splits if_splits prod.splits)
qed

context lawful_env
begin

text \<open>\<open>GetJobs\<close> lists every job of the store once.\<close>

lemma GetJobs_all:
  assumes ok: "jobs_ok E d"
  obtains js where "GetJobs E d None = Inr js" "distinct (map Name js)" "set js = ran (jobs_of E d)"
proof -
  define kvs where "kvs = filter (\<lambda>(key, value). HasPrefix key (jobsPrefix @ '':'')) (db_ascend E d)"
  define dec where "dec = (\<lambda>(key :: string, value). NewJobFromProto E (case unmarshal_job E value of Inl _ \<Rightarrow> pb_job_zero | Inr p \<Rightarrow> p))"
  have mem: "jobs_of E d n = Some (dec (k, b)) \<and> Name (dec (k, b)) = n" if "(k, b) \<in> set kvs" "k = job_key n" for k b n
  proof -
    have kv: "kv E d (job_key n) = Some b" using that by (simp add: kvs_def kv_def ascend_mem_iff)
    then obtain j where j: "unmarshal_job E b = Inr (ToProto E j)" using ok unfolding jobs_ok_def by blast
    then have "jobs_of E d n = Some (dec (k, b))" using kv by (simp add: jobs_of_def dec_def)
    with jobs_of_SomeD(1) [OF ok] show ?thesis by blast
  qed
  have key: "\<exists>n. fst e = job_key n" if "e \<in> set kvs" for e
    using that by (auto simp: kvs_def HasPrefix_conv job_key_def)
  have name: "fst e = job_key (Name (dec e))" if "e \<in> set kvs" for e
    using key [OF that] mem that by (cases e) auto
  have "distinct (map fst kvs)" unfolding kvs_def by (rule distinct_map_filter [OF ascend_distinct])
  then have "distinct (map (\<lambda>e. job_key (Name (dec e))) kvs)" using name by (simp cong: map_cong)
  then have "distinct (map Name (map dec kvs))" by (auto simp: distinct_map inj_on_def)
  moreover have "j \<in> dec ` set kvs" if j: "jobs_of E d n = Some j" for n j
  proof -
    obtain b where "kv E d (job_key n) = Some b" using j by (auto simp: jobs_of_def split: option.splits)
    then have "(job_key n, b) \<in> set kvs" by (simp add: kvs_def kv_def ascend_mem_iff) (simp add: job_key_def)
    with mem [OF this refl] j show ?thesis by force
  qed
  then have "set (map dec kvs) = ran (jobs_of E d)" using key mem by (fastforce simp: ran_def)
  moreover have "GetJobs E d None = Inr (map dec kvs)" by (simp add: GetJobs_def kvs_def dec_def)
  ultimately show ?thesis using that by blast
qed

end


text \<open>
  A store the leader can work on: well formed, with next runs that have a timestamp, and with the parent
  of every job that has one. A job need not list the jobs that have it as their parent.
\<close>

definition good_store :: "'db env \<Rightarrow> 'db \<Rightarrow> bool" where
  "good_store E d \<longleftrightarrow> runs_ok E d \<and> closed (jobs_of E d)"

lemma good_storeD: "good_store E d \<Longrightarrow> runs_ok E d \<and> store_inv E d \<and> jobs_ok E d \<and> closed (jobs_of E d)"
  by (simp add: good_store_def runs_ok_def store_inv_def)

lemma next_ok_sched: "sched_of i = sched_of j \<Longrightarrow> next_ok E i = next_ok E j"
  using next_ok_Schedule [of i j E] by (simp add: sched_of_def)

lemma next_ok_same_sched:
  assumes "same_sched J J' ns" "\<forall>n j. J n = Some j \<longrightarrow> next_ok E j" "\<forall>n \<in> ns. \<forall>j. J' n = Some j \<longrightarrow> next_ok E j"
  shows "\<forall>n j. J' n = Some j \<longrightarrow> next_ok E j"
proof (intro allI impI)
  fix n j
  assume j: "J' n = Some j"
  show "next_ok E j"
  proof (cases "n \<in> ns")
    case False
    then obtain i where "J n = Some i" "sched_of i = sched_of j" using same_sched_SomeD [OF same_sched_sym [OF assms(1)] j] by metis
    then show ?thesis using assms(2) next_ok_sched by metis
  qed (use assms(3) j in blast)
qed

lemma closed_same_sched:
  assumes "same_sched J J' {}" "closed J"
  shows "closed J'"
  unfolding closed_def
proof (intro allI impI)
  fix n j
  assume j: "J' n = Some j" "ParentJob j \<noteq> []"
  obtain i where i: "J n = Some i" "sched_of i = sched_of j"
    using same_sched_SomeD [OF same_sched_sym [OF assms(1)] j(1)] by auto
  then have "ParentJob i = ParentJob j" by (simp add: sched_of_def)
  then obtain P where "J (ParentJob j) = Some P" using closedD [OF assms(2) i(1)] j(2) by auto
  from same_sched_SomeD [OF assms(1) this] show "J' (ParentJob j) \<noteq> None" by auto
qed

lemma same_job_sched: "same_job i j \<Longrightarrow> sched_of i = sched_of j"
proof -
  assume "same_job i j"
  then have "sched_of (i\<lparr>Next := 0\<rparr>) = sched_of (j\<lparr>Next := 0\<rparr>)" unfolding same_job_def by (rule arg_cong)
  then show ?thesis by (simp add: sched_of_def)
qed

lemma same_sched_but_next: "but_next J = but_next J' \<Longrightarrow> same_sched J J' ns"
  unfolding same_sched_def
proof (intro allI impI)
  fix n
  assume "but_next J = but_next J'"
  then show "map_option sched_of (J n) = map_option sched_of (J' n)"
    by (rule but_next_cases [of J J' n]) (auto simp: same_job_sched)
qed

text \<open>A valid job is stored when it has no parent or its parent is there.\<close>

lemma spec_SetJob_succeeds:
  assumes cl: "closed J" and nm: "named J" and val: "Validate E j = None"
    and p: "ParentJob j \<noteq> [] \<longrightarrow> J (ParentJob j) \<noteq> None"
  shows "fst (spec_SetJob E J j False) = None"
proof -
  let ?o = "ParentJob (found_job E (J (Name j)))"
  obtain j' where st: "stored_job E (J (Name j)) j False = Inr j'" using stored_job_valid [OF val] by blast
  have n: "Name j \<noteq> []" "ParentJob j \<noteq> Name j" using val by (auto simp: Validate_def split: if_splits)
  have j': "Name j' = Name j" "ParentJob j' = ParentJob j" using stored_job_fields [OF st] by simp_all
  have o: "?o = (case J (Name j) of None \<Rightarrow> [] | Some i \<Rightarrow> ParentJob i)" by (simp add: found_job_def split: option.splits)
  show ?thesis
  proof (cases "ParentJob j = ?o")
    case False
    obtain J2 J3 where "relink (J(Name j \<mapsto> j')) ?o (filter (\<lambda>m. m \<noteq> Name j)) = (None, J2)"
      "relink J2 (ParentJob j) (\<lambda>ds. ds @ [Name j]) = (None, J3)"
      by (rule relink_moved [OF cl nm n p o False j'], rule that)
    then show ?thesis using False val p st by (auto simp: spec_SetJob_def)
  qed (use val p st in \<open>auto simp: spec_SetJob_def\<close>)
qed

lemma set_job_applied:
  assumes E: "lawful_env E" and d: "good_store E d" and j: "job_ok E j" "next_ok E j"
    and ap: "agent_applySetJob (fsm_apply E) E d (ToProto E j) = (e, d')"
  shows "good_store E d' \<and>
    (if e = None then same_sched (jobs_of E d) (jobs_of E d') {Name j} \<and> (\<exists>j'. jobs_of E d' (Name j) = Some j' \<and> sched_of j' = sched_of j)
     else jobs_of E d' = jobs_of E d \<and> ParentJob j \<noteq> [] \<and> jobs_of E d (ParentJob j) = None)"
proof -
  let ?J = "jobs_of E d"
  have ok: "store_inv E d" "closed ?J" "named ?J" "\<forall>n i. ?J n = Some i \<longrightarrow> next_ok E i"
    using good_storeD [OF d] lawful_env.jobs_ok_named [OF E] by (auto simp: runs_ok_def)
  have val: "Validate E j = None" using j(1) by (simp add: job_ok_def)
  obtain d1 where d1: "spec_SetJob E ?J j False = (e, jobs_of E d')" "store_inv E d'"
    using applySetJob_valid [OF E ok(1) j] ap by (metis fst_conv snd_conv)
  note cl = spec_SetJob_closed [OF ok(2,3), of E j False, unfolded d1(1) fst_conv snd_conv]
  show ?thesis
  proof (cases e)
    case (Some e0)
    moreover have "\<not> (ParentJob j \<noteq> [] \<longrightarrow> ?J (ParentJob j) \<noteq> None)"
      using spec_SetJob_succeeds [OF ok(2,3) val] d1(1) Some by fastforce
    ultimately show ?thesis using cl d1(2) ok(2,4) by (simp add: good_store_def runs_ok_def)
  next
    case None
    have s: "same_sched ?J (jobs_of E d') {Name j}" using spec_SetJob_sched [OF d1(1)] .
    obtain j' where j': "jobs_of E d' (Name j) = Some j'" "sched_of j' = sched_of j"
      using cl None stored_job_same same_definition_sched by fastforce
    have "\<forall>n i. jobs_of E d' n = Some i \<longrightarrow> next_ok E i"
      by (rule next_ok_same_sched [OF s]) (use ok(4) j(2) j' next_ok_sched [OF j'(2), of E] in auto)
    then show ?thesis using s j' d1(2) cl None by (simp add: good_store_def runs_ok_def)
  qed
qed

text \<open>
  A job that lists no dependent jobs although some job names it as its parent, which is what an update
  without the list leaves, is not to be deleted.
\<close>

definition deletable :: "(string \<Rightarrow> job option) \<Rightarrow> string \<Rightarrow> bool" where
  "deletable J n \<longleftrightarrow> (\<forall>j m i. J n = Some j \<longrightarrow> DependentJobs j = [] \<longrightarrow> J m = Some i \<longrightarrow> ParentJob i \<noteq> n)"

lemma delete_job_applied:
  assumes E: "lawful_env E" and d: "good_store E d" "deletable (jobs_of E d) n"
    and cmd: "Encode E DeleteJobType (MDelete \<lparr>djr_JobName = n\<rparr>) = Inr cmd" and ap: "fsm_apply E d cmd = (Inr r, d')"
  shows "good_store E d' \<and>
    (case r of RJob j \<Rightarrow> Name j = n \<and> same_sched (jobs_of E d) (jobs_of E d') {n} \<and> jobs_of E d' n = None
     | _ \<Rightarrow> jobs_of E d' = jobs_of E d)"
proof -
  let ?J = "jobs_of E d"
  have ok: "jobs_ok E d" "closed ?J" "store_inv E d" "\<forall>n i. ?J n = Some i \<longrightarrow> next_ok E i"
    using good_storeD [OF d(1)] by (auto simp: runs_ok_def)
  obtain d1 where d1: "DeleteJob E d n = (fst (spec_DeleteJob ?J n), d1)" "jobs_of E d1 = snd (spec_DeleteJob ?J n)"
    using lawful_env.DeleteJob_spec [OF E ok(1), of n] by blast
  have inv: "store_inv E d1" using store_inv_DeleteJob [OF E ok(3), of "now E" n] d1(1) by simp
  have r: "r = (case fst (spec_DeleteJob ?J n) of Inr k \<Rightarrow> RJob k | Inl e \<Rightarrow> RError e)" "d' = d1"
    using Apply_clock(2) [OF E cmd, of "\<lambda>_. None" "now E" d 1] d1(1) ap by (auto simp: fsm_apply_def split: sum.splits)
  have del: "closed (jobs_of E d1)" "spec_DeleteJob ?J n = (case ?J n of None \<Rightarrow> (Inl ErrNotFound, ?J)
      | Some j \<Rightarrow> if DependentJobs j \<noteq> [] then (Inl ErrDependentJobs, ?J) else (Inr j, unlinked ?J n (ParentJob j)))"
    using spec_DeleteJob_closed [OF ok(2) lawful_env.jobs_ok_named [OF E ok(1)], of n] d(2) d1(2)
    unfolding deletable_def by metis+
  have s: "same_sched ?J (jobs_of E d1) {n}" using spec_DeleteJob_sched d1(2) by (metis prod.collapse)
  show ?thesis
  proof (cases "\<exists>j. ?J n = Some j \<and> DependentJobs j = []")
    case False
    then have "jobs_of E d1 = ?J" "\<exists>e. fst (spec_DeleteJob ?J n) = Inl e"
      using del(2) d1(2) by (auto split: option.splits)
    then show ?thesis using r inv ok(2,4) by (auto simp: good_store_def runs_ok_def)
  next
    case True
    then obtain j where j: "?J n = Some j" "DependentJobs j = []" by blast
    have n: "fst (spec_DeleteJob ?J n) = Inr j" "jobs_of E d1 n = None" using del(2) d1(2) j by (simp_all add: unlinked_def)
    have "\<forall>m i. jobs_of E d1 m = Some i \<longrightarrow> next_ok E i"
      by (rule next_ok_same_sched [OF s]) (use ok(4) n in auto)
    then show ?thesis
      using n r s del(1) inv lawful_env.jobs_of_SomeD(1) [OF E ok(1) j(1)] by (simp add: good_store_def runs_ok_def)
  qed
qed

section \<open>Running a job keeps the schedule\<close>

definition keeps_schedule :: "'db env \<Rightarrow> 'db \<Rightarrow> 'db \<Rightarrow> bool" where
  "keeps_schedule E d d' \<longleftrightarrow> (good_store E d \<longrightarrow> good_store E d' \<and> same_sched (jobs_of E d) (jobs_of E d') {})"

lemma keeps_refl [simp]: "keeps_schedule E d d"
  by (simp add: keeps_schedule_def)

lemma keeps_trans [trans]: "keeps_schedule E d d' \<Longrightarrow> keeps_schedule E d' d'' \<Longrightarrow> keeps_schedule E d d''"
  using same_sched_trans by (fastforce simp: keeps_schedule_def)

lemma keepsI: "runs_ok E d' \<Longrightarrow> same_sched (jobs_of E d) (jobs_of E d') {} \<Longrightarrow> keeps_schedule E d d'"
  using closed_same_sched by (auto simp: keeps_schedule_def good_store_def)

lemma only_next_keeps: "only_next E d d' \<Longrightarrow> keeps_schedule E d d'"
  using keepsI [of E d' d] same_sched_but_next [of "jobs_of E d" "jobs_of E d'" "{}"]
  by (auto simp: only_next_def keeps_schedule_def good_store_def)

lemma world_Run_sched [simp]: "sv_sched (fst (snd (world_Run W s n x))) = sv_sched s"
  by (simp add: world_Run_def split_beta)

lemma world_job_Run_sched [simp]: "sv_sched (fst (world_job_Run W s j)) = sv_sched s"
  by (simp add: world_job_Run_def split_beta)

lemma run_dependents_sched [simp]: "sv_sched (fst (snd (run_dependents W s djns))) = sv_sched s"
proof (induction djns arbitrary: s)
  case (Cons djn djns)
  then show ?case using world_job_Run_sched by (cases "GetJob (w_env W) (sv_db s) djn") (auto simp: split_beta)
qed simp

lemma finish_execution_sched: "finish_execution W s x job = (r, s', acts) \<Longrightarrow> sv_sched s' = sv_sched s"
  by (erule finish_execution_cases) simp_all

lemmas runs_keep = only_next_keeps [OF world_Run_only] only_next_keeps [OF world_job_Run_only]

section \<open>What the leader is asked to do\<close>

text \<open>The requests it handles, and an entry of the scheduler that fires.\<close>

datatype work = Do_SetJob job | Do_DeleteJob string | Do_RunJob string | Do_SetExecution execution
  | Do_ExecutionDone pb_execution | Do_Fire job

fun do_work :: "('db, 'c, 'r) world \<Rightarrow> ('db, 'c, 'r) server \<Rightarrow> work \<Rightarrow> ('db, 'c, 'r) server" where
  "do_work W s (Do_SetJob j) = snd (grpc_SetJob W s (Some (ToProto (w_env W) j)))"
| "do_work W s (Do_DeleteJob n) = snd (grpc_DeleteJob W s n)"
| "do_work W s (Do_RunJob n) = fst (snd (grpc_RunJob W s n))"
| "do_work W s (Do_SetExecution x) = snd (grpc_SetExecution W s (ex_ToProto (w_env W) x))"
| "do_work W s (Do_ExecutionDone px) = fst (snd (grpc_ExecutionDone W s (Some px)))"
| "do_work W s (Do_Fire j) = fst (world_job_Run W s j)"

text \<open>
  The work that keeps the schedule in line: a job that is set is valid, as the HTTP API ensures, and has
  a next run with a timestamp; a job that is deleted is no parent that lost its list; executions can
  be represented, also after the processors.
\<close>

fun work_ok :: "('db, 'c, 'r) world \<Rightarrow> ('db, 'c, 'r) server \<Rightarrow> work \<Rightarrow> bool" where
  "work_ok W s (Do_SetJob j) \<longleftrightarrow>
     job_ok (w_env W) j \<and> next_ok (w_env W) j"
| "work_ok W s (Do_DeleteJob n) \<longleftrightarrow> deletable (jobs_of (w_env W) (sv_db s)) n"
| "work_ok W s (Do_SetExecution x) \<longleftrightarrow> exec_ok (w_env W) x"
| "work_ok W s (Do_ExecutionDone px) \<longleftrightarrow>
     (\<forall>job. jobs_of (w_env W) (sv_db s) (pe_JobName px) = Some job \<longrightarrow>
        (\<exists>x. run_processors W (Processors job) px = ex_ToProto (w_env W) x \<and> exec_ok (w_env W) x \<and> ex_JobName x = pe_JobName px))"
| "work_ok W s _ \<longleftrightarrow> True"

text \<open>A scheduler that was never started.\<close>

definition idle :: "'c scheduler \<Rightarrow> bool" where
  "idle sc \<longleftrightarrow> Cron sc = None \<and> EntryJobMap sc = [] \<and> \<not> Started sc"

lemma SetExecution_keeps:
  assumes E: "lawful_env (w_env W)" and W: "w_apply W = fsm_apply (w_env W)" and x: "exec_ok (w_env W) x"
  shows "keeps_schedule (w_env W) (sv_db s) (sv_db (snd (grpc_SetExecution W s (ex_ToProto (w_env W) x))))"
proof -
  let ?E = "w_env W"
  have x': "pb_execution_utf8 (ex_ToProto ?E x)" "exec_ok ?E (NewExecutionFromProto ?E (ex_ToProto ?E x))"
    using x lawful_env.exec_ok_representable [OF E x] by (simp_all add: exec_ok_def)
  have "good_store ?E d1 \<and> same_sched (jobs_of ?E (sv_db s)) (jobs_of ?E d1) {}"
    if g: "good_store ?E (sv_db s)" and cmd: "Encode ?E SetExecutionType (MExecution (ex_ToProto ?E x)) = Inr cmd"
      "fsm_apply ?E (sv_db s) cmd = (r, d1)" for cmd r d1
  proof -
    have inv: "store_inv ?E (sv_db s)" using good_storeD [OF g] by simp
    obtain cmd' r' d' where "Encode ?E SetExecutionType (MExecution (ex_ToProto ?E x)) = Inr cmd'"
      "fsm_apply ?E (sv_db s) cmd' = (Inr r', d')" "store_inv ?E d'" "jobs_of ?E d' = jobs_of ?E (sv_db s)"
      using apply_SetExecution [OF E x' inv] by blast
    then show ?thesis using cmd g by (auto simp: good_store_def runs_ok_def)
  qed
  then show ?thesis
    by (auto simp: grpc_SetExecution_def W keeps_schedule_def split: sum.splits prod.splits)
qed

lemma done_job_sched: "sched_of (done_job j x st) = sched_of j"
  by (simp add: done_job_def sched_of_def)

lemma ExecutionDone_keeps:
  assumes E: "lawful_env (w_env W)" and W: "w_apply W = fsm_apply (w_env W)" "\<And>c i. time_ok (cron_Next (w_cron W) c i)"
    and g: "good_store (w_env W) (sv_db s)" and ok: "work_ok W s (Do_ExecutionDone px)"
    and run: "grpc_ExecutionDone W s (Some px) = (r, s', acts)"
  shows "keeps_schedule (w_env W) (sv_db s) (sv_db s')"
proof (cases "r_IsLeader (w_raft W) (sv_raft s) \<and> (\<exists>job. jobs_of (w_env W) (sv_db s) (pe_JobName px) = Some job)")
  case False
  have "jobs_ok (w_env W) (sv_db s)" using good_storeD [OF g] by simp
  then have "s' = s"
    using run False lawful_env.GetJob_eq [OF E] by (auto simp: grpc_ExecutionDone_def split: if_splits option.splits)
  then show ?thesis by simp
next
  case True
  let ?E = "w_env W" and ?J = "jobs_of (w_env W) (sv_db s)"
  obtain job where job: "?J (pe_JobName px) = Some job" using True by blast
  then obtain x where x: "run_processors W (Processors job) px = ex_ToProto ?E x" "exec_ok ?E x" "ex_JobName x = pe_JobName px"
    using ok by auto
  have "runs_ok ?E (sv_db s)" using good_storeD [OF g] by simp
  from ExecutionDone_final [OF E refl W(1) _ W(2) this job refl x run] True
  have fin: "runs_ok ?E (sv_db s')" "but_next (jobs_of ?E (sv_db s')) =
      but_next (?J(pe_JobName px \<mapsto> done_job job x (group_status (recorded ?E (sv_db s) x) (ex_Group x))))" by simp_all
  have "same_sched ?J (?J(pe_JobName px \<mapsto> done_job job x st)) {}" for st using job by (simp add: same_sched_def done_job_sched)
  from same_sched_trans [OF this same_sched_but_next [OF fin(2) [symmetric]]] show ?thesis by (rule keepsI [OF fin(1)])
qed

lemma grpc_RunJob_server: "fst (snd (grpc_RunJob W s n)) = fst (snd (world_Run W s n (NewExecution (w_env W) n)))"
  by (auto simp: grpc_RunJob_def split: prod.splits sum.splits)

lemma other_work_keeps:
  assumes E: "lawful_env (w_env W)" and W: "w_apply W = fsm_apply (w_env W)" "\<And>c i. time_ok (cron_Next (w_cron W) c i)"
    and g: "good_store (w_env W) (sv_db s)" and ok: "work_ok W s w" and w: "\<And>j. w \<noteq> Do_SetJob j" "\<And>n. w \<noteq> Do_DeleteJob n"
  shows "good_store (w_env W) (sv_db (do_work W s w)) \<and> store_view (w_env W) (sv_db (do_work W s w)) = store_view (w_env W) (sv_db s)"
proof -
  have "keeps_schedule (w_env W) (sv_db s) (sv_db (do_work W s w))"
  proof (cases w)
    case (Do_RunJob n)
    then show ?thesis using runs_keep(1) [OF E W] by (simp add: grpc_RunJob_server)
  next
    case (Do_SetExecution x)
    then show ?thesis using SetExecution_keeps [OF E W(1)] ok by simp
  next
    case (Do_ExecutionDone px)
    then show ?thesis using ExecutionDone_keeps [OF E W g, of px] ok by (cases "grpc_ExecutionDone W s (Some px)") simp
  next
    case (Do_Fire j)
    then show ?thesis using runs_keep(2) [OF E W] by simp
  qed (use w in auto)
  then show ?thesis using g store_view_cong [of "w_env W" "sv_db s"] by (auto simp: keeps_schedule_def)
qed

lemma ExecutionDone_sched: "grpc_ExecutionDone W s (Some px) = (r, s', acts) \<Longrightarrow> sv_sched s' = sv_sched s"
  by (auto simp: grpc_ExecutionDone_def Let_def dest: finish_execution_sched split: if_splits sum.splits prod.splits)

text \<open>Only the handlers of \<open>SetJob\<close> and \<open>DeleteJob\<close> touch the scheduler.\<close>

lemma other_work_sched:
  assumes "\<And>j. w \<noteq> Do_SetJob j" "\<And>n. w \<noteq> Do_DeleteJob n"
  shows "sv_sched (do_work W s w) = sv_sched s"
proof (cases w)
  case (Do_SetExecution x)
  then show ?thesis by (auto simp: grpc_SetExecution_def split: sum.splits prod.splits)
next
  case (Do_ExecutionDone px)
  then show ?thesis using ExecutionDone_sched by (cases "grpc_ExecutionDone W s (Some px)") simp
qed (use assms in \<open>auto simp: grpc_RunJob_server\<close>)

lemma do_work_sched:
  "sv_sched (do_work W s w) = sv_sched s \<or>
   (\<exists>j e. AddJob (w_cron W) (sv_sched s) j = Inr (e, sv_sched (do_work W s w))) \<or>
   (\<exists>j. RemoveJob (w_cron W) (sv_sched s) j = Inr (sv_sched (do_work W s w)))"
proof (cases w)
  case (Do_SetJob j)
  then show ?thesis
    by (auto simp: grpc_SetJob_def split: prod.split option.split sum.split)
next
  case (Do_DeleteJob n)
  then show ?thesis
    by (auto simp: grpc_DeleteJob_def split: prod.split sum.split response.split)
qed (simp_all add: other_work_sched del: do_work.simps)

section \<open>The schedule follows the store\<close>

lemma entry_view_others:
  assumes "entries L sc' = others L sc n \<union> X"
  shows "entry_view L sc' = {e \<in> entry_view L sc. fst e \<noteq> n} \<union> {(Name j, spec) |i spec j. (i, spec, j) \<in> X}"
  unfolding entry_view_def assms by (auto simp: others_def) blast+

lemma AddJob_synced:
  assumes cron: "cron_engine L parser last_id" and sy: "synced L parser last_id E d sc"
    and d': "same_sched (jobs_of E d) (jobs_of E d') {Name j}" "jobs_of E d' (Name j) = Some j'" "sched_of j' = sched_of j"
  obtains e sc' where "AddJob L sc j = Inr (e, sc')" "synced L parser last_id E d' sc'" "Started sc' = Started sc"
proof -
  obtain c where c: "Cron sc = Some c" "parser c = ext_Parse E" "sched_ok L last_id sc" "entry_view L sc = store_view E d"
    using sy by (auto simp: synced_def)
  obtain e sc' i where a: "AddJob L sc j = Inr (e, sc')" "sched_ok L last_id sc'"
    "entries L sc' = others L sc (Name j) \<union> (if schedulable (parser c) j then {(i, tz_schedule j, j)} else {})"
    "map_option parser (Cron sc') = Some (parser c)" "Started sc' = Started sc"
    using cron_engine.AddJob_ok [OF cron c(3,1)] by metis
  have "entry_view L sc' = {e \<in> store_view E d. fst e \<noteq> Name j} \<union>
      (if schedulable (ext_Parse E) j then {(Name j, tz_schedule j)} else {})"
    unfolding entry_view_others [OF a(3)] by (auto simp: c(2,4))
  then have "entry_view L sc' = store_view E d'"
    using store_view_upd [OF d'(1)] d'(2) schedulable_sched_of [OF d'(3), of "ext_Parse E"] by simp
  then show ?thesis using a c(2) by (intro that [of e sc']) (auto simp: synced_def)
qed

lemma RemoveJob_synced:
  assumes cron: "cron_engine L parser last_id" and sy: "synced L parser last_id E d sc"
    and d': "same_sched (jobs_of E d) (jobs_of E d') {Name j}" "jobs_of E d' (Name j) = None"
  obtains sc' where "RemoveJob L sc j = Inr sc'" "synced L parser last_id E d' sc'" "Started sc' = Started sc"
proof -
  obtain c where c: "Cron sc = Some c" "parser c = ext_Parse E" "sched_ok L last_id sc" "entry_view L sc = store_view E d"
    using sy by (auto simp: synced_def)
  obtain sc' where a: "RemoveJob L sc j = Inr sc'" "sched_ok L last_id sc'" "entries L sc' = others L sc (Name j)"
    "map_option parser (Cron sc') = map_option parser (Cron sc)" "Started sc' = Started sc"
    using cron_engine.RemoveJob_ok [OF cron c(3)] by metis
  have "entry_view L sc' = store_view E d'"
    using store_view_upd [OF d'(1)] d'(2) entry_view_others [of L sc' sc "Name j" "{}"] a(3) c(4) by simp
  then show ?thesis using a c(1,2) by (intro that [of sc']) (auto simp: synced_def)
qed

lemma synced_store: "synced L parser last_id E d sc \<Longrightarrow> store_view E d' = store_view E d \<Longrightarrow> synced L parser last_id E d' sc"
  by (simp add: synced_def)

text \<open>Work on a leader: the scheduler stays in line with the store, or stays as it is when it was never started.\<close>

lemma SetJob_follows:
  assumes E: "lawful_env (w_env W)" and W: "w_apply W = fsm_apply (w_env W)" and cron: "cron_engine (w_cron W) parser last_id"
    and g: "good_store (w_env W) (sv_db s)" and ok: "work_ok W s (Do_SetJob j)" and s': "s' = do_work W s (Do_SetJob j)"
  shows "good_store (w_env W) (sv_db s') \<and> (idle (sv_sched s) \<longrightarrow> sv_sched s' = sv_sched s) \<and>
    (synced (w_cron W) parser last_id (w_env W) (sv_db s) (sv_sched s) \<longrightarrow>
       synced (w_cron W) parser last_id (w_env W) (sv_db s') (sv_sched s') \<and> Started (sv_sched s') = Started (sv_sched s))"
proof -
  let ?E = "w_env W"
  obtain e d where ap: "agent_applySetJob (fsm_apply ?E) ?E (sv_db s) (ToProto ?E j) = (e, d)"
    by (cases "agent_applySetJob (fsm_apply ?E) ?E (sv_db s) (ToProto ?E j)")
  have d: "good_store ?E d" "if e = None then same_sched (jobs_of ?E (sv_db s)) (jobs_of ?E d) {Name j} \<and>
      (\<exists>j'. jobs_of ?E d (Name j) = Some j' \<and> sched_of j' = sched_of j) else jobs_of ?E d = jobs_of ?E (sv_db s)"
    using set_job_applied [OF E g _ _ ap] ok by simp_all
  have rep: "NewJobFromProto ?E (ToProto ?E j) = j" using ok by (simp add: job_ok_def representable_def)
  show ?thesis
  proof (cases e)
    case (Some e')
    then have "s' = s\<lparr>sv_db := d\<rparr>" "store_view ?E d = store_view ?E (sv_db s)"
      using s' ap d(2) store_view_cong [of ?E "sv_db s" d] by (simp_all add: grpc_SetJob_def W)
    then show ?thesis using d(1) synced_store by auto
  next
    case None
    have after: "s' = s\<lparr>sv_db := d, sv_sched := (case AddJob (w_cron W) (sv_sched s) j of Inl _ \<Rightarrow> sv_sched s | Inr (_, sc) \<Rightarrow> sc)\<rparr>"
      unfolding s' do_work.simps grpc_SetJob_def W option.case ap None rep prod.case
      by (simp split: sum.split prod.split option.split)
    have "sv_sched s' = sv_sched s" if "idle (sv_sched s)"
      using that after by (auto simp: idle_def AddJob_def)
    moreover have "synced (w_cron W) parser last_id ?E (sv_db s') (sv_sched s') \<and> Started (sv_sched s') = Started (sv_sched s)"
      if sy: "synced (w_cron W) parser last_id ?E (sv_db s) (sv_sched s)"
    proof -
      obtain j' where j': "same_sched (jobs_of ?E (sv_db s)) (jobs_of ?E d) {Name j}" "jobs_of ?E d (Name j) = Some j'" "sched_of j' = sched_of j"
        using d(2) None by auto
      obtain e' sc' where "AddJob (w_cron W) (sv_sched s) j = Inr (e', sc')" "synced (w_cron W) parser last_id ?E d sc'"
        "Started sc' = Started (sv_sched s)" by (rule AddJob_synced [OF cron sy j'])
      then show ?thesis using after by simp
    qed
    ultimately show ?thesis using after d(1) by simp
  qed
qed

lemma DeleteJob_follows:
  assumes E: "lawful_env (w_env W)" and W: "w_apply W = fsm_apply (w_env W)" and cron: "cron_engine (w_cron W) parser last_id"
    and g: "good_store (w_env W) (sv_db s)" and ok: "work_ok W s (Do_DeleteJob n)" and s': "s' = do_work W s (Do_DeleteJob n)"
  shows "good_store (w_env W) (sv_db s') \<and> (idle (sv_sched s) \<longrightarrow> sv_sched s' = sv_sched s) \<and>
    (synced (w_cron W) parser last_id (w_env W) (sv_db s) (sv_sched s) \<longrightarrow>
       synced (w_cron W) parser last_id (w_env W) (sv_db s') (sv_sched s') \<and> Started (sv_sched s') = Started (sv_sched s))"
proof (cases "Encode (w_env W) DeleteJobType (MDelete \<lparr>djr_JobName = n\<rparr>)")
  case (Inl e)
  then have "s' = s" using s' by (simp add: grpc_DeleteJob_def)
  then show ?thesis using g by simp
next
  case (Inr cmd)
  let ?E = "w_env W"
  obtain r d where ap: "fsm_apply ?E (sv_db s) cmd = (Inr r, d)" by (cases "fsm_apply ?E (sv_db s) cmd") (auto simp: fsm_apply_def split: prod.splits)
  have d: "good_store ?E d" "case r of RJob j \<Rightarrow> Name j = n \<and> same_sched (jobs_of ?E (sv_db s)) (jobs_of ?E d) {n} \<and> jobs_of ?E d n = None
     | _ \<Rightarrow> jobs_of ?E d = jobs_of ?E (sv_db s)"
    using delete_job_applied [OF E g _ Inr ap] ok by simp_all
  show ?thesis
  proof (cases "\<exists>j. r = RJob j")
    case False
    then have "s' = s\<lparr>sv_db := d\<rparr>" "store_view ?E d = store_view ?E (sv_db s)"
      using s' ap d(2) Inr store_view_cong [of ?E "sv_db s" d] by (auto simp: grpc_DeleteJob_def W split: response.splits)
    then show ?thesis using d(1) synced_store by auto
  next
    case True
    then obtain j where j: "r = RJob j" ..
    have after: "s' = s\<lparr>sv_db := d, sv_sched := (case RemoveJob (w_cron W) (sv_sched s) j of Inl _ \<Rightarrow> sv_sched s | Inr sc \<Rightarrow> sc)\<rparr>"
      unfolding s' do_work.simps grpc_DeleteJob_def W Inr ap j sum.case prod.case response.case by (simp split: sum.split)
    have "sv_sched s' = sv_sched s" if "idle (sv_sched s)"
      using that after by (auto simp: idle_def RemoveJob_def)
    moreover have "synced (w_cron W) parser last_id ?E (sv_db s') (sv_sched s') \<and> Started (sv_sched s') = Started (sv_sched s)"
      if sy: "synced (w_cron W) parser last_id ?E (sv_db s) (sv_sched s)"
    proof -
      have n: "same_sched (jobs_of ?E (sv_db s)) (jobs_of ?E d) {Name j}" "jobs_of ?E d (Name j) = None" using d(2) by (auto simp: j)
      obtain sc' where "RemoveJob (w_cron W) (sv_sched s) j = Inr sc'" "synced (w_cron W) parser last_id ?E d sc'"
        "Started sc' = Started (sv_sched s)" by (rule RemoveJob_synced [OF cron sy n])
      then show ?thesis using after by simp
    qed
    ultimately show ?thesis using after d(1) by simp
  qed
qed

lemma work_follows:
  assumes E: "lawful_env (w_env W)" and W: "w_apply W = fsm_apply (w_env W)" "\<And>c i. time_ok (cron_Next (w_cron W) c i)"
    and cron: "cron_engine (w_cron W) parser last_id" and g: "good_store (w_env W) (sv_db s)" and ok: "work_ok W s w"
  shows "good_store (w_env W) (sv_db (do_work W s w)) \<and> (idle (sv_sched s) \<longrightarrow> sv_sched (do_work W s w) = sv_sched s) \<and>
    (synced (w_cron W) parser last_id (w_env W) (sv_db s) (sv_sched s) \<longrightarrow>
       synced (w_cron W) parser last_id (w_env W) (sv_db (do_work W s w)) (sv_sched (do_work W s w)) \<and>
       Started (sv_sched (do_work W s w)) = Started (sv_sched s))"
proof (cases "(\<exists>j. w = Do_SetJob j) \<or> (\<exists>n. w = Do_DeleteJob n)")
  case True
  then show ?thesis using SetJob_follows [OF E W(1) cron g _ refl] DeleteJob_follows [OF E W(1) cron g _ refl] ok by blast
next
  case False
  then have "store_view (w_env W) (sv_db (do_work W s w)) = store_view (w_env W) (sv_db s)" "good_store (w_env W) (sv_db (do_work W s w))"
    "sv_sched (do_work W s w) = sv_sched s"
    using other_work_keeps [OF E W g ok] other_work_sched [of w W s] by auto
  then show ?thesis using synced_store by metis
qed

text \<open>Establishing the leadership for the first time.\<close>

lemma establishLeadership_syncs:
  assumes E: "lawful_env E" and cron: "cron_engine L parser last_id" and g: "good_store E d" and idle: "idle sc"
  obtains sc' where "establishLeadership L E d sc = Inr (None, sc')" "synced L parser last_id E d sc'" "Started sc'"
proof -
  have ok: "jobs_ok E d" using good_storeD [OF g] by simp
  obtain js where js: "GetJobs E d None = Inr js" "distinct (map Name js)" "set js = ran (jobs_of E d)"
    by (rule lawful_env.GetJobs_all [OF E ok])
  obtain sc' c where s: "sched_Start L E sc js = Inr sc'" "Started sc'" "sched_ok L last_id sc'" "Cron sc' = Some c" "parser c = ext_Parse E"
    "snd ` entries L sc' = {(tz_schedule j, j) |j. j \<in> set js \<and> schedulable (ext_Parse E) j}"
    by (rule cron_engine.sched_Start_ok [OF cron _ js(2), of sc E]) (use idle in \<open>simp add: idle_def\<close>)
  have "entry_view L sc' = {(Name j, spec) |spec j. (spec, j) \<in> snd ` entries L sc'}"
    by (auto simp: entry_view_def image_iff) (force, blast)
  also have "\<dots> = store_view E d"
    unfolding s(6) js(3) using lawful_env.jobs_of_SomeD(1) [OF E ok] by (fastforce simp: store_view_def ran_def)
  finally show ?thesis using s js(1) by (intro that [of sc']) (auto simp: establishLeadership_def synced_def)
qed

section \<open>A server of the cluster\<close>

text \<open>
  A server: whether Raft has it as the leader, how often it was elected, its store, the goroutines of
  \<open>leader.go\<close> with the scheduler, and the executions it keeps as active.
\<close>

record ('db, 'c, 'r) peer =
  p_raft :: bool
  p_terms :: nat
  p_db :: 'db
  p_lead :: "('c, 'r) leadership"
  p_active :: "pb_execution gomap"

definition server_of :: "('db, 'c, 'r) peer \<Rightarrow> ('db, 'c, 'r) server" where
  "server_of p = \<lparr>sv_db = p_db p, sv_sched = l_sched (p_lead p), sv_raft = c_raft (l_cluster (p_lead p)), sv_active = p_active p\<rparr>"

definition work_on :: "('db, 'c, 'r) world \<Rightarrow> ('db, 'c, 'r) peer \<Rightarrow> work \<Rightarrow> ('db, 'c, 'r) peer" where
  "work_on W p w = (let s = do_work W (server_of p) w in p\<lparr>p_db := sv_db s, p_lead := (p_lead p)\<lparr>l_sched := sv_sched s\<rparr>\<rparr>)"

text \<open>
  What happens to a server. Raft elects and deposes it; the channel of \<open>LeaderCh\<close> is not buffered and
  Raft does not wait for a receiver, so that the monitor may not get the news, and does not while it
  waits for the leader loop. The goroutines of \<open>leader.go\<close> go on, where a barrier needs the leadership.
  The leader does any work that \<open>ok\<close> allows, a request or a firing entry at a time; the store of another server
  is replaced by one that the log gives and \<open>good\<close> allows.
\<close>

inductive peer_step ::
    "(('db, 'c, 'r) server \<Rightarrow> work \<Rightarrow> bool) \<Rightarrow> ('db \<Rightarrow> bool) \<Rightarrow> net_lib \<Rightarrow> ('db, 'c, 'r) world \<Rightarrow> ('db, 'c, 'r) peer \<Rightarrow> ('db, 'c, 'r) peer \<Rightarrow> bool"
  for ok good N W where
  elected: "peer_step ok good N W p (p\<lparr>p_raft := True, p_terms := Suc (p_terms p), p_lead := (if got then on_leaderCh True (p_lead p) else p_lead p)\<rparr>)"
    if "\<not> p_raft p" "got \<longrightarrow> l_monitor (p_lead p) \<noteq> Stopping"
| deposed: "peer_step ok good N W p (p\<lparr>p_raft := False, p_lead := (if got then on_leaderCh False (p_lead p) else p_lead p)\<rparr>)"
    if "p_raft p" "got \<longrightarrow> l_monitor (p_lead p) \<noteq> Stopping"
| ended: "peer_step ok good N W p (p\<lparr>p_lead := (p_lead p)\<lparr>l_monitor := Following\<rparr>\<rparr>)"
    if "l_monitor (p_lead p) = Stopping" "l_loop (p_lead p) = NotRunning"
| passed: "peer_step ok good N W p (p\<lparr>p_lead := l'\<rparr>)"
    if "l_loop (p_lead p) = AtReconcile" "stopped \<longrightarrow> l_monitor (p_lead p) = Stopping" "barrier = None \<longrightarrow> p_raft p"
      "reconcile_pass N (w_raft W) (w_cron W) (w_env W) (p_db p) members barrier stopped (p_lead p) = Inr l'"
| interval: "peer_step ok good N W p (p\<lparr>p_lead := (p_lead p)\<lparr>l_loop := AtReconcile\<rparr>\<rparr>)" if "l_loop (p_lead p) = AtWait b"
| stopped: "peer_step ok good N W p (p\<lparr>p_lead := l'\<rparr>)"
    if "l_loop (p_lead p) = AtWait b" "l_monitor (p_lead p) = Stopping" "leave_loop (w_cron W) (p_lead p) = Inr l'"
| member: "peer_step ok good N W p (p\<lparr>p_lead := (p_lead p)\<lparr>l_cluster := a\<rparr>\<rparr>)"
    if "l_loop (p_lead p) = AtWait True" "c_reconcileCh (l_cluster (p_lead p)) = Some (cap, m # q)"
      "reconcileMember N (w_raft W) members ((l_cluster (p_lead p))\<lparr>c_reconcileCh := Some (cap, q)\<rparr>) m = (e, a)"
| gossip: "peer_step ok good N W p (p\<lparr>p_lead := (p_lead p)\<lparr>l_cluster := a\<rparr>\<rparr>)"
    if "handle_event N (w_raft W) members (l_cluster (p_lead p)) t ms = Inr a"
| works: "peer_step ok good N W p (work_on W p w)" if "p_raft p" "ok (server_of p) w"
| replicated: "peer_step ok good N W p (p\<lparr>p_db := d\<rparr>)" if "\<not> p_raft p" "good d"

definition new_peer :: "'r cluster \<Rightarrow> 'db \<Rightarrow> ('db, 'c, 'r) peer" where
  "new_peer a d = \<lparr>p_raft = False, p_terms = 0, p_db = d, p_lead = initial a, p_active = []\<rparr>"

text \<open>The invariant of the first term.\<close>

definition first_term ::
    "('c \<Rightarrow> string \<Rightarrow> schedule res) \<Rightarrow> ('c \<Rightarrow> nat) \<Rightarrow> ('db, 'c, 'r) world \<Rightarrow> ('db, 'c, 'r) peer \<Rightarrow> bool" where
  "first_term parser last_id W p \<longleftrightarrow> good_store (w_env W) (p_db p) \<and>
     (p_terms p = 0 \<longrightarrow> \<not> p_raft p \<and> l_monitor (p_lead p) = Following \<and> l_loop (p_lead p) = NotRunning \<and>
        \<not> l_established (p_lead p) \<and> idle (l_sched (p_lead p))) \<and>
     (p_terms p = 1 \<and> p_raft p \<longrightarrow> l_monitor (p_lead p) \<noteq> Stopping \<and>
        (if l_established (p_lead p) then synced (w_cron W) parser last_id (w_env W) (p_db p) (l_sched (p_lead p)) \<and> Started (l_sched (p_lead p))
         else idle (l_sched (p_lead p))))"

lemma passed_first_term:
  assumes E: "lawful_env (w_env W)" and cron: "cron_engine (w_cron W) parser last_id"
    and p: "first_term parser last_id W p" "p_terms p = 1" "p_raft p"
    and pass: "reconcile_pass N (w_raft W) (w_cron W) (w_env W) (p_db p) members barrier stopped (p_lead p) = Inr l'" "\<not> stopped"
  shows "first_term parser last_id W (p\<lparr>p_lead := l'\<rparr>)"
proof (cases barrier)
  case (Some e)
  then show ?thesis using p pass by (auto simp: reconcile_pass_def first_term_def)
next
  case None
  let ?l = "p_lead p"
  have g: "good_store (w_env W) (p_db p)" using p(1) by (simp add: first_term_def)
  obtain sc where sc: "(if l_established ?l then Inr (None, l_sched ?l) else establishLeadership (w_cron W) (w_env W) (p_db p) (l_sched ?l)) = Inr (None, sc)"
    "synced (w_cron W) parser last_id (w_env W) (p_db p) sc" "Started sc"
  proof (cases "l_established ?l")
    case True
    then show ?thesis using that p by (simp add: first_term_def)
  next
    case False
    then have "idle (l_sched ?l)" using p by (simp add: first_term_def)
    from establishLeadership_syncs [OF E cron g this] that False show ?thesis by metis
  qed
  have "l_sched l' = sc" "l_established l'" "l_monitor l' = l_monitor ?l"
    using pass None sc(1) by (auto simp: reconcile_pass_def Let_def split: prod.splits option.splits)
  then show ?thesis using p sc(2,3) by (simp add: first_term_def)
qed

lemma first_term_step:
  assumes E: "lawful_env (w_env W)" and W: "w_apply W = fsm_apply (w_env W)" "\<And>c i. time_ok (cron_Next (w_cron W) c i)"
    and cron: "cron_engine (w_cron W) parser last_id"
    and step: "peer_step (work_ok W) (good_store (w_env W)) N W p p'" and p: "first_term parser last_id W p"
  shows "first_term parser last_id W p'"
  using step
proof cases
  case (passed stopped barrier members l')
  show ?thesis
  proof (cases "p_terms p = 1 \<and> p_raft p")
    case True
    then have "\<not> stopped" using passed p by (auto simp: first_term_def)
    with passed_first_term [OF E cron p _ _ passed(5)] True passed(1) show ?thesis by simp
  qed (use p passed in \<open>auto simp: first_term_def\<close>)
next
  case (works w)
  have g: "good_store (w_env W) (sv_db (server_of p))" using p by (simp add: first_term_def server_of_def)
  note f = work_follows [OF E W cron g works(3)]
  show ?thesis using f p works(1,2) by (auto simp: first_term_def work_on_def Let_def server_of_def)
qed (use p in \<open>auto simp: first_term_def on_leaderCh_def\<close>)

lemma first_term_reachable:
  assumes "lawful_env (w_env W)" "w_apply W = fsm_apply (w_env W)" "\<And>c i. time_ok (cron_Next (w_cron W) c i)"
    "cron_engine (w_cron W) parser last_id" "(peer_step (work_ok W) (good_store (w_env W)) N W)\<^sup>*\<^sup>* (new_peer a d) p" "good_store (w_env W) d"
  shows "first_term parser last_id W p"
  using assms(5)
proof induction
  case base
  show ?case using assms(6) by (simp add: first_term_def new_peer_def initial_def idle_def NewScheduler_def)
next
  case (step p p')
  show ?case by (rule first_term_step [OF assms(1-4) step(2,3)])
qed

text \<open>
  C9: The leader schedules what is stored. From the first time a server is elected and as long as it stays
  the leader, once its scheduler is started, the entries of the scheduler are one for every enabled job of
  its store that has no parent, under the schedule and the time zone that are stored, and no others. This
  holds whatever the goroutines of the leadership do and whatever runs, and for all requests, handled one
  at a time and not in the middle of a pass, provided that a job that is set is valid, as the HTTP API
  checks, that no job is deleted which lists no dependent jobs while a stored job names it as its parent,
  and that the executions that are reported can be represented.
\<close>

theorem leader_schedules_the_store:
  assumes "lawful_env (w_env W)" "w_apply W = fsm_apply (w_env W)" "\<And>c i. time_ok (cron_Next (w_cron W) c i)"
    and "cron_engine (w_cron W) parser last_id" "good_store (w_env W) d"
    and "(peer_step (work_ok W) (good_store (w_env W)) N W)\<^sup>*\<^sup>* (new_peer a d) p" "p_terms p = 1" "p_raft p" "Started (l_sched (p_lead p))"
  shows "entry_view (w_cron W) (l_sched (p_lead p)) = store_view (w_env W) (p_db p) \<and>
    sched_ok (w_cron W) last_id (l_sched (p_lead p))"
  using first_term_reachable [OF assms(1-4,6,5)] assms(7-9) by (auto simp: first_term_def synced_def idle_def split: if_splits)

text \<open>A new server with two stored jobs is elected, makes its first pass, and schedules the job that has no parent.\<close>

lemma sample_good_store: "good_store (ref_env sample_now) (sample_db [sample_parent, sample_child])" "good_store (ref_env sample_now) []"
proof -
  show "good_store (ref_env sample_now) (sample_db [sample_parent, sample_child])"
    using sample_family_ok sample_execs_ok family_closed [OF sample_family] sample_family_next_ok
    by (auto simp: good_store_def runs_ok_def store_inv_def sample_family_jobs split: if_splits)
  show "good_store (ref_env sample_now) []"
    using sample_execs_ok [of "[]"] by (simp add: good_store_def runs_ok_def store_inv_def closed_def sample_db_def)
qed

lemma sample_store_view: "store_view (ref_env sample_now) (sample_db [sample_parent, sample_child]) = {(''backup'', ''@every 1m'')}"
proof -
  have "schedulable (ext_Parse (ref_env sample_now)) sample_parent" "\<not> schedulable (ext_Parse (ref_env sample_now)) sample_child"
    "tz_schedule sample_parent = ''@every 1m''"
    by (simp_all add: schedulable_def ext_Parse_def tz_schedule_def sample_parent_def sample_child_def sample_job_def
      HasPrefix_def) (simp add: ref_env_def ref_cron_parse_def)
  then show ?thesis by (auto simp: store_view_def sample_family_jobs split: if_splits)
qed

lemma first_pass:
  assumes "lawful_env (w_env W)" "cron_engine (w_cron W) parser last_id" "good_store (w_env W) d"
  shows "\<exists>p. (peer_step ok good N W)\<^sup>*\<^sup>* (new_peer a d) p \<and> p_terms p = 1 \<and> p_raft p \<and> Started (l_sched (p_lead p)) \<and> p_db p = d"
proof -
  let ?p = "(new_peer a d)\<lparr>p_raft := True, p_terms := Suc 0, p_lead := on_leaderCh True (initial a)\<rparr>"
  obtain sc where sc: "establishLeadership (w_cron W) (w_env W) d NewScheduler = Inr (None, sc)" "Started sc"
    using establishLeadership_syncs [OF assms, of NewScheduler] by (auto simp: idle_def NewScheduler_def)
  obtain l where l: "reconcile_pass N (w_raft W) (w_cron W) (w_env W) d [] None False (on_leaderCh True (initial a)) = Inr l" "l_sched l = sc"
    using sc(1) by (cases "reconcile N (w_raft W) [] a"; cases "fst (reconcile N (w_raft W) [] a)")
      (simp_all add: reconcile_pass_def on_leaderCh_def initial_def Let_def)
  have "peer_step ok good N W (new_peer a d) ?p"
    using peer_step.elected [of "new_peer a d" True ok good N W] by (simp add: new_peer_def initial_def)
  moreover have "peer_step ok good N W ?p (?p\<lparr>p_lead := l\<rparr>)"
    by (rule peer_step.passed [of _ False None N W "[]"]) (use l(1) in \<open>simp_all add: new_peer_def on_leaderCh_def initial_def\<close>)
  ultimately have "(peer_step ok good N W)\<^sup>*\<^sup>* (new_peer a d) (?p\<lparr>p_lead := l\<rparr>)"
    by (meson converse_rtranclp_into_rtranclp rtranclp.rtrancl_refl)
  then show ?thesis using l(2) sc(2) by (intro exI [of _ "?p\<lparr>p_lead := l\<rparr>"]) (simp add: new_peer_def)
qed

theorem leader_schedules_the_store_witness:
  "\<exists>p. (peer_step (work_ok sample_world) (good_store (w_env sample_world)) ref_net sample_world)\<^sup>*\<^sup>* (new_peer sample_leader (sample_db [sample_parent, sample_child])) p \<and> p_raft p \<and>
     p_db p = sample_db [sample_parent, sample_child] \<and> entry_view ref_cron (l_sched (p_lead p)) = {(''backup'', ''@every 1m'')}"
proof -
  let ?d = "sample_db [sample_parent, sample_child]"
  have W: "lawful_env (w_env sample_world)" "w_apply sample_world = fsm_apply (w_env sample_world)"
    "cron_engine (w_cron sample_world) fst (\<lambda>c. fst (snd c))" "good_store (w_env sample_world) ?d"
    using ref.lawful_env_axioms refc.cron_engine_axioms sample_good_store by simp_all
  have t: "time_ok (cron_Next (w_cron sample_world) c i)" for c i by (simp add: ref_cron_def time_ok_def zero_time_def)
  obtain p where p: "(peer_step (work_ok sample_world) (good_store (w_env sample_world)) ref_net sample_world)\<^sup>*\<^sup>* (new_peer sample_leader ?d) p" "p_terms p = 1" "p_raft p"
    "Started (l_sched (p_lead p))" "p_db p = ?d"
    using first_pass [OF W(1,3,4), of "work_ok sample_world" "good_store (w_env sample_world)" ref_net sample_leader] by blast
  with leader_schedules_the_store [OF W(1,2) t W(3,4) p(1-4)] show ?thesis
    using sample_store_view by auto
qed

text \<open>
  Why requests must not be handled in the middle of the first pass. \<open>establishLeadership\<close> reads the jobs and then starts
  the scheduler with them, while the handlers of requests already run: a job that is deleted in between, when the
  scheduler has no entry to remove yet, is scheduled although it is not stored any more.
\<close>

theorem delete_during_start:
  assumes E: "lawful_env (w_env W)" and W: "w_apply W = fsm_apply (w_env W)" and cron: "cron_engine (w_cron W) parser last_id"
    and s: "good_store (w_env W) (sv_db s)" "idle (sv_sched s)" "deletable (jobs_of (w_env W) (sv_db s)) n"
    and j: "jobs_of (w_env W) (sv_db s) n = Some j" "schedulable (ext_Parse (w_env W)) j"
    and jobs: "GetJobs (w_env W) (sv_db s) None = Inr js" and del: "grpc_DeleteJob W s n = (Inr pj, s')"
  shows "\<exists>sc. sched_Start (w_cron W) (w_env W) (sv_sched s') js = Inr sc \<and> (n, tz_schedule j) \<in> entry_view (w_cron W) sc \<and>
    jobs_of (w_env W) (sv_db s') n = None"
proof -
  let ?E = "w_env W"
  obtain cmd k d where cmd: "Encode ?E DeleteJobType (MDelete \<lparr>djr_JobName = n\<rparr>) = Inr cmd"
    "fsm_apply ?E (sv_db s) cmd = (Inr (RJob k), d)" "sv_db s' = d"
    using del by (auto simp: grpc_DeleteJob_def W split: sum.splits prod.splits response.splits)
  have gone: "jobs_of ?E (sv_db s') n = None" using delete_job_applied [OF E s(1,3) cmd(1,2)] cmd(3) by simp
  have idle: "sv_sched s' = sv_sched s"
    using DeleteJob_follows [OF E W cron s(1), of n s'] s(2,3) del by simp
  obtain js' where "GetJobs ?E (sv_db s) None = Inr js'" "distinct (map Name js')" "set js' = ran (jobs_of ?E (sv_db s))"
    by (rule lawful_env.GetJobs_all [OF E, of "sv_db s"]) (use good_storeD [OF s(1)] in auto)
  then have js: "distinct (map Name js)" "j \<in> set js" using jobs j(1) by (auto simp: ran_def)
  obtain sc where sc: "sched_Start (w_cron W) ?E (sv_sched s) js = Inr sc"
    "snd ` entries (w_cron W) sc = {(tz_schedule j, j) |j. j \<in> set js \<and> schedulable (ext_Parse ?E) j}"
    by (rule cron_engine.sched_Start_ok [OF cron _ js(1), of "sv_sched s" ?E]) (use s(2) in \<open>simp add: idle_def\<close>)
  then have "(tz_schedule j, j) \<in> snd ` entries (w_cron W) sc" using js(2) j(2) by blast
  then have "(Name j, tz_schedule j) \<in> entry_view (w_cron W) sc" unfolding entry_view_def by force
  moreover have "Name j = n" using lawful_env.jobs_of_SomeD(1) [OF E _ j(1)] good_storeD [OF s(1)] by simp
  ultimately show ?thesis using gone idle sc(1) by auto
qed

section \<open>Elections that go unnoticed\<close>

text \<open>The goroutines of a server behave as \<open>leader_step\<close> says.\<close>

lemma peer_step_leader: "peer_step ok good N W p p' \<Longrightarrow> (leader_step N (w_raft W) (w_cron W) (w_env W))\<^sup>*\<^sup>* (p_lead p) (p_lead p')"
proof (induction rule: peer_step.induct)
  case (elected p got)
  then show ?case using leader_step.leaderCh [of "p_lead p" N "w_raft W" "w_cron W" "w_env W" True] by auto
next
  case (deposed p got)
  then show ?case using leader_step.leaderCh [of "p_lead p" N "w_raft W" "w_cron W" "w_env W" False] by auto
next
  case (works p w)
  let ?sc = "sv_sched (do_work W (server_of p) w)"
  have "?sc = l_sched (p_lead p) \<or> (\<exists>j e. AddJob (w_cron W) (l_sched (p_lead p)) j = Inr (e, ?sc)) \<or>
      (\<exists>j. RemoveJob (w_cron W) (l_sched (p_lead p)) j = Inr ?sc)"
    using do_work_sched [of W "server_of p" w] by (simp add: server_of_def)
  moreover have "p_lead (work_on W p w) = (p_lead p)\<lparr>l_sched := ?sc\<rparr>" by (simp add: work_on_def Let_def)
  ultimately show ?case by (auto intro: leader_step.add_job leader_step.remove_job)
qed (auto intro: leader_step.intros)

lemma reachable_peer_ok: "(peer_step ok good N W)\<^sup>*\<^sup>* (new_peer a d) p \<Longrightarrow> leadership_ok (p_lead p)"
proof -
  assume "(peer_step ok good N W)\<^sup>*\<^sup>* (new_peer a d) p"
  then have "(leader_step N (w_raft W) (w_cron W) (w_env W))\<^sup>*\<^sup>* (initial a) (p_lead p)"
    by (induction rule: rtranclp_induct) (auto simp: new_peer_def dest: peer_step_leader)
  then show ?thesis by (rule reachable_leadership_ok)
qed

text \<open>A leader whose monitor does not know of it: nothing but another election starts its scheduler.\<close>

definition unaware :: "('db, 'c, 'r) peer \<Rightarrow> bool" where
  "unaware p \<longleftrightarrow> p_raft p \<and> l_monitor (p_lead p) = Following \<and> l_loop (p_lead p) = NotRunning \<and> \<not> Started (l_sched (p_lead p))"

definition same_leader_step ::
    "(('db, 'c, 'r) server \<Rightarrow> work \<Rightarrow> bool) \<Rightarrow> ('db \<Rightarrow> bool) \<Rightarrow> net_lib \<Rightarrow> ('db, 'c, 'r) world \<Rightarrow> ('db, 'c, 'r) peer \<Rightarrow> ('db, 'c, 'r) peer \<Rightarrow> bool" where
  "same_leader_step ok good N W p p' \<longleftrightarrow> peer_step ok good N W p p' \<and> p_raft p' = p_raft p"

lemma do_work_started: "Started (sv_sched (do_work W s w)) = Started (sv_sched s)"
  using do_work_sched [of W s w] AddJob_frame RemoveJob_frame by metis

lemma unaware_step:
  assumes "same_leader_step ok good N W p p'" "unaware p"
  shows "unaware p'"
proof -
  have step: "peer_step ok good N W p p'" "p_raft p' = p_raft p" using assms(1) by (simp_all add: same_leader_step_def)
  from step(1) show ?thesis
  proof cases
    case (works w)
    then show ?thesis
      using do_work_started [of W "server_of p" w] assms(2) by (simp add: unaware_def work_on_def Let_def server_of_def)
  qed (use assms(2) step(2) in \<open>auto simp: unaware_def\<close>)
qed

lemma unaware_steps: "(same_leader_step ok good N W)\<^sup>*\<^sup>* p p' \<Longrightarrow> unaware p \<Longrightarrow> unaware p'"
  by (induction rule: rtranclp_induct) (auto dest: unaware_step)

text \<open>The leader loop can end in every state in which the monitor waits for it.\<close>

lemma leader_loop_ends:
  assumes ok: "leadership_ok (p_lead p)" and mon: "l_monitor (p_lead p) = Stopping" and raft: "p_raft p"
  shows "\<exists>p'. (peer_step ok good N W)\<^sup>*\<^sup>* p p' \<and> unaware p'"
proof -
  have ended: "\<exists>p'. (peer_step ok good N W)\<^sup>*\<^sup>* q p' \<and> unaware p'"
    if "leadership_ok (p_lead q)" "l_monitor (p_lead q) = Stopping" "l_loop (p_lead q) = NotRunning" "p_raft q" for q
    using peer_step.ended [OF that(2,3), of ok good N W] that
    by (intro exI [of _ "q\<lparr>p_lead := (p_lead q)\<lparr>l_monitor := Following\<rparr>\<rparr>"]) (auto simp: unaware_def leadership_ok_def)
  have waiting: "\<exists>p'. (peer_step ok good N W)\<^sup>*\<^sup>* q p' \<and> unaware p'"
    if q: "leadership_ok (p_lead q)" "l_monitor (p_lead q) = Stopping" "l_loop (p_lead q) = AtWait b" "p_raft q" for q b
  proof -
    obtain l' where l': "leave_loop (w_cron W) (p_lead q) = Inr l'" using leave_loop_total [OF q(1)] by blast
    have "\<exists>p'. (peer_step ok good N W)\<^sup>*\<^sup>* (q\<lparr>p_lead := l'\<rparr>) p' \<and> unaware p'"
      by (rule ended) (use leave_loop_ok [OF q(1) l'] q in auto)
    moreover have "peer_step ok good N W q (q\<lparr>p_lead := l'\<rparr>)" by (rule peer_step.stopped [OF q(3,2) l'])
    ultimately show ?thesis by (meson converse_rtranclp_into_rtranclp)
  qed
  show ?thesis
  proof (cases "l_loop (p_lead p)")
    case NotRunning
    then show ?thesis using ended assms by blast
  next
    case AtReconcile
    let ?q = "p\<lparr>p_lead := (p_lead p)\<lparr>l_loop := AtWait False\<rparr>\<rparr>"
    have "peer_step ok good N W p ?q"
      by (rule peer_step.passed [OF AtReconcile, of False "Some ErrNotFound" N W "[]"]) (simp_all add: reconcile_pass_def)
    moreover have "\<exists>p'. (peer_step ok good N W)\<^sup>*\<^sup>* ?q p' \<and> unaware p'"
      by (rule waiting) (use assms AtReconcile in \<open>auto simp: leadership_ok_def\<close>)
    ultimately show ?thesis by (meson converse_rtranclp_into_rtranclp)
  next
    case (AtWait b)
    then show ?thesis using waiting assms by blast
  qed
qed

text \<open>
  C32: An election can go unnoticed. A server that is elected again while its monitor still waits for the
  leader loop of the last term to end can miss the news, because Raft does not wait for a receiver: it is
  then the leader of the cluster and, whatever else happens until the next election, its scheduler is never
  started, so that no job is run on schedule.
\<close>

theorem unnoticed_election_stops_schedule:
  assumes "(peer_step ok good N W)\<^sup>*\<^sup>* (new_peer a d) p" "\<not> p_raft p" "l_monitor (p_lead p) = Stopping"
  shows "\<exists>p1. (peer_step ok good N W)\<^sup>*\<^sup>* p p1 \<and> p_raft p1 \<and>
    (\<forall>p2. (same_leader_step ok good N W)\<^sup>*\<^sup>* p1 p2 \<longrightarrow> p_raft p2 \<and> \<not> Started (l_sched (p_lead p2)))"
proof -
  let ?p = "p\<lparr>p_raft := True, p_terms := Suc (p_terms p), p_lead := (if False then on_leaderCh True (p_lead p) else p_lead p)\<rparr>"
  have "peer_step ok good N W p ?p" by (rule peer_step.elected) (use assms(2) in auto)
  moreover obtain p1 where "(peer_step ok good N W)\<^sup>*\<^sup>* ?p p1" "unaware p1"
    using leader_loop_ends [of ?p ok good N W] reachable_peer_ok [OF assms(1)] assms(3) by auto
  ultimately show ?thesis
    using unaware_steps [of ok good N W p1] by (intro exI [of _ p1]) (auto simp: unaware_def)
qed

theorem unnoticed_election_stops_schedule_witness:
  "\<exists>p1. (peer_step (work_ok sample_world) (good_store (w_env sample_world)) ref_net sample_world)\<^sup>*\<^sup>* (new_peer sample_leader []) p1 \<and> p_raft p1 \<and>
     (\<forall>p2. (same_leader_step (work_ok sample_world) (good_store (w_env sample_world)) ref_net sample_world)\<^sup>*\<^sup>* p1 p2 \<longrightarrow> \<not> Started (l_sched (p_lead p2)))"
proof -
  let ?p0 = "new_peer sample_leader [] :: (ref_db, ref_cron_state, raft_server list) peer"
  let ?p1 = "?p0\<lparr>p_raft := True, p_terms := Suc 0, p_lead := on_leaderCh True (p_lead ?p0)\<rparr>"
  let ?p2 = "?p1\<lparr>p_raft := False, p_lead := on_leaderCh False (p_lead ?p1)\<rparr>"
  have "peer_step (work_ok sample_world) (good_store (w_env sample_world)) ref_net sample_world ?p0 ?p1"
    using peer_step.elected [of ?p0 True "work_ok sample_world" "good_store (w_env sample_world)" ref_net sample_world] by (simp add: new_peer_def initial_def)
  moreover have "peer_step (work_ok sample_world) (good_store (w_env sample_world)) ref_net sample_world ?p1 ?p2"
    using peer_step.deposed [of ?p1 True "work_ok sample_world" "good_store (w_env sample_world)" ref_net sample_world] by (simp add: new_peer_def initial_def on_leaderCh_def)
  ultimately have run: "(peer_step (work_ok sample_world) (good_store (w_env sample_world)) ref_net sample_world)\<^sup>*\<^sup>* ?p0 ?p2"
    by (meson converse_rtranclp_into_rtranclp rtranclp.rtrancl_refl)
  moreover have "l_monitor (p_lead ?p2) = Stopping" by (simp add: new_peer_def initial_def on_leaderCh_def)
  ultimately obtain p1 where "(peer_step (work_ok sample_world) (good_store (w_env sample_world)) ref_net sample_world)\<^sup>*\<^sup>* ?p2 p1" "p_raft p1"
    "\<forall>p2. (same_leader_step (work_ok sample_world) (good_store (w_env sample_world)) ref_net sample_world)\<^sup>*\<^sup>* p1 p2 \<longrightarrow> p_raft p2 \<and> \<not> Started (l_sched (p_lead p2))"
    using unnoticed_election_stops_schedule [OF run] by auto
  with run show ?thesis by (meson rtranclp_trans)
qed

text \<open>
  C33: A job that is set before the scheduler was ever started ends the process. A server handles requests as soon as
  Raft has elected it; until it has established its leadership for the first time, storing an enabled job without parent
  succeeds and the handler then dereferences the engine that is not there.
\<close>

theorem early_SetJob_panics:
  assumes E: "lawful_env (w_env W)" and W: "w_apply W = fsm_apply (w_env W)" and s: "good_store (w_env W) (sv_db s)" "idle (sv_sched s)"
    and j: "work_ok W s (Do_SetJob j)" "\<not> Disabled j" "ParentJob j = []"
  shows "\<exists>s' j'. grpc_SetJob W s (Some (ToProto (w_env W) j)) = (Inl (Panic ''nil pointer dereference''), s') \<and>
    jobs_of (w_env W) (sv_db s') (Name j) = Some j' \<and> sched_of j' = sched_of j"
proof -
  let ?E = "w_env W"
  obtain e d where ap: "agent_applySetJob (fsm_apply ?E) ?E (sv_db s) (ToProto ?E j) = (e, d)"
    by (cases "agent_applySetJob (fsm_apply ?E) ?E (sv_db s) (ToProto ?E j)")
  have ok: "job_ok ?E j" "next_ok ?E j" using j(1) by simp_all
  have "e = None" using set_job_applied [OF E s(1) ok ap] j(3) by (auto split: if_splits)
  then obtain j' where j': "jobs_of ?E d (Name j) = Some j'" "sched_of j' = sched_of j"
    using set_job_applied [OF E s(1) ok ap] by auto
  have "AddJob (w_cron W) (sv_sched s) j = Inl (Panic ''nil pointer dereference'')"
    using s(2) j(2,3) by (simp add: AddJob_def idle_def)
  then have "grpc_SetJob W s (Some (ToProto ?E j)) = (Inl (Panic ''nil pointer dereference''), s\<lparr>sv_db := d\<rparr>)"
    using ap \<open>e = None\<close> ok(1) by (simp add: grpc_SetJob_def W job_ok_def representable_def)
  with j' show ?thesis by auto
qed

theorem early_SetJob_panics_witness:
  "\<exists>s'. grpc_SetJob sample_world ((sample_srv [])\<lparr>sv_sched := NewScheduler\<rparr>)
      (Some (ToProto (ref_env sample_now) (sample_job ''backup'' ''@every 1m'' []))) = (Inl (Panic ''nil pointer dereference''), s')"
proof -
  let ?j = "sample_job ''backup'' ''@every 1m'' []" and ?s = "(sample_srv [])\<lparr>sv_sched := NewScheduler\<rparr>"
  have "work_ok sample_world ?s (Do_SetJob ?j)"
    using sample_hyps by (simp add: job_ok_def)
  moreover have "idle (sv_sched ?s)" "\<not> Disabled ?j" "ParentJob ?j = []" by (simp_all add: idle_def NewScheduler_def sample_job_def)
  ultimately show ?thesis
    using early_SetJob_panics [of sample_world ?s ?j] sample_good_store(2) ref.lawful_env_axioms by auto
qed

end
