(* ===== verification/Config.thy ===== *)
theory Config
  imports Serf
begin

text \<open>
The configuration of an agent (\<open>src/dkron/config.go\<close>): its defaults and flags, the bind address
and its default port, and the address the agent advertises to the others. \<open>net.SplitHostPort\<close> of
the Go library is written out; the resolver and the address templates are a record of functions.
\<close>

section \<open>Host and port\<close>

text \<open>\<open>net.SplitHostPort\<close> of the Go library, with the texts of its errors.\<close>

datatype addr_err = MissingPort | TooManyColons | MissingBracket | UnexpectedOpen | UnexpectedClose

fun addr_err_text :: "addr_err \<Rightarrow> string" where
  "addr_err_text MissingPort = ''missing port in address''"
| "addr_err_text TooManyColons = ''too many colons in address''"
| "addr_err_text MissingBracket = ''missing ']' in address''"
| "addr_err_text UnexpectedOpen = ''unexpected '[' in address''"
| "addr_err_text UnexpectedClose = ''unexpected ']' in address''"

text \<open>\<open>AddrError.Error\<close>: the text with the address in front of it.\<close>

definition AddrError :: "string \<Rightarrow> addr_err \<Rightarrow> string" where
  "AddrError addr e = (if addr = [] then addr_err_text e else ''address '' @ addr @ '': '' @ addr_err_text e)"

text \<open>The parts before and after the first and the last occurrence of a character.\<close>

fun cut_first :: "char \<Rightarrow> string \<Rightarrow> (string \<times> string) option" where
  "cut_first c [] = None"
| "cut_first c (x # s) =
     (if x = c then Some ([], s) else (case cut_first c s of None \<Rightarrow> None | Some (a, b) \<Rightarrow> Some (x # a, b)))"

definition cut_last :: "char \<Rightarrow> string \<Rightarrow> (string \<times> string) option" where
  "cut_last c s = (case cut_first c (rev s) of None \<Rightarrow> None | Some (a, b) \<Rightarrow> Some (rev b, rev a))"

definition no_brackets :: "string \<Rightarrow> string \<Rightarrow> addr_err option" where
  "no_brackets opens closes =
     (if CHR ''['' \<in> set opens then Some UnexpectedOpen
      else if CHR '']'' \<in> set closes then Some UnexpectedClose else None)"

definition SplitHostPort :: "string \<Rightarrow> addr_err + (string \<times> string)" where
  "SplitHostPort hostport =
     (case cut_last CHR '':'' hostport of
        None \<Rightarrow> Inl MissingPort
      | Some (before, port) \<Rightarrow>
          if HasPrefix hostport ''['' then
            (case cut_first CHR '']'' hostport of
               None \<Rightarrow> Inl MissingBracket
             | Some (opened, rest) \<Rightarrow>
                 if rest = [] then Inl MissingPort
                 else if rest = CHR '':'' # port then
                   (case no_brackets (drop 1 hostport) rest of
                      Some e \<Rightarrow> Inl e | None \<Rightarrow> Inr (drop 1 opened, port))
                 else if hd rest = CHR '':'' then Inl TooManyColons
                 else Inl MissingPort)
          else if CHR '':'' \<in> set before then Inl TooManyColons
          else (case no_brackets hostport hostport of Some e \<Rightarrow> Inl e | None \<Rightarrow> Inr (before, port)))"

lemma cut_first_None: "cut_first c s = None \<longleftrightarrow> c \<notin> set s"
  by (induction s) (auto split: option.splits)

lemma cut_first_append [simp]: "c \<notin> set a \<Longrightarrow> cut_first c (a @ c # b) = Some (a, b)"
  by (induction a) auto

lemma cut_first_SomeD: "cut_first c s = Some (a, b) \<Longrightarrow> s = a @ c # b \<and> c \<notin> set a"
  by (induction s arbitrary: a) (auto split: option.splits if_splits)

lemma cut_first_Some: "cut_first c s = Some (a, b) \<longleftrightarrow> s = a @ c # b \<and> c \<notin> set a"
  using cut_first_SomeD cut_first_append by metis

lemma cut_last_None: "cut_last c s = None \<longleftrightarrow> c \<notin> set s"
  using cut_first_None [of c "rev s"] by (auto simp: cut_last_def split: option.splits)

lemma cut_last_append [simp]: "c \<notin> set b \<Longrightarrow> cut_last c (a @ c # b) = Some (a, b)"
  by (simp add: cut_last_def)

lemma cut_last_SomeD: "cut_last c s = Some (a, b) \<Longrightarrow> s = a @ c # b \<and> c \<notin> set b"
  by (auto simp: cut_last_def rev_swap split: option.splits dest!: cut_first_SomeD)

lemma HasPrefix_bracket: "HasPrefix s ''['' \<longleftrightarrow> (\<exists>t. s = CHR ''['' # t)"
  by (auto simp: HasPrefix_conv)

text \<open>What a well-formed address splits into.\<close>

lemma SplitHostPort_plain:
  assumes "CHR '':'' \<notin> set host" "CHR '':'' \<notin> set port" "set (host @ port) \<inter> {CHR ''['', CHR '']''} = {}"
  shows "SplitHostPort (host @ '':'' @ port) = Inr (host, port)"
proof -
  have "\<not> HasPrefix (host @ '':'' @ port) ''[''" using assms(3) by (cases host) auto
  then show ?thesis using assms by (auto simp: SplitHostPort_def no_brackets_def)
qed

lemma SplitHostPort_bracketed:
  assumes "CHR '':'' \<notin> set port" "set (host @ port) \<inter> {CHR ''['', CHR '']''} = {}"
  shows "SplitHostPort (''['' @ host @ '']:'' @ port) = Inr (host, port)"
proof -
  have "cut_last CHR '':'' (''['' @ host @ '']:'' @ port) = Some (''['' @ host @ '']'', port)"
    using cut_last_append [of "CHR '':''" port "''['' @ host @ '']''"] assms(1) by simp
  moreover have "cut_first CHR '']'' (''['' @ host @ '']:'' @ port) = Some (''['' @ host, CHR '':'' # port)"
    using cut_first_append [of "CHR '']''" "''['' @ host" "CHR '':'' # port"] assms(2) by simp
  ultimately show ?thesis using assms(2) by (auto simp: SplitHostPort_def no_brackets_def)
qed

section \<open>The bind address\<close>

definition DefaultBindPort :: int where "DefaultBindPort = 8946"
definition DefaultRPCPort :: int where "DefaultRPCPort = 6868"

text \<open>
  The loop of \<open>AddrParts\<close>, which adds the default port until the address does not miss it any more.
  It may run forever, so it takes a number of rounds; \<open>None\<close> when they do not suffice.
\<close>

fun addr_loop :: "nat \<Rightarrow> string \<Rightarrow> string res option" where
  "addr_loop 0 checkAddr = None"
| "addr_loop (Suc n) checkAddr =
     (case SplitHostPort checkAddr of
        Inl MissingPort \<Rightarrow> addr_loop n (checkAddr @ '':'' @ show_int DefaultBindPort)
      | Inl e \<Rightarrow> Some (Inl (LibError (AddrError checkAddr e)))
      | Inr _ \<Rightarrow> Some (Inr checkAddr))"

text \<open>\<open>resolve\<close> is \<open>net.ResolveTCPAddr\<close>: the address and the port.\<close>

definition AddrParts :: "(string \<Rightarrow> (string \<times> int) res) \<Rightarrow> nat \<Rightarrow> string \<Rightarrow> (string \<times> int) res option" where
  "AddrParts resolve n address =
     (case addr_loop n address of
        None \<Rightarrow> None
      | Some (Inl e) \<Rightarrow> Some (Inl e)
      | Some (Inr checkAddr) \<Rightarrow> Some (resolve checkAddr))"

text \<open>An address in brackets that is followed by something else than a port.\<close>

definition bracket_junk :: "string \<Rightarrow> bool" where
  "bracket_junk s \<longleftrightarrow> HasPrefix s ''['' \<and>
     (case cut_first CHR '']'' s of None \<Rightarrow> False | Some (_, rest) \<Rightarrow> rest \<noteq> [] \<and> hd rest \<noteq> CHR '':'')"


lemma show_8946: "show_int DefaultBindPort = ''8946''"
proof -
  have "digit_char 8 = CHR ''8''" "digit_char 9 = CHR ''9''" "digit_char 4 = CHR ''4''" "digit_char 6 = CHR ''6''"
    by code_simp+
  then show ?thesis by (simp add: show_int_def show_nat.simps DefaultBindPort_def)
qed

lemma bracket_junk_conv:
  "bracket_junk s \<longleftrightarrow> (\<exists>h c r. s = CHR ''['' # h @ CHR '']'' # c # r \<and> CHR '']'' \<notin> set h \<and> c \<noteq> CHR '':'')"
proof
  assume "bracket_junk s"
  then obtain a rest where a: "cut_first CHR '']'' s = Some (a, rest)" "rest \<noteq> []" "hd rest \<noteq> CHR '':''" "HasPrefix s ''[''"
    by (auto simp: bracket_junk_def split: option.splits)
  then obtain c r where "rest = c # r" by (cases rest) auto
  moreover have "s = a @ CHR '']'' # rest" "CHR '']'' \<notin> set a" using cut_first_SomeD [OF a(1)] by auto
  moreover obtain h where "a = CHR ''['' # h"
    using a(4) calculation(2) by (cases a) (auto simp: HasPrefix_conv)
  ultimately show "\<exists>h c r. s = CHR ''['' # h @ CHR '']'' # c # r \<and> CHR '']'' \<notin> set h \<and> c \<noteq> CHR '':''"
    using a(3) by auto
next
  assume "\<exists>h c r. s = CHR ''['' # h @ CHR '']'' # c # r \<and> CHR '']'' \<notin> set h \<and> c \<noteq> CHR '':''"
  then obtain h c r where "s = (CHR ''['' # h) @ CHR '']'' # c # r" "CHR '']'' \<notin> set h" "c \<noteq> CHR '':''" by auto
  then show "bracket_junk s"
    using cut_first_append [of "CHR '']''" "CHR ''['' # h" "c # r"] by (simp add: bracket_junk_def HasPrefix_def)
qed

lemma bracket_junk_MissingPort: "bracket_junk s \<Longrightarrow> SplitHostPort s = Inl MissingPort"
  by (auto simp: bracket_junk_def SplitHostPort_def split: option.splits)

lemma bracket_junk_append: "bracket_junk s \<Longrightarrow> bracket_junk (s @ t)"
  unfolding bracket_junk_conv by fastforce

lemma addr_loop_diverges: "bracket_junk s \<Longrightarrow> addr_loop n s = None"
  by (induction n arbitrary: s) (auto simp: bracket_junk_MissingPort bracket_junk_append)

text \<open>After the default port was added once, a port is no longer missing.\<close>

lemma MissingPort_once:
  assumes "SplitHostPort s = Inl MissingPort" "\<not> bracket_junk s"
  shows "SplitHostPort (s @ '':8946'') \<noteq> Inl MissingPort"
proof (cases "HasPrefix s ''[''")
  case False
  then have "CHR '':'' \<notin> set s"
    using assms(1) by (auto simp: SplitHostPort_def cut_last_None no_brackets_def split: option.splits if_splits)
  moreover have "\<not> HasPrefix (s @ '':8946'') ''[''" using False by (cases s) (auto simp: HasPrefix_def)
  ultimately show ?thesis
    using cut_last_append [of "CHR '':''" "''8946''" s] by (simp add: SplitHostPort_def no_brackets_def split: option.splits)
next
  case True
  have last: "cut_last CHR '':'' (s @ '':8946'') = Some (s, ''8946'')"
    using cut_last_append [of "CHR '':''" "''8946''" s] by simp
  show ?thesis
  proof (cases "cut_first CHR '']'' s")
    case None
    then have "cut_first CHR '']'' (s @ '':8946'') = None" by (simp add: cut_first_None)
    with last True show ?thesis by (auto simp: SplitHostPort_def HasPrefix_conv)
  next
    case (Some p)
    obtain a rest where p: "p = (a, rest)" by fastforce
    have s: "s = a @ CHR '']'' # rest" "CHR '']'' \<notin> set a" using cut_first_SomeD Some p by auto
    have first: "cut_first CHR '']'' (s @ '':8946'') = Some (a, rest @ '':8946'')" using s by simp
    have pre: "HasPrefix (s @ '':8946'') ''[''" using True by (auto simp: HasPrefix_conv)
    have "hd (rest @ '':8946'') = CHR '':''"
      using assms(2) True Some p by (cases rest) (auto simp: bracket_junk_def)
    then show ?thesis
      using last first pre by (auto simp: SplitHostPort_def no_brackets_def)
  qed
qed

text \<open>
  C38: \<open>AddrParts\<close> ends after at most two rounds, for every address but one kind: an address in
  brackets with something other than a port behind the closing bracket. For these the loop adds
  the default port forever.
\<close>

theorem AddrParts_terminates:
  "if bracket_junk s then \<forall>n. AddrParts resolve n s = None
   else \<exists>r. \<forall>n \<ge> 2. AddrParts resolve n s = Some r"
proof (cases "bracket_junk s")
  case True
  then show ?thesis by (simp add: AddrParts_def addr_loop_diverges)
next
  case False
  have "\<exists>r. \<forall>n. addr_loop (Suc (Suc n)) s = Some r"
  proof (cases "SplitHostPort s = Inl MissingPort")
    case True
    then show ?thesis
      using MissingPort_once [OF True False]
      by (cases "SplitHostPort (s @ '':8946'')") (auto simp: show_8946 split: addr_err.splits)
  next
    case ok: False
    then show ?thesis by (cases "SplitHostPort s") (auto split: addr_err.splits)
  qed
  then obtain r where r: "\<And>n. addr_loop (Suc (Suc n)) s = Some r" by blast
  have "addr_loop n s = Some r" if n: "n \<ge> 2" for n
  proof -
    obtain m where "n = 2 + m" using le_Suc_ex [OF n] by blast
    then have "n = Suc (Suc m)" by simp
    then show ?thesis by (simp only: r)
  qed
  then have "\<forall>n \<ge> 2. AddrParts resolve n s =
      Some (case r of Inl e \<Rightarrow> Inl e | Inr checkAddr \<Rightarrow> resolve checkAddr)"
    by (simp add: AddrParts_def split: sum.splits)
  then show ?thesis using False by auto
qed


section \<open>The configuration\<close>

record config =
  NodeName :: string
  BindAddr :: string
  HTTPAddr :: string
  Profile :: string
  AdvertiseAddr :: string
  cfg_Tags :: "string gomap"
  Server :: bool
  EncryptKey :: string
  StartJoin :: "string list"
  RetryJoinLAN :: "string list"
  RetryJoinMaxAttemptsLAN :: int
  RetryJoinIntervalLAN :: int
  RPCPort :: int
  AdvertiseRPCPort :: int
  LogLevel :: string
  Datacenter :: string
  Region :: string
  Bootstrap :: bool
  BootstrapExpect :: int
  DataDir :: string
  DevMode :: bool
  ReconcileInterval :: int
  RaftMultiplier :: int
  MailHost :: string
  MailPort :: "16 word"
  MailUsername :: string
  MailPassword :: string
  MailFrom :: string
  MailPayload :: string
  MailSubjectPrefix :: string
  WebhookURL :: string
  WebhookPayload :: string
  WebhookHeaders :: "string list"
  DogStatsdAddr :: string
  DogStatsdTags :: "string list"
  StatsdAddr :: string
  SerfReconnectTimeout :: string
  EnablePrometheus :: bool

text \<open>Durations are in nanoseconds.\<close>

definition DefaultRetryInterval :: int where "DefaultRetryInterval = 30 * 1000000000"

definition DefaultConfig :: "string res \<Rightarrow> config res" where
  "DefaultConfig hostname =
     (case hostname of
        Inl e \<Rightarrow> Inl (Panic ''log.Panic'')
      | Inr host \<Rightarrow>
          Inr \<lparr>NodeName = host, BindAddr = ''{{ GetPrivateIP }}:'' @ show_int DefaultBindPort,
               HTTPAddr = '':8080'', Profile = ''lan'', AdvertiseAddr = [], cfg_Tags = [], Server = False,
               EncryptKey = [], StartJoin = [], RetryJoinLAN = [], RetryJoinMaxAttemptsLAN = 0,
               RetryJoinIntervalLAN = 0, RPCPort = DefaultRPCPort, AdvertiseRPCPort = 0, LogLevel = ''info'',
               Datacenter = ''dc1'', Region = ''global'', Bootstrap = False, BootstrapExpect = 0,
               DataDir = ''dkron.data'', DevMode = False, ReconcileInterval = 60 * 1000000000,
               RaftMultiplier = 1, MailHost = [], MailPort = 0, MailUsername = [], MailPassword = [],
               MailFrom = [], MailPayload = [], MailSubjectPrefix = ''[Dkron]'', WebhookURL = [],
               WebhookPayload = [], WebhookHeaders = [], DogStatsdAddr = [], DogStatsdTags = [],
               StatsdAddr = [], SerfReconnectTimeout = ''24h'', EnablePrometheus = False\<rparr>)"

text \<open>The flags of the command line: name and default value.\<close>

datatype flag_value = FBool bool | FString string | FInt int | FUint16 "16 word" | FSlice "string list"

definition ConfigFlagSet :: "config \<Rightarrow> (string \<times> flag_value) list" where
  "ConfigFlagSet c =
     [(''server'', FBool False), (''node-name'', FString (NodeName c)), (''bind-addr'', FString (BindAddr c)),
      (''advertise-addr'', FString []), (''http-addr'', FString (HTTPAddr c)), (''profile'', FString (Profile c)),
      (''join'', FSlice []), (''retry-join'', FSlice []), (''retry-max'', FInt 0),
      (''retry-interval'', FString ''30s''), (''raft-multiplier'', FInt (RaftMultiplier c)), (''tag'', FSlice []),
      (''encrypt'', FString []), (''log-level'', FString (LogLevel c)), (''rpc-port'', FInt (RPCPort c)),
      (''advertise-rpc-port'', FInt 0), (''bootstrap-expect'', FInt 0), (''data-dir'', FString (DataDir c)),
      (''datacenter'', FString (Datacenter c)), (''region'', FString (Region c)),
      (''serf-reconnect-timeout'', FString (SerfReconnectTimeout c)),
      (''mail-host'', FString []), (''mail-port'', FUint16 0), (''mail-username'', FString []),
      (''mail-password'', FString []), (''mail-from'', FString []), (''mail-payload'', FString []),
      (''mail-subject-prefix'', FString (MailSubjectPrefix c)),
      (''webhook-url'', FString []), (''webhook-payload'', FString []), (''webhook-headers'', FSlice []),
      (''dog-statsd-addr'', FString []), (''dog-statsd-tags'', FSlice []), (''statsd-addr'', FString []),
      (''enable-prometheus'', FBool False)]"

section \<open>The advertised address\<close>

text \<open>
  The libraries: the address templates of go-sockaddr, the resolver, and the resolution of a TCP
  address. An IP address is its text with the classes the code asks for.
\<close>

record ip_addr =
  ip_String :: string
  IsLinkLocalUnicast :: bool
  IsGlobalUnicast :: bool
  IsLoopback :: bool

record addr_lib =
  template_Parse :: "string \<Rightarrow> string res"
  LookupIP :: "string \<Rightarrow> ip_addr list res"
  ResolveTCPAddr :: "string \<Rightarrow> (string \<times> int) res"

definition ParseSingleIPTemplate :: "addr_lib \<Rightarrow> string \<Rightarrow> string res" where
  "ParseSingleIPTemplate A ipTmpl =
     (case template_Parse A ipTmpl of
        Inl e \<Rightarrow> Inl (Errorf ''unable to parse address template'')
      | Inr out \<Rightarrow>
          (case Split out CHR '' '' of
             [] \<Rightarrow> Inl (Errorf ''no addresses found, please configure one'')
           | [ip] \<Rightarrow> Inr ip
           | _ \<Rightarrow> Inl (Errorf ''multiple addresses found, please configure one'')))"

definition isMissingPort :: "string \<Rightarrow> bool" where
  "isMissingPort msg \<longleftrightarrow> Contains msg ''missing port in address''"

definition isTooManyColons :: "string \<Rightarrow> bool" where
  "isTooManyColons msg \<longleftrightarrow> Contains msg ''too many colons in address''"

text \<open>The scan over the addresses of the bind address.\<close>

fun advertise_ip :: "int \<Rightarrow> bool \<Rightarrow> ip_addr list \<Rightarrow> string res option" where
  "advertise_ip defport dev [] = None"
| "advertise_ip defport dev (ip # ips) =
     (if IsLinkLocalUnicast ip \<or> IsGlobalUnicast ip
      then Some (Inr (JoinHostPort (ip_String ip) (show_int defport)))
      else if IsLoopback ip then
        (if dev then Some (Inr (JoinHostPort (ip_String ip) (show_int defport)))
         else Some (Inl (Errorf ''defaulting advertise to localhost is unsafe, please set advertise manually'')))
      else advertise_ip defport dev ips)"

definition normalizeAdvertise :: "addr_lib \<Rightarrow> string \<Rightarrow> string \<Rightarrow> int \<Rightarrow> bool \<Rightarrow> string res" where
  "normalizeAdvertise A addr bind defport dev =
     (case ParseSingleIPTemplate A addr of
        Inl e \<Rightarrow> Inl (Errorf ''Error parsing advertise address template'')
      | Inr addr \<Rightarrow>
          if addr \<noteq> [] then
            (case SplitHostPort addr of
               Inl e \<Rightarrow>
                 if \<not> isMissingPort (AddrError addr e) \<and> \<not> isTooManyColons (AddrError addr e)
                 then Inl (Errorf ''Error parsing advertise address'')
                 else Inr (JoinHostPort addr (show_int defport))
             | Inr _ \<Rightarrow> Inr addr)
          else
            (case LookupIP A bind of
               Inl e \<Rightarrow> Inl (Errorf ''Error resolving bind address'')
             | Inr ips \<Rightarrow>
                 (case advertise_ip defport dev ips of
                    Some r \<Rightarrow> r
                  | None \<Rightarrow>
                      (case ParseSingleIPTemplate A ''{{ GetPrivateIP }}'' of
                         Inl e \<Rightarrow> Inl (Errorf ''unable to parse default advertise address'')
                       | Inr addr \<Rightarrow> Inr (JoinHostPort addr (show_int defport))))))"

definition normalizeAddrs :: "addr_lib \<Rightarrow> config \<Rightarrow> err \<times> config" where
  "normalizeAddrs A c =
     (case (if BindAddr c \<noteq> [] then ParseSingleIPTemplate A (BindAddr c) else Inr []) of
        Inl e \<Rightarrow> (Some (Errorf ''bind address resolution failed''), c)
      | Inr b \<Rightarrow>
          (let c1 = c\<lparr>BindAddr := b\<rparr> in
           case (if HTTPAddr c1 \<noteq> [] then ParseSingleIPTemplate A (HTTPAddr c1) else Inr []) of
             Inl e \<Rightarrow> (Some (Errorf ''bind address resolution failed''), c1)
           | Inr h \<Rightarrow>
               (let c2 = c1\<lparr>HTTPAddr := h\<rparr> in
                case normalizeAdvertise A (AdvertiseAddr c2) (BindAddr c2) DefaultBindPort (DevMode c2) of
                  Inl e \<Rightarrow> (Some (Errorf ''failed to parse HTTP advertise address''), c2)
                | Inr addr \<Rightarrow> (None, c2\<lparr>AdvertiseAddr := addr\<rparr>))))"


section \<open>Properties of the advertised address\<close>

lemma show_int_chars: "c \<in> {CHR '':'', CHR ''['', CHR '']''} \<Longrightarrow> c \<notin> set (show_int i)"
proof
  assume c: "c \<in> {CHR '':'', CHR ''['', CHR '']''}" and "c \<in> set (show_int i)"
  then obtain n where "c \<in> set (show_nat n)" by (auto simp: show_int_def split: if_splits)
  then obtain d where d: "d < 10" "c = digit_char d" using show_nat_digits by blast
  have "\<forall>d < 10. digit_char d \<notin> {CHR '':'', CHR ''['', CHR '']''}" by code_simp
  with d c show False by blast
qed

lemma Contains_suffix: "Contains (s @ t) t"
  by (induction s) (cases t, auto simp: HasPrefix_def)

lemma missing_port_text: "isMissingPort (AddrError a MissingPort)" "isTooManyColons (AddrError a TooManyColons)"
  using Contains_suffix [of "''address '' @ a @ '': ''" "''missing port in address''"]
    Contains_suffix [of "[]" "''missing port in address''"]
    Contains_suffix [of "''address '' @ a @ '': ''" "''too many colons in address''"]
    Contains_suffix [of "[]" "''too many colons in address''"]
  by (simp_all add: isMissingPort_def isTooManyColons_def AddrError_def)

definition bracketless :: "string \<Rightarrow> bool" where
  "bracketless s \<longleftrightarrow> set s \<inter> {CHR ''['', CHR '']''} = {}"

lemma SplitHostPort_bracketless:
  assumes "bracketless s"
  shows "(SplitHostPort s = Inl MissingPort \<and> CHR '':'' \<notin> set s) \<or>
    (SplitHostPort s = Inl TooManyColons \<and> CHR '':'' \<in> set s) \<or> (\<exists>h p. SplitHostPort s = Inr (h, p))"
proof -
  have "\<not> HasPrefix s ''[''" using assms by (auto simp: bracketless_def HasPrefix_bracket)
  then show ?thesis using assms
    by (auto simp: SplitHostPort_def no_brackets_def bracketless_def cut_last_None dest: cut_last_SomeD split: option.splits)
qed

text \<open>
  A configured address that is advertised can be taken apart again. If the template gives one
  address without brackets, \<open>normalizeAdvertise\<close> succeeds, and its result splits into a host and a
  port: the configured ones, or the configured address as host and the default port.
\<close>

theorem normalizeAdvertise_splits:
  assumes "ParseSingleIPTemplate A addr = Inr out" "out \<noteq> []" "bracketless out"
  shows "\<exists>a h p. normalizeAdvertise A addr bind defport dev = Inr a \<and> SplitHostPort a = Inr (h, p) \<and>
    (SplitHostPort out = Inr (h, p) \<or> h = out \<and> p = show_int defport)"
proof -
  have chars: "CHR '':'' \<notin> set (show_int defport)" "bracketless (show_int defport)"
    using show_int_chars by (auto simp: bracketless_def)
  consider (missing) "SplitHostPort out = Inl MissingPort" "CHR '':'' \<notin> set out"
    | (colons) "SplitHostPort out = Inl TooManyColons" "CHR '':'' \<in> set out"
    | (fine) h p where "SplitHostPort out = Inr (h, p)"
    using SplitHostPort_bracketless [OF assms(3)] by blast
  then show ?thesis
  proof cases
    case missing
    then have "normalizeAdvertise A addr bind defport dev = Inr (out @ '':'' @ show_int defport)"
      using assms missing_port_text(1) by (simp add: normalizeAdvertise_def JoinHostPort_def)
    moreover have "SplitHostPort (out @ '':'' @ show_int defport) = Inr (out, show_int defport)"
      using missing(2) chars assms(3) by (intro SplitHostPort_plain) (auto simp: bracketless_def)
    ultimately show ?thesis by blast
  next
    case colons
    then have "normalizeAdvertise A addr bind defport dev = Inr (''['' @ out @ '']:'' @ show_int defport)"
      using assms missing_port_text(2) by (simp add: normalizeAdvertise_def JoinHostPort_def)
    moreover have "SplitHostPort (''['' @ out @ '']:'' @ show_int defport) = Inr (out, show_int defport)"
      using chars assms(3) by (intro SplitHostPort_bracketed) (auto simp: bracketless_def)
    ultimately show ?thesis by blast
  next
    case fine
    then show ?thesis using assms by (simp add: normalizeAdvertise_def)
  qed
qed

text \<open>
  Outside development mode an agent that is not told what to advertise never advertises a
  loopback address it found for its bind address: the result is an address of the bind address
  that is link-local or global unicast, or the private address of the machine, with the port.
\<close>

theorem normalizeAdvertise_no_loopback:
  assumes "ParseSingleIPTemplate A addr = Inr []" "LookupIP A bind = Inr ips"
    "normalizeAdvertise A addr bind defport False = Inr a"
  shows "(\<exists>ip \<in> set ips. (IsLinkLocalUnicast ip \<or> IsGlobalUnicast ip) \<and> a = JoinHostPort (ip_String ip) (show_int defport)) \<or>
    ((\<forall>ip \<in> set ips. \<not> IsLoopback ip) \<and>
     (\<exists>priv. ParseSingleIPTemplate A ''{{ GetPrivateIP }}'' = Inr priv \<and> a = JoinHostPort priv (show_int defport)))"
proof (cases "advertise_ip defport False ips")
  case None
  then have "\<forall>ip \<in> set ips. \<not> IsLoopback ip"
    by (induction ips) (auto split: if_splits)
  then show ?thesis using assms None by (auto simp: normalizeAdvertise_def split: sum.splits)
next
  case (Some r)
  then have "r = Inr a" using assms by (simp add: normalizeAdvertise_def)
  with Some have "\<exists>ip \<in> set ips. (IsLinkLocalUnicast ip \<or> IsGlobalUnicast ip) \<and> a = JoinHostPort (ip_String ip) (show_int defport)"
    by (induction ips) (auto split: if_splits)
  then show ?thesis by blast
qed

text \<open>
  An IPv6 address in brackets without a port, as \<open>[::1]\<close>, is put into brackets a second time, and
  the result sends \<open>AddrParts\<close>, which \<open>setupSerf\<close> calls on it, into its endless loop.
\<close>

theorem bracketed_advertise_hangs:
  assumes "ParseSingleIPTemplate A addr = Inr ''[::1]''"
  shows "normalizeAdvertise A addr bind DefaultBindPort dev = Inr ''[[::1]]:8946'' \<and>
    AddrParts resolve n ''[[::1]]:8946'' = None"
proof -
  have "SplitHostPort ''[::1]'' = Inl MissingPort" by code_simp
  then have "normalizeAdvertise A addr bind DefaultBindPort dev = Inr ''[[::1]]:8946''"
    using assms missing_port_text(1) by (simp add: normalizeAdvertise_def JoinHostPort_def show_8946)
  moreover have "bracket_junk ''[[::1]]:8946''" by code_simp
  ultimately show ?thesis by (simp add: AddrParts_def addr_loop_diverges)
qed

definition sample_addrs :: addr_lib where
  "sample_addrs = \<lparr>template_Parse = Inr,
     LookupIP = (\<lambda>_. Inr [\<lparr>ip_String = ''10.0.0.1'', IsLinkLocalUnicast = False, IsGlobalUnicast = True, IsLoopback = False\<rparr>]),
     ResolveTCPAddr = (\<lambda>s. Inr (s, 8946))\<rparr>"

theorem AddrParts_terminates_witness:
  "AddrParts (ResolveTCPAddr sample_addrs) 1000 ''[::1]x'' = None \<and>
   (\<exists>r. AddrParts (ResolveTCPAddr sample_addrs) 2 ''10.0.0.1'' = Some r)"
proof -
  have junk: "bracket_junk ''[::1]x''" "\<not> bracket_junk ''10.0.0.1''" by code_simp+
  have "AddrParts (ResolveTCPAddr sample_addrs) 1000 ''[::1]x'' = None"
    using AddrParts_terminates [of "''[::1]x''" "ResolveTCPAddr sample_addrs"] junk(1) by simp
  moreover have "\<exists>r. AddrParts (ResolveTCPAddr sample_addrs) 2 ''10.0.0.1'' = Some r"
    using AddrParts_terminates [of "''10.0.0.1''" "ResolveTCPAddr sample_addrs"] junk(2) by auto
  ultimately show ?thesis ..
qed

theorem normalizeAdvertise_splits_witness:
  "\<exists>a h p. normalizeAdvertise sample_addrs ''fe80::1'' [] 8946 False = Inr a \<and> SplitHostPort a = Inr (h, p)"
proof -
  have out: "ParseSingleIPTemplate sample_addrs ''fe80::1'' = Inr ''fe80::1''"
    by (simp add: ParseSingleIPTemplate_def sample_addrs_def)
  have "bracketless ''fe80::1''" by (simp add: bracketless_def)
  from normalizeAdvertise_splits [OF out _ this, of "[]" 8946 False] show ?thesis by auto
qed

theorem normalizeAdvertise_no_loopback_witness:
  "\<exists>a. normalizeAdvertise sample_addrs [] ''10.0.0.1'' 8946 False = Inr a \<and>
     a = JoinHostPort ''10.0.0.1'' (show_int 8946)"
proof -
  have tmpl: "ParseSingleIPTemplate sample_addrs [] = Inr []"
    by (simp add: ParseSingleIPTemplate_def sample_addrs_def)
  have ips: "LookupIP sample_addrs ''10.0.0.1'' =
      Inr [\<lparr>ip_String = ''10.0.0.1'', IsLinkLocalUnicast = False, IsGlobalUnicast = True, IsLoopback = False\<rparr>]"
    by (simp add: sample_addrs_def)
  have run: "normalizeAdvertise sample_addrs [] ''10.0.0.1'' 8946 False = Inr (JoinHostPort ''10.0.0.1'' (show_int 8946))"
    using tmpl ips by (simp add: normalizeAdvertise_def)
  from normalizeAdvertise_no_loopback [OF tmpl ips run] run show ?thesis by auto
qed

end
