(* ===== verification/Keys.thy ===== *)
theory Keys
  imports Config
begin

text \<open>
Encryption keys: base64 as \<open>encoding/base64\<close> of the Go library encodes and decodes it,
\<open>EncryptBytes\<close> of \<open>src/dkron/config.go\<close> and the command \<open>src/cmd/keygen.go\<close>.
\<close>

section \<open>Base64\<close>

text \<open>The standard alphabet of \<open>encoding/base64\<close>.\<close>

definition b64_char :: "nat \<Rightarrow> char" where
  "b64_char n =
     (if n < 26 then char_of (65 + n) else if n < 52 then char_of (71 + n)
      else if n < 62 then char_of (n - 4) else if n = 62 then CHR ''+'' else CHR ''/'')"

definition b64_val :: "char \<Rightarrow> nat option" where
  "b64_val c =
     (let n = of_char c in
      if 65 \<le> n \<and> n \<le> 90 then Some (n - 65)
      else if 97 \<le> n \<and> n \<le> 122 then Some (n - 71)
      else if 48 \<le> n \<and> n \<le> 57 then Some (n + 4)
      else if c = CHR ''+'' then Some 62 else if c = CHR ''/'' then Some 63 else None)"

definition quantum :: "nat \<Rightarrow> nat \<Rightarrow> nat \<Rightarrow> nat" where
  "quantum a b c = a * 65536 + b * 256 + c"

text \<open>The four digits and the three bytes of a quantum of 24 bits.\<close>

definition quantum_chars :: "nat \<Rightarrow> string" where
  "quantum_chars v = [b64_char (v div 262144 mod 64), b64_char (v div 4096 mod 64), b64_char (v div 64 mod 64), b64_char (v mod 64)]"

definition quantum_bytes :: "nat \<Rightarrow> string" where
  "quantum_bytes v = [char_of (v div 65536 mod 256), char_of (v div 256 mod 256), char_of (v mod 256)]"

fun EncodeToString :: "string \<Rightarrow> string" where
  "EncodeToString [] = []"
| "EncodeToString [a] = take 2 (quantum_chars (quantum (of_char a) 0 0)) @ ''==''"
| "EncodeToString [a, b] = take 3 (quantum_chars (quantum (of_char a) (of_char b) 0)) @ ''=''"
| "EncodeToString (a # b # c # s) = quantum_chars (quantum (of_char a) (of_char b) (of_char c)) @ EncodeToString s"

definition unquantum :: "nat \<Rightarrow> nat \<Rightarrow> nat \<Rightarrow> nat \<Rightarrow> nat" where
  "unquantum p q r s = p * 262144 + q * 4096 + r * 64 + s"

text \<open>
  \<open>DecodeString\<close>: line ends are skipped; a quantum may be padded only at the end. The bits behind
  the last byte are not looked at.
\<close>

definition corrupt :: "error" where "corrupt = LibError ''illegal base64 data''"

fun decode_quanta :: "string \<Rightarrow> string res" where
  "decode_quanta [] = Inr []"
| "decode_quanta (a # b # c # d # s) =
     (case (b64_val a, b64_val b) of
        (Some p, Some q) \<Rightarrow>
          if c = CHR ''='' \<and> d = CHR ''='' then
            (if s = [] then Inr (take 1 (quantum_bytes (unquantum p q 0 0))) else Inl corrupt)
          else (case b64_val c of
                  None \<Rightarrow> Inl corrupt
                | Some r \<Rightarrow>
                    if d = CHR ''='' then
                      (if s = [] then Inr (take 2 (quantum_bytes (unquantum p q r 0))) else Inl corrupt)
                    else (case b64_val d of
                            None \<Rightarrow> Inl corrupt
                          | Some t \<Rightarrow>
                              bind_res (decode_quanta s) (\<lambda>rest. Inr (quantum_bytes (unquantum p q r t) @ rest))))
      | _ \<Rightarrow> Inl corrupt)"
| "decode_quanta _ = Inl corrupt"

definition DecodeString :: "string \<Rightarrow> string res" where
  "DecodeString s = decode_quanta (filter (\<lambda>c. c \<noteq> CHR 0x0A \<and> c \<noteq> CHR 0x0D) s)"

section \<open>The encryption key\<close>

definition EncryptBytes :: "config \<Rightarrow> string res" where
  "EncryptBytes c = DecodeString (EncryptKey c)"

text \<open>\<open>dkron keygen\<close>, given what the source of randomness filled in of the 16 bytes.\<close>

definition keygen :: "(string \<times> nat) res \<Rightarrow> string res" where
  "keygen read =
     (case read of
        Inl e \<Rightarrow> Inl (Errorf ''Error reading random data'')
      | Inr (key, n) \<Rightarrow>
          if n \<noteq> 16 then Inl (Errorf ''Couldn't read enough entropy. Generate more entropy'')
          else Inr (EncodeToString key))"

section \<open>Decoding inverts encoding\<close>

lemma b64_val_char [simp]: "n < 64 \<Longrightarrow> b64_val (b64_char n) = Some n"
  by (auto simp: b64_val_def b64_char_def Let_def)

lemma b64_code: "n < 64 \<Longrightarrow> (of_char (b64_char n) :: nat) \<ge> 43 \<and> (of_char (b64_char n) :: nat) \<noteq> 61"
  by (auto simp: b64_char_def)

lemma b64_char_plain [simp]:
  assumes "n < 64"
  shows "b64_char n \<noteq> CHR ''=''" "b64_char n \<noteq> CHR 0x0A" "b64_char n \<noteq> CHR 0x0D"
proof -
  have "(of_char (b64_char n) :: nat) \<noteq> of_char CHR ''=''" using b64_code [OF assms] by simp
  then show "b64_char n \<noteq> CHR ''=''" by metis
  have "(of_char (b64_char n) :: nat) \<noteq> of_char CHR 0x0A" using b64_code [OF assms] by simp
  then show "b64_char n \<noteq> CHR 0x0A" by metis
  have "(of_char (b64_char n) :: nat) \<noteq> of_char CHR 0x0D" using b64_code [OF assms] by simp
  then show "b64_char n \<noteq> CHR 0x0D" by metis
qed

lemma digits_unquantum [simp]:
  assumes "v < 16777216"
  shows "unquantum (v div 262144 mod 64) (v div 4096 mod 64) (v div 64 mod 64) (v mod 64) = v"
proof -
  have w: "v div 64 div 64 = v div 4096" "v div 4096 div 64 = v div 262144"
    by (simp_all flip: div_mult2_eq)
  have "v div 262144 < 64" using assms by auto
  then have "v div 262144 mod 64 = v div 262144" by simp
  moreover have "64 * (v div 64) + v mod 64 = v" "64 * (v div 4096) + v div 64 mod 64 = v div 64"
    "64 * (v div 262144) + v div 4096 mod 64 = v div 4096"
    using mult_div_mod_eq [of 64 "v div 64"] mult_div_mod_eq [of 64 "v div 4096"] by (simp_all add: w)
  ultimately show ?thesis unfolding unquantum_def by linarith
qed

lemma quantum_less [simp]:
  "quantum (of_char (a :: char)) (of_char (b :: char)) (of_char (c :: char)) < 16777216"
  using nat_of_char_less_256 [of a] nat_of_char_less_256 [of b] nat_of_char_less_256 [of c] unfolding quantum_def by linarith


lemma quantum_bytes_quantum:
  "quantum_bytes (quantum (of_char a) (of_char b) (of_char c)) = [a, b, c]"
proof -
  let ?v = "quantum (of_char a) (of_char b) (of_char c)"
  note lt = nat_of_char_less_256 [of a] nat_of_char_less_256 [of b] nat_of_char_less_256 [of c]
  have v: "?v = of_char c + 256 * (of_char a * 256 + of_char b)" by (simp add: quantum_def)
  then have "?v mod 256 = of_char c" using lt(3) by (simp only: mod_mult_self2 mod_less)
  moreover have d: "?v div 256 = of_char a * 256 + of_char b" unfolding v
    using lt(3) by (subst div_mult_self2) simp_all
  moreover have "?v div 65536 = of_char a"
  proof -
    have "?v div 65536 = ?v div 256 div 256" by (simp flip: div_mult2_eq)
    then show ?thesis using d lt by simp
  qed
  ultimately show ?thesis using lt by (simp add: quantum_bytes_def)
qed

lemma padded_digits:
  "quantum a b 0 mod 64 = 0" "quantum a 0 0 mod 64 = 0" "quantum a 0 0 div 64 mod 64 = 0"
proof -
  have "quantum a b 0 = 64 * (a * 1024 + b * 4)" "quantum a 0 0 = 4096 * (a * 16)" by (simp_all add: quantum_def)
  moreover have "4096 * (a * 16) div 64 = 64 * (a * 16)" by simp
  ultimately show "quantum a b 0 mod 64 = 0" "quantum a 0 0 mod 64 = 0" "quantum a 0 0 div 64 mod 64 = 0"
    by (simp_all add: mod_mult_self1_is_0)
qed

lemma decode_quanta_encode: "decode_quanta (EncodeToString key) = Inr key"
proof (induction key rule: EncodeToString.induct)
  case (2 a)
  let ?v = "quantum (of_char a) 0 0"
  have v: "?v < 16777216" using quantum_less [of a "CHR 0x00" "CHR 0x00"] by simp
  have "unquantum (?v div 262144 mod 64) (?v div 4096 mod 64) 0 0 = ?v"
    using digits_unquantum [OF v] padded_digits by simp
  moreover have "quantum_bytes ?v = [a, CHR 0x00, CHR 0x00]"
    using quantum_bytes_quantum [of a "CHR 0x00" "CHR 0x00"] by simp
  ultimately show ?case by (simp add: quantum_chars_def)
next
  case (3 a b)
  let ?v = "quantum (of_char a) (of_char b) 0"
  have v: "?v < 16777216" using quantum_less [of a b "CHR 0x00"] by simp
  have "unquantum (?v div 262144 mod 64) (?v div 4096 mod 64) (?v div 64 mod 64) 0 = ?v"
    using digits_unquantum [OF v] padded_digits by simp
  moreover have "quantum_bytes ?v = [a, b, CHR 0x00]"
    using quantum_bytes_quantum [of a b "CHR 0x00"] by simp
  ultimately show ?case by (simp add: quantum_chars_def)
next
  case (4 a b c s)
  then show ?case by (simp add: quantum_chars_def quantum_bytes_quantum)
qed simp

lemma EncodeToString_no_line_end: "c \<in> set (EncodeToString key) \<Longrightarrow> c \<noteq> CHR 0x0A \<and> c \<noteq> CHR 0x0D"
  by (induction key rule: EncodeToString.induct) (auto simp: quantum_chars_def)

lemma DecodeString_encode: "DecodeString (EncodeToString key) = Inr key"
proof -
  have "filter (\<lambda>c. c \<noteq> CHR 0x0A \<and> c \<noteq> CHR 0x0D) (EncodeToString key) = EncodeToString key"
    using EncodeToString_no_line_end by (intro filter_True) blast
  then show ?thesis by (simp add: DecodeString_def decode_quanta_encode)
qed

text \<open>
  A key that \<open>dkron keygen\<close> prints is read back by the agent as the 16 random bytes it was made
  of, also when it is followed by a line end.
\<close>

theorem keygen_EncryptBytes:
  assumes "keygen (Inr (key, n)) = Inr printed"
  shows "EncryptBytes (c\<lparr>EncryptKey := printed\<rparr>) = Inr key \<and>
    EncryptBytes (c\<lparr>EncryptKey := printed @ [CHR 0x0A]\<rparr>) = Inr key"
proof -
  have "printed = EncodeToString key" using assms by (simp add: keygen_def split: if_splits)
  then show ?thesis using DecodeString_encode [of key] by (simp add: EncryptBytes_def DecodeString_def)
qed

definition sample_config :: config where
  "sample_config = projr (DefaultConfig (Inr ''n1''))"

theorem keygen_EncryptBytes_witness:
  "EncryptBytes (sample_config\<lparr>EncryptKey := EncodeToString ''0123456789abcdef''\<rparr>) = Inr ''0123456789abcdef''"
proof -
  have "keygen (Inr (''0123456789abcdef'', 16)) = Inr (EncodeToString ''0123456789abcdef'')"
    by (simp add: keygen_def)
  from keygen_EncryptBytes [OF this, of sample_config] show ?thesis by blast
qed

end
