(* ===== verification/Retry_Join.thy ===== *)
theory Retry_Join
  imports Config
begin

text \<open>
Joining the cluster: \<open>src/dkron/retry_join.go\<close> and \<open>join\<close> and \<open>JoinLAN\<close> of \<open>src/dkron/agent.go\<close>.
The counter of the attempts is an unbounded integer; it would overflow after $2^{63}$ attempts.
\<close>

section \<open>Joining with retries\<close>

text \<open>
  The cluster is joined again and again until it works. What the loop uses: the constructor of
  hashicorp/go-discover, the lookup of a provider, the join of serf, and the pause between two
  attempts, during which the world \<open>'w\<close> goes on.
\<close>

record 'w join_lib =
  discover_New :: err
  disco_Addrs :: "'w \<Rightarrow> string \<Rightarrow> string list res \<times> 'w"
  serf_Join :: "'w \<Rightarrow> string list \<Rightarrow> bool \<Rightarrow> int \<times> err \<times> 'w"
  Sleep :: "int \<Rightarrow> 'w \<Rightarrow> 'w"

record retryJoiner =
  rj_cluster :: string
  rj_addrs :: "string list"
  rj_maxAttempts :: int
  rj_interval :: int

definition JoinLAN :: "'w join_lib \<Rightarrow> 'w \<Rightarrow> string list \<Rightarrow> int \<times> err \<times> 'w" where
  "JoinLAN L w addrs = serf_Join L w addrs True"

definition agent_join :: "'w join_lib \<Rightarrow> 'w \<Rightarrow> string list \<Rightarrow> bool \<Rightarrow> int \<times> err \<times> 'w" where
  "agent_join L w addrs replay = serf_Join L w addrs (\<not> replay)"

text \<open>The addresses of one attempt: those a provider finds, and the configured ones.\<close>

fun collect_addrs :: "'w join_lib \<Rightarrow> addr_lib \<Rightarrow> 'w \<Rightarrow> string list \<Rightarrow> string list \<times> 'w" where
  "collect_addrs L A w [] = ([], w)"
| "collect_addrs L A w (addr # addrs) =
     (if Contains addr ''provider='' then
        (case disco_Addrs L w addr of
           (Inl e, w1) \<Rightarrow> collect_addrs L A w1 addrs
         | (Inr servers, w1) \<Rightarrow> (case collect_addrs L A w1 addrs of (as, w2) \<Rightarrow> (servers @ as, w2)))
      else
        (case ParseSingleIPTemplate A addr of
           Inl e \<Rightarrow> collect_addrs L A w addrs
         | Inr ipAddr \<Rightarrow> (case collect_addrs L A w addrs of (as, w2) \<Rightarrow> (ipAddr # as, w2))))"

text \<open>One attempt: whether the cluster was joined.\<close>

definition try_join :: "'w join_lib \<Rightarrow> addr_lib \<Rightarrow> retryJoiner \<Rightarrow> 'w \<Rightarrow> bool \<times> 'w" where
  "try_join L A r w =
     (case collect_addrs L A w (rj_addrs r) of
        (addrs, w1) \<Rightarrow>
          if addrs = [] then (False, w1)
          else (case JoinLAN L w1 addrs of (n, e, w2) \<Rightarrow> (e = None, w2)))"

text \<open>
  The loop, with a bound on its rounds: without a maximum of attempts it may run forever.
  \<open>attempt\<close> is the counter of the code.
\<close>

fun retry_loop :: "'w join_lib \<Rightarrow> addr_lib \<Rightarrow> retryJoiner \<Rightarrow> nat \<Rightarrow> int \<Rightarrow> 'w \<Rightarrow> (err \<times> 'w) option" where
  "retry_loop L A r 0 attempt w = None"
| "retry_loop L A r (Suc n) attempt w =
     (case try_join L A r w of
        (True, w1) \<Rightarrow> Some (None, w1)
      | (False, w1) \<Rightarrow>
          if rj_maxAttempts r > 0 \<and> attempt + 1 > rj_maxAttempts r
          then Some (Some (Errorf (''agent: max join '' @ rj_cluster r @ '' retry exhausted, exiting'')), w1)
          else retry_loop L A r n (attempt + 1) (Sleep L (rj_interval r) w1))"

definition retryJoin :: "'w join_lib \<Rightarrow> addr_lib \<Rightarrow> nat \<Rightarrow> retryJoiner \<Rightarrow> 'w \<Rightarrow> (err \<times> 'w) option" where
  "retryJoin L A fuel r w =
     (if rj_addrs r = [] then Some (None, w)
      else (case discover_New L of
              Some e \<Rightarrow> Some (Some e, w)
            | None \<Rightarrow> retry_loop L A r fuel 0 w))"

text \<open>
  \<open>retryJoinLAN\<close> of the agent. It sends the error of \<open>retryJoin\<close> on an unbuffered channel; the
  function returns when somebody receives it, so that the result is the error it is left with.
\<close>

definition retryJoinLAN :: "'w join_lib \<Rightarrow> addr_lib \<Rightarrow> nat \<Rightarrow> config \<Rightarrow> 'w \<Rightarrow> (err \<times> 'w) option" where
  "retryJoinLAN L A fuel c w =
     retryJoin L A fuel \<lparr>rj_cluster = ''LAN'', rj_addrs = RetryJoinLAN c,
       rj_maxAttempts = RetryJoinMaxAttemptsLAN c, rj_interval = RetryJoinIntervalLAN c\<rparr> w"

section \<open>How often the cluster is asked\<close>

text \<open>The world before the attempt number \<open>k\<close>, counted from 0, and whether that attempt works.\<close>

fun world_at :: "'w join_lib \<Rightarrow> addr_lib \<Rightarrow> retryJoiner \<Rightarrow> 'w \<Rightarrow> nat \<Rightarrow> 'w" where
  "world_at L A r w 0 = w"
| "world_at L A r w (Suc k) = Sleep L (rj_interval r) (snd (try_join L A r (world_at L A r w k)))"

definition joins_at :: "'w join_lib \<Rightarrow> addr_lib \<Rightarrow> retryJoiner \<Rightarrow> 'w \<Rightarrow> nat \<Rightarrow> bool" where
  "joins_at L A r w k \<longleftrightarrow> fst (try_join L A r (world_at L A r w k))"

lemma world_at_Suc:
  "world_at L A r w (Suc k) = world_at L A r (Sleep L (rj_interval r) (snd (try_join L A r w))) k"
  by (induction k) simp_all

lemma joins_at_Suc:
  "joins_at L A r w (Suc k) = joins_at L A r (Sleep L (rj_interval r) (snd (try_join L A r w))) k"
  by (simp only: joins_at_def world_at_Suc)

lemma joins_at_0: "joins_at L A r w 0 = fst (try_join L A r w)"
  by (simp add: joins_at_def)

lemma ex_le_Suc_shift: "(\<exists>k \<le> Suc m. P k) \<longleftrightarrow> P 0 \<or> (\<exists>k \<le> m. P (Suc k))"
proof
  assume "\<exists>k \<le> Suc m. P k"
  then obtain k where "k \<le> Suc m" "P k" by blast
  then show "P 0 \<or> (\<exists>k \<le> m. P (Suc k))" by (cases k) auto
qed auto

text \<open>With a maximum, \<open>m\<close> attempts are left when the counter is \<open>max - m\<close>.\<close>

lemma retry_loop_bounded:
  assumes "rj_maxAttempts r > 0" "attempt = rj_maxAttempts r - int m" "m < n"
  shows "\<exists>e w'. retry_loop L A r n attempt w = Some (e, w') \<and> (e = None \<longleftrightarrow> (\<exists>k \<le> m. joins_at L A r w k))"
  using assms
proof (induction m arbitrary: n attempt w)
  case 0
  then obtain n' where "n = Suc n'" by (cases n) auto
  with 0 show ?case by (auto simp: joins_at_0 split: prod.splits bool.splits)
next
  case (Suc m)
  obtain n' where n: "n = Suc n'" "m < n'" using Suc.prems(3) by (cases n) auto
  show ?case
  proof (cases "try_join L A r w")
    case (Pair ok w1)
    show ?thesis
    proof (cases ok)
      case True
      then have "joins_at L A r w 0" using Pair by (simp add: joins_at_0)
      moreover have "retry_loop L A r n attempt w = Some (None, w1)" using Pair True n by simp
      ultimately show ?thesis by auto
    next
      case False
      let ?w = "Sleep L (rj_interval r) w1"
      have step: "retry_loop L A r n attempt w = retry_loop L A r n' (attempt + 1) ?w"
        using Pair False n Suc.prems(2) by simp
      have "joins_at L A r w (Suc k) = joins_at L A r ?w k" for k using Pair by (simp add: joins_at_Suc)
      moreover have "\<not> joins_at L A r w 0" using Pair False by (simp add: joins_at_0)
      ultimately have shift: "(\<exists>k \<le> Suc m. joins_at L A r w k) \<longleftrightarrow> (\<exists>k \<le> m. joins_at L A r ?w k)"
        by (simp add: ex_le_Suc_shift)
      have "attempt + 1 = rj_maxAttempts r - int m" using Suc.prems(2) by simp
      from Suc.IH [OF Suc.prems(1) this n(2), of ?w] show ?thesis unfolding step shift .
    qed
  qed
qed

text \<open>Without a maximum the loop ends exactly at the first attempt that works.\<close>

lemma retry_loop_unbounded:
  assumes "rj_maxAttempts r \<le> 0"
  shows "(case retry_loop L A r n attempt w of
            None \<Rightarrow> \<forall>k < n. \<not> joins_at L A r w k
          | Some (e, w') \<Rightarrow> e = None \<and> (\<exists>k < n. joins_at L A r w k))"
proof (induction n arbitrary: attempt w)
  case (Suc n)
  show ?case
  proof (cases "try_join L A r w")
    case (Pair ok w1)
    let ?w = "Sleep L (rj_interval r) w1"
    have shift: "joins_at L A r w (Suc k) = joins_at L A r ?w k" for k using Pair by (simp add: joins_at_Suc)
    have first: "joins_at L A r w 0 = ok" using Pair by (simp add: joins_at_0)
    show ?thesis
      using Suc.IH [of ?w "attempt + 1"] Pair assms first shift
      by (cases ok) (auto simp: All_less_Suc2 Ex_less_Suc2 split: option.splits)
  qed
qed simp

text \<open>
  Joining with retries. With a maximum of attempts \<open>m > 0\<close> the loop ends within \<open>m + 1\<close> rounds,
  and it fails exactly when each of these \<open>m + 1\<close> attempts fails. Without a maximum it ends if and
  only if some attempt works, and then never with an error.
\<close>

theorem retryJoin_attempts:
  assumes "rj_addrs r \<noteq> []" "discover_New L = None"
  shows "if rj_maxAttempts r > 0
    then \<forall>fuel > nat (rj_maxAttempts r). \<exists>e w'. retryJoin L A fuel r w = Some (e, w') \<and>
           (e = None \<longleftrightarrow> (\<exists>k \<le> nat (rj_maxAttempts r). joins_at L A r w k))
    else ((\<exists>fuel. retryJoin L A fuel r w \<noteq> None) \<longleftrightarrow> (\<exists>k. joins_at L A r w k)) \<and>
         (\<forall>fuel e w'. retryJoin L A fuel r w = Some (e, w') \<longrightarrow> e = None)"
proof (cases "rj_maxAttempts r > 0")
  case True
  have "\<exists>e w'. retryJoin L A fuel r w = Some (e, w') \<and>
      (e = None \<longleftrightarrow> (\<exists>k \<le> nat (rj_maxAttempts r). joins_at L A r w k))" if fuel: "fuel > nat (rj_maxAttempts r)" for fuel
  proof -
    have "retryJoin L A fuel r w = retry_loop L A r fuel 0 w" using assms by (simp add: retryJoin_def)
    moreover have "0 = rj_maxAttempts r - int (nat (rj_maxAttempts r))" using True by simp
    ultimately show ?thesis using retry_loop_bounded [OF True, of 0 "nat (rj_maxAttempts r)" fuel L A w] fuel by simp
  qed
  then show ?thesis using True by simp
next
  case False
  have eq: "retryJoin L A fuel r w = retry_loop L A r fuel 0 w" for fuel
    using assms by (simp add: retryJoin_def)
  have loop: "case retryJoin L A fuel r w of
            None \<Rightarrow> \<forall>k < fuel. \<not> joins_at L A r w k
          | Some (e, w') \<Rightarrow> e = None \<and> (\<exists>k < fuel. joins_at L A r w k)" for fuel
    unfolding eq using retry_loop_unbounded [where r = r and L = L and A = A and n = fuel and attempt = 0 and w = w] False by simp
  have "(\<exists>fuel. retryJoin L A fuel r w \<noteq> None) \<longleftrightarrow> (\<exists>k. joins_at L A r w k)"
  proof
    assume "\<exists>fuel. retryJoin L A fuel r w \<noteq> None"
    then obtain fuel e w' where "retryJoin L A fuel r w = Some (e, w')" by auto
    then show "\<exists>k. joins_at L A r w k" using loop [of fuel] by auto
  next
    assume "\<exists>k. joins_at L A r w k"
    then obtain k where "joins_at L A r w k" ..
    then have "retryJoin L A (Suc k) r w \<noteq> None"
      using loop [of "Suc k"] by (auto split: option.splits)
    then show "\<exists>fuel. retryJoin L A fuel r w \<noteq> None" ..
  qed
  moreover have "e = None" if "retryJoin L A fuel r w = Some (e, w')" for fuel e w'
    using loop [of fuel] that by simp
  ultimately show ?thesis using False by auto
qed

text \<open>A cluster that answers the third attempt: the world counts the attempts.\<close>

definition sample_join_lib :: "nat join_lib" where
  "sample_join_lib = \<lparr>discover_New = None, disco_Addrs = (\<lambda>w _. (Inr [], w)),
     serf_Join = (\<lambda>w _ _. if w < 2 then (0, Some (LibError ''no answer''), w + 1) else (1, None, w + 1)),
     Sleep = (\<lambda>_ w. w)\<rparr>"

definition sample_joiner :: "int \<Rightarrow> retryJoiner" where
  "sample_joiner m = \<lparr>rj_cluster = ''LAN'', rj_addrs = [''10.0.0.2''], rj_maxAttempts = m, rj_interval = 0\<rparr>"

theorem retryJoin_attempts_witness:
  "\<exists>e w'. retryJoin sample_join_lib sample_addrs 2 (sample_joiner 1) 0 = Some (Some e, w')"
proof -
  have "\<not> joins_at sample_join_lib sample_addrs (sample_joiner 1) 0 k" if "k \<le> 1" for k
  proof -
    have "k = 0 \<or> k = 1" using that by auto
    then show ?thesis
      by (auto simp: joins_at_def try_join_def sample_join_lib_def sample_joiner_def JoinLAN_def
          ParseSingleIPTemplate_def sample_addrs_def)
  qed
  moreover have "rj_addrs (sample_joiner 1) \<noteq> []" "discover_New sample_join_lib = None" "rj_maxAttempts (sample_joiner 1) = 1"
    by (simp_all add: sample_joiner_def sample_join_lib_def)
  ultimately show ?thesis
    using retryJoin_attempts [of "sample_joiner 1" sample_join_lib sample_addrs 0] by (auto dest: spec [of _ 2])
qed

end
