(* ===== verification/Setup.thy ===== *)
theory Setup
  imports Keys Retry_Join
begin

text \<open>
Starting an agent: \<open>setupSerf\<close>, \<open>setupRaft\<close> and \<open>Start\<close> of \<open>src/dkron/agent.go\<close>, with the tags by which
an agent announces itself. serf, the storage below Raft, the listener and the metrics are records of
functions; TLS and the multiplexing of the connections are left out.
\<close>

section \<open>The gossip layer\<close>

datatype memberlist_profile = DefaultLANConfig | DefaultWANConfig | DefaultLocalConfig

record serf_config =
  sc_Tags :: "string gomap"
  sc_Memberlist :: memberlist_profile
  sc_BindAddr :: string
  sc_BindPort :: int
  sc_AdvertiseAddr :: string
  sc_AdvertisePort :: int
  sc_SecretKey :: string
  sc_NodeName :: string
  sc_CoalescePeriod :: int
  sc_QuiescentPeriod :: int
  sc_UserCoalescePeriod :: int
  sc_UserQuiescentPeriod :: int
  sc_ReconnectTimeout :: int
  sc_EventCap :: nat

definition seconds :: "int \<Rightarrow> int" where "seconds n = n * 1000000000"

definition FormatBool :: "bool \<Rightarrow> string" where
  "FormatBool b = (if b then ''true'' else ''false'')"

definition Version :: string where "Version = ''devel''"

text \<open>The tags of the agent. The map is the one of the configuration, which is changed with it.\<close>

definition serf_tags :: "config \<Rightarrow> string gomap" where
  "serf_tags c =
     (let t1 = AList.update ''role'' ''dkron'' (cfg_Tags c);
          t2 = AList.update ''dc'' (Datacenter c) t1;
          t3 = AList.update ''region'' (Region c) t2;
          t4 = AList.update ''version'' Version t3;
          t5 = (if Server c then AList.update ''server'' (FormatBool (Server c)) t4 else t4);
          t6 = (if Bootstrap c then AList.update ''bootstrap'' ''1'' t5 else t5)
      in if BootstrapExpect c \<noteq> 0 then AList.update ''expect'' (show_int (BootstrapExpect c)) t6 else t6)"

definition memberlist_of :: "string \<Rightarrow> memberlist_profile option" where
  "memberlist_of profile =
     (if profile = ''lan'' then Some DefaultLANConfig
      else if profile = ''wan'' then Some DefaultWANConfig
      else if profile = ''local'' then Some DefaultLocalConfig
      else None)"

text \<open>
  What the code calls of serf: \<open>'s\<close> is a running instance. \<open>setupSerf\<close> gives \<open>None\<close> when the
  rounds for \<open>AddrParts\<close> do not suffice.
\<close>

record 's serf_lib =
  serf_Create :: "serf_config \<Rightarrow> 's res"
  serf_LocalMember :: "'s \<Rightarrow> member"
  serf_SetTags :: "'s \<Rightarrow> string gomap \<Rightarrow> err \<times> 's"

definition setupSerf ::
    "'s serf_lib \<Rightarrow> addr_lib \<Rightarrow> (string \<Rightarrow> int res) \<Rightarrow> nat \<Rightarrow> config \<Rightarrow> 's res option \<times> config" where
  "setupSerf S A ParseDuration fuel c =
     (case AddrParts (ResolveTCPAddr A) fuel (BindAddr c) of
        None \<Rightarrow> (None, c)
      | Some (Inl e) \<Rightarrow> (Some (Inl (Errorf ''invalid bind address'')), c)
      | Some (Inr (bindIP, bindPort)) \<Rightarrow>
          (case (if AdvertiseAddr c \<noteq> [] then AddrParts (ResolveTCPAddr A) fuel (AdvertiseAddr c) else Some (Inr ([], 0))) of
             None \<Rightarrow> (None, c)
           | Some (Inl e) \<Rightarrow> (Some (Inl (Errorf ''invalid advertise address'')), c)
           | Some (Inr (advertiseIP, advertisePort)) \<Rightarrow>
               (case EncryptBytes c of
                  Inl e \<Rightarrow> (Some (Inl (Errorf ''invalid encryption key'')), c)
                | Inr encryptKey \<Rightarrow>
                    (let c1 = c\<lparr>cfg_Tags := serf_tags c\<rparr> in
                     case memberlist_of (Profile c1) of
                       None \<Rightarrow> (Some (Inl (Errorf (''unknown profile: '' @ Profile c1))), c1)
                     | Some ml \<Rightarrow>
                         (case ParseDuration (SerfReconnectTimeout c1) of
                            Inl e \<Rightarrow> (Some (Inl (Panic ''log.Fatal'')), c1)
                          | Inr timeout \<Rightarrow>
                              (Some (serf_Create S \<lparr>sc_Tags = cfg_Tags c1, sc_Memberlist = ml,
                                 sc_BindAddr = bindIP, sc_BindPort = bindPort, sc_AdvertiseAddr = advertiseIP,
                                 sc_AdvertisePort = advertisePort, sc_SecretKey = encryptKey,
                                 sc_NodeName = NodeName c1, sc_CoalescePeriod = seconds 3,
                                 sc_QuiescentPeriod = seconds 1, sc_UserCoalescePeriod = seconds 3,
                                 sc_UserQuiescentPeriod = seconds 1, sc_ReconnectTimeout = timeout,
                                 sc_EventCap = 2048\<rparr>), c1))))))"

section \<open>Raft\<close>

record raft_timing =
  HeartbeatTimeout :: int
  ElectionTimeout :: int
  LeaderLeaseTimeout :: int
  LocalID :: string

text \<open>
  The storage below Raft and what is done with it: \<open>'d\<close> is the content of the disk, or of the
  memory in development mode. \<open>rd_defaults\<close> is \<open>raft.DefaultConfig\<close>.
\<close>

record 'd raft_disk =
  rd_defaults :: raft_timing
  rd_Join :: "string list \<Rightarrow> string"
  rd_NewInmemStore :: "'d \<Rightarrow> 'd"
  rd_NewFileSnapshotStore :: "'d \<Rightarrow> string \<Rightarrow> err \<times> 'd"
  rd_NewBoltStore :: "'d \<Rightarrow> string \<Rightarrow> err \<times> 'd"
  rd_NewLogCache :: "nat \<Rightarrow> err"
  rd_Stat :: "'d \<Rightarrow> string \<Rightarrow> err"
  rd_ReadConfigJSON :: "'d \<Rightarrow> string \<Rightarrow> raft_server list res"
  rd_RecoverCluster :: "'d \<Rightarrow> raft_server list \<Rightarrow> err \<times> 'd"
  rd_Remove :: "'d \<Rightarrow> string \<Rightarrow> err \<times> 'd"
  rd_HasExistingState :: "'d \<Rightarrow> bool res"
  rd_BootstrapCluster :: "'d \<Rightarrow> raft_server list \<Rightarrow> err \<times> 'd"
  rd_LocalAddr :: string
  rd_NewRaft :: "raft_timing \<Rightarrow> 'd \<Rightarrow> err \<times> 'd"

definition raftLogCacheSize :: nat where "raftLogCacheSize = 512"

definition scale_timing :: "int \<Rightarrow> string \<Rightarrow> raft_timing \<Rightarrow> raft_timing" where
  "scale_timing m name t =
     t\<lparr>HeartbeatTimeout := HeartbeatTimeout t * m, ElectionTimeout := ElectionTimeout t * m,
       LeaderLeaseTimeout := LeaderLeaseTimeout t * m, LocalID := name\<rparr>"

text \<open>The recovery from a \<open>peers.json\<close> file.\<close>

definition recover_peers :: "'d raft_disk \<Rightarrow> string \<Rightarrow> 'd \<Rightarrow> err \<times> 'd" where
  "recover_peers D peersFile d =
     (if rd_Stat D d peersFile \<noteq> None then (None, d)
      else (case rd_ReadConfigJSON D d peersFile of
              Inl e \<Rightarrow> (Some (Errorf ''recovery failed to parse peers.json''), d)
            | Inr configuration \<Rightarrow>
                (case rd_RecoverCluster D d configuration of
                   (Some e, d1) \<Rightarrow> (Some (Errorf ''recovery failed''), d1)
                 | (None, d1) \<Rightarrow>
                     (case rd_Remove D d1 peersFile of
                        (Some e, d2) \<Rightarrow> (Some (Errorf ''recovery failed to delete peers.json, please delete manually''), d2)
                      | (None, d2) \<Rightarrow> (None, d2)))))"

definition open_storage :: "'d raft_disk \<Rightarrow> config \<Rightarrow> 'd \<Rightarrow> err \<times> 'd" where
  "open_storage D c d =
     (if DevMode c then (None, rd_NewInmemStore D d)
      else (case rd_NewFileSnapshotStore D d (rd_Join D [DataDir c, ''raft'']) of
              (Some e, d1) \<Rightarrow> (Some (Errorf ''file snapshot store''), d1)
            | (None, d1) \<Rightarrow>
                (case rd_NewBoltStore D d1 (rd_Join D [DataDir c, ''raft'', ''raft.db'']) of
                   (Some e, d2) \<Rightarrow> (Some (Errorf ''error creating new raft store''), d2)
                 | (None, d2) \<Rightarrow>
                     (case rd_NewLogCache D raftLogCacheSize of
                        Some e \<Rightarrow> (Some e, d2)
                      | None \<Rightarrow> recover_peers D (rd_Join D [DataDir c, ''raft'', ''peers.json'']) d2))))"

definition bootstrap_raft :: "'d raft_disk \<Rightarrow> config \<Rightarrow> string \<Rightarrow> 'd \<Rightarrow> err \<times> 'd" where
  "bootstrap_raft D c name d =
     (if Bootstrap c \<or> DevMode c then
        (case rd_HasExistingState D d of
           Inl e \<Rightarrow> (Some e, d)
         | Inr hasState \<Rightarrow>
             if \<not> hasState
             then rd_BootstrapCluster D d [\<lparr>rs_ID = name, rs_Address = rd_LocalAddr D, rs_Suffrage = Voter\<rparr>]
             else (None, d))
      else (None, d))"

definition setupRaft :: "'d raft_disk \<Rightarrow> config \<Rightarrow> 'd \<Rightarrow> err \<times> config \<times> 'd" where
  "setupRaft D c0 d =
     (let c = (if BootstrapExpect c0 > 0 \<and> BootstrapExpect c0 = 1 then c0\<lparr>Bootstrap := True\<rparr> else c0) in
      if RaftMultiplier c < 1 \<or> RaftMultiplier c > 10
      then (Some (Errorf (''raft-multiplier cannot be '' @ show_int (RaftMultiplier c) @ ''. Must be between 1 and 10'')), c, d)
      else
        (let timing = scale_timing (RaftMultiplier c) (NodeName c) (rd_defaults D) in
         case open_storage D c d of
           (Some e, d1) \<Rightarrow> (Some e, c, d1)
         | (None, d1) \<Rightarrow>
             (case bootstrap_raft D c (LocalID timing) d1 of
                (Some e, d2) \<Rightarrow> (Some e, c, d2)
              | (None, d2) \<Rightarrow>
                  (case rd_NewRaft D timing d2 of
                     (Some e, d3) \<Rightarrow> (Some (Errorf ''new raft''), c, d3)
                   | (None, d3) \<Rightarrow> (None, c, d3)))))"

section \<open>Starting the agent\<close>

record ('s, 'd) start_lib =
  st_addr :: addr_lib
  st_serf :: "'s serf_lib"
  st_join :: "'s join_lib"
  st_ParseDuration :: "string \<Rightarrow> int res"
  st_initMetrics :: "config \<Rightarrow> err"
  st_Listen :: "string \<Rightarrow> err"
  st_disk :: "'d raft_disk"

definition advertiseRPCAddr :: "config \<Rightarrow> member \<Rightarrow> string" where
  "advertiseRPCAddr c local = JoinHostPort (m_Addr local) (show_int (AdvertiseRPCPort c))"

text \<open>The errors of \<open>AddrParts\<close> are dropped, and its address is then empty.\<close>

definition bindRPCAddr :: "addr_lib \<Rightarrow> nat \<Rightarrow> config \<Rightarrow> string option" where
  "bindRPCAddr A fuel c =
     (case AddrParts (ResolveTCPAddr A) fuel (BindAddr c) of
        None \<Rightarrow> None
      | Some (Inl e) \<Rightarrow> Some (JoinHostPort [] (show_int (RPCPort c)))
      | Some (Inr (bindIP, _)) \<Rightarrow> Some (JoinHostPort bindIP (show_int (RPCPort c))))"

text \<open>
  Joining at the start. The error of \<open>retryJoinLAN\<close> is sent on the channel \<open>retryJoinCh\<close>, which has
  no buffer: unless another goroutine receives from it (\<open>receiver\<close>) the agent waits forever.
\<close>

definition start_join :: "'s join_lib \<Rightarrow> addr_lib \<Rightarrow> nat \<Rightarrow> bool \<Rightarrow> config \<Rightarrow> 's \<Rightarrow> 's option" where
  "start_join L A fuel receiver c s =
     (if length (RetryJoinLAN c) > 0 then
        (case retryJoinLAN L A fuel c s of
           None \<Rightarrow> None
         | Some (None, s1) \<Rightarrow> Some s1
         | Some (Some e, s1) \<Rightarrow> if receiver then Some s1 else None)
      else (case agent_join L s (StartJoin c) True of (n, e, s1) \<Rightarrow> Some s1))"

definition default_rpc_port :: "config \<Rightarrow> config" where
  "default_rpc_port c = (if AdvertiseRPCPort c \<le> 0 then c\<lparr>AdvertiseRPCPort := RPCPort c\<rparr> else c)"

text \<open>The tags of the address other nodes call.\<close>

definition announce :: "'s serf_lib \<Rightarrow> config \<Rightarrow> 's \<Rightarrow> 's" where
  "announce S c s =
     (let local = serf_LocalMember S s;
          tags1 = AList.update ''rpc_addr'' (advertiseRPCAddr c local) (m_Tags local);
          tags = AList.update ''port'' (show_int (AdvertiseRPCPort c)) tags1
      in snd (serf_SetTags S s tags))"

record ('s, 'd) started =
  sa_config :: config
  sa_serf :: 's
  sa_listen :: string
  sa_disk :: 'd

text \<open>
  \<open>Start\<close>: \<open>None\<close> when it does not return. The error of \<open>normalizeAddrs\<close> is dropped. For a server the
  Raft layer is set up, where an error ends the process.
\<close>

definition Start ::
    "('s, 'd) start_lib \<Rightarrow> nat \<Rightarrow> bool \<Rightarrow> config \<Rightarrow> 'd \<Rightarrow> ('s, 'd) started res option" where
  "Start L fuel receiver c0 d =
     (case setupSerf (st_serf L) (st_addr L) (st_ParseDuration L) fuel (snd (normalizeAddrs (st_addr L) c0)) of
        (None, c) \<Rightarrow> None
      | (Some (Inl (Panic m)), c) \<Rightarrow> Some (Inl (Panic m))
      | (Some (Inl e), c) \<Rightarrow> Some (Inl (Errorf ''agent: Can not setup serf''))
      | (Some (Inr s), c) \<Rightarrow>
          (case start_join (st_join L) (st_addr L) fuel receiver c s of
             None \<Rightarrow> None
           | Some s1 \<Rightarrow>
               if st_initMetrics L c \<noteq> None then Some (Inl (Panic ''log.Fatal''))
               else
                 (let c1 = default_rpc_port c in
                  case bindRPCAddr (st_addr L) fuel c1 of
                    None \<Rightarrow> None
                  | Some addr \<Rightarrow>
                      if st_Listen L addr \<noteq> None then Some (Inl (Panic ''log.Fatal''))
                      else (case (if Server c1 then setupRaft (st_disk L) c1 d else (None, c1, d)) of
                              (Some e, c2, d2) \<Rightarrow> Some (Inl (Panic ''log.Fatal''))
                            | (None, c2, d2) \<Rightarrow>
                                Some (Inr \<lparr>sa_config = c2, sa_serf = announce (st_serf L) c2 s1,
                                           sa_listen = addr, sa_disk = d2\<rparr>)))))"


section \<open>What other nodes learn of a started agent\<close>

text \<open>
  The laws of serf: the local member carries the configured name and tags and is alive, the tags
  that are set replace the old ones, and joining the cluster leaves the local member as it is.
\<close>

locale serf_node =
  fixes S :: "'s serf_lib" and L :: "'s join_lib"
  assumes create_law: "serf_Create S cfg = Inr s \<Longrightarrow>
      m_Name (serf_LocalMember S s) = sc_NodeName cfg \<and> m_Tags (serf_LocalMember S s) = sc_Tags cfg \<and>
      m_Status (serf_LocalMember S s) = StatusAlive"
    and set_tags_law: "serf_SetTags S s t = (None, s') \<Longrightarrow> serf_LocalMember S s' = (serf_LocalMember S s)\<lparr>m_Tags := t\<rparr>"
    and join_local: "serf_Join L s addrs b = (n, e, s') \<Longrightarrow> serf_LocalMember S s' = serf_LocalMember S s"
    and discover_local: "disco_Addrs L s a = (r, s') \<Longrightarrow> serf_LocalMember S s' = serf_LocalMember S s"
    and sleep_local: "serf_LocalMember S (Sleep L i s) = serf_LocalMember S s"
begin

lemma collect_local: "collect_addrs L A s addrs = (as, s') \<Longrightarrow> serf_LocalMember S s' = serf_LocalMember S s"
proof (induction addrs arbitrary: s as)
  case (Cons a addrs)
  then show ?case by (auto split: if_splits prod.splits sum.splits) (metis discover_local)+
qed simp

lemma try_local: "try_join L A r s = (ok, s') \<Longrightarrow> serf_LocalMember S s' = serf_LocalMember S s"
  by (auto simp: try_join_def JoinLAN_def split: prod.splits if_splits dest!: collect_local join_local)

lemma loop_local: "retry_loop L A r n k s = Some (e, s') \<Longrightarrow> serf_LocalMember S s' = serf_LocalMember S s"
proof (induction n arbitrary: k s)
  case (Suc n)
  obtain ok s1 where t: "try_join L A r s = (ok, s1)" by fastforce
  have s1: "serf_LocalMember S s1 = serf_LocalMember S s" using try_local [OF t] .
  show ?case
    using Suc.prems t s1 Suc.IH [of "k + 1" "Sleep L (rj_interval r) s1"]
    by (cases ok) (auto simp: sleep_local split: if_splits)
qed simp

lemma start_local: "start_join L A fuel receiver c s = Some s' \<Longrightarrow> serf_LocalMember S s' = serf_LocalMember S s"
  by (auto simp: start_join_def retryJoinLAN_def retryJoin_def agent_join_def split: if_splits option.splits prod.splits
      dest!: loop_local join_local)

end

text \<open>A gossip layer that is just its local member, and a cluster that is always joined.\<close>

definition ref_serf :: "member serf_lib" where
  "ref_serf = \<lparr>serf_Create = (\<lambda>cfg. Inr \<lparr>m_Name = sc_NodeName cfg,
        m_Addr = (if sc_AdvertiseAddr cfg \<noteq> [] then sc_AdvertiseAddr cfg else sc_BindAddr cfg),
        m_Tags = sc_Tags cfg, m_Status = StatusAlive\<rparr>),
     serf_LocalMember = (\<lambda>m. m), serf_SetTags = (\<lambda>m t. (None, m\<lparr>m_Tags := t\<rparr>))\<rparr>"

definition ref_join :: "member join_lib" where
  "ref_join = \<lparr>discover_New = None, disco_Addrs = (\<lambda>s _. (Inr [], s)), serf_Join = (\<lambda>s as _. (int (length as), None, s)),
     Sleep = (\<lambda>_ s. s)\<rparr>"

interpretation refs: serf_node ref_serf ref_join
  by unfold_locales (auto simp: ref_serf_def ref_join_def)

lemma serf_tags_map:
  "map_of (serf_tags c) =
     (let m = (map_of (cfg_Tags c))(''role'' \<mapsto> ''dkron'', ''dc'' \<mapsto> Datacenter c, ''region'' \<mapsto> Region c, ''version'' \<mapsto> Version);
          m1 = (if Server c then m(''server'' \<mapsto> ''true'') else m);
          m2 = (if Bootstrap c then m1(''bootstrap'' \<mapsto> ''1'') else m1)
      in if BootstrapExpect c \<noteq> 0 then m2(''expect'' \<mapsto> show_int (BootstrapExpect c)) else m2)"
  by (simp add: serf_tags_def FormatBool_def update_conv' Let_def)

text \<open>The fields that the start does not change.\<close>

lemma normalizeAddrs_frame:
  assumes "normalizeAddrs A c = (e, c')"
  shows "NodeName c' = NodeName c \<and> cfg_Tags c' = cfg_Tags c \<and> Server c' = Server c \<and> Region c' = Region c \<and>
    Datacenter c' = Datacenter c \<and> Bootstrap c' = Bootstrap c \<and> BootstrapExpect c' = BootstrapExpect c \<and>
    RPCPort c' = RPCPort c \<and> AdvertiseRPCPort c' = AdvertiseRPCPort c"
  using assms by (auto simp: normalizeAddrs_def Let_def split: sum.splits if_splits)

lemma setupSerf_InrD:
  assumes "setupSerf S A PD fuel c = (Some (Inr s), c')"
  shows "c' = c\<lparr>cfg_Tags := serf_tags c\<rparr> \<and>
    (\<exists>cfg. serf_Create S cfg = Inr s \<and> sc_Tags cfg = serf_tags c \<and> sc_NodeName cfg = NodeName c)"
  using assms
  by (auto simp: setupSerf_def Let_def split: option.splits sum.splits if_splits) (rule exI, rule conjI, assumption, simp)+

lemma setupRaft_frame:
  assumes "setupRaft D c d = (e, c', d')"
  shows "c' = (if BootstrapExpect c = 1 then c\<lparr>Bootstrap := True\<rparr> else c)"
proof -
  define k where "k = (if BootstrapExpect c > 0 \<and> BootstrapExpect c = 1 then c\<lparr>Bootstrap := True\<rparr> else c)"
  have "c' = k"
    using assms unfolding setupRaft_def Let_def k_def [symmetric]
    by (auto split: if_splits prod.splits option.splits)
  then show ?thesis by (simp add: k_def)
qed

text \<open>The local member of an agent that has started: the tags of its configuration and its address.\<close>

definition announced_tags :: "config \<Rightarrow> int \<Rightarrow> member \<Rightarrow> string gomap" where
  "announced_tags c port l =
     AList.update ''port'' (show_int port) (AList.update ''rpc_addr'' (JoinHostPort (m_Addr l) (show_int port)) (serf_tags c))"

lemma Start_local_member:
  assumes serf: "serf_node (st_serf L) (st_join L)" and accepts: "\<And>s t. fst (serf_SetTags (st_serf L) s t) = None"
    and start: "Start L fuel receiver c0 d = Some (Inr a)"
  obtains e c l where "normalizeAddrs (st_addr L) c0 = (e, c)" "m_Name l = NodeName c" "m_Status l = StatusAlive"
    "AdvertiseRPCPort (sa_config a) = AdvertiseRPCPort (default_rpc_port c)"
    "serf_LocalMember (st_serf L) (sa_serf a) = l\<lparr>m_Tags := announced_tags c (AdvertiseRPCPort (sa_config a)) l\<rparr>"
proof -
  let ?S = "st_serf L"
  obtain e c where norm: "normalizeAddrs (st_addr L) c0 = (e, c)" by fastforce
  obtain s c1 s1 addr c2 d2 where
    gossip: "setupSerf ?S (st_addr L) (st_ParseDuration L) fuel c = (Some (Inr s), c1)"
    and join: "start_join (st_join L) (st_addr L) fuel receiver c1 s = Some s1"
    and raft: "(if Server (default_rpc_port c1) then setupRaft (st_disk L) (default_rpc_port c1) d
        else (None, default_rpc_port c1, d)) = (None, c2, d2)"
    and a: "a = \<lparr>sa_config = c2, sa_serf = announce ?S c2 s1, sa_listen = addr, sa_disk = d2\<rparr>"
    using start norm
    by (auto simp: Start_def Let_def split: prod.splits option.splits sum.splits error.splits if_splits)
  obtain cfg where cfg: "c1 = c\<lparr>cfg_Tags := serf_tags c\<rparr>" "serf_Create ?S cfg = Inr s"
    "sc_Tags cfg = serf_tags c" "sc_NodeName cfg = NodeName c"
    using setupSerf_InrD [OF gossip] by blast
  have c2: "AdvertiseRPCPort c2 = AdvertiseRPCPort (default_rpc_port c)"
    using raft setupRaft_frame by (auto simp: cfg(1) default_rpc_port_def split: if_splits dest!: setupRaft_frame)
  have local1: "serf_LocalMember ?S s1 = serf_LocalMember ?S s"
    using serf_node.start_local [OF serf join] .
  let ?l = "serf_LocalMember ?S s"
  have created: "m_Name ?l = NodeName c" "m_Tags ?l = serf_tags c" "m_Status ?l = StatusAlive"
    using serf_node.create_law [OF serf cfg(2)] cfg(3,4) by simp_all
  let ?tags = "announced_tags c (AdvertiseRPCPort c2) ?l"
  have "serf_SetTags ?S s1 ?tags = (None, snd (serf_SetTags ?S s1 ?tags))" using accepts by (metis prod.collapse)
  then have "serf_LocalMember ?S (sa_serf a) = ?l\<lparr>m_Tags := ?tags\<rparr>"
    using serf_node.set_tags_law [OF serf] a local1 created(2)
    by (auto simp: announce_def announced_tags_def advertiseRPCAddr_def Let_def)
  then show ?thesis using that [OF norm, of ?l] created c2 a by simp
qed

lemma announced_tags_read:
  assumes "map_of (cfg_Tags c) ''server'' = None" "map_of (cfg_Tags c) ''bootstrap'' = None" "map_of (cfg_Tags c) ''expect'' = None"
  shows "get_str (announced_tags c port l) ''rpc_addr'' = JoinHostPort (m_Addr l) (show_int port)"
    "get_str (announced_tags c port l) ''port'' = show_int port"
    "get_str (announced_tags c port l) ''role'' = ''dkron''" "get_str (announced_tags c port l) ''region'' = Region c"
    "get_str (announced_tags c port l) ''dc'' = Datacenter c"
    "get_str (announced_tags c port l) ''server'' = (if Server c then ''true'' else [])"
    "map_of (announced_tags c port l) ''bootstrap'' = (if Bootstrap c then Some ''1'' else None)"
    "map_of (announced_tags c port l) ''expect'' = (if BootstrapExpect c \<noteq> 0 then Some (show_int (BootstrapExpect c)) else None)"
proof -
  have "map_of (announced_tags c port l) =
      (map_of (serf_tags c))(''rpc_addr'' \<mapsto> JoinHostPort (m_Addr l) (show_int port), ''port'' \<mapsto> show_int port)"
    by (simp add: announced_tags_def update_conv')
  then show "get_str (announced_tags c port l) ''rpc_addr'' = JoinHostPort (m_Addr l) (show_int port)"
    "get_str (announced_tags c port l) ''port'' = show_int port"
    "get_str (announced_tags c port l) ''role'' = ''dkron''" "get_str (announced_tags c port l) ''region'' = Region c"
    "get_str (announced_tags c port l) ''dc'' = Datacenter c"
    "get_str (announced_tags c port l) ''server'' = (if Server c then ''true'' else [])"
    "map_of (announced_tags c port l) ''bootstrap'' = (if Bootstrap c then Some ''1'' else None)"
    "map_of (announced_tags c port l) ''expect'' = (if BootstrapExpect c \<noteq> 0 then Some (show_int (BootstrapExpect c)) else None)"
    by (simp_all add: get_str_def serf_tags_map Let_def assms)
qed

text \<open>
  What a started agent announces is what other nodes read. If \<open>Start\<close> returns an agent whose
  configured tags do not use the reserved names, then \<open>isServer\<close> applied to its own member gives
  for a server its region, data center, expected servers and port, the bootstrap mode, and an RPC
  address that prints as the tag \<open>rpc_addr\<close>, under which Raft knows it; for another agent it gives
  no server.
\<close>

theorem Start_announces:
  assumes serf: "serf_node (st_serf L) (st_join L)"
    and accepts: "\<And>s t. fst (serf_SetTags (st_serf L) s t) = None"
    and no_ip: "\<And>h p. ParseIP N (JoinHostPort h p) = None"
    and plain: "fst ` set (cfg_Tags c0) \<inter> {''server'', ''bootstrap'', ''expect''} = {}"
    and ports: "\<bar>RPCPort c0\<bar> < 2 ^ 63" "\<bar>AdvertiseRPCPort c0\<bar> < 2 ^ 63" "\<bar>BootstrapExpect c0\<bar> < 2 ^ 63"
    and start: "Start L fuel receiver c0 d = Some (Inr a)"
    and m: "m = serf_LocalMember (st_serf L) (sa_serf a)"
  shows "m_Name m = NodeName c0 \<and> m_Status m = StatusAlive \<and>
    (if Server c0 then
       \<exists>p. isServer N m = Some p \<and> sp_Region p = Region c0 \<and> sp_Datacenter p = Datacenter c0 \<and>
         sp_Expect p = BootstrapExpect c0 \<and> (sp_Bootstrap p \<longleftrightarrow> Bootstrap c0 \<or> BootstrapExpect c0 = 1) \<and>
         sp_Port p = AdvertiseRPCPort (sa_config a) \<and>
         TCPAddr_String (sp_Addr p) = get_str (m_Tags m) ''rpc_addr'' \<and>
         TCPAddr_String (sp_RPCAddr p) = get_str (m_Tags m) ''rpc_addr''
     else isServer N m = None)"
proof -
  obtain e c l where norm: "normalizeAddrs (st_addr L) c0 = (e, c)" and l: "m_Name l = NodeName c" "m_Status l = StatusAlive"
    and c2: "AdvertiseRPCPort (sa_config a) = AdvertiseRPCPort (default_rpc_port c)"
    and m': "m = l\<lparr>m_Tags := announced_tags c (AdvertiseRPCPort (sa_config a)) l\<rparr>"
    using Start_local_member [OF serf accepts start] m by metis
  let ?port = "AdvertiseRPCPort (sa_config a)"
  note frame = normalizeAddrs_frame [OF norm]
  have port: "Atoi (show_int ?port) = Inr ?port"
    using ports frame by (intro Atoi_show_int) (auto simp: c2 default_rpc_port_def)
  have expect: "Atoi (show_int (BootstrapExpect c0)) = Inr (BootstrapExpect c0)"
    using ports by (intro Atoi_show_int) auto
  have "map_of (cfg_Tags c) ''server'' = None" "map_of (cfg_Tags c) ''bootstrap'' = None" "map_of (cfg_Tags c) ''expect'' = None"
    using plain frame by (auto simp: map_of_eq_None_iff)
  note read = announced_tags_read [OF this, of ?port l]
  have "m_Name m = NodeName c0 \<and> m_Status m = StatusAlive" using l frame by (simp add: m')
  moreover have "isServer N m = None" if "\<not> Server c0"
    using that frame by (simp add: isServer_def m' read)
  moreover have "\<exists>p. isServer N m = Some p \<and> sp_Region p = Region c0 \<and> sp_Datacenter p = Datacenter c0 \<and>
         sp_Expect p = BootstrapExpect c0 \<and> (sp_Bootstrap p \<longleftrightarrow> Bootstrap c0 \<or> BootstrapExpect c0 = 1) \<and>
         sp_Port p = AdvertiseRPCPort (sa_config a) \<and>
         TCPAddr_String (sp_Addr p) = get_str (m_Tags m) ''rpc_addr'' \<and>
         TCPAddr_String (sp_RPCAddr p) = get_str (m_Tags m) ''rpc_addr''" if "Server c0"
    using that frame
    by (cases "BootstrapExpect c0 = 0"; cases "Bootstrap c0")
       (simp_all add: isServer_def m' read no_ip port expect TCPAddr_String_def)
  ultimately show ?thesis by simp
qed


section \<open>Safety of the start\<close>

lemma open_storage_cong: "DevMode c = DevMode c' \<Longrightarrow> DataDir c = DataDir c' \<Longrightarrow> open_storage D c d = open_storage D c' d"
  by (auto simp: open_storage_def split: prod.splits option.splits)

lemma open_storage_bootstrap: "open_storage (D\<lparr>rd_BootstrapCluster := f\<rparr>) c d = open_storage D c d"
  by (auto simp: open_storage_def recover_peers_def split: prod.splits option.splits sum.splits)

text \<open>
  A node never bootstraps a second cluster. When the storage holds state, or when neither the
  bootstrap mode, nor an expectation of one server, nor the development mode asks for it, setting up
  Raft does not depend on what \<open>BootstrapCluster\<close> would do: it is not called.
\<close>

theorem setupRaft_bootstraps_once:
  assumes "open_storage D c d = (None, d1)"
    and "rd_HasExistingState D d1 = Inr True \<or> \<not> (Bootstrap c \<or> BootstrapExpect c = 1 \<or> DevMode c)"
  shows "setupRaft (D\<lparr>rd_BootstrapCluster := f\<rparr>) c d = setupRaft D c d"
proof -
  define k where "k = (if BootstrapExpect c > 0 \<and> BootstrapExpect c = 1 then c\<lparr>Bootstrap := True\<rparr> else c)"
  have open1: "open_storage D k d = (None, d1)"
  proof -
    have "DevMode k = DevMode c" "DataDir k = DataDir c" by (simp_all add: k_def)
    then show ?thesis using assms(1) by (metis open_storage_cong)
  qed
  have boot: "bootstrap_raft (D\<lparr>rd_BootstrapCluster := f\<rparr>) k n d1 = bootstrap_raft D k n d1" for n
    using assms(2) by (auto simp: bootstrap_raft_def k_def)
  show ?thesis
    unfolding setupRaft_def Let_def k_def [symmetric]
    by (auto simp: open_storage_bootstrap open1 boot split: prod.splits option.splits)
qed

text \<open>
  The Raft multiplier. A value outside of 1 to 10 is refused before the storage is touched, and
  otherwise Raft runs with the default timeouts times the multiplier.
\<close>

theorem setupRaft_multiplier:
  "(if RaftMultiplier c < 1 \<or> RaftMultiplier c > 10
    then \<exists>e c'. setupRaft D c d = (Some (Errorf e), c', d)
    else \<forall>c' d'. setupRaft D c d = (None, c', d') \<longrightarrow>
      (\<exists>d2. rd_NewRaft D (scale_timing (RaftMultiplier c) (NodeName c) (rd_defaults D)) d2 = (None, d')))"
proof -
  define k where "k = (if BootstrapExpect c > 0 \<and> BootstrapExpect c = 1 then c\<lparr>Bootstrap := True\<rparr> else c)"
  have k: "RaftMultiplier k = RaftMultiplier c" "NodeName k = NodeName c" by (simp_all add: k_def)
  show ?thesis
    unfolding setupRaft_def Let_def k_def [symmetric] k
    by (auto split: prod.splits option.splits)
qed

lemma retry_loop_joined: "retry_loop L A r n k w = Some (None, w') \<Longrightarrow> \<exists>i. joins_at L A r w i"
proof (induction n arbitrary: k w)
  case (Suc n)
  obtain ok w1 where t: "try_join L A r w = (ok, w1)" by fastforce
  show ?case
  proof (cases ok)
    case True
    then show ?thesis using t joins_at_0 by (metis fst_conv)
  next
    case False
    then have "retry_loop L A r n (k + 1) (Sleep L (rj_interval r) w1) = Some (None, w')"
      using Suc.prems t by (simp split: if_splits)
    from Suc.IH [OF this] show ?thesis using t joins_at_Suc by (metis snd_conv)
  qed
qed simp

text \<open>
  The agent of the command \<open>dkron agent\<close> reads the channel of the join errors only after \<open>Start\<close> has
  returned. If the cluster cannot be joined, \<open>Start\<close> never returns, whatever the maximum of attempts.
\<close>

theorem Start_waits_forever:
  assumes "setupSerf (st_serf L) (st_addr L) (st_ParseDuration L) fuel (snd (normalizeAddrs (st_addr L) c0)) = (Some (Inr s), c)"
    and "RetryJoinLAN c \<noteq> []" "discover_New (st_join L) = None"
    and "\<And>r k. \<not> joins_at (st_join L) (st_addr L) r s k"
  shows "Start L fuel False c0 d = None"
proof -
  have "retryJoinLAN (st_join L) (st_addr L) fuel c s \<noteq> Some (None, s1)" for s1
    using assms(2-4) retry_loop_joined [of "st_join L" "st_addr L" _ fuel 0 s s1]
    by (auto simp: retryJoinLAN_def retryJoin_def)
  then have "start_join (st_join L) (st_addr L) fuel False c s = None"
    using assms(2) by (auto simp: start_join_def split: option.splits)
  then show ?thesis using assms(1) by (simp add: Start_def)
qed

text \<open>
  With the defaults the address to advertise is looked for under the bind address together with its
  port, which is no host name: \<open>normalizeAddrs\<close> fails, and \<open>Start\<close> goes on with no address to advertise.
\<close>

theorem normalizeAddrs_default_fails:
  assumes "ParseSingleIPTemplate A (BindAddr c) = Inr bind" "ParseSingleIPTemplate A (HTTPAddr c) = Inr http"
    "ParseSingleIPTemplate A [] = Inr []" "AdvertiseAddr c = []" "BindAddr c \<noteq> []" "HTTPAddr c \<noteq> []"
    "LookupIP A bind = Inl e"
  shows "normalizeAddrs A c = (Some (Errorf ''failed to parse HTTP advertise address''), c\<lparr>BindAddr := bind, HTTPAddr := http\<rparr>)"
  using assms by (simp add: normalizeAddrs_def normalizeAdvertise_def)

text \<open>An agent that is no server carries the tag \<open>server\<close> its user gave it.\<close>

lemma user_tag_server: "\<not> Server c \<Longrightarrow> map_of (serf_tags c) ''server'' = map_of (cfg_Tags c) ''server''"
  by (simp add: serf_tags_map Let_def)


section \<open>Concrete runs\<close>

text \<open>A network with IPv4 addresses only, and a storage whose operations succeed.\<close>

definition net4 :: net_lib where
  "net4 = \<lparr>ParseIP = (\<lambda>s. if s = [] \<or> CHR '':'' \<in> set s then None else Some s), NewVersion = Inr\<rparr>"

definition ref_disk :: "bool raft_disk" where
  "ref_disk = \<lparr>rd_defaults = \<lparr>HeartbeatTimeout = seconds 1, ElectionTimeout = seconds 1, LeaderLeaseTimeout = 500000000, LocalID = []\<rparr>,
     rd_Join = (\<lambda>ps. Join ps ''/''), rd_NewInmemStore = (\<lambda>_. False), rd_NewFileSnapshotStore = (\<lambda>d _. (None, d)),
     rd_NewBoltStore = (\<lambda>d _. (None, d)), rd_NewLogCache = (\<lambda>_. None), rd_Stat = (\<lambda>_ _. Some (LibError ''no file'')),
     rd_ReadConfigJSON = (\<lambda>_ _. Inr []), rd_RecoverCluster = (\<lambda>d _. (None, d)), rd_Remove = (\<lambda>d _. (None, d)),
     rd_HasExistingState = Inr, rd_BootstrapCluster = (\<lambda>_ _. (None, True)), rd_LocalAddr = ''10.0.0.1:6868'',
     rd_NewRaft = (\<lambda>_ d. (None, d))\<rparr>"

definition sample_start_lib :: "(member, bool) start_lib" where
  "sample_start_lib = \<lparr>st_addr = sample_addrs\<lparr>ResolveTCPAddr := (\<lambda>s. Inr (takeWhile (\<lambda>c. c \<noteq> CHR '':'') s, 8946))\<rparr>,
     st_serf = ref_serf, st_join = ref_join, st_ParseDuration = (\<lambda>_. Inr (seconds 86400)), st_initMetrics = (\<lambda>_. None),
     st_Listen = (\<lambda>_. None), st_disk = ref_disk\<rparr>"

definition sample_start_config :: config where
  "sample_start_config = sample_config\<lparr>BindAddr := ''10.0.0.1:8946'', Server := True, BootstrapExpect := 1\<rparr>"

lemma sample_AddrParts:
  "AddrParts (\<lambda>s. Inr (takeWhile (\<lambda>c. c \<noteq> CHR '':'') s, 8946)) 2 ''10.0.0.1:8946'' = Some (Inr (''10.0.0.1'', 8946))"
proof -
  have "SplitHostPort ''10.0.0.1:8946'' = Inr (''10.0.0.1'', ''8946'')" by code_simp
  then show ?thesis by (simp add: AddrParts_def numeral_2_eq_2)
qed

lemma sample_normalized:
  "normalizeAddrs (st_addr sample_start_lib) sample_start_config =
     (None, sample_start_config\<lparr>AdvertiseAddr := ''10.0.0.1:8946''\<rparr>)"
  by (simp add: normalizeAddrs_def normalizeAdvertise_def sample_start_lib_def sample_start_config_def sample_config_def
      DefaultConfig_def sample_addrs_def ParseSingleIPTemplate_def JoinHostPort_def show_8946)

lemma sample_Start: "\<exists>a. Start sample_start_lib 2 False sample_start_config False = Some (Inr a)"
proof -
  have enc: "DecodeString [] = Inr []" by (simp add: DecodeString_def)
  have fields: "AdvertiseAddr sample_start_config = []" "BindAddr sample_start_config = ''10.0.0.1:8946''" "EncryptKey sample_start_config = []"
    "Profile sample_start_config = ''lan''" "RetryJoinLAN sample_start_config = []" "RaftMultiplier sample_start_config = 1"
    "DevMode sample_start_config = False" "Server sample_start_config" "BootstrapExpect sample_start_config = 1"
    by (simp_all add: sample_start_config_def sample_config_def DefaultConfig_def)
  show ?thesis
    unfolding Start_def sample_normalized
    by (simp add: setupSerf_def sample_start_lib_def sample_AddrParts fields EncryptBytes_def enc memberlist_of_def ref_serf_def
        start_join_def agent_join_def ref_join_def bindRPCAddr_def default_rpc_port_def setupRaft_def open_storage_def
        bootstrap_raft_def recover_peers_def ref_disk_def Let_def)
qed

theorem Start_announces_witness:
  "\<exists>a p. Start sample_start_lib 2 False sample_start_config False = Some (Inr a) \<and>
     isServer net4 (sa_serf a) = Some p \<and> sp_Region p = ''global'' \<and> sp_Expect p = 1"
proof -
  obtain a where start: "Start sample_start_lib 2 False sample_start_config False = Some (Inr a)" using sample_Start by blast
  have lib: "serf_node (st_serf sample_start_lib) (st_join sample_start_lib)"
    by (simp add: sample_start_lib_def refs.serf_node_axioms)
  have accepts: "fst (serf_SetTags (st_serf sample_start_lib) s t) = None" for s t
    by (simp add: sample_start_lib_def ref_serf_def)
  have ip: "ParseIP net4 (JoinHostPort h p) = None" for h p by (simp add: net4_def JoinHostPort_def)
  have cfg: "cfg_Tags sample_start_config = []" "RPCPort sample_start_config = 6868" "AdvertiseRPCPort sample_start_config = 0"
    "BootstrapExpect sample_start_config = 1" "Server sample_start_config" "Region sample_start_config = ''global''"
    by (simp_all add: sample_start_config_def sample_config_def DefaultConfig_def DefaultRPCPort_def)
  have "serf_LocalMember (st_serf sample_start_lib) (sa_serf a) = sa_serf a" by (simp add: sample_start_lib_def ref_serf_def)
  with Start_announces [OF lib accepts ip _ _ _ _ start refl] start cfg show ?thesis by auto
qed

theorem setupRaft_bootstraps_once_witness:
  "setupRaft (ref_disk\<lparr>rd_BootstrapCluster := (\<lambda>_ _. (Some (LibError ''twice''), False))\<rparr>) sample_start_config True =
   setupRaft ref_disk sample_start_config True"
proof -
  have "open_storage ref_disk sample_start_config True = (None, True)"
    by (simp add: open_storage_def recover_peers_def ref_disk_def sample_start_config_def sample_config_def DefaultConfig_def)
  moreover have "rd_HasExistingState ref_disk True = Inr True" by (simp add: ref_disk_def)
  ultimately show ?thesis using setupRaft_bootstraps_once [of ref_disk sample_start_config True True] by blast
qed

theorem setupRaft_multiplier_witness:
  "\<exists>e c'. setupRaft ref_disk (sample_start_config\<lparr>RaftMultiplier := 11\<rparr>) True = (Some (Errorf e), c', True)"
  using setupRaft_multiplier [of "sample_start_config\<lparr>RaftMultiplier := 11\<rparr>" ref_disk True] by simp

end
