(* ===== verification/Dashboard.thy ===== *)
theory Dashboard
  imports Api Setup Store_Executions
begin

text \<open>
The dashboard (\<open>src/dkron/dashboard.go\<close>): its pages as the data handed to the templates, and the functions the
templates call. Rendering the templates is left to the library.
\<close>

section \<open>Pages\<close>

definition dashboardPathPrefix :: string where "dashboardPathPrefix = ''dashboard''"
definition assetsPrefix :: string where "assetsPrefix = ''static''"
definition apiPathPrefix :: string where "apiPathPrefix = ''v1''"

record commonDashboardData =
  cd_Version :: string
  cd_LeaderName :: string
  cd_MemberName :: string
  cd_AssetsPath :: string
  cd_Path :: string
  cd_APIPath :: string
  cd_Name :: string
  cd_Time :: string

text \<open>\<open>clock\<close> is the current time in the format of the page.\<close>

definition newCommonDashboardData :: "('db, 'w) http_agent \<Rightarrow> 'w \<Rightarrow> string \<Rightarrow> string \<Rightarrow> string \<Rightarrow> commonDashboardData" where
  "newCommonDashboardData h w clock nodeName path =
     \<lparr>cd_Version = Version,
      cd_LeaderName = (case leaderMember (ha_raft h) w (ha_members h w) of Inl e \<Rightarrow> [] | Inr l \<Rightarrow> m_Name l),
      cd_MemberName = nodeName,
      cd_AssetsPath = path @ assetsPrefix,
      cd_Path = path @ dashboardPathPrefix,
      cd_APIPath = path @ apiPathPrefix,
      cd_Name = ''Dkron'',
      cd_Time = clock\<rparr>"

text \<open>What a page of executions shows besides.\<close>

record executions_data =
  xd_Groups :: "(int \<times> execution list) list"
  xd_JobName :: string
  xd_ByGroup :: "int list"
  xd_Count :: nat

datatype dashboard_call =
    HTML int string commonDashboardData "executions_data option"
  | Redirect int string
  | NoPage int

definition dashboardIndexHandler :: "('db, 'w) http_agent \<Rightarrow> string \<Rightarrow> string \<Rightarrow> 'w \<Rightarrow> dashboard_call" where
  "dashboardIndexHandler h node clock w = HTML StatusOK ''index'' (newCommonDashboardData h w clock node ''../'') None"

definition dashboardJobsHandler :: "('db, 'w) http_agent \<Rightarrow> string \<Rightarrow> string \<Rightarrow> 'w \<Rightarrow> dashboard_call" where
  "dashboardJobsHandler h node clock w = HTML StatusOK ''jobs'' (newCommonDashboardData h w clock node ''../'') None"

definition dashboardBusyHandler :: "('db, 'w) http_agent \<Rightarrow> string \<Rightarrow> string \<Rightarrow> 'w \<Rightarrow> dashboard_call" where
  "dashboardBusyHandler h node clock w = HTML StatusOK ''busy'' (newCommonDashboardData h w clock node ''../'') None"

text \<open>An error of the store is logged, and the page shows nothing.\<close>

definition dashboardExecutionsHandler :: "('db, 'w) http_agent \<Rightarrow> string \<Rightarrow> string \<Rightarrow> 'w \<Rightarrow> string \<Rightarrow> dashboard_call" where
  "dashboardExecutionsHandler h node clock w job =
     (case (case GetGroupedExecutions (ha_env h) (ha_store h w) job of Inl e \<Rightarrow> ([], []) | Inr r \<Rightarrow> r) of
        (groups, byGroup) \<Rightarrow>
          HTML StatusOK ''executions'' (newCommonDashboardData h w clock node ''../../../'')
            (Some \<lparr>xd_Groups = groups, xd_JobName = job, xd_ByGroup = byGroup,
                   xd_Count = fold (\<lambda>(g, v) count. count + length v) groups 0\<rparr>))"

text \<open>The root: a browser, which accepts HTML, is sent to the dashboard.\<close>

definition dashboardRoot :: "bool \<Rightarrow> dashboard_call" where
  "dashboardRoot accepts_html =
     (if accepts_html then Redirect 301 (''/'' @ dashboardPathPrefix @ ''/'') else NoPage StatusNotFound)"

section \<open>Templates\<close>

text \<open>\<open>open_read\<close> opens and reads a template; a failure is logged and gives an empty template.\<close>

definition mustLoadTemplate :: "(string \<Rightarrow> string res) \<Rightarrow> string \<Rightarrow> string" where
  "mustLoadTemplate open_read path = (case open_read path of Inl e \<Rightarrow> [] | Inr tmpl \<Rightarrow> tmpl)"

definition CreateMyRender :: "(string \<Rightarrow> string res) \<Rightarrow> string list gomap" where
  "CreateMyRender open_read =
     (let status = mustLoadTemplate open_read ''/status.html.tmpl'';
          dash = mustLoadTemplate open_read ''/dashboard.html.tmpl''
      in [(''index'', [dash, status, mustLoadTemplate open_read ''/index.html.tmpl'']),
          (''jobs'', [dash, status, mustLoadTemplate open_read ''/jobs.html.tmpl'']),
          (''executions'', [dash, status, mustLoadTemplate open_read ''/executions.html.tmpl'']),
          (''busy'', [dash, status, mustLoadTemplate open_read ''/busy.html.tmpl''])])"

text \<open>
  The function \<open>truncate\<close> of the templates: \<open>range\<close> over a string visits the index of each code point.
\<close>

function truncate_loop :: "string \<Rightarrow> nat \<Rightarrow> nat \<Rightarrow> string" where
  "truncate_loop s index numRunes =
     (if index < length s then
        if numRunes + 1 > 25 then take index s
        else truncate_loop s (index + snd (decode_rune (drop index s))) (numRunes + 1)
      else s)"
  by pat_completeness auto
termination
  by (relation "measure (\<lambda>(s, index, n). length s - index)")
    (auto intro!: diff_less_mono2 simp: decode_rune_width)

definition truncate :: "string \<Rightarrow> string" where
  "truncate s = truncate_loop s 0 0"

definition toString :: "string \<Rightarrow> string" where "toString value = value"

section \<open>Truncation keeps code points whole\<close>

function runes :: "string \<Rightarrow> nat list" where
  "runes s = (if s = [] then [] else fst (decode_rune s) # runes (drop (snd (decode_rune s)) s))"
  by pat_completeness auto
termination
  by (relation "measure length") (auto simp: decode_rune_width)

declare runes.simps [simp del] truncate_loop.simps [simp del]

text \<open>The bytes of a string, and the forms of a code point of two, three and four bytes.\<close>

definition byte_at :: "string \<Rightarrow> nat \<Rightarrow> nat" where
  "byte_at s i = (if i < length s then of_char (s ! i) else 0)"

definition two_bytes :: "(nat \<Rightarrow> nat) \<Rightarrow> bool" where
  "two_bytes b \<longleftrightarrow> 194 \<le> b 0 \<and> b 0 \<le> 223 \<and> 128 \<le> b 1 \<and> b 1 \<le> 191"

definition three_bytes :: "(nat \<Rightarrow> nat) \<Rightarrow> bool" where
  "three_bytes b \<longleftrightarrow> 224 \<le> b 0 \<and> b 0 \<le> 239 \<and> (if b 0 = 224 then 160 else 128) \<le> b 1 \<and>
     b 1 \<le> (if b 0 = 237 then 159 else 191) \<and> 128 \<le> b 2 \<and> b 2 \<le> 191"

definition four_bytes :: "(nat \<Rightarrow> nat) \<Rightarrow> bool" where
  "four_bytes b \<longleftrightarrow> 240 \<le> b 0 \<and> b 0 \<le> 244 \<and> (if b 0 = 240 then 144 else 128) \<le> b 1 \<and>
     b 1 \<le> (if b 0 = 244 then 143 else 191) \<and> 128 \<le> b 2 \<and> b 2 \<le> 191 \<and> 128 \<le> b 3 \<and> b 3 \<le> 191"

lemma decode_rune_forms:
  "decode_rune s =
     (if byte_at s 0 < 128 then (byte_at s 0, 1)
      else if two_bytes (byte_at s) then ((byte_at s 0 - 192) * 64 + (byte_at s 1 - 128), 2)
      else if three_bytes (byte_at s) then
        ((byte_at s 0 - 224) * 4096 + (byte_at s 1 - 128) * 64 + (byte_at s 2 - 128), 3)
      else if four_bytes (byte_at s) then
        ((byte_at s 0 - 240) * 262144 + (byte_at s 1 - 128) * 4096 + (byte_at s 2 - 128) * 64 + (byte_at s 3 - 128), 4)
      else (65533, 1))"
  unfolding decode_rune_def two_bytes_def three_bytes_def four_bytes_def Let_def byte_at_def [symmetric] conj_assoc ..

lemma long_forms:
  "two_bytes (byte_at s) \<Longrightarrow> 2 \<le> length s" "three_bytes (byte_at s) \<Longrightarrow> 3 \<le> length s"
  "four_bytes (byte_at s) \<Longrightarrow> 4 \<le> length s"
proof -
  have "i < length s" if "128 \<le> byte_at s i" for i using that by (simp add: byte_at_def split: if_splits)
  from this [of 1] this [of 2] this [of 3]
  show "two_bytes (byte_at s) \<Longrightarrow> 2 \<le> length s" "three_bytes (byte_at s) \<Longrightarrow> 3 \<le> length s"
    "four_bytes (byte_at s) \<Longrightarrow> 4 \<le> length s"
    by (simp_all add: two_bytes_def three_bytes_def four_bytes_def)
qed

lemma decode_rune_width_le: "s \<noteq> [] \<Longrightarrow> snd (decode_rune s) \<le> length s"
  using long_forms [of s] by (cases s) (simp_all add: decode_rune_forms)

lemma byte_at_take: "i < n \<Longrightarrow> byte_at (take n s) i = byte_at s i"
  by (simp add: byte_at_def)

lemma decode_rune_take:
  assumes "0 < n" "snd (decode_rune s) \<le> n"
  shows "decode_rune (take n s) = decode_rune s"
proof -
  have b0: "byte_at (take n s) 0 = byte_at s 0" using assms(1) by (rule byte_at_take)
  have two: "two_bytes (byte_at (take n s)) = (2 \<le> n \<and> two_bytes (byte_at s))"
  proof (cases "2 \<le> n")
    case True
    then show ?thesis using byte_at_take [of 1 n s] b0 by (simp add: two_bytes_def)
  qed (use long_forms(1) [of "take n s"] in auto)
  have three: "three_bytes (byte_at (take n s)) = (3 \<le> n \<and> three_bytes (byte_at s))"
  proof (cases "3 \<le> n")
    case True
    then show ?thesis using byte_at_take [of 1 n s] byte_at_take [of 2 n s] b0 by (simp add: three_bytes_def)
  qed (use long_forms(2) [of "take n s"] in auto)
  have four: "four_bytes (byte_at (take n s)) = (4 \<le> n \<and> four_bytes (byte_at s))"
  proof (cases "4 \<le> n")
    case True
    then show ?thesis using byte_at_take [of 1 n s] byte_at_take [of 2 n s] byte_at_take [of 3 n s] b0
      by (simp add: four_bytes_def)
  qed (use long_forms(3) [of "take n s"] in auto)
  show ?thesis
    using assms byte_at_take [of 1 n s] byte_at_take [of 2 n s] byte_at_take [of 3 n s]
    unfolding decode_rune_forms b0 two three four by (simp split: if_splits)
qed

text \<open>The first \<open>k\<close> code points of a string, as bytes.\<close>

fun take_runes :: "nat \<Rightarrow> string \<Rightarrow> string" where
  "take_runes 0 s = []"
| "take_runes (Suc k) s =
     (if s = [] then [] else take (snd (decode_rune s)) s @ take_runes k (drop (snd (decode_rune s)) s))"

lemma take_runes_take: "\<exists>n. take_runes k s = take n s"
proof (induction k arbitrary: s)
  case (Suc k)
  obtain n where "take_runes k (drop (snd (decode_rune s)) s) = take n (drop (snd (decode_rune s)) s)"
    using Suc by blast
  then have "take_runes (Suc k) s = take (snd (decode_rune s) + n) s" by (simp add: take_add)
  then show ?case ..
qed (auto intro: exI [of _ 0])

lemma truncate_loop_take_runes:
  assumes "n \<le> 25" "index \<le> length s"
  shows "truncate_loop s index n = take index s @ take_runes (25 - n) (drop index s)"
  using assms
proof (induction s index n rule: truncate_loop.induct)
  case (1 s index n)
  let ?w = "snd (decode_rune (drop index s))"
  show ?case
  proof (cases "index < length s")
    case True
    then have "?w \<le> length s - index" using decode_rune_width_le [of "drop index s"] by simp
    then have le: "index + ?w \<le> length s" using True by linarith
    show ?thesis
    proof (cases "n = 25")
      case False
      with "1.prems" have k: "25 - n = Suc (25 - (n + 1))" "n + 1 \<le> 25" by linarith+
      have "truncate_loop s index n = truncate_loop s (index + ?w) (n + 1)"
        using True k(2) by (subst truncate_loop.simps) simp
      also have "\<dots> = take (index + ?w) s @ take_runes (25 - (n + 1)) (drop (index + ?w) s)"
        using "1.IH" True k(2) le by simp
      finally show ?thesis using True k(1) by (simp add: take_add add.commute)
    qed (use True in \<open>simp add: truncate_loop.simps\<close>)
  next
    case False
    with "1.prems" have "index = length s" by simp
    then show ?thesis by (cases "25 - n") (simp_all add: truncate_loop.simps [of s "length s" n])
  qed
qed

lemma truncate_take_runes: "truncate s = take_runes 25 s"
  using truncate_loop_take_runes [of 0 0 s] by (simp add: truncate_def)

lemma take_runes_step:
  assumes "s \<noteq> []"
  shows "take_runes (Suc k) s \<noteq> []" "decode_rune (take_runes (Suc k) s) = decode_rune s"
    "drop (snd (decode_rune s)) (take_runes (Suc k) s) = take_runes k (drop (snd (decode_rune s)) s)"
proof -
  let ?w = "snd (decode_rune s)"
  have w: "0 < ?w" "?w \<le> length s" using decode_rune_width decode_rune_width_le [OF assms] by simp_all
  then show "take_runes (Suc k) s \<noteq> []" using assms by simp
  obtain n where n: "take_runes k (drop ?w s) = take n (drop ?w s)" using take_runes_take by blast
  then have eq: "take_runes (Suc k) s = take (?w + n) s" using assms by (simp add: take_add)
  show "decode_rune (take_runes (Suc k) s) = decode_rune s" unfolding eq by (rule decode_rune_take) (use w in simp_all)
  show "drop ?w (take_runes (Suc k) s) = take_runes k (drop ?w s)" unfolding eq n by (simp add: drop_take)
qed

lemma runes_take_runes: "runes (take_runes k s) = take k (runes s)"
proof (induction k arbitrary: s)
  case (Suc k)
  show ?case
  proof (cases "s = []")
    case False
    have "runes (take_runes (Suc k) s) = fst (decode_rune s) # runes (take_runes k (drop (snd (decode_rune s)) s))"
      by (subst runes.simps) (simp only: take_runes_step [OF False] if_False)
    also have "\<dots> = take (Suc k) (runes s)" using False by (subst (2) runes.simps) (simp add: Suc)
    finally show ?thesis .
  qed (simp add: runes.simps)
qed (simp add: runes.simps)

lemma valid_take_runes: "valid_utf8 s \<Longrightarrow> valid_utf8 (take_runes k s)"
proof (induction k arbitrary: s)
  case (Suc k)
  show ?case
  proof (cases "s = []")
    case False
    with Suc.prems have *: "decode_rune s \<noteq> (65533, 1)" "valid_utf8 (drop (snd (decode_rune s)) s)"
      by (simp_all add: valid_utf8.simps [of s] split: if_splits)
    then show ?thesis
      using Suc.IH [OF *(2)] by (subst valid_utf8.simps) (simp only: take_runes_step [OF False] if_False simp_thms)
  qed simp
qed simp

lemma take_runes_id_iff: "take_runes k s = s \<longleftrightarrow> length (runes s) \<le> k"
proof (induction k arbitrary: s)
  case 0
  show ?case by (cases "s = []") (simp_all add: runes.simps)
next
  case (Suc k)
  show ?case
  proof (cases "s = []")
    case False
    let ?w = "snd (decode_rune s)"
    have "take_runes (Suc k) s = s \<longleftrightarrow> take_runes k (drop ?w s) = drop ?w s"
      using False append_take_drop_id [of ?w s] by (simp, metis same_append_eq)
    then show ?thesis using False Suc by (simp add: runes.simps [of s])
  qed (simp add: runes.simps)
qed

text \<open>
  Truncation for the dashboard cuts no character apart. \<open>truncate\<close> returns a prefix of its argument
  that holds its first 25 code points, all of them when there are no more; a string is returned as it
  is exactly when it has at most 25 code points, and valid UTF-8 stays valid.
\<close>

theorem truncate_runes:
  "(\<exists>n. truncate s = take n s) \<and> runes (truncate s) = take 25 (runes s) \<and>
   (truncate s = s \<longleftrightarrow> length (runes s) \<le> 25) \<and> (valid_utf8 s \<longrightarrow> valid_utf8 (truncate s))"
  using take_runes_take runes_take_runes take_runes_id_iff valid_take_runes by (simp add: truncate_take_runes)

theorem truncate_runes_witness:
  "valid_utf8 (truncate ''a nightly backup of all the databases'') \<and>
   truncate ''a nightly backup of all the databases'' = ''a nightly backup of all t''"
proof -
  have "valid_utf8 ''a nightly backup of all the databases''" by simp
  moreover have "truncate ''a nightly backup of all the databases'' = ''a nightly backup of all t''" by code_simp
  ultimately show ?thesis using truncate_runes [of "''a nightly backup of all the databases''"] by simp
qed

section \<open>The page of executions\<close>

lemma fold_count: "fold (\<lambda>(g, v) count. count + length v) groups n = n + sum_list (map (length \<circ> snd) groups)"
  by (induction groups arbitrary: n) auto

lemma update_count:
  "sum_list (map (length \<circ> snd) (AList.update g ((case map_of groups g of None \<Rightarrow> [] | Some ys \<Rightarrow> ys) @ [x]) groups)) =
   Suc (sum_list (map (length \<circ> snd) groups))"
  by (induction groups) (auto split: option.splits)

lemma group_execs_count: "sum_list (map (length \<circ> snd) (group_execs xs groups)) = sum_list (map (length \<circ> snd) groups) + length xs"
proof (induction xs arbitrary: groups)
  case (Cons x xs)
  show ?case unfolding group_execs.simps Cons update_count by (simp add: comp_def)
qed simp

text \<open>
  The page of executions shows every execution of the job once: it counts all of them, and the group an
  index points to holds exactly the executions of that group. For a job the store cannot read it
  shows none.
\<close>

theorem dashboard_executions_complete:
  "case GetExecutions (ha_env h) (ha_store h w) job of
     Inl e \<Rightarrow> \<exists>common. dashboardExecutionsHandler h node clock w job = HTML 200 ''executions'' common
       (Some \<lparr>xd_Groups = [], xd_JobName = job, xd_ByGroup = [], xd_Count = 0\<rparr>)
   | Inr xs \<Rightarrow> \<exists>common groups byGroup. dashboardExecutionsHandler h node clock w job = HTML 200 ''executions'' common
       (Some \<lparr>xd_Groups = groups, xd_JobName = job, xd_ByGroup = byGroup, xd_Count = length xs\<rparr>) \<and>
       set byGroup = ex_Group ` set xs \<and> sorted_wrt (>) byGroup \<and>
       (\<forall>g. map_of groups g = (let ys = filter (\<lambda>x. ex_Group x = g) xs in if ys = [] then None else Some ys))"
proof (cases "GetExecutions (ha_env h) (ha_store h w) job")
  case (Inl e)
  then show ?thesis by (simp add: dashboardExecutionsHandler_def GetGroupedExecutions_def StatusOK_def)
next
  case (Inr xs)
  let ?G = "group_execs xs []"
  have "set (rev (sort (map fst ?G))) = ex_Group ` set xs" using group_execs_keys(2) [of xs "[]"] by simp
  moreover have "sorted_wrt (>) (rev (sort (map fst ?G)))"
    using group_execs_keys(1) [of "[]" xs] by (simp add: sorted_wrt_rev strict_sorted_iff)
  moreover have "\<forall>g. map_of ?G g = (let ys = filter (\<lambda>x. ex_Group x = g) xs in if ys = [] then None else Some ys)"
    by (simp add: group_execs_spec Let_def)
  moreover have "dashboardExecutionsHandler h node clock w job =
      HTML 200 ''executions'' (newCommonDashboardData h w clock node ''../../../'')
        (Some \<lparr>xd_Groups = ?G, xd_JobName = job, xd_ByGroup = rev (sort (map fst ?G)), xd_Count = length xs\<rparr>)"
    using Inr group_execs_count [of xs "[]"]
    by (simp add: dashboardExecutionsHandler_def GetGroupedExecutions_def StatusOK_def fold_count Let_def)
  ultimately show ?thesis unfolding Inr sum.case by blast
qed

end
