(* ===== verification/Vfs.thy ===== *)
theory Vfs
  imports Dashboard
begin

text \<open>
  The embedded files of \<open>src/dkron/templates/templates_vfsdata.go\<close>, a file system of compressed files and directories. The bytes of the files are a parameter, and the reader of \<open>compress/gzip\<close> is one with
  the laws of the locale \<open>gzip\<close>. A compressed file behaves like its content as long as no position past the end is read; a
  directory can be listed in pages; paths are normalised; and the dashboard finds its templates.
\<close>

section \<open>The parameters\<close>

text \<open>A reader of \<open>compress/gzip\<close>: \<open>gz_Read g n\<close> reads at most \<open>n\<close> bytes of the decompressed content.\<close>

record 'g gzip_lib =
  gz_NewReader :: "string \<Rightarrow> 'g res"
  gz_Reset :: "'g \<Rightarrow> string \<Rightarrow> err \<times> 'g"
  gz_Read :: "'g \<Rightarrow> nat \<Rightarrow> string \<times> err \<times> 'g"
  gz_Close :: "'g \<Rightarrow> err"

definition EOF :: error where "EOF = LibError ''EOF''"

text \<open>
  What a reader promises. \<open>content\<close> is what valid compressed bytes hold and \<open>left\<close> what a reader has left;
  a read may be short, reads something unless nothing is left, and ends with \<open>io.EOF\<close>.
\<close>

locale gzip =
  fixes G :: "'g gzip_lib" and content :: "string \<Rightarrow> string option" and left :: "'g \<Rightarrow> string"
  assumes NewReader: "content b = Some c \<Longrightarrow> \<exists>g. gz_NewReader G b = Inr g \<and> left g = c"
    and Reset: "content b = Some c \<Longrightarrow> \<exists>g'. gz_Reset G g b = (None, g') \<and> left g' = c"
    and Read: "gz_Read G g n = (bs, e, g') \<Longrightarrow>
      left g = bs @ left g' \<and> length bs \<le> n \<and> (e = None \<or> e = Some EOF \<and> left g' = [])"
    and Read_progress: "gz_Read G g n = ([], e, g') \<Longrightarrow> 0 < n \<Longrightarrow> e \<noteq> None"

section \<open>Files\<close>

record compressed_info =
  ci_name :: string
  ci_modTime :: time
  ci_compressedContent :: string
  ci_uncompressedSize :: int

datatype file_info = Compressed compressed_info | Dir_Info string time "file_info list"

fun info_Name :: "file_info \<Rightarrow> string" where
  "info_Name (Compressed f) = ci_name f"
| "info_Name (Dir_Info n t es) = n"

fun info_Size :: "file_info \<Rightarrow> int" where
  "info_Size (Compressed f) = ci_uncompressedSize f"
| "info_Size (Dir_Info n t es) = 0"

text \<open>The permissions, and the bit \<open>os.ModeDir\<close>.\<close>

definition ModeDir :: nat where "ModeDir = 2 ^ 31"

fun info_Mode :: "file_info \<Rightarrow> nat" where
  "info_Mode (Compressed f) = 292"
| "info_Mode (Dir_Info n t es) = 493 + ModeDir"

fun info_ModTime :: "file_info \<Rightarrow> time" where
  "info_ModTime (Compressed f) = ci_modTime f"
| "info_ModTime (Dir_Info n t es) = t"

fun info_IsDir :: "file_info \<Rightarrow> bool" where
  "info_IsDir (Dir_Info n t es) = True"
| "info_IsDir _ = False"

text \<open>
  An open compressed file: the reader, its position in the decompressed content, and the position that was
  asked for. Positions are of type \<open>int64\<close>.
\<close>

record 'g compressed_file =
  cf_info :: compressed_info
  cf_gr :: 'g
  cf_grPos :: int
  cf_seekPos :: int

definition int64 :: "int \<Rightarrow> int" where "int64 i = signed_take_bit 63 i"

text \<open>
  \<open>io.CopyN\<close> to \<open>ioutil.Discard\<close>, whose buffer has 8 KB: it reads until \<open>n\<close> bytes are gone or a read
  fails, and reports the end of the content as an error.
\<close>

partial_function (option) CopyN_discard :: "'g gzip_lib \<Rightarrow> 'g \<Rightarrow> nat \<Rightarrow> (err \<times> 'g) option" where
  "CopyN_discard G g n =
     (if n = 0 then Some (None, g)
      else (case gz_Read G g (min n 8192) of (bs, e, g') \<Rightarrow>
        (case e of
           None \<Rightarrow> CopyN_discard G g' (n - length bs)
         | Some e \<Rightarrow> Some (if n \<le> length bs then None else Some e, g'))))"

definition compressed_Read :: "'g gzip_lib \<Rightarrow> 'g compressed_file \<Rightarrow> nat \<Rightarrow> (string \<times> err \<times> 'g compressed_file) option" where
  "compressed_Read G f p =
     (case (if cf_grPos f > cf_seekPos f then
              (case gz_Reset G (cf_gr f) (ci_compressedContent (cf_info f)) of
                 (Some e, g) \<Rightarrow> (Some e, f\<lparr>cf_gr := g\<rparr>)
               | (None, g) \<Rightarrow> (None, f\<lparr>cf_gr := g, cf_grPos := 0\<rparr>))
            else (None, f)) of
        (Some e, f1) \<Rightarrow> Some ([], Some e, f1)
      | (None, f1) \<Rightarrow>
          (case (if cf_grPos f1 < cf_seekPos f1 then
                   (case CopyN_discard G (cf_gr f1) (nat (int64 (cf_seekPos f1 - cf_grPos f1))) of
                      None \<Rightarrow> None
                    | Some (Some e, g) \<Rightarrow> Some (Some e, f1\<lparr>cf_gr := g\<rparr>)
                    | Some (None, g) \<Rightarrow> Some (None, f1\<lparr>cf_gr := g, cf_grPos := cf_seekPos f1\<rparr>))
                 else Some (None, f1)) of
             None \<Rightarrow> None
           | Some (Some e, f2) \<Rightarrow> Some ([], Some e, f2)
           | Some (None, f2) \<Rightarrow>
               (case gz_Read G (cf_gr f2) p of (bs, e, g) \<Rightarrow>
                  (let pos = int64 (cf_grPos f2 + int (length bs))
                   in Some (bs, e, f2\<lparr>cf_gr := g, cf_grPos := pos, cf_seekPos := pos\<rparr>)))))"

text \<open>\<open>io.SeekStart\<close>, \<open>io.SeekCurrent\<close> and \<open>io.SeekEnd\<close> are 0, 1 and 2.\<close>

definition compressed_Seek :: "'g compressed_file \<Rightarrow> int \<Rightarrow> int \<Rightarrow> int res \<times> 'g compressed_file" where
  "compressed_Seek f offset whence =
     (if whence = 0 then (Inr offset, f\<lparr>cf_seekPos := offset\<rparr>)
      else if whence = 1 then
        (let p = int64 (cf_seekPos f + offset) in (Inr p, f\<lparr>cf_seekPos := p\<rparr>))
      else if whence = 2 then
        (let p = int64 (ci_uncompressedSize (cf_info f) + offset) in (Inr p, f\<lparr>cf_seekPos := p\<rparr>))
      else (Inl (Panic ''invalid whence value''), f))"

section \<open>Directories\<close>

record dir_file =
  df_name :: string
  df_modTime :: time
  df_entries :: "file_info list"
  df_pos :: nat

definition dir_Read :: "dir_file \<Rightarrow> string \<times> err" where
  "dir_Read d = ([], Some (Errorf (''cannot Read from directory '' @ df_name d)))"

definition dir_Seek :: "dir_file \<Rightarrow> int \<Rightarrow> int \<Rightarrow> int res \<times> dir_file" where
  "dir_Seek d offset whence =
     (if offset = 0 \<and> whence = 0 then (Inr 0, d\<lparr>df_pos := 0\<rparr>)
      else (Inl (Errorf (''unsupported Seek in directory '' @ df_name d)), d))"

definition Readdir :: "dir_file \<Rightarrow> int \<Rightarrow> file_info list res \<times> dir_file" where
  "Readdir d n =
     (if df_pos d \<ge> length (df_entries d) \<and> n > 0 then (Inl EOF, d)
      else
        (let left = length (df_entries d) - df_pos d;
             k = (if n \<le> 0 \<or> n > int left then left else nat n)
         in (Inr (take k (drop (df_pos d) (df_entries d))), d\<lparr>df_pos := df_pos d + k\<rparr>)))"

section \<open>The file system\<close>

text \<open>
  \<open>path.Clean\<close> of a path that begins with a slash: empty elements and \<open>.\<close> are dropped, and \<open>..\<close> removes
  the element before it, if there is one.
\<close>

fun clean_elements :: "string list \<Rightarrow> string list \<Rightarrow> string list" where
  "clean_elements out [] = out"
| "clean_elements out (e # es) =
     clean_elements (if e = [] \<or> e = ''.'' then out else if e = ''..'' then butlast out else out @ [e]) es"

definition Clean :: "string \<Rightarrow> string" where
  "Clean path = ''/'' @ Join (clean_elements [] (Split path CHR ''/'')) ''/''"

type_synonym vfs = "file_info gomap"

datatype 'g open_file = Compressed_File "'g compressed_file" | Dir_File dir_file

definition vfs_Open :: "'g gzip_lib \<Rightarrow> vfs \<Rightarrow> string \<Rightarrow> 'g open_file res" where
  "vfs_Open G fs path0 =
     (let path = Clean (''/'' @ path0) in
      case map_of fs path of
        None \<Rightarrow> Inl (Errorf (''open '' @ path @ '': file does not exist''))
      | Some (Compressed f) \<Rightarrow>
          (case gz_NewReader G (ci_compressedContent f) of
             Inl e \<Rightarrow> Inl (Panic ''unexpected error reading own gzip compressed bytes'')
           | Inr gr \<Rightarrow> Inr (Compressed_File \<lparr>cf_info = f, cf_gr = gr, cf_grPos = 0, cf_seekPos = 0\<rparr>))
      | Some (Dir_Info n t es) \<Rightarrow> Inr (Dir_File \<lparr>df_name = n, df_modTime = t, df_entries = es, df_pos = 0\<rparr>))"

text \<open>\<open>Read\<close> of an open file.\<close>

fun file_Read :: "'g gzip_lib \<Rightarrow> 'g open_file \<Rightarrow> nat \<Rightarrow> (string \<times> err \<times> 'g open_file) option" where
  "file_Read G (Compressed_File f) p = map_option (\<lambda>(bs, e, f'). (bs, e, Compressed_File f')) (compressed_Read G f p)"
| "file_Read G (Dir_File d) p = (case dir_Read d of (bs, e) \<Rightarrow> Some (bs, e, Dir_File d))"

text \<open>
  \<open>Seek\<close>, \<open>Readdir\<close> and \<open>Close\<close> of an open file; only a directory can be listed.
\<close>

fun file_Seek :: "'g open_file \<Rightarrow> int \<Rightarrow> int \<Rightarrow> int res \<times> 'g open_file" where
  "file_Seek (Compressed_File f) offset whence = (case compressed_Seek f offset whence of (r, f') \<Rightarrow> (r, Compressed_File f'))"
| "file_Seek (Dir_File d) offset whence = (case dir_Seek d offset whence of (r, d') \<Rightarrow> (r, Dir_File d'))"

fun file_Readdir :: "'g open_file \<Rightarrow> int \<Rightarrow> file_info list res \<times> 'g open_file" where
  "file_Readdir (Compressed_File f) n = (Inl (Errorf (''cannot Readdir from file '' @ ci_name (cf_info f))), Compressed_File f)"
| "file_Readdir (Dir_File d) n = (case Readdir d n of (r, d') \<Rightarrow> (r, Dir_File d'))"

fun file_Close :: "'g gzip_lib \<Rightarrow> 'g open_file \<Rightarrow> err" where
  "file_Close G (Compressed_File f) = gz_Close G (cf_gr f)"
| "file_Close G _ = None"

fun file_Stat :: "'g open_file \<Rightarrow> file_info" where
  "file_Stat (Compressed_File f) = Compressed (cf_info f)"
| "file_Stat (Dir_File d) = Dir_Info (df_name d) (df_modTime d) (df_entries d)"

text \<open>\<open>ioutil.ReadAll\<close>: \<open>p\<close> gives the size of the room left in the buffer.\<close>

partial_function (option) ReadAll :: "'g gzip_lib \<Rightarrow> (nat \<Rightarrow> nat) \<Rightarrow> string \<Rightarrow> 'g open_file \<Rightarrow> (string res \<times> 'g open_file) option" where
  "ReadAll G room acc f =
     (case file_Read G f (room (length acc)) of
        None \<Rightarrow> None
      | Some (bs, None, f') \<Rightarrow> ReadAll G room (acc @ bs) f'
      | Some (bs, Some e, f') \<Rightarrow> Some (if e = EOF then Inr (acc @ bs) else Inl e, f'))"


section \<open>Reading a compressed file\<close>

lemma int64_id: "- (2 ^ 63) \<le> i \<Longrightarrow> i < 2 ^ 63 \<Longrightarrow> int64 i = i"
  unfolding int64_def by (rule signed_take_bit_int_eq_self)

text \<open>An open file that holds \<open>c\<close>: its reader is where \<open>cf_grPos\<close> says.\<close>

definition holds :: "(string \<Rightarrow> string option) \<Rightarrow> ('g \<Rightarrow> string) \<Rightarrow> string \<Rightarrow> 'g compressed_file \<Rightarrow> bool" where
  "holds content left c f \<longleftrightarrow>
     content (ci_compressedContent (cf_info f)) = Some c \<and> ci_uncompressedSize (cf_info f) = int (length c) \<and>
     int (length c) < 2 ^ 62 \<and> 0 \<le> cf_grPos f \<and> cf_grPos f \<le> int (length c) \<and>
     left (cf_gr f) = drop (nat (cf_grPos f)) c"

text \<open>The position that \<open>Seek\<close> is asked for in a content of \<open>n\<close> bytes.\<close>

definition seek_target :: "nat \<Rightarrow> int \<Rightarrow> int \<Rightarrow> int \<Rightarrow> int" where
  "seek_target n pos offset whence = (if whence = 0 then offset else if whence = 1 then pos + offset else int n + offset)"

context gzip
begin

lemma CopyN_discard_eq:
  "\<exists>g'. CopyN_discard G g n = Some (if n \<le> length (left g) then None else Some EOF, g') \<and> left g' = drop n (left g)"
proof (induction n arbitrary: g rule: less_induct)
  case (less n)
  show ?case
  proof (cases "n = 0")
    case False
    obtain bs e g' where r: "gz_Read G g (min n 8192) = (bs, e, g')" by (metis prod_cases3)
    have p: "left g = bs @ left g'" "length bs \<le> min n 8192" "e = None \<or> e = Some EOF \<and> left g' = []" using Read [OF r] by simp_all
    show ?thesis
    proof (cases e)
      case None
      then have "bs \<noteq> []" using Read_progress [of g "min n 8192" e g'] r False by auto
      with less.IH [of "n - length bs" g'] show ?thesis
        using None r False p(1,2) by (subst CopyN_discard.simps) (auto simp: diff_less)
    qed (use p r False in \<open>subst CopyN_discard.simps; auto\<close>)
  qed (subst CopyN_discard.simps; simp)
qed

text \<open>The reader moves to the position that was asked for, from behind and from ahead of it.\<close>

lemma compressed_Read_moves:
  assumes f: "holds content left c f" "0 \<le> cf_seekPos f" "cf_seekPos f \<le> int (length c)"
  obtains g bs e g' where "left g = drop (nat (cf_seekPos f)) c" "gz_Read G g n = (bs, e, g')"
    "compressed_Read G f n = Some (bs, e, f\<lparr>cf_gr := g', cf_grPos := cf_seekPos f + int (length bs), cf_seekPos := cf_seekPos f + int (length bs)\<rparr>)"
proof -
  obtain g1 where g1: "gz_Reset G (cf_gr f) (ci_compressedContent (cf_info f)) = (None, g1)" "left g1 = c"
    using Reset f(1) unfolding holds_def by blast
  define s where "s = (if cf_grPos f > cf_seekPos f then f\<lparr>cf_gr := g1, cf_grPos := 0\<rparr> else f)"
  have s: "holds content left c s" "cf_grPos s \<le> cf_seekPos f" "cf_seekPos s = cf_seekPos f" using f g1 by (auto simp: s_def holds_def)
  define k where "k = nat (cf_seekPos f - cf_grPos s)"
  have k: "nat (int64 (cf_seekPos f - cf_grPos s)) = k" "k \<le> length (left (cf_gr s))" "nat (cf_grPos s) + k = nat (cf_seekPos f)"
    using s f(2,3) by (auto simp: k_def holds_def int64_id)
  obtain g2 where g2: "CopyN_discard G (cf_gr s) k = Some (None, g2)" "left g2 = drop (nat (cf_seekPos f)) c"
    using CopyN_discard_eq [of "cf_gr s" k] k(2) s(1) k(3) by (auto simp: holds_def add.commute)
  define g where "g = (if cf_grPos s < cf_seekPos f then g2 else cf_gr s)"
  have g: "left g = drop (nat (cf_seekPos f)) c" using g2 s by (auto simp: g_def holds_def)
  obtain bs e g' where r: "gz_Read G g n = (bs, e, g')" by (metis prod_cases3)
  have "length bs \<le> length c" using Read [OF r] g by (metis le_add1 le_trans length_append length_drop diff_le_self)
  then have "int64 (cf_seekPos f + int (length bs)) = cf_seekPos f + int (length bs)" using f by (intro int64_id) (auto simp: holds_def)
  then have "compressed_Read G f n =
      Some (bs, e, f\<lparr>cf_gr := g', cf_grPos := cf_seekPos f + int (length bs), cf_seekPos := cf_seekPos f + int (length bs)\<rparr>)"
    using g1(1) g2(1) k(1) r s(2) by (auto simp: compressed_Read_def s_def g_def Let_def split: if_splits)
  from that [OF g r this] show thesis .
qed

lemma compressed_Read_spec:
  assumes f: "holds content left c f" "0 \<le> cf_seekPos f" "cf_seekPos f \<le> int (length c)"
  obtains bs e f' where "compressed_Read G f n = Some (bs, e, f')" "holds content left c f'" "length bs \<le> n"
    "drop (nat (cf_seekPos f)) c = bs @ drop (nat (cf_seekPos f')) c" "cf_seekPos f' = cf_seekPos f + int (length bs)"
    "cf_seekPos f' \<le> int (length c)" "e = None \<or> e = Some EOF \<and> cf_seekPos f' = int (length c)" "bs = [] \<and> 0 < n \<longrightarrow> e = Some EOF"
proof -
  obtain g bs e g' where g: "left g = drop (nat (cf_seekPos f)) c" "gz_Read G g n = (bs, e, g')"
    "compressed_Read G f n = Some (bs, e, f\<lparr>cf_gr := g', cf_grPos := cf_seekPos f + int (length bs), cf_seekPos := cf_seekPos f + int (length bs)\<rparr>)"
    by (rule compressed_Read_moves [OF f])
  have r: "left g = bs @ left g'" "length bs \<le> n" "e = None \<or> e = Some EOF \<and> left g' = []" using Read [OF g(2)] by simp_all
  let ?p = "nat (cf_seekPos f + int (length bs))"
  have "drop (length bs) (drop (nat (cf_seekPos f)) c) = left g'" using g(1) r(1) by (metis append_eq_conv_conj)
  then have left': "left g' = drop ?p c" using f(2) by (simp add: nat_add_distrib add.commute)
  have len: "length bs \<le> length c - nat (cf_seekPos f)" using g(1) r(1) by (metis le_add1 length_append length_drop)
  have prog: "bs = [] \<and> 0 < n \<longrightarrow> e = Some EOF" using Read_progress [of g n e g'] g(2) r(3) by auto
  have drop: "drop (nat (cf_seekPos f)) c = bs @ drop ?p c" using g(1) r(1) left' by simp
  show thesis
    using f len r left' drop prog by (intro that [OF g(3)]) (auto simp: holds_def)
qed

end

text \<open>
  C40: A compressed file behaves like its content. As long as the positions asked for are inside the content,
  \<open>Read\<close> returns, and what it gives is the next bytes of the content at the current position, at least one
  unless nothing is asked for or the end is reached, with \<open>io.EOF\<close> only at the end; \<open>Seek\<close> moves to the
  position that is asked for. Neither disturbs the reader.
\<close>

theorem compressed_file_refines:
  assumes "gzip G content left" "holds content left c f" "0 \<le> cf_seekPos f" "cf_seekPos f \<le> int (length c)"
  shows "(\<exists>bs e f'. compressed_Read G f n = Some (bs, e, f') \<and> holds content left c f' \<and> length bs \<le> n \<and>
      drop (nat (cf_seekPos f)) c = bs @ drop (nat (cf_seekPos f')) c \<and> cf_seekPos f' = cf_seekPos f + int (length bs) \<and>
      (e = None \<or> e = Some EOF \<and> cf_seekPos f' = int (length c)) \<and> (bs = [] \<and> 0 < n \<longrightarrow> e = Some EOF)) \<and>
    (whence \<in> {0, 1, 2} \<and> 0 \<le> seek_target (length c) (cf_seekPos f) offset whence \<and>
       seek_target (length c) (cf_seekPos f) offset whence \<le> int (length c) \<longrightarrow>
     (\<exists>f'. compressed_Seek f offset whence = (Inr (seek_target (length c) (cf_seekPos f) offset whence), f') \<and>
        holds content left c f' \<and> cf_seekPos f' = seek_target (length c) (cf_seekPos f) offset whence))"
proof -
  obtain bs e f' where "compressed_Read G f n = Some (bs, e, f')" "holds content left c f'" "length bs \<le> n"
    "drop (nat (cf_seekPos f)) c = bs @ drop (nat (cf_seekPos f')) c" "cf_seekPos f' = cf_seekPos f + int (length bs)"
    "cf_seekPos f' \<le> int (length c)" "e = None \<or> e = Some EOF \<and> cf_seekPos f' = int (length c)" "bs = [] \<and> 0 < n \<longrightarrow> e = Some EOF"
    by (rule gzip.compressed_Read_spec [OF assms])
  moreover have "int64 (seek_target (length c) (cf_seekPos f) offset whence) = seek_target (length c) (cf_seekPos f) offset whence"
    if "0 \<le> seek_target (length c) (cf_seekPos f) offset whence" "seek_target (length c) (cf_seekPos f) offset whence \<le> int (length c)"
    using that assms(2) by (intro int64_id) (auto simp: holds_def)
  ultimately show ?thesis
    using assms(2) by (auto simp: compressed_Seek_def seek_target_def holds_def Let_def)
qed

text \<open>
  A read past the end loses the position of the reader: it has discarded the rest of the content, but
  \<open>cf_grPos\<close> still says where it was. Going back to that place and reading there gives the end of the
  file, although there is content.
\<close>

theorem read_past_end_loses_place:
  assumes "gzip G content left" "holds content left c f" "cf_seekPos f = cf_grPos f"
    and past: "int (length c) < p" "p < 2 ^ 62" "compressed_Seek f p 0 = (Inr p, f1)" "compressed_Read G f1 m = Some (bs1, e1, f2)"
    and again: "compressed_Seek f2 (cf_seekPos f) 0 = (Inr (cf_seekPos f), f3)" "0 < n"
  shows "bs1 = [] \<and> e1 = Some EOF \<and> (\<exists>f4. compressed_Read G f3 n = Some ([], Some EOF, f4))"
proof -
  have f1: "f1 = f\<lparr>cf_seekPos := p\<rparr>" using past(3) by (simp add: compressed_Seek_def)
  have lt: "cf_grPos f < p" "0 \<le> cf_grPos f" "int64 (p - cf_grPos f) = p - cf_grPos f"
    using past assms(2) by (auto simp: holds_def int64_id)
  then have "length (left (cf_gr f)) < nat (p - cf_grPos f)" using past(1) assms(2) by (auto simp: holds_def)
  then obtain g where g: "CopyN_discard G (cf_gr f) (nat (p - cf_grPos f)) = Some (Some EOF, g)" "left g = []"
    using gzip.CopyN_discard_eq [OF assms(1), of "cf_gr f" "nat (p - cf_grPos f)"] by auto
  have r: "compressed_Read G f1 m = Some ([], Some EOF, f1\<lparr>cf_gr := g\<rparr>)"
    using g(1) lt by (simp add: compressed_Read_def f1)
  have f3: "f3 = f\<lparr>cf_gr := g\<rparr>" using again(1) past(4) r assms(3) by (auto simp: compressed_Seek_def f1)
  obtain bs e g' where r3: "gz_Read G g n = (bs, e, g')" by (metis prod_cases3)
  have "bs = []" using gzip.Read [OF assms(1) r3] g(2) by simp
  then have "e = Some EOF" using gzip.Read [OF assms(1) r3] gzip.Read_progress [OF assms(1), of g n e g'] r3 again(2) by auto
  with \<open>bs = []\<close> r past(4) r3 show ?thesis by (auto simp: compressed_Read_def f3 assms(3) Let_def)
qed

section \<open>Reading a whole file\<close>

context gzip
begin

lemma ReadAll_compressed:
  assumes "holds content left c f" "0 \<le> cf_seekPos f" "cf_seekPos f \<le> int (length c)" "\<And>k. 0 < room k"
  shows "\<exists>f'. ReadAll G room acc (Compressed_File f) = Some (Inr (acc @ drop (nat (cf_seekPos f)) c), f')"
  using assms(1-3)
proof (induction "length c - nat (cf_seekPos f)" arbitrary: f acc rule: less_induct)
  case less
  obtain bs e f' where r: "compressed_Read G f (room (length acc)) = Some (bs, e, f')" "holds content left c f'"
    "length bs \<le> room (length acc)"
    "drop (nat (cf_seekPos f)) c = bs @ drop (nat (cf_seekPos f')) c" "cf_seekPos f' = cf_seekPos f + int (length bs)"
    "cf_seekPos f' \<le> int (length c)" "e = None \<or> e = Some EOF \<and> cf_seekPos f' = int (length c)"
    "bs = [] \<and> 0 < room (length acc) \<longrightarrow> e = Some EOF"
    by (rule compressed_Read_spec [OF less.prems])
  show ?case
  proof (cases e)
    case None
    with r(8) assms(4) have "bs \<noteq> []" by auto
    then have "length c - nat (cf_seekPos f') < length c - nat (cf_seekPos f)"
      using r(5,6) less.prems(2) by (simp add: nat_add_distrib nat_less_iff flip: length_greater_0_conv)
    from less.hyps [OF this r(2) _ r(6), of "acc @ bs"] show ?thesis
      using None r(1,4,5) less.prems(2) by (subst ReadAll.simps) auto
  next
    case (Some e')
    then have "e' = EOF" "drop (nat (cf_seekPos f')) c = []" using r(7) by auto
    then show ?thesis using Some r(1,4) by (subst ReadAll.simps) simp
  qed
qed

end

section \<open>Directories\<close>

text \<open>The entries that calls of \<open>Readdir\<close> with the given counts return.\<close>

fun Readdirs :: "dir_file \<Rightarrow> int list \<Rightarrow> file_info list" where
  "Readdirs d [] = []"
| "Readdirs d (n # ns) = (case Readdir d n of (Inl e, d') \<Rightarrow> Readdirs d' ns | (Inr es, d') \<Rightarrow> es @ Readdirs d' ns)"

lemma Readdir_pos:
  assumes "df_pos d \<le> length (df_entries d)" "0 < n"
  shows "df_pos (snd (Readdir d (int n))) = min (length (df_entries d)) (df_pos d + n)"
    "df_entries (snd (Readdir d (int n))) = df_entries d"
    "(case fst (Readdir d (int n)) of Inl e \<Rightarrow> [] | Inr es \<Rightarrow> es) = take n (drop (df_pos d) (df_entries d))"
  using assms by (auto simp: Readdir_def Let_def min_def)

text \<open>
  Listing a directory page by page gives its entries in their order, none twice and none left out,
  whatever the sizes of the pages.
\<close>

theorem Readdir_pages:
  assumes "df_pos d \<le> length (df_entries d)" "\<forall>n \<in> set ns. 0 < n"
  shows "Readdirs d (map int ns) = take (sum_list ns) (drop (df_pos d) (df_entries d))"
  using assms
proof (induction ns arbitrary: d)
  case (Cons n ns)
  let ?d' = "snd (Readdir d (int n))"
  have d': "df_pos ?d' = min (length (df_entries d)) (df_pos d + n)" "df_entries ?d' = df_entries d"
    using Readdir_pos [of d n] Cons.prems by simp_all
  have "Readdirs d (map int (n # ns)) = take n (drop (df_pos d) (df_entries d)) @ Readdirs ?d' (map int ns)"
    using Readdir_pos(3) [of d n] Cons.prems by (auto split: prod.splits sum.splits)
  also have "\<dots> = take n (drop (df_pos d) (df_entries d)) @ take (sum_list ns) (drop n (drop (df_pos d) (df_entries d)))"
    using Cons.IH [of ?d'] Cons.prems d' by (auto simp: min_def add.commute)
  finally show ?case by (simp add: take_add)
qed simp

section \<open>Paths\<close>

definition plain_element :: "string \<Rightarrow> bool" where
  "plain_element e \<longleftrightarrow> e \<noteq> [] \<and> e \<noteq> ''.'' \<and> e \<noteq> ''..'' \<and> CHR ''/'' \<notin> set e"

lemma clean_elements_plain:
  assumes "list_all plain_element out" "list_all (\<lambda>e. CHR ''/'' \<notin> set e) es"
  shows "list_all plain_element (clean_elements out es)"
  using assms
proof (induction es arbitrary: out)
  case (Cons e es)
  have "list_all plain_element (if e = [] \<or> e = ''.'' then out else if e = ''..'' then butlast out else out @ [e])"
    using Cons.prems by (auto simp: plain_element_def list_all_iff dest: in_set_butlastD)
  then show ?case using Cons by simp
qed simp

lemma clean_elements_id: "list_all plain_element es \<Longrightarrow> clean_elements out es = out @ es"
  by (induction es arbitrary: out) (auto simp: plain_element_def)

text \<open>
  A path is looked up in its normal form: none of its elements is empty, \<open>.\<close> or \<open>..\<close>, so no request gets
  outside of the embedded files, and opening the normal form opens the same file.
\<close>

theorem Open_normal_form:
  "list_all plain_element (clean_elements [] (Split path CHR ''/'')) \<and> Clean (Clean path) = Clean path \<and>
   vfs_Open G fs (Clean (''/'' @ path)) = vfs_Open G fs path"
proof -
  let ?es = "\<lambda>p. clean_elements [] (Split p CHR ''/'')"
  have plain: "list_all plain_element (?es p)" for p
    by (rule clean_elements_plain) (auto simp: list_all_iff dest: Split_no_sep)
  have "?es (''/'' @ Join es ''/'') = es" if "list_all plain_element es" for es
  proof (cases "es = []")
    case False
    have "Split (Join es ''/'') CHR ''/'' = es"
      using Split_Join [OF False, of "CHR ''/''"] that by (auto simp: list_all_iff plain_element_def)
    then show ?thesis using clean_elements_id [OF that, of "[]"] by simp
  qed simp
  then have "Clean (Clean p) = Clean p" for p using plain [of p] by (simp add: Clean_def)
  moreover have "Clean (''/'' @ Clean p) = Clean (Clean p)" for p by (simp add: Clean_def)
  ultimately show ?thesis using plain [of path] by (simp add: vfs_Open_def)
qed

text \<open>What is opened is the entry of the table, and it says of itself what the table says.\<close>

lemma Open_Stat: "vfs_Open G fs path = Inr f \<Longrightarrow> map_of fs (Clean (''/'' @ path)) = Some (file_Stat f)"
  by (auto simp: vfs_Open_def Let_def split: option.splits file_info.splits sum.splits)

section \<open>The templates\<close>

text \<open>The embedded templates: name, time of the last change, and size.\<close>

definition template_files :: "(string \<times> time \<times> nat) list" where
  "template_files =
    [(''busy.html.tmpl'', civil_to_time 2020 5 9 18 25 18 406827122, 712),
     (''dashboard.html.tmpl'', civil_to_time 2020 5 9 18 25 31 762454955, 4283),
     (''executions.html.tmpl'', civil_to_time 2020 5 9 18 25 18 409826767, 2633),
     (''index.html.tmpl'', civil_to_time 2019 7 4 21 24 27 840596557, 1090),
     (''jobs.html.tmpl'', civil_to_time 2020 5 9 18 25 18 410926858, 7733),
     (''status.html.tmpl'', civil_to_time 2019 10 23 20 55 44 840638000, 1179)]"

text \<open>\<open>z\<close> gives the compressed bytes of each template.\<close>

definition template_info :: "(string \<Rightarrow> string) \<Rightarrow> string \<times> time \<times> nat \<Rightarrow> file_info" where
  "template_info z = (\<lambda>(name, t, size).
     Compressed \<lparr>ci_name = name, ci_modTime = t, ci_compressedContent = z name, ci_uncompressedSize = int size\<rparr>)"

definition Templates :: "(string \<Rightarrow> string) \<Rightarrow> vfs" where
  "Templates z =
     (''/'', Dir_Info ''/'' (civil_to_time 2020 5 9 18 25 31 761990784) (map (template_info z) template_files))
     # map (\<lambda>x. (''/'' @ fst x, template_info z x)) template_files"

text \<open>Opening and reading a file; \<open>OutOfFuel\<close> is a read that does not return.\<close>

definition open_read :: "'g gzip_lib \<Rightarrow> (nat \<Rightarrow> nat) \<Rightarrow> vfs \<Rightarrow> string \<Rightarrow> string res" where
  "open_read G room fs path =
     (case vfs_Open G fs path of
        Inl e \<Rightarrow> Inl e
      | Inr f \<Rightarrow> (case ReadAll G room [] f of None \<Rightarrow> Inl OutOfFuel | Some (r, f') \<Rightarrow> r))"

lemma open_read_compressed:
  assumes "gzip G content left" "map_of fs path = Some (Compressed i)" "Clean (''/'' @ path) = path"
    "content (ci_compressedContent i) = Some c" "ci_uncompressedSize i = int (length c)" "int (length c) < 2 ^ 62" "\<And>k. 0 < room k"
  shows "open_read G room fs path = Inr c"
proof -
  obtain g where g: "gz_NewReader G (ci_compressedContent i) = Inr g" "left g = c" using gzip.NewReader [OF assms(1,4)] by blast
  let ?f = "\<lparr>cf_info = i, cf_gr = g, cf_grPos = 0, cf_seekPos = 0\<rparr>"
  have "holds content left c ?f" using assms(4-6) g(2) by (simp add: holds_def)
  from gzip.ReadAll_compressed [OF assms(1) this _ _ assms(7), of "\<lambda>k. k" "[]"] show ?thesis
    using assms(2,3) g(1) by (auto simp: open_read_def vfs_Open_def Let_def)
qed

lemma template_found:
  assumes "x \<in> set template_files"
  shows "map_of (Templates z) (''/'' @ fst x) = Some (template_info z x)" "Clean (''/'' @ ''/'' @ fst x) = ''/'' @ fst x"
  using assms by (auto simp: Templates_def template_files_def Clean_def)

text \<open>
  The pages of the dashboard have their templates. With a correct decompression every template that
  \<open>CreateMyRender\<close> names is among the embedded files and is read in full, so that no page is rendered from an
  empty template.
\<close>

theorem pages_have_templates:
  assumes "gzip G content left" "\<And>k. 0 < room k"
    and z: "\<forall>(name, t, size) \<in> set template_files. content (z name) = Some (c name) \<and> length (c name) = size"
  shows "CreateMyRender (open_read G room (Templates z)) =
    map (\<lambda>page. (page, [c ''dashboard.html.tmpl'', c ''status.html.tmpl'', c (page @ ''.html.tmpl'')]))
      [''index'', ''jobs'', ''executions'', ''busy'']"
proof -
  have load: "mustLoadTemplate (open_read G room (Templates z)) (''/'' @ name) = c name" if x: "(name, t, size) \<in> set template_files" for name t size
  proof -
    have c: "content (z name) = Some (c name)" "length (c name) = size" using z x by auto
    have "size \<le> 7733" using x by (auto simp: template_files_def)
    moreover obtain i where "template_info z (name, t, size) = Compressed i" "ci_compressedContent i = z name" "ci_uncompressedSize i = int size"
      by (simp add: template_info_def)
    ultimately have "open_read G room (Templates z) (''/'' @ name) = Inr (c name)"
      using template_found(1) [OF x, of z] template_found(2) [OF x] c open_read_compressed [OF assms(1) _ _ _ _ _ assms(2)] by simp
    then show ?thesis by (simp add: mustLoadTemplate_def)
  qed
  have files: "(''status.html.tmpl'', civil_to_time 2019 10 23 20 55 44 840638000, 1179) \<in> set template_files"
    "(''dashboard.html.tmpl'', civil_to_time 2020 5 9 18 25 31 762454955, 4283) \<in> set template_files"
    "(''index.html.tmpl'', civil_to_time 2019 7 4 21 24 27 840596557, 1090) \<in> set template_files"
    "(''jobs.html.tmpl'', civil_to_time 2020 5 9 18 25 18 410926858, 7733) \<in> set template_files"
    "(''executions.html.tmpl'', civil_to_time 2020 5 9 18 25 18 409826767, 2633) \<in> set template_files"
    "(''busy.html.tmpl'', civil_to_time 2020 5 9 18 25 18 406827122, 712) \<in> set template_files"
    by (simp_all add: template_files_def)
  show ?thesis using files [THEN load] by (simp add: CreateMyRender_def Let_def)
qed

section \<open>Concrete files\<close>

text \<open>A compression that puts a mark before the content, and a reader of at most four bytes at a time.\<close>

definition ref_content :: "string \<Rightarrow> string option" where
  "ref_content b = (case b of [] \<Rightarrow> None | x # s \<Rightarrow> if x = CHR ''z'' then Some s else None)"

definition ref_gzip :: "string gzip_lib" where
  "ref_gzip = \<lparr>gz_NewReader = (\<lambda>b. case ref_content b of None \<Rightarrow> Inl (LibError ''gzip: invalid header'') | Some s \<Rightarrow> Inr s),
     gz_Reset = (\<lambda>g b. case ref_content b of None \<Rightarrow> (Some (LibError ''gzip: invalid header''), g) | Some s \<Rightarrow> (None, s)),
     gz_Read = (\<lambda>g n. (take (min n 4) g, if g = [] then Some EOF else None, drop (min n 4) g)),
     gz_Close = (\<lambda>g. None)\<rparr>"

interpretation refgz: gzip ref_gzip ref_content "\<lambda>g. g"
  by unfold_locales (auto simp: ref_gzip_def split: if_splits option.splits)

definition sample_file :: "string compressed_file" where
  "sample_file = \<lparr>cf_info = \<lparr>ci_name = ''a'', ci_modTime = 0, ci_compressedContent = ''zabcdefgh'', ci_uncompressedSize = 8\<rparr>,
     cf_gr = ''efgh'', cf_grPos = 4, cf_seekPos = 2\<rparr>"

lemma sample_file_holds: "holds ref_content (\<lambda>g. g) ''abcdefgh'' sample_file"
  by (simp add: holds_def sample_file_def ref_content_def)

theorem compressed_file_refines_witness:
  "\<exists>f'. compressed_Read ref_gzip sample_file 3 = Some (''cde'', None, f') \<and> cf_seekPos f' = 5 \<and>
     fst (compressed_Seek sample_file (- 1) 2) = Inr 7"
proof -
  have run: "compressed_Read ref_gzip sample_file 3 = Some (''cde'', None, sample_file\<lparr>cf_gr := ''fgh'', cf_grPos := 5, cf_seekPos := 5\<rparr>)"
    using CopyN_discard.simps [of ref_gzip "''abcdefgh''" 2] CopyN_discard.simps [of ref_gzip "''cdefgh''" 0]
    by (simp add: compressed_Read_def sample_file_def ref_gzip_def ref_content_def Let_def int64_id)
  show ?thesis
    using compressed_file_refines [OF refgz.gzip_axioms sample_file_holds, of 3 2 "- 1"] run
    by (auto simp: seek_target_def) (auto simp: sample_file_def)
qed

theorem pages_have_templates_witness:
  "map (\<lambda>(page, ts). (page, map length ts)) (CreateMyRender (open_read ref_gzip (\<lambda>_. 512) (Templates (\<lambda>name. CHR ''z'' #
      replicate (snd (snd (hd (filter (\<lambda>x. fst x = name) template_files)))) CHR ''t'')))) =
     [(''index'', [4283, 1179, 1090]), (''jobs'', [4283, 1179, 7733]), (''executions'', [4283, 1179, 2633]), (''busy'', [4283, 1179, 712])]"
proof -
  let ?c = "\<lambda>name. replicate (snd (snd (hd (filter (\<lambda>x. fst x = name) template_files)))) CHR ''t''"
  have "CreateMyRender (open_read ref_gzip (\<lambda>_. 512) (Templates (\<lambda>name. CHR ''z'' # ?c name))) =
    map (\<lambda>page. (page, [?c ''dashboard.html.tmpl'', ?c ''status.html.tmpl'', ?c (page @ ''.html.tmpl'')]))
      [''index'', ''jobs'', ''executions'', ''busy'']"
    by (rule pages_have_templates [OF refgz.gzip_axioms]) (simp_all add: template_files_def ref_content_def)
  then show ?thesis by (simp add: template_files_def)
qed

end
