(* ===== verification/Routes.thy ===== *)
theory Routes
  imports Dashboard
begin

text \<open>
The HTTP server: the routes of the API and of the dashboard (\<open>ServeHTTP\<close>, \<open>APIRoutes\<close> and \<open>MetaMiddleware\<close> of
\<open>src/dkron/api.go\<close>, \<open>DashboardRoutes\<close> of \<open>src/dkron/dashboard.go\<close>) and what becomes of a request. The router of
gin is a parameter, with its promise as a locale.
\<close>

section \<open>The routes\<close>

datatype http_method = GET | POST | PATCH | DELETE

text \<open>What a route leads to: a handler of the API, a page of the dashboard, or a handler of a library.\<close>

datatype endpoint =
    IndexHandler | JobsHandler | JobGetHandler | JobCreateOrUpdateHandler | JobDeleteHandler | JobRunHandler
  | JobToggleHandler | ExecutionsHandler | MembersHandler | LeaderHandler | IsLeaderHandler | LeaveHandler
  | RestoreHandler | BusyHandler | Healthy
  | DashboardRoot | DashboardIndex | DashboardJobs | DashboardExecutions | DashboardBusy
  | ExpvarHandler | PrometheusHandler | StaticFiles

text \<open>
  A middleware runs before the handler; what it does is a list of calls on the context. The routes are
  registered on the engine one after the other, each with the middleware of its group.
\<close>

type_synonym middleware = "gin_call list"

datatype registration = Handle http_method string "middleware list" endpoint | EngineUse "middleware list"

definition MetaMiddleware :: "string \<Rightarrow> middleware" where
  "MetaMiddleware node = [Header ''X-Whom'' node]"

definition APIRoutes :: "bool \<Rightarrow> middleware list \<Rightarrow> registration list" where
  "APIRoutes enablePrometheus mids =
     [Handle GET ''/debug/vars'' [] ExpvarHandler, Handle GET ''/health'' [] Healthy] @
     (if enablePrometheus then [Handle GET ''/metrics'' [] PrometheusHandler] else []) @
     [Handle GET ''/v1'' [] IndexHandler] @
     (let v1 = ''/v1''; jobs = v1 @ ''/jobs'' in
      [Handle GET (v1 @ ''/'') mids IndexHandler,
       Handle GET (v1 @ ''/members'') mids MembersHandler,
       Handle GET (v1 @ ''/leader'') mids LeaderHandler,
       Handle GET (v1 @ ''/isleader'') mids IsLeaderHandler,
       Handle POST (v1 @ ''/leave'') mids LeaveHandler,
       Handle POST (v1 @ ''/restore'') mids RestoreHandler,
       Handle GET (v1 @ ''/busy'') mids BusyHandler,
       Handle POST (v1 @ ''/jobs'') mids JobCreateOrUpdateHandler,
       Handle PATCH (v1 @ ''/jobs'') mids JobCreateOrUpdateHandler,
       Handle GET (v1 @ ''/jobs'') mids JobsHandler,
       Handle DELETE (jobs @ ''/:job'') mids JobDeleteHandler,
       Handle POST (jobs @ ''/:job'') mids JobRunHandler,
       Handle POST (jobs @ ''/:job/toggle'') mids JobToggleHandler,
       Handle GET (jobs @ ''/:job'') mids JobGetHandler,
       Handle GET (jobs @ ''/:job/executions'') mids ExecutionsHandler])"

definition DashboardRoutes :: "registration list" where
  "DashboardRoutes =
     [Handle GET ''/'' [] DashboardRoot, Handle GET (''/'' @ assetsPrefix @ ''/*filepath'') [] StaticFiles] @
     (let dashboard = ''/'' @ dashboardPathPrefix in
      [Handle GET (dashboard @ ''/'') [] DashboardIndex,
       Handle GET (dashboard @ ''/jobs'') [] DashboardJobs,
       Handle GET (dashboard @ ''/jobs/:job/executions'') [] DashboardExecutions,
       Handle GET (dashboard @ ''/busy'') [] DashboardBusy])"

definition ServeHTTP :: "bool \<Rightarrow> string \<Rightarrow> registration list" where
  "ServeHTTP enablePrometheus node =
     APIRoutes enablePrometheus [] @ DashboardRoutes @ [EngineUse [MetaMiddleware node]]"

section \<open>The engine\<close>

text \<open>
  A pattern matches a path segment by segment: a segment with a colon is a parameter and takes any
  segment that is not empty, one with an asterisk takes the rest.
\<close>

fun match_segments :: "string list \<Rightarrow> string list \<Rightarrow> string gomap option" where
  "match_segments [] [] = Some []"
| "match_segments (p # ps) (s # ss) =
     (if HasPrefix p ''*'' then Some [(tl p, ''/'' @ Join (s # ss) ''/'')]
      else if HasPrefix p '':'' then
        (if s = [] then None else map_option (\<lambda>m. (tl p, s) # m) (match_segments ps ss))
      else if p = s then match_segments ps ss else None)"
| "match_segments _ _ = None"

definition match_path :: "string \<Rightarrow> string \<Rightarrow> string gomap option" where
  "match_path pat path = match_segments (Split pat CHR ''/'') (Split path CHR ''/'')"

text \<open>
  What gin promises: a request is served by the route of its method that matches its path, with the
  middleware of the engine at the time the route was registered and that of its group.
\<close>

definition engine_middleware :: "registration list \<Rightarrow> middleware list" where
  "engine_middleware regs = concat (map (\<lambda>r. case r of EngineUse ms \<Rightarrow> ms | _ \<Rightarrow> []) regs)"

definition matches :: "http_method \<Rightarrow> string \<Rightarrow> registration \<Rightarrow> bool" where
  "matches m path r = (case r of Handle m' pat mids e \<Rightarrow> m' = m \<and> match_path pat path \<noteq> None | EngineUse ms \<Rightarrow> False)"

locale gin_engine =
  fixes dispatch :: "registration list \<Rightarrow> http_method \<Rightarrow> string \<Rightarrow> (middleware list \<times> endpoint \<times> string gomap) option"
  assumes routed: "match_path pat path = Some ps \<Longrightarrow> \<forall>r \<in> set pre \<union> set post. \<not> matches m path r \<Longrightarrow>
      dispatch (pre @ Handle m pat mids e # post) m path = Some (engine_middleware pre @ mids, e, ps)"
begin

lemma dispatch_unique:
  assumes "filter (matches m path) routes = [Handle m pat mids e]" "match_path pat path = Some ps"
    and "\<forall>ms. EngineUse ms \<notin> set routes"
  shows "dispatch (routes @ [EngineUse ms']) m path = Some (mids, e, ps)"
proof -
  obtain pre post where r: "routes = pre @ Handle m pat mids e # post"
    and none: "\<forall>r \<in> set pre. \<not> matches m path r" "filter (matches m path) post = []"
    using assms(1) by (auto simp: filter_eq_Cons_iff)
  have "engine_middleware pre = []"
    using assms(3) by (auto simp: engine_middleware_def r split: registration.splits)
  moreover have "\<forall>r \<in> set pre \<union> set (post @ [EngineUse ms']). \<not> matches m path r"
    using none by (auto simp: filter_empty_conv) (simp add: matches_def)
  ultimately show ?thesis using routed [OF assms(2), of pre "post @ [EngineUse ms']" m mids e] by (simp add: r)
qed

end

definition ref_dispatch :: "registration list \<Rightarrow> http_method \<Rightarrow> string \<Rightarrow> (middleware list \<times> endpoint \<times> string gomap) option" where
  "ref_dispatch regs m path =
     (case dropWhile (\<lambda>r. \<not> matches m path r) regs of
        Handle m' pat mids e # post \<Rightarrow>
          Some (engine_middleware (takeWhile (\<lambda>r. \<not> matches m path r) regs) @ mids, e, the (match_path pat path))
      | _ \<Rightarrow> None)"

interpretation ref_gin: gin_engine ref_dispatch
proof
  fix pat path ps pre post m mids e
  assume "match_path pat path = Some ps" "\<forall>r \<in> set pre \<union> set post. \<not> matches m path r"
  then show "ref_dispatch (pre @ Handle m pat mids e # post) m path = Some (engine_middleware pre @ mids, e, ps)"
    by (simp add: ref_dispatch_def dropWhile_append3 takeWhile_append2 matches_def)
qed

section \<open>The documented operations\<close>

text \<open>The operations of \<open>website/content/swagger.yaml\<close>, by their method and path, for a job named \<open>job\<close>.\<close>

definition documented_operations :: "string \<Rightarrow> (http_method \<times> string \<times> endpoint \<times> string gomap) list" where
  "documented_operations job =
     [(GET, ''/v1/'', IndexHandler, []),
      (GET, ''/v1/jobs'', JobsHandler, []),
      (POST, ''/v1/jobs'', JobCreateOrUpdateHandler, []),
      (GET, ''/v1/jobs/'' @ job, JobGetHandler, [(''job'', job)]),
      (DELETE, ''/v1/jobs/'' @ job, JobDeleteHandler, [(''job'', job)]),
      (POST, ''/v1/jobs/'' @ job, JobRunHandler, [(''job'', job)]),
      (POST, ''/v1/jobs/'' @ job @ ''/toggle'', JobToggleHandler, [(''job'', job)]),
      (POST, ''/v1/restore'', RestoreHandler, []),
      (GET, ''/v1/members'', MembersHandler, []),
      (GET, ''/v1/leader'', LeaderHandler, []),
      (GET, ''/v1/isleader'', IsLeaderHandler, []),
      (POST, ''/v1/leave'', LeaveHandler, []),
      (GET, ''/v1/jobs/'' @ job @ ''/executions'', ExecutionsHandler, [(''job'', job)]),
      (GET, ''/v1/busy'', BusyHandler, [])]"

definition routes_of :: "bool \<Rightarrow> registration list" where
  "routes_of enablePrometheus = APIRoutes enablePrometheus [] @ DashboardRoutes"

lemma routes_no_use: "\<forall>ms. EngineUse ms \<notin> set (routes_of b)"
  by (simp add: routes_of_def APIRoutes_def DashboardRoutes_def Let_def)

lemmas route_simps = routes_of_def APIRoutes_def DashboardRoutes_def assetsPrefix_def dashboardPathPrefix_def Let_def

lemma Split_job:
  assumes "CHR ''/'' \<notin> set job"
  shows "Split (''/v1/jobs/'' @ job) CHR ''/'' = [[], ''v1'', ''jobs'', job]"
    "Split (''/v1/jobs/'' @ job @ CHR ''/'' # rest) CHR ''/'' = [] # ''v1'' # ''jobs'' # job # Split rest CHR ''/''"
  using Split_single [OF assms] Split_append_sep [OF assms, of rest] by simp_all

text \<open>Which of the routes match a path of the API.\<close>

definition path_segments :: "string list \<Rightarrow> http_method \<Rightarrow> registration \<Rightarrow> bool" where
  "path_segments segs m r =
     (case r of Handle m' pat mids e \<Rightarrow> m' = m \<and> match_segments (Split pat CHR ''/'') segs \<noteq> None | EngineUse ms \<Rightarrow> False)"

lemma matches_segments: "matches m path = path_segments (Split path CHR ''/'') m"
  by (auto simp: matches_def path_segments_def match_path_def split: registration.splits)

lemma job_routes:
  assumes "job \<noteq> []"
  shows "filter (path_segments [[], ''v1'', ''jobs'', job] GET) (routes_of b) = [Handle GET ''/v1/jobs/:job'' [] JobGetHandler]"
    "filter (path_segments [[], ''v1'', ''jobs'', job] DELETE) (routes_of b) = [Handle DELETE ''/v1/jobs/:job'' [] JobDeleteHandler]"
    "filter (path_segments [[], ''v1'', ''jobs'', job] POST) (routes_of b) = [Handle POST ''/v1/jobs/:job'' [] JobRunHandler]"
    "filter (path_segments [[], ''v1'', ''jobs'', job, ''toggle''] POST) (routes_of b) =
       [Handle POST ''/v1/jobs/:job/toggle'' [] JobToggleHandler]"
    "filter (path_segments [[], ''v1'', ''jobs'', job, ''executions''] GET) (routes_of b) =
       [Handle GET ''/v1/jobs/:job/executions'' [] ExecutionsHandler]"
  using assms by (simp_all add: route_simps path_segments_def)

lemma fixed_routes:
  "filter (path_segments [[], ''v1'', []] GET) (routes_of b) = [Handle GET ''/v1/'' [] IndexHandler]"
  "filter (path_segments [[], ''v1'', ''jobs''] GET) (routes_of b) = [Handle GET ''/v1/jobs'' [] JobsHandler]"
  "filter (path_segments [[], ''v1'', ''jobs''] POST) (routes_of b) = [Handle POST ''/v1/jobs'' [] JobCreateOrUpdateHandler]"
  "filter (path_segments [[], ''v1'', ''restore''] POST) (routes_of b) = [Handle POST ''/v1/restore'' [] RestoreHandler]"
  "filter (path_segments [[], ''v1'', ''members''] GET) (routes_of b) = [Handle GET ''/v1/members'' [] MembersHandler]"
  "filter (path_segments [[], ''v1'', ''leader''] GET) (routes_of b) = [Handle GET ''/v1/leader'' [] LeaderHandler]"
  "filter (path_segments [[], ''v1'', ''isleader''] GET) (routes_of b) = [Handle GET ''/v1/isleader'' [] IsLeaderHandler]"
  "filter (path_segments [[], ''v1'', ''leave''] POST) (routes_of b) = [Handle POST ''/v1/leave'' [] LeaveHandler]"
  "filter (path_segments [[], ''v1'', ''busy''] GET) (routes_of b) = [Handle GET ''/v1/busy'' [] BusyHandler]"
  by (simp_all add: route_simps path_segments_def)

context gin_engine
begin

lemma dispatch_segments:
  assumes "filter (path_segments segs m) (routes_of b) = [Handle m pat [] e]" "Split path CHR ''/'' = segs"
    "match_segments (Split pat CHR ''/'') segs = Some ps"
  shows "dispatch (ServeHTTP b node) m path = Some ([], e, ps)"
  using dispatch_unique [OF _ _ routes_no_use, of m path b pat "[]" e ps "[MetaMiddleware node]"] assms
  by (simp add: matches_segments match_path_def ServeHTTP_def routes_of_def)

lemma dispatch_fixed:
  "dispatch (ServeHTTP b node) GET ''/v1/'' = Some ([], IndexHandler, [])"
  "dispatch (ServeHTTP b node) GET ''/v1/jobs'' = Some ([], JobsHandler, [])"
  "dispatch (ServeHTTP b node) POST ''/v1/jobs'' = Some ([], JobCreateOrUpdateHandler, [])"
  "dispatch (ServeHTTP b node) POST ''/v1/restore'' = Some ([], RestoreHandler, [])"
  "dispatch (ServeHTTP b node) GET ''/v1/members'' = Some ([], MembersHandler, [])"
  "dispatch (ServeHTTP b node) GET ''/v1/leader'' = Some ([], LeaderHandler, [])"
  "dispatch (ServeHTTP b node) GET ''/v1/isleader'' = Some ([], IsLeaderHandler, [])"
  "dispatch (ServeHTTP b node) POST ''/v1/leave'' = Some ([], LeaveHandler, [])"
  "dispatch (ServeHTTP b node) GET ''/v1/busy'' = Some ([], BusyHandler, [])"
  by (rule fixed_routes [THEN dispatch_segments]; simp)+

lemma dispatch_job:
  assumes "job \<noteq> []" "CHR ''/'' \<notin> set job"
  shows "dispatch (ServeHTTP b node) GET (''/v1/jobs/'' @ job) = Some ([], JobGetHandler, [(''job'', job)])"
    "dispatch (ServeHTTP b node) DELETE (''/v1/jobs/'' @ job) = Some ([], JobDeleteHandler, [(''job'', job)])"
    "dispatch (ServeHTTP b node) POST (''/v1/jobs/'' @ job) = Some ([], JobRunHandler, [(''job'', job)])"
    "dispatch (ServeHTTP b node) POST (''/v1/jobs/'' @ job @ ''/toggle'') = Some ([], JobToggleHandler, [(''job'', job)])"
    "dispatch (ServeHTTP b node) GET (''/v1/jobs/'' @ job @ ''/executions'') = Some ([], ExecutionsHandler, [(''job'', job)])"
  by (rule job_routes [OF assms(1), THEN dispatch_segments];
      (subst Split_job [OF assms(2)])?; simp add: assms(1))+

end

text \<open>
  Every documented operation of the HTTP API is served. For each operation of the API's
  documentation and a job whose name is not empty and has no slash, the engine calls the handler of the
  operation with that name as its parameter. No middleware runs before: the one that
  announces the node in the header X-Whom is added after the routes, so no route has it.
\<close>

theorem documented_operations_served:
  assumes "gin_engine dispatch" "job \<noteq> []" "CHR ''/'' \<notin> set job"
    and "(m, path, e, ps) \<in> set (documented_operations job)"
  shows "dispatch (ServeHTTP enablePrometheus node) m path = Some ([], e, ps)"
  using assms(4) gin_engine.dispatch_fixed [OF assms(1)] gin_engine.dispatch_job [OF assms(1-3)]
  unfolding documented_operations_def by (auto simp del: append.simps)

theorem documented_operations_served_witness:
  "ref_dispatch (ServeHTTP True ''n1'') DELETE ''/v1/jobs/backup'' = Some ([], JobDeleteHandler, [(''job'', ''backup'')])"
  using documented_operations_served [OF ref_gin.gin_engine_axioms, of "''backup''" DELETE "''/v1/jobs/backup''" JobDeleteHandler
      "[(''job'', ''backup'')]" True "''n1''"] by (simp add: documented_operations_def)

section \<open>Serving a request\<close>

datatype http_reply =
    ApiReply "gin_call list" | PageReply dashboard_call | HealthReply int "string gomap" | LibraryReply endpoint | NoRoute

text \<open>The handlers of the routes; \<open>clock\<close> and \<open>accepts_html\<close> are the time and the negotiated format of a page.\<close>

definition run_endpoint ::
    "('db, 'w) http_agent \<Rightarrow> string \<Rightarrow> string \<Rightarrow> bool \<Rightarrow> endpoint \<Rightarrow> 'w \<Rightarrow> request \<Rightarrow> http_reply \<times> 'w" where
  "run_endpoint h node clock accepts_html e w q =
     (case e of
        IndexHandler \<Rightarrow> (ApiReply (indexHandler h w q), w)
      | JobsHandler \<Rightarrow> (ApiReply (jobsHandler h w q), w)
      | JobGetHandler \<Rightarrow> (ApiReply (jobGetHandler h w q), w)
      | JobCreateOrUpdateHandler \<Rightarrow> apfst ApiReply (jobCreateOrUpdateHandler h w q)
      | JobDeleteHandler \<Rightarrow> apfst ApiReply (jobDeleteHandler h w q)
      | JobRunHandler \<Rightarrow> apfst ApiReply (jobRunHandler h w q)
      | JobToggleHandler \<Rightarrow> apfst ApiReply (jobToggleHandler h w q)
      | ExecutionsHandler \<Rightarrow> (ApiReply (executionsHandler h w q), w)
      | MembersHandler \<Rightarrow> (ApiReply (membersHandler h w q), w)
      | LeaderHandler \<Rightarrow> (ApiReply (leaderHandler h w q), w)
      | IsLeaderHandler \<Rightarrow> (ApiReply (isLeaderHandler h w q), w)
      | LeaveHandler \<Rightarrow> apfst ApiReply (leaveHandler h w q)
      | RestoreHandler \<Rightarrow> apfst ApiReply (restoreHandler h w q)
      | BusyHandler \<Rightarrow> (ApiReply (busyHandler h w q), w)
      | Healthy \<Rightarrow> (HealthReply StatusOK [(''status'', ''healthy'')], w)
      | DashboardRoot \<Rightarrow> (PageReply (dashboardRoot accepts_html), w)
      | DashboardIndex \<Rightarrow> (PageReply (dashboardIndexHandler h node clock w), w)
      | DashboardJobs \<Rightarrow> (PageReply (dashboardJobsHandler h node clock w), w)
      | DashboardExecutions \<Rightarrow> (PageReply (dashboardExecutionsHandler h node clock w (rq_job q)), w)
      | DashboardBusy \<Rightarrow> (PageReply (dashboardBusyHandler h node clock w), w)
      | _ \<Rightarrow> (LibraryReply e, w))"

text \<open>A request to a URL; its path ends at the query.\<close>

definition url_path :: "string \<Rightarrow> string" where
  "url_path u = takeWhile (\<lambda>c. c \<noteq> CHR ''?'') u"

definition serve ::
    "(registration list \<Rightarrow> http_method \<Rightarrow> string \<Rightarrow> (middleware list \<times> endpoint \<times> string gomap) option) \<Rightarrow>
     ('db, 'w) http_agent \<Rightarrow> bool \<Rightarrow> string \<Rightarrow> string \<Rightarrow> bool \<Rightarrow> 'w \<Rightarrow> http_method \<Rightarrow> string \<Rightarrow> request \<Rightarrow> http_reply \<times> 'w" where
  "serve dispatch h enablePrometheus node clock accepts_html w m u q =
     (case dispatch (ServeHTTP enablePrometheus node) m (url_path u) of
        None \<Rightarrow> (NoRoute, w)
      | Some (mids, e, ps) \<Rightarrow>
          (case run_endpoint h node clock accepts_html e w (q\<lparr>rq_job := get_str ps ''job'', rq_URI := u\<rparr>) of
             (ApiReply calls, w') \<Rightarrow> (ApiReply (concat mids @ calls), w')
           | reply \<Rightarrow> reply))"

lemma url_path_plain: "CHR ''?'' \<notin> set u \<Longrightarrow> url_path u = u"
  unfolding url_path_def by (rule takeWhile_eq_all_conv [THEN iffD2]) auto

lemma url_path_query: "CHR ''?'' \<notin> set p \<Longrightarrow> url_path (p @ CHR ''?'' # query) = p"
  unfolding url_path_def by (subst takeWhile_append2) auto

lemma created_location:
  assumes "rq_BindJSON q empty_job = Inr j" "jobCreateOrUpdateHandler h w (q\<lparr>rq_job := n, rq_URI := u\<rparr>) = (calls, w')"
    "Header ''Location'' loc \<in> set calls"
  shows "Validate (ha_env h) j = None" "loc = u @ ''/'' @ Name j"
  using assms by (auto simp: jobCreateOrUpdateHandler_def renderJSON_def split: option.splits prod.splits if_splits)

text \<open>
  The address of a created job. When a request to create a job succeeds, it answers with status 201
  and the header Location. For a request without a query that address leads to the job: a GET there
  is answered by the handler of the job with the name of the created job. For a request
  with a query (\<open>?runoncreate=true\<close>, \<open>?pretty=true\<close>) the name is put behind the query, and the address leads
  to the list of all jobs instead.
\<close>

theorem location_of_created_job:
  assumes "gin_engine dispatch" "lawful_env (ha_env h)" "rq_BindJSON q empty_job = Inr j"
    and created: "serve dispatch h prom node clock html w POST u q = (ApiReply calls, w')"
      "Header ''Location'' loc \<in> set calls"
    and u: "u = ''/v1/jobs'' \<or> u = ''/v1/jobs?'' @ query"
  shows "serve dispatch h prom node clock html w'' GET loc q' =
    (ApiReply (if u = ''/v1/jobs'' then jobGetHandler h w'' (q'\<lparr>rq_job := Name j, rq_URI := loc\<rparr>)
               else jobsHandler h w'' (q'\<lparr>rq_job := [], rq_URI := loc\<rparr>)), w'')"
proof -
  note fixed = gin_engine.dispatch_fixed [OF assms(1), of prom node] and job = gin_engine.dispatch_job [OF assms(1), of "Name j" prom node]
  have path: "url_path u = ''/v1/jobs''"
    using u url_path_plain [of "''/v1/jobs''"] url_path_query [of "''/v1/jobs''" query] by auto
  have run: "jobCreateOrUpdateHandler h w (q\<lparr>rq_job := [], rq_URI := u\<rparr>) = (calls, w')"
    using created(1) by (auto simp: serve_def path fixed run_endpoint_def get_str_def apfst_def map_prod_def split: prod.splits)
  note cr = created_location [OF assms(3) run created(2)]
  note nm = lawful_env.Validate_name [OF assms(2) cr(1)]
  show ?thesis
  proof (cases "u = ''/v1/jobs''")
    case True
    then have "url_path loc = ''/v1/jobs/'' @ Name j"
      using cr(2) nm(4) url_path_plain [of "''/v1/jobs/'' @ Name j"] by simp
    then show ?thesis using True job [OF nm(1,3)] by (simp add: serve_def run_endpoint_def get_str_def del: append.simps)
  next
    case False
    with u cr(2) have "loc = ''/v1/jobs'' @ CHR ''?'' # query @ ''/'' @ Name j" by simp
    then have "url_path loc = ''/v1/jobs''" by (simp add: url_path_def)
    then show ?thesis using False by (simp add: serve_def fixed run_endpoint_def get_str_def)
  qed
qed

theorem location_of_created_job_witness:
  "\<exists>calls s'. serve ref_dispatch sample_http False ''n1'' [] False (sample_srv []) POST ''/v1/jobs''
       (sample_request (sample_job ''backup'' ''@every 1m'' [])) = (ApiReply calls, s') \<and>
     serve ref_dispatch sample_http False ''n1'' [] False s' GET ''/v1/jobs/backup'' (sample_request empty_job) =
       (ApiReply (jobGetHandler sample_http s' ((sample_request empty_job)\<lparr>rq_job := ''backup'', rq_URI := ''/v1/jobs/backup''\<rparr>)), s')"
proof -
  let ?q = "sample_request (sample_job ''backup'' ''@every 1m'' [])"
  obtain s' where s': "jobCreateOrUpdateHandler sample_http (sample_srv []) ?q =
      (Header ''Location'' ''/v1/jobs/backup'' # renderJSON ?q StatusCreated (JobBody (sample_job ''backup'' ''@every 1m'' [])), s')"
    using sample_created by (auto simp: sample_job_def)
  have path: "url_path ''/v1/jobs'' = ''/v1/jobs''" by (simp add: url_path_def)
  have q: "?q\<lparr>rq_job := [], rq_URI := ''/v1/jobs''\<rparr> = ?q" by (simp add: sample_request_def)
  have "serve ref_dispatch sample_http False ''n1'' [] False (sample_srv []) POST ''/v1/jobs'' ?q =
      (ApiReply (Header ''Location'' ''/v1/jobs/backup'' # renderJSON ?q StatusCreated (JobBody (sample_job ''backup'' ''@every 1m'' []))), s')"
    using s' by (simp add: serve_def path ref_gin.dispatch_fixed run_endpoint_def get_str_def q)
  moreover have "lawful_env (ha_env sample_http)" by (simp add: sample_http_def ref.lawful_env_axioms)
  moreover have "rq_BindJSON ?q empty_job = Inr (sample_job ''backup'' ''@every 1m'' [])" by (simp add: sample_request_def)
  ultimately show ?thesis
    using location_of_created_job [OF ref_gin.gin_engine_axioms, of sample_http ?q "sample_job ''backup'' ''@every 1m'' []" False "''n1''" "[]" False
        "sample_srv []" "''/v1/jobs''" _ s' "''/v1/jobs/backup''" "[]" s' "sample_request empty_job"]
    by (auto simp: sample_job_def)
qed

end
