(* ===== verification/Notifier.thy ===== *)
theory Notifier
  imports Keys Ref_Env
begin

text \<open>
Notifications of finished executions (\<open>src/dkron/notifier.go\<close>), by mail or to a webhook. The template
engine, the mail client and the HTTP client are a record of functions.
\<close>

section \<open>Notifications\<close>

text \<open>
  What the notifier uses: the text of a time, the template engine (\<open>None\<close> when the template does not
  parse, which panics), the mail server, and the HTTP client. \<open>'w\<close> is the world they act on.
\<close>

record email =
  em_To :: "string list"
  em_From :: string
  em_Subject :: string
  em_Text :: string

record http_request =
  rq_Method :: string
  rq_URL :: string
  rq_Header :: "string gomap"
  rq_Body :: string

record template_data =
  td_Report :: string
  td_JobName :: string
  td_ReportingNode :: string
  td_StartTime :: time
  td_FinishedAt :: time
  td_Success :: string
  td_NodeName :: string
  td_Output :: string

record 'w notify_lib =
  time_String :: "time \<Rightarrow> string"
  template_Execute :: "string \<Rightarrow> template_data \<Rightarrow> string res option"
  error_text :: "error \<Rightarrow> string"
  email_Send :: "'w \<Rightarrow> string \<Rightarrow> (string \<times> string \<times> string) option \<Rightarrow> email \<Rightarrow> err \<times> 'w"
  http_NewRequest :: "string \<Rightarrow> string \<Rightarrow> string \<Rightarrow> http_request res"
  canonical_key :: "string \<Rightarrow> string"
  http_Do :: "'w \<Rightarrow> http_request \<Rightarrow> err \<times> 'w"

record notifier =
  nf_Config :: config
  nf_Job :: job
  nf_Execution :: execution
  nf_ExecutionGroup :: "execution list"

definition Notification :: "config \<Rightarrow> execution \<Rightarrow> execution list \<Rightarrow> job \<Rightarrow> notifier" where
  "Notification c x exGroup j =
     \<lparr>nf_Config = c, nf_Job = j, nf_Execution = x, nf_ExecutionGroup = exGroup\<rparr>"

definition show_bool :: "bool \<Rightarrow> string" where
  "show_bool b = (if b then ''true'' else ''false'')"

definition newline :: string where "newline = [CHR 0x0A]"

definition group_line :: "'w notify_lib \<Rightarrow> execution \<Rightarrow> string" where
  "group_line L ex = [CHR 0x09] @ ''[Node]: '' @ ex_NodeName ex @ '' [Start]: '' @ time_String L (ex_StartedAt ex) @
     '' [End]: '' @ time_String L (ex_FinishedAt ex) @ '' [Success]: '' @ show_bool (ex_Success ex) @ newline"

definition report :: "'w notify_lib \<Rightarrow> notifier \<Rightarrow> string" where
  "report L n =
     (let x = nf_Execution n;
          exgStr = fold (\<lambda>ex s. s @ group_line L ex) (nf_ExecutionGroup n) []
      in ''Executed: '' @ ex_JobName x @ newline @ ''Reporting node: '' @ NodeName (nf_Config n) @ newline @
         ''Start time: '' @ time_String L (ex_StartedAt x) @ newline @ ''End time: '' @ time_String L (ex_FinishedAt x) @ newline @
         ''Success: '' @ show_bool (ex_Success x) @ newline @ ''Node: '' @ ex_NodeName x @ newline @
         ''Output: '' @ ex_Output x @ newline @ ''Execution group: '' @ show_int (ex_Group x) @ newline @ exgStr)"

definition template_data_of :: "'w notify_lib \<Rightarrow> notifier \<Rightarrow> template_data" where
  "template_data_of L n =
     (let x = nf_Execution n in
      \<lparr>td_Report = report L n, td_JobName = ex_JobName x, td_ReportingNode = NodeName (nf_Config n),
       td_StartTime = ex_StartedAt x, td_FinishedAt = ex_FinishedAt x, td_Success = show_bool (ex_Success x),
       td_NodeName = ex_NodeName x, td_Output = ex_Output x\<rparr>)"

definition buildTemplate :: "'w notify_lib \<Rightarrow> notifier \<Rightarrow> string \<Rightarrow> string res" where
  "buildTemplate L n templ =
     (case template_Execute L templ (template_data_of L n) of
        None \<Rightarrow> Inl (Panic ''template.Must'')
      | Some (Inl e) \<Rightarrow> Inr (''Failed to execute template:'' @ error_text L e)
      | Some (Inr out) \<Rightarrow> Inr out)"

definition statusString :: "execution \<Rightarrow> string" where
  "statusString x = (if ex_Success x then ''Success'' else ''Failed'')"

text \<open>The user, the password and the host of a plain authentication.\<close>

definition auth :: "notifier \<Rightarrow> (string \<times> string \<times> string) option" where
  "auth n =
     (let c = nf_Config n in
      if MailUsername c \<noteq> [] \<and> MailPassword c \<noteq> [] then Some (MailUsername c, MailPassword c, MailHost c) else None)"

definition mail_of :: "notifier \<Rightarrow> string \<Rightarrow> email" where
  "mail_of n data =
     \<lparr>em_To = [OwnerEmail (nf_Job n)], em_From = MailFrom (nf_Config n),
      em_Subject = MailSubjectPrefix (nf_Config n) @ statusString (nf_Execution n) @ '' '' @ ex_JobName (nf_Execution n) @
        '' execution report'',
      em_Text = data\<rparr>"

definition sendExecutionEmail :: "'w notify_lib \<Rightarrow> 'w \<Rightarrow> notifier \<Rightarrow> err \<times> 'w" where
  "sendExecutionEmail L w n =
     (case (if MailPayload (nf_Config n) \<noteq> [] then buildTemplate L n (MailPayload (nf_Config n)) else Inr (ex_Output (nf_Execution n))) of
        Inl e \<Rightarrow> (Some e, w)
      | Inr data \<Rightarrow>
          (case email_Send L w (MailHost (nf_Config n) @ '':'' @ show_nat (unat (MailPort (nf_Config n)))) (auth n) (mail_of n data) of
             (Some e, w') \<Rightarrow> (Some (Errorf ''notifier: Error sending email''), w')
           | (None, w') \<Rightarrow> (None, w')))"

text \<open>\<open>strings.TrimSpace\<close> for the white space of ASCII.\<close>

definition is_space :: "char \<Rightarrow> bool" where
  "is_space c \<longleftrightarrow> c \<in> {CHR '' '', CHR 0x09, CHR 0x0A, CHR 0x0B, CHR 0x0C, CHR 0x0D}"

definition TrimSpace :: "string \<Rightarrow> string" where
  "TrimSpace s = rev (dropWhile is_space (rev (dropWhile is_space s)))"

text \<open>
  The headers of the webhook. A header is split at every colon and the second part is its value:
  without a colon there is no second part, and the index panics.
\<close>

fun set_headers :: "(string \<Rightarrow> string) \<Rightarrow> string list \<Rightarrow> string gomap \<Rightarrow> string gomap res" where
  "set_headers canonical [] hs = Inr hs"
| "set_headers canonical (h # headers) hs =
     (if h = [] then set_headers canonical headers hs
      else (case Split h CHR '':'' of
              k # v # _ \<Rightarrow> set_headers canonical headers (AList.update (canonical k) (TrimSpace v) hs)
            | _ \<Rightarrow> Inl (Panic ''index out of range'')))"

definition callExecutionWebhook :: "'w notify_lib \<Rightarrow> 'w \<Rightarrow> notifier \<Rightarrow> err \<times> 'w" where
  "callExecutionWebhook L w n =
     (case buildTemplate L n (WebhookPayload (nf_Config n)) of
        Inl e \<Rightarrow> (Some e, w)
      | Inr out \<Rightarrow>
          (case http_NewRequest L ''POST'' (WebhookURL (nf_Config n)) out of
             Inl e \<Rightarrow> (Some e, w)
           | Inr req \<Rightarrow>
               (case set_headers (canonical_key L) (WebhookHeaders (nf_Config n)) (rq_Header req) of
                  Inl e \<Rightarrow> (Some e, w)
                | Inr hs \<Rightarrow>
                    (case http_Do L w (req\<lparr>rq_Header := hs\<rparr>) of
                       (Some e, w') \<Rightarrow> (Some (Errorf ''notifier: Error posting notification''), w')
                     | (None, w') \<Rightarrow> (None, w')))))"

definition Send :: "'w notify_lib \<Rightarrow> 'w \<Rightarrow> notifier \<Rightarrow> err \<times> 'w" where
  "Send L w n =
     (let c = nf_Config n in
      if MailHost c \<noteq> [] \<and> MailPort c \<noteq> 0 \<and> OwnerEmail (nf_Job n) \<noteq> [] then sendExecutionEmail L w n
      else if WebhookURL c \<noteq> [] \<and> WebhookPayload c \<noteq> [] then callExecutionWebhook L w n
      else (None, w))"

section \<open>When a notification panics\<close>

definition is_panic :: "err \<Rightarrow> bool" where
  "is_panic e \<longleftrightarrow> (\<exists>m. e = Some (Panic m))"

definition mail_configured :: "notifier \<Rightarrow> bool" where
  "mail_configured n \<longleftrightarrow> MailHost (nf_Config n) \<noteq> [] \<and> MailPort (nf_Config n) \<noteq> 0 \<and> OwnerEmail (nf_Job n) \<noteq> []"

definition webhook_configured :: "notifier \<Rightarrow> bool" where
  "webhook_configured n \<longleftrightarrow> WebhookURL (nf_Config n) \<noteq> [] \<and> WebhookPayload (nf_Config n) \<noteq> []"

definition template_parses :: "'w notify_lib \<Rightarrow> notifier \<Rightarrow> string \<Rightarrow> bool" where
  "template_parses L n templ \<longleftrightarrow> template_Execute L templ (template_data_of L n) \<noteq> None"

lemma Split_Cons2: "CHR '':'' \<in> set h \<Longrightarrow> \<exists>k v rest. Split h CHR '':'' = k # v # rest"
proof (induction h)
  case (Cons x h)
  then show ?case by (cases "Split h CHR '':''") (auto split: list.splits)
qed simp

lemma set_headers_cases:
  "if \<forall>h \<in> set headers. h = [] \<or> CHR '':'' \<in> set h then \<exists>hs'. set_headers canonical headers hs = Inr hs'
   else set_headers canonical headers hs = Inl (Panic ''index out of range'')"
proof (induction headers arbitrary: hs)
  case (Cons h headers)
  consider "h = []" | "h \<noteq> []" "CHR '':'' \<in> set h" | "h \<noteq> []" "CHR '':'' \<notin> set h" by blast
  then show ?case
  proof cases
    case 1
    then show ?thesis using Cons by simp
  next
    case 2
    then obtain k v rest where "Split h CHR '':'' = k # v # rest" using Split_Cons2 by blast
    then show ?thesis using 2 Cons [of "AList.update (canonical k) (TrimSpace v) hs"] by simp
  next
    case 3
    then have "Split h CHR '':'' = [h]" by (intro Split_single) auto
    with 3 show ?thesis by simp
  qed
qed simp

lemma buildTemplate_cases:
  "if template_parses L n templ then \<exists>out. buildTemplate L n templ = Inr out
   else buildTemplate L n templ = Inl (Panic ''template.Must'')"
  by (auto simp: template_parses_def buildTemplate_def split: sum.splits option.splits)

text \<open>A header of one name and one value without a colon arrives with its white space trimmed.\<close>

lemma set_headers_value:
  assumes "CHR '':'' \<notin> set k" "CHR '':'' \<notin> set v"
  shows "set_headers canonical [k @ '':'' @ v] hs = Inr (AList.update (canonical k) (TrimSpace v) hs)"
proof -
  have "Split (k @ '':'' @ v) CHR '':'' = [k, v]" using assms by (simp add: Split_append_sep Split_single)
  then show ?thesis by simp
qed

text \<open>
  When a notification panics. With mail configured it is exactly when the mail payload does not
  parse; else, with a webhook configured, when its payload does not parse, or when the request can
  be made and one of the headers has no colon. Every other failure is a returned error.
\<close>

theorem Send_panics_iff:
  assumes requests: "\<And>m url body e. http_NewRequest L m url body = Inl e \<Longrightarrow> \<not> is_panic (Some e)"
  shows "is_panic (fst (Send L w n)) \<longleftrightarrow>
    (if mail_configured n
     then MailPayload (nf_Config n) \<noteq> [] \<and> \<not> template_parses L n (MailPayload (nf_Config n))
     else webhook_configured n \<and>
       (\<not> template_parses L n (WebhookPayload (nf_Config n)) \<or>
        (\<exists>out req. buildTemplate L n (WebhookPayload (nf_Config n)) = Inr out \<and>
           http_NewRequest L ''POST'' (WebhookURL (nf_Config n)) out = Inr req \<and>
           (\<exists>h \<in> set (WebhookHeaders (nf_Config n)). h \<noteq> [] \<and> CHR '':'' \<notin> set h))))"
proof (cases "mail_configured n")
  case True
  then have "Send L w n = sendExecutionEmail L w n" by (simp add: Send_def mail_configured_def)
  moreover have "is_panic (fst (sendExecutionEmail L w n)) \<longleftrightarrow>
      MailPayload (nf_Config n) \<noteq> [] \<and> \<not> template_parses L n (MailPayload (nf_Config n))"
    using buildTemplate_cases [of L n "MailPayload (nf_Config n)"]
    by (auto simp: sendExecutionEmail_def is_panic_def split: prod.splits option.splits if_splits)
  ultimately show ?thesis using True by simp
next
  case False
  show ?thesis
  proof (cases "webhook_configured n")
    case off: False
    then have "Send L w n = (None, w)"
      using False by (auto simp: Send_def mail_configured_def webhook_configured_def Let_def)
    then show ?thesis using False off by (simp add: is_panic_def)
  next
    case on: True
    let ?t = "WebhookPayload (nf_Config n)"
    have send: "Send L w n = callExecutionWebhook L w n"
      using False on by (auto simp: Send_def mail_configured_def webhook_configured_def Let_def)
    show ?thesis
    proof (cases "template_parses L n ?t")
      case no: False
      then have "buildTemplate L n ?t = Inl (Panic ''template.Must'')"
        using buildTemplate_cases [of L n ?t] by simp
      then show ?thesis using False on no send by (simp add: callExecutionWebhook_def is_panic_def)
    next
      case parses: True
      then obtain out where out: "buildTemplate L n ?t = Inr out" using buildTemplate_cases [of L n ?t] by auto
      show ?thesis
      proof (cases "http_NewRequest L ''POST'' (WebhookURL (nf_Config n)) out")
        case (Inl e)
        then have "\<not> is_panic (fst (Send L w n))" using send out requests [OF Inl] by (simp add: callExecutionWebhook_def)
        then show ?thesis using False parses out Inl by simp
      next
        case (Inr req)
        have "is_panic (fst (Send L w n)) \<longleftrightarrow> (\<exists>h \<in> set (WebhookHeaders (nf_Config n)). h \<noteq> [] \<and> CHR '':'' \<notin> set h)"
          using set_headers_cases [of "WebhookHeaders (nf_Config n)" "canonical_key L" "rq_Header req"]
          by (auto simp: send callExecutionWebhook_def out Inr is_panic_def split: prod.splits option.splits if_splits)
        then show ?thesis using False on parses out Inr by simp
      qed
    qed
  qed
qed

text \<open>A header value that contains a colon, such as an address, is cut at the colon.\<close>

lemma header_value_cut:
  assumes "CHR '':'' \<notin> set k" "CHR '':'' \<notin> set v"
  shows "set_headers canonical [k @ '':'' @ v @ '':'' @ rest] hs = Inr (AList.update (canonical k) (TrimSpace v) hs)"
proof -
  have "\<exists>more. Split (k @ '':'' @ v @ '':'' @ rest) CHR '':'' = k # v # more" using assms by (simp add: Split_append_sep)
  then show ?thesis by auto
qed

text \<open>The report names every execution of the group, in the order of the group.\<close>

lemma report_group: "\<exists>head. report L n = head @ concat (map (group_line L) (nf_ExecutionGroup n))"
proof -
  have "fold (\<lambda>ex s. s @ group_line L ex) xs acc = acc @ concat (map (group_line L) xs)" for xs acc
    by (induction xs arbitrary: acc) simp_all
  then show ?thesis by (simp add: report_def Let_def)
qed

definition sample_notify :: "http_request list notify_lib" where
  "sample_notify = \<lparr>time_String = (\<lambda>t. show_int t), template_Execute = (\<lambda>t d. Some (Inr t)), error_text = (\<lambda>_. []),
     email_Send = (\<lambda>w _ _ _. (None, w)), http_NewRequest = (\<lambda>m u b. Inr \<lparr>rq_Method = m, rq_URL = u, rq_Header = [], rq_Body = b\<rparr>),
     canonical_key = (\<lambda>k. k), http_Do = (\<lambda>w r. (None, r # w))\<rparr>"


definition sample_notifier :: "string list \<Rightarrow> notifier" where
  "sample_notifier headers = Notification
     (sample_config\<lparr>WebhookURL := ''http://hook'', WebhookPayload := ''done'', WebhookHeaders := headers\<rparr>)
     (sample_exec ''backup'' ''n1'' 1 True) [] (sample_job ''backup'' [] [])"

theorem Send_panics_iff_witness:
  "is_panic (fst (Send sample_notify [] (sample_notifier [''X-Token secret''])))"
proof -
  let ?n = "sample_notifier [''X-Token secret'']"
  have "\<not> mail_configured ?n" "webhook_configured ?n" "WebhookHeaders (nf_Config ?n) = [''X-Token secret'']"
    by (simp_all add: mail_configured_def webhook_configured_def sample_notifier_def Notification_def sample_config_def DefaultConfig_def)
  moreover have "\<exists>out. buildTemplate sample_notify ?n t = Inr out" for t by (simp add: buildTemplate_def sample_notify_def)
  moreover have "\<exists>req. http_NewRequest sample_notify m u b = Inr req" for m u b by (simp add: sample_notify_def)
  moreover have "CHR '':'' \<notin> set ''X-Token secret''" by simp
  ultimately show ?thesis
    using Send_panics_iff [of sample_notify "[]" ?n] by (simp add: sample_notify_def)
qed

end
