(* ===== verification/Plugins.thy ===== *)
theory Plugins
  imports Notifier Grpc_Client Setup
begin

text \<open>
The plugins that come with dkron (\<open>src/builtin/bins\<close>): the processors of executions and the executors of
jobs. The libraries the executors call are parameters.
\<close>

section \<open>Plugins of processors\<close>

text \<open>\<open>strconv.ParseBool\<close>.\<close>

definition ParseBool :: "string \<Rightarrow> bool res" where
  "ParseBool s =
     (if s \<in> {''1'', ''t'', ''T'', ''true'', ''TRUE'', ''True''} then Inr True
      else if s \<in> {''0'', ''f'', ''F'', ''false'', ''FALSE'', ''False''} then Inr False
      else Inl (Errorf ''invalid syntax''))"

text \<open>The option of all processors: a value that is no boolean counts as false.\<close>

definition parse_forward :: "string gomap \<Rightarrow> bool" where
  "parse_forward config = (case ParseBool (get_str config ''forward'') of Inl e \<Rightarrow> False | Inr b \<Rightarrow> b)"

text \<open>What the processors do to the world.\<close>

datatype process_effect =
    MkdirAll string | WriteFile string string | Stdout string | Stderr string
  | WriteSyslog string | PostFluent string "string gomap"

definition defaultLogDir :: string where "defaultLogDir = ''/var/log/dkron''"

text \<open>\<open>exists\<close> tells whether the default directory exists.\<close>

definition files_parseConfig :: "bool \<Rightarrow> string gomap \<Rightarrow> bool \<times> string \<times> process_effect list" where
  "files_parseConfig exists config =
     (let logDir = get_str config ''log_dir'' in
      if logDir \<noteq> [] then (parse_forward config, logDir, [])
      else (parse_forward config, defaultLogDir, if exists then [] else [MkdirAll defaultLogDir]))"

definition files_Process :: "'db env \<Rightarrow> bool \<Rightarrow> pb_execution \<Rightarrow> string gomap \<Rightarrow> pb_execution \<times> process_effect list" where
  "files_Process E exists x config =
     (case files_parseConfig exists config of
        (forward, logDir, effs) \<Rightarrow>
          (let filePath = logDir @ ''/'' @ pe_Key E x @ ''.log'' in
           (if \<not> forward then x\<lparr>pe_Output := filePath\<rparr> else x, effs @ [WriteFile filePath (pe_Output x)])))"

definition log_Process :: "'db env \<Rightarrow> pb_execution \<Rightarrow> string gomap \<Rightarrow> pb_execution \<times> process_effect list" where
  "log_Process E x config =
     (let out = (if pe_Success x then Stdout else Stderr) in
      (if \<not> parse_forward config then x\<lparr>pe_Output := ''Output in dkron log''\<rparr> else x,
       [out (''----- BEGIN OUTPUT job='' @ pe_JobName x @ '' execution='' @ pe_Key E x @ '' -----'' @ newline),
        out (pe_Output x), out (newline @ ''----- END OUTPUT -----'' @ newline)]))"

text \<open>\<open>created\<close> is the outcome of connecting to the syslog.\<close>

definition syslog_parseConfig :: "string gomap \<Rightarrow> bool" where
  "syslog_parseConfig config = (case ParseBool (get_str config ''forward'') of Inl e \<Rightarrow> False | Inr forward \<Rightarrow> forward)"

definition syslog_Process :: "err \<Rightarrow> pb_execution \<Rightarrow> string gomap \<Rightarrow> pb_execution \<times> process_effect list" where
  "syslog_Process created x config =
     (case created of
        Some e \<Rightarrow> (x, [])
      | None \<Rightarrow> (if \<not> syslog_parseConfig config then x\<lparr>pe_Output := ''Output in syslog''\<rparr> else x, [WriteSyslog (pe_Output x)]))"

definition fluent_parseConfig :: "string gomap \<Rightarrow> bool" where
  "fluent_parseConfig config = (case ParseBool (get_str config ''forward'') of Inl e \<Rightarrow> False | Inr forward \<Rightarrow> forward)"

definition sendLog :: "string \<Rightarrow> string gomap \<Rightarrow> process_effect list" where
  "sendLog tag data = [PostFluent tag data]"

definition fluent_Process :: "string \<Rightarrow> pb_execution \<Rightarrow> string gomap \<Rightarrow> pb_execution \<times> process_effect list" where
  "fluent_Process tag x config =
     (if \<not> fluent_parseConfig config then x\<lparr>pe_Output := ''Output sent to Fluent''\<rparr> else x,
      sendLog tag [(''host'', pe_NodeName x), (''job_name'', pe_JobName x), (''message'', pe_Output x)])"

text \<open>The environment of the fluent processor; \<open>Itoa\<close> and \<open>Atoi\<close> keep 0 for a value that is no number.\<close>

definition getEnv :: "(string \<Rightarrow> string option) \<Rightarrow> string \<Rightarrow> string" where
  "getEnv LookupEnv key =
     (let v = (case LookupEnv key of None \<Rightarrow> [] | Some v \<Rightarrow> v); ok = (LookupEnv key \<noteq> None) in
      if key = ''FLUENT_PORT'' then
        (case Atoi v of Inl e \<Rightarrow> show_int 0 | Inr r \<Rightarrow> ''24224'')
      else if v = [] then ''set_my_env_var''
      else if \<not> ok then ''var_is_empty''
      else v)"

text \<open>
  The main function of the fluent processor: the host, the port and the tag it connects with; a port that
  is no number is 0. Without any configuration it tries to reach a host that does not exist.
\<close>

definition fluent_main :: "(string \<Rightarrow> string option) \<Rightarrow> string \<times> int \<times> string" where
  "fluent_main LookupEnv =
     (getEnv LookupEnv ''FLUENTBIT_HOST'',
      (case Atoi (getEnv LookupEnv ''FLUENTBIT_PORT'') of Inl e \<Rightarrow> 0 | Inr p \<Rightarrow> p),
      getEnv LookupEnv ''FLUENTBIT_TAG'')"

lemma fluent_main_unconfigured: "fluent_main (\<lambda>_. None) = (''set_my_env_var'', 0, ''set_my_env_var'')"
proof -
  have "Atoi ''set_my_env_var'' = Inl (Errorf ''invalid syntax'')" by code_simp
  then show ?thesis by (simp add: fluent_main_def getEnv_def)
qed

section \<open>Processors only replace the output\<close>

definition keeps_identity :: "(pb_execution \<Rightarrow> string gomap \<Rightarrow> pb_execution) \<Rightarrow> bool" where
  "keeps_identity process \<longleftrightarrow> (\<forall>x config. \<exists>out. process x config = x\<lparr>pe_Output := out\<rparr>)"

lemma pb_execution_output: "x\<lparr>pe_Output := pe_Output x\<rparr> = (x :: pb_execution)" by simp

lemma builtin_keeps_identity:
  "keeps_identity (\<lambda>x c. fst (files_Process E exists x c))" "keeps_identity (\<lambda>x c. fst (log_Process E x c))"
  "keeps_identity (\<lambda>x c. fst (syslog_Process created x c))" "keeps_identity (\<lambda>x c. fst (fluent_Process tag x c))"
  unfolding keeps_identity_def files_Process_def log_Process_def syslog_Process_def fluent_Process_def
  by (auto simp: Let_def split: prod.splits option.splits intro: pb_execution_output [symmetric])

text \<open>The processors that come with dkron, by the names under which they are found.\<close>

definition builtin_processors ::
    "'db env \<Rightarrow> bool \<Rightarrow> err \<Rightarrow> string \<Rightarrow> string \<Rightarrow> (pb_execution \<Rightarrow> string gomap \<Rightarrow> pb_execution) option" where
  "builtin_processors E exists created tag k =
     (if k = ''files'' then Some (\<lambda>x c. fst (files_Process E exists x c))
      else if k = ''log'' then Some (\<lambda>x c. fst (log_Process E x c))
      else if k = ''syslog'' then Some (\<lambda>x c. fst (syslog_Process created x c))
      else if k = ''fluent'' then Some (\<lambda>x c. fst (fluent_Process tag x c))
      else None)"

lemma run_processors_identity:
  assumes "\<And>k process. w_processors W k = Some process \<Longrightarrow> keeps_identity process"
  shows "\<exists>out. run_processors W procs x = x\<lparr>pe_Output := out\<rparr>"
proof (induction procs arbitrary: x)
  case Nil
  show ?case by (rule exI [of _ "pe_Output x"]) (simp add: run_processors_def)
next
  case (Cons p procs)
  obtain k v where p: "p = (k, v)" by fastforce
  have "\<exists>o1. (case w_processors W k of None \<Rightarrow> x
      | Some process \<Rightarrow> process x (AList.update ''reporting_node'' (w_NodeName W) v)) = x\<lparr>pe_Output := o1\<rparr>"
  proof (cases "w_processors W k")
    case None
    then show ?thesis by (intro exI [of _ "pe_Output x"]) simp
  next
    case (Some process)
    then show ?thesis using assms [OF Some] by (simp add: keeps_identity_def)
  qed
  then obtain o1 where o1: "(case w_processors W k of None \<Rightarrow> x
      | Some process \<Rightarrow> process x (AList.update ''reporting_node'' (w_NodeName W) v)) = x\<lparr>pe_Output := o1\<rparr>" ..
  have "run_processors W (p # procs) x = run_processors W procs (x\<lparr>pe_Output := o1\<rparr>)"
    by (simp add: run_processors_def p o1)
  with Cons.IH [of "x\<lparr>pe_Output := o1\<rparr>"] show ?case by auto
qed

text \<open>
  The processors that come with dkron keep the identity of an execution. Whatever processors a
  job lists, the execution that is recorded has the job, node, group, attempt, times and success of
  the execution that was reported, hence its key; only its output may be replaced. The processor of
  files asks for the output to be written to a file before it replaces it by the name of that file.
\<close>

theorem processors_keep_identity:
  assumes "w_processors W = builtin_processors E exists created tag"
  shows "(\<exists>out. run_processors W procs x = x\<lparr>pe_Output := out\<rparr>) \<and>
    pe_Key E' (run_processors W procs x) = pe_Key E' x \<and>
    (\<forall>y effs. files_Process E exists x config = (y, effs) \<longrightarrow> (\<exists>path. WriteFile path (pe_Output x) \<in> set effs \<and>
       (y = x \<or> pe_Output y = path)))"
proof (intro conjI allI impI)
  have "keeps_identity process" if "w_processors W k = Some process" for k process
    using that builtin_keeps_identity unfolding assms builtin_processors_def by (auto split: if_splits)
  then show id: "\<exists>out. run_processors W procs x = x\<lparr>pe_Output := out\<rparr>" by (rule run_processors_identity)
  then show "pe_Key E' (run_processors W procs x) = pe_Key E' x" by (auto simp: pe_Key_def)
  fix y effs
  assume "files_Process E exists x config = (y, effs)"
  then show "\<exists>path. WriteFile path (pe_Output x) \<in> set effs \<and> (y = x \<or> pe_Output y = path)"
    by (auto simp: files_Process_def Let_def split: prod.splits if_splits)
qed


theorem processors_keep_identity_witness:
  "\<exists>out. run_processors (sample_world\<lparr>w_processors := builtin_processors (ref_env sample_now) True None ''dkron''\<rparr>)
      [(''log'', []), (''files'', [(''forward'', ''true'')])] pb_execution_zero = pb_execution_zero\<lparr>pe_Output := out\<rparr>"
  using processors_keep_identity [of "sample_world\<lparr>w_processors := builtin_processors (ref_env sample_now) True None ''dkron''\<rparr>"
      "ref_env sample_now" True None "''dkron''" "[(''log'', []), (''files'', [(''forward'', ''true'')])]" pb_execution_zero "ref_env sample_now" "[]"] by simp

section \<open>The HTTP executor\<close>

text \<open>
  What the executor calls: the format of its configuration, the request, JSON, certificates, the
  client, and regular expressions. A client is its settings.
\<close>

record http_client =
  cl_Timeout :: int
  cl_InsecureSkipVerify :: bool
  cl_Certificates :: "(string \<times> string) list"
  cl_RootCAs :: "string option"

record http_exec_lib =
  hx_dump :: "string gomap \<Rightarrow> string"
  hx_error :: "error \<Rightarrow> string"
  hx_NewRequest :: "string \<Rightarrow> string \<Rightarrow> string \<Rightarrow> http_request res"
  hx_canonical :: "string \<Rightarrow> string"
  hx_Unmarshal :: "string \<Rightarrow> string list \<times> err"
  hx_LoadX509KeyPair :: "string \<Rightarrow> string \<Rightarrow> err"
  hx_ReadFile :: "string \<Rightarrow> string res"
  hx_AppendCertsFromPEM :: "string \<Rightarrow> bool"
  hx_Do :: "http_client \<Rightarrow> http_request \<Rightarrow> (int \<times> string res) res"
  hx_MatchString :: "string \<Rightarrow> string \<Rightarrow> bool"
  hx_output_of :: "nat \<Rightarrow> string list \<Rightarrow> string"

definition timeout :: int where "timeout = 30"

definition atoiOrDefault :: "http_exec_lib \<Rightarrow> string \<Rightarrow> int \<Rightarrow> int \<times> err" where
  "atoiOrDefault H s dflt =
     (case Atoi s of
        Inr i \<Rightarrow> (i, None)
      | Inl e \<Rightarrow> (dflt, Some (Errorf ([CHR 0x22] @ s @ [CHR 0x22] @ '' not understood ('' @ hx_error H e @ ''), using default value of '' @ show_int dflt))))"

definition loadCertPool :: "http_exec_lib \<Rightarrow> string \<Rightarrow> string res" where
  "loadCertPool H filename =
     (case hx_ReadFile H filename of
        Inl e \<Rightarrow> Inl e
      | Inr certsFile \<Rightarrow> if \<not> hx_AppendCertsFromPEM H certsFile then Inl (Errorf ''no certificates in file'') else Inr certsFile)"

definition createClient :: "http_exec_lib \<Rightarrow> string gomap \<Rightarrow> http_client \<times> string list" where
  "createClient H config =
     (let (t, terr) = atoiOrDefault H (get_str config ''timeout'') timeout;
          e1 = (case terr of Some e \<Rightarrow> if get_str config ''timeout'' \<noteq> [] then [''invalid timeout value: '' @ hx_error H e] else []
                | None \<Rightarrow> []);
          skip = ParseBool (get_str config ''tlsNoVerifyPeer'');
          e2 = (case skip of Inl e \<Rightarrow> if get_str config ''tlsNoVerifyPeer'' \<noteq> []
                  then [''not disabling certificate validation: '' @ hx_error H e] else [] | Inr _ \<Rightarrow> []);
          certf = get_str config ''tlsCertificateFile''; keyf = get_str config ''tlsCertificateKeyFile'';
          (certs, e3) = (if certf \<noteq> [] then (case hx_LoadX509KeyPair H certf keyf of
                            None \<Rightarrow> ([(certf, keyf)], [])
                          | Some e \<Rightarrow> ([], [''not using client certificate: '' @ hx_error H e])) else ([], []));
          rootf = get_str config ''tlsRootCAsFile'';
          (roots, e4) = (if rootf \<noteq> [] then (case loadCertPool H rootf of
                            Inr pool \<Rightarrow> (Some pool, [])
                          | Inl e \<Rightarrow> (None, [''using system root CAs instead of configured CAs: '' @ hx_error H e])) else (None, []))
      in (\<lparr>cl_Timeout = seconds t, cl_InsecureSkipVerify = (case skip of Inr b \<Rightarrow> b | Inl _ \<Rightarrow> False),
           cl_Certificates = certs, cl_RootCAs = roots\<rparr>, e1 @ e2 @ e3 @ e4))"

definition code_expected :: "string \<Rightarrow> int \<Rightarrow> bool" where
  "code_expected expectCode status \<longleftrightarrow> Contains (expectCode @ '','') (show_int status @ '','')"

text \<open>The checks of a response: the first that fails gives the error.\<close>

definition check_response :: "http_exec_lib \<Rightarrow> string gomap \<Rightarrow> int \<Rightarrow> string \<Rightarrow> err" where
  "check_response H config status out =
     (if get_str config ''expectCode'' \<noteq> [] \<and> \<not> code_expected (get_str config ''expectCode'') status
      then Some (Errorf ''received response code does not match the expected code'')
      else if get_str config ''expectBody'' \<noteq> [] \<and> \<not> hx_MatchString H (get_str config ''expectBody'') out
      then Some (Errorf ''received response body did not match the expected body'')
      else None)"

text \<open>\<open>ExecuteImpl\<close>: the writes to its output buffer, and its error.\<close>

definition http_ExecuteImpl :: "http_exec_lib \<Rightarrow> string gomap \<Rightarrow> string list \<times> err" where
  "http_ExecuteImpl H config =
     (let w0 = (if get_str config ''debug'' \<noteq> [] then [''Config: '' @ hx_dump H config @ newline] else []) in
      if get_str config ''url'' = [] then (w0, Some (Errorf ''url is empty''))
      else if get_str config ''method'' = [] then (w0, Some (Errorf ''method is empty''))
      else (case hx_NewRequest H (get_str config ''method'') (get_str config ''url'') (get_str config ''body'') of
              Inl e \<Rightarrow> (w0, Some e)
            | Inr req \<Rightarrow>
                (let (headers, herr) = (if get_str config ''headers'' \<noteq> [] then hx_Unmarshal H (get_str config ''headers'') else ([], None));
                     w1 = w0 @ (if herr \<noteq> None then [''Error: parsing headers failed'' @ newline] else [])
                 in case set_headers (hx_canonical H) headers (rq_Header req) of
                      Inl e \<Rightarrow> (w1, Some e)
                    | Inr hs \<Rightarrow>
                        (let (client, warns) = createClient H config;
                             w2 = w1 @ map (\<lambda>warn. ''Warning: '' @ warn @ ''.'' @ newline) warns
                         in case hx_Do H client (req\<lparr>rq_Header := hs\<rparr>) of
                              Inl e \<Rightarrow> (w2, Some e)
                            | Inr (status, Inl e) \<Rightarrow> (w2, Some e)
                            | Inr (status, Inr out) \<Rightarrow> (w2 @ [out], check_response H config status out)))))"

text \<open>
  \<open>Execute\<close> is the same for all executors: an error of \<open>ExecuteImpl\<close> is a text in the response. A panic
  ends the plugin, and its caller gets the error of a broken connection.
\<close>

definition respond :: "(error \<Rightarrow> string) \<Rightarrow> string list \<Rightarrow> string \<Rightarrow> err \<Rightarrow> exec_result" where
  "respond error_msg updates out e =
     (case e of
        Some (Panic m) \<Rightarrow> \<lparr>er_updates = updates, er_out = None, er_err = Some (LibError m)\<rparr>
      | _ \<Rightarrow> \<lparr>er_updates = updates, er_out = Some (out, case e of None \<Rightarrow> [] | Some e' \<Rightarrow> error_msg e'), er_err = None\<rparr>)"

definition http_Execute :: "http_exec_lib \<Rightarrow> string gomap \<Rightarrow> exec_result" where
  "http_Execute H config =
     (case http_ExecuteImpl H config of (writes, e) \<Rightarrow> respond (hx_error H) [] (hx_output_of H maxBufSize writes) e)"

section \<open>The shell executor\<close>

record shell_cmd =
  sh_Args :: "string list"
  sh_Env :: "string list"
  sh_Dir :: string
  sh_Credential :: "(32 word \<times> 32 word) option"

text \<open>
  What the executor calls: the parser of go-shellwords, the environment, the users and groups of the
  system (\<open>Lookup\<close> gives the texts of the user and group numbers), and the command: the error of
  its pipe and of its start, and what it writes, with a mark for the error stream, and its end.
\<close>

record shell_lib =
  sl_windows :: bool
  sl_Parse :: "string \<Rightarrow> string list res"
  sl_Environ :: "string list"
  sl_Lookup :: "string \<Rightarrow> (string \<times> string) res"
  sl_LookupGroup :: "string \<Rightarrow> string res"
  sl_StdinPipe :: "shell_cmd \<Rightarrow> err"
  sl_Start :: "shell_cmd \<Rightarrow> string \<Rightarrow> err"
  sl_Run :: "shell_cmd \<Rightarrow> string \<Rightarrow> (string \<times> bool) list \<times> err"
  sl_output_of :: "nat \<Rightarrow> string list \<Rightarrow> string"
  sl_error :: "error \<Rightarrow> string"

definition buildCmd :: "shell_lib \<Rightarrow> string \<Rightarrow> bool \<Rightarrow> string list \<Rightarrow> string \<Rightarrow> shell_cmd res" where
  "buildCmd H command useShell env cwd =
     (case (if useShell then
              Inr (if sl_windows H then [''cmd'', ''/C'', command] else [''/bin/sh'', ''-c'', command])
            else (case sl_Parse H command of
                    Inl e \<Rightarrow> Inl e
                  | Inr [] \<Rightarrow> Inl (Panic ''index out of range'')
                  | Inr args \<Rightarrow> Inr args)) of
        Inl e \<Rightarrow> Inl e
      | Inr args \<Rightarrow> Inr \<lparr>sh_Args = args, sh_Env = sl_Environ H @ env, sh_Dir = cwd, sh_Credential = None\<rparr>)"

text \<open>A number as the code reads it: 0 if it is none, and cut to 32 bits.\<close>

definition id_word :: "string \<Rightarrow> 32 word" where
  "id_word s = (case Atoi s of Inl e \<Rightarrow> 0 | Inr i \<Rightarrow> word_of_int i)"

definition setCmdAttr :: "shell_lib \<Rightarrow> shell_cmd \<Rightarrow> string gomap \<Rightarrow> shell_cmd res" where
  "setCmdAttr H cmd config =
     (let su = get_str config ''su'' in
      if su \<noteq> [] then
        (let parts = Split su CHR '':'' in
         case sl_Lookup H (hd parts) of
           Inl e \<Rightarrow> Inl e
         | Inr (uid, ugid) \<Rightarrow>
             (case (if length parts > 1 then sl_LookupGroup H (parts ! 1) else Inr ugid) of
                Inl e \<Rightarrow> Inl e
              | Inr gid \<Rightarrow> Inr (cmd\<lparr>sh_Credential := Some (id_word uid, id_word gid)\<rparr>)))
      else Inr cmd)"

definition shell_ExecuteImpl :: "shell_lib \<Rightarrow> string gomap \<Rightarrow> (string \<times> bool) list \<times> err" where
  "shell_ExecuteImpl H config =
     (let shell = (case ParseBool (get_str config ''shell'') of Inl e \<Rightarrow> False | Inr b \<Rightarrow> b) in
      case buildCmd H (get_str config ''command'') shell (Split (get_str config ''env'') CHR '','') (get_str config ''cwd'') of
        Inl e \<Rightarrow> ([], Some e)
      | Inr cmd0 \<Rightarrow>
          (case setCmdAttr H cmd0 config of
             Inl e \<Rightarrow> ([], Some e)
           | Inr cmd \<Rightarrow>
               (case sl_StdinPipe H cmd of
                  Some e \<Rightarrow> ([], Some e)
                | None \<Rightarrow>
                    (case DecodeString (get_str config ''payload'') of
                       Inl e \<Rightarrow> ([], Some e)
                     | Inr payload \<Rightarrow>
                         (case sl_Start H cmd payload of
                            Some e \<Rightarrow> ([], Some e)
                          | None \<Rightarrow> sl_Run H cmd payload)))))"

text \<open>Each write of the command is an update, and goes to the buffer of the output.\<close>

definition shell_Execute :: "shell_lib \<Rightarrow> string gomap \<Rightarrow> exec_result" where
  "shell_Execute H config =
     (case shell_ExecuteImpl H config of
        (chunks, e) \<Rightarrow> respond (sl_error H) (map fst chunks) (sl_output_of H maxBufSize (map fst chunks)) e)"

section \<open>The RabbitMQ executor\<close>

record amqp_lib =
  mq_Dial :: "string \<Rightarrow> err"
  mq_Channel :: "string \<Rightarrow> err"
  mq_QueueDeclare :: "string \<Rightarrow> string \<Rightarrow> string res"
  mq_Publish :: "string \<Rightarrow> string \<Rightarrow> string \<Rightarrow> err"
  mq_error :: "error \<Rightarrow> string"

definition mq_body :: "string gomap \<Rightarrow> string res" where
  "mq_body config =
     (case map_of config ''base64'' of
        Some b64 \<Rightarrow> DecodeString b64
      | None \<Rightarrow> Inr (get_str config ''text''))"

definition rabbitmq_ExecuteImpl :: "amqp_lib \<Rightarrow> string gomap \<Rightarrow> err" where
  "rabbitmq_ExecuteImpl H config =
     (let broker = get_str config ''url''; queue = get_str config ''queue'' in
      if broker = [] then Some (Errorf ''url is empty'')
      else if queue = [] then Some (Errorf ''queue is empty'')
      else (case mq_Dial H broker of
              Some e \<Rightarrow> Some e
            | None \<Rightarrow>
                (case mq_Channel H broker of
                   Some e \<Rightarrow> Some e
                 | None \<Rightarrow>
                     (case mq_QueueDeclare H broker queue of
                        Inl e \<Rightarrow> Some e
                      | Inr name \<Rightarrow>
                          (case mq_body config of
                             Inl e \<Rightarrow> Some e
                           | Inr body \<Rightarrow> mq_Publish H broker name body)))))"

definition rabbitmq_Execute :: "amqp_lib \<Rightarrow> string gomap \<Rightarrow> exec_result" where
  "rabbitmq_Execute H config = respond (mq_error H) [] [] (rabbitmq_ExecuteImpl H config)"

section \<open>Failures reach the execution\<close>

lemma respond_result:
  assumes "\<And>e. error_msg e \<noteq> []"
  shows "\<exists>writes. execute_result host (respond error_msg updates out e) = Inr (e = None, writes)"
  using assms by (auto simp: respond_def execute_result_def Let_def split: option.splits error.splits)

text \<open>
  C37: No failure of an executor is lost. For the executors that come with dkron the agent records an
  execution as a success exactly if the executor returned no error, whatever the error was: a
  refused configuration, a request or command that failed, a response that was not expected, or a
  panic of the plugin.
\<close>

theorem executor_failures_recorded:
  assumes "\<And>e. hx_error H e \<noteq> []" "\<And>e. sl_error S e \<noteq> []" "\<And>e. mq_error Q e \<noteq> []"
  shows "(\<exists>writes. execute_result host (http_Execute H config) = Inr (snd (http_ExecuteImpl H config) = None, writes)) \<and>
    (\<exists>writes. execute_result host (shell_Execute S config) = Inr (snd (shell_ExecuteImpl S config) = None, writes)) \<and>
    (\<exists>writes. execute_result host (rabbitmq_Execute Q config) = Inr (rabbitmq_ExecuteImpl Q config = None, writes))"
proof (intro conjI)
  show "\<exists>writes. execute_result host (http_Execute H config) = Inr (snd (http_ExecuteImpl H config) = None, writes)"
    unfolding http_Execute_def
    using respond_result [of "hx_error H" host, OF assms(1)] by (simp split: prod.split)
  show "\<exists>writes. execute_result host (shell_Execute S config) = Inr (snd (shell_ExecuteImpl S config) = None, writes)"
    unfolding shell_Execute_def
    using respond_result [of "sl_error S" host, OF assms(2)] by (simp split: prod.split)
  show "\<exists>writes. execute_result host (rabbitmq_Execute Q config) = Inr (rabbitmq_ExecuteImpl Q config = None, writes)"
    unfolding rabbitmq_Execute_def using respond_result [of "mq_error Q" host, OF assms(3)] .
qed

section \<open>Expected codes\<close>

lemma show_nat_3:
  assumes "100 \<le> n" "n < 1000"
  shows "\<exists>a b c. show_nat n = [digit_char a, digit_char b, digit_char c] \<and> a < 10 \<and> b < 10 \<and> c < 10"
proof -
  have "100 div 10 \<le> n div 10" using assms(1) by (rule div_le_mono)
  moreover have "n div 10 div 10 = n div 100" by (simp flip: div_mult2_eq)
  moreover have "n div 100 < 10" using assms(2) by (intro less_mult_imp_div_less) simp
  ultimately have lt: "\<not> n < 10" "\<not> n div 10 < 10" "n div 10 div 10 < 10" using assms(1) by simp_all
  have "show_nat n = [digit_char (n div 10 div 10), digit_char (n div 10 mod 10), digit_char (n mod 10)]"
    using lt by (simp add: show_nat.simps [of n] show_nat.simps [of "n div 10"] show_nat.simps [of "n div 10 div 10"])
  moreover note lt(3)
  ultimately show ?thesis by (metis mod_less_divisor zero_less_numeral)
qed

lemma comma_not_digit: "d < 10 \<Longrightarrow> digit_char d \<noteq> CHR '',''"
proof
  assume "d < 10" and "digit_char d = CHR '',''"
  then have "(of_char (digit_char d) :: nat) = of_char CHR '',''" by simp
  with \<open>d < 10\<close> show False by (simp add: digit_char_def)
qed

text \<open>
  The check of the response code. For a list of codes of three digits, separated by commas, the
  search of the executor for the code and a comma in the text accepts exactly the listed codes.
\<close>

theorem code_expected_iff:
  assumes "\<forall>c \<in> set codes. 100 \<le> c \<and> c < (1000 :: int)" "codes \<noteq> []" "100 \<le> status" "status < 1000"
  shows "code_expected (Join (map show_int codes) '','') status \<longleftrightarrow> status \<in> set codes"
proof -
  have digits: "\<exists>a b c. show_int i = [digit_char a, digit_char b, digit_char c] \<and> a < 10 \<and> b < 10 \<and> c < 10"
    if "100 \<le> i" "i < 1000" for i
    using show_nat_3 [of "nat i"] that by (simp add: show_int_def)
  obtain p q r where pat: "show_int status = [digit_char p, digit_char q, digit_char r]" "p < 10" "q < 10" "r < 10"
    using digits [OF assms(3,4)] by blast
  have step: "Contains (show_int i @ CHR '','' # s) (show_int status @ '','') \<longleftrightarrow> status = i \<or> Contains s (show_int status @ '','')"
    if i: "100 \<le> i" "i < 1000" for i s
  proof -
    obtain a b c where abc: "show_int i = [digit_char a, digit_char b, digit_char c]" "a < 10" "b < 10" "c < 10"
      using digits [OF i] by blast
    have "HasPrefix (show_int i @ CHR '','' # s) (show_int status @ '','') \<longleftrightarrow> show_int i = show_int status"
      by (auto simp: abc(1) pat(1))
    moreover have "CHR '','' \<noteq> digit_char p" "CHR '','' \<noteq> digit_char q" "CHR '','' \<noteq> digit_char r"
      using comma_not_digit pat(2-4) by metis+
    ultimately show ?thesis
      using show_int_inj [of i status] by (auto simp: abc(1) pat(1))
  qed
  show ?thesis
    using assms(1,2) unfolding code_expected_def
  proof (induction codes rule: induct_list012)
    case (2 x)
    then show ?case using step [of x "[]"] pat by simp
  next
    case (3 x y zs)
    then show ?case using step [of x "Join (map show_int (y # zs)) '','' @ '',''"] by simp
  qed simp
qed


theorem code_expected_iff_witness:
  "code_expected (Join (map show_int [200, 206]) '','') 206 \<and> \<not> code_expected (Join (map show_int [200, 206]) '','') 404"
  using code_expected_iff [of "[200, 206]" 206] code_expected_iff [of "[200, 206]" 404] by simp

text \<open>A listed number that merely ends in the code is accepted as well.\<close>

lemma code_suffix_accepted: "code_expected ''9200'' 200"
proof -
  have "show_int 200 = ''200''"
  proof -
    have "digit_char 2 = CHR ''2''" "digit_char 0 = CHR ''0''" by code_simp+
    then show ?thesis by (simp add: show_int_def show_nat.simps)
  qed
  then show ?thesis by (simp add: code_expected_def HasPrefix_def)
qed

text \<open>An empty command without a shell is no error of the executor but a panic.\<close>

lemma empty_command_panics:
  assumes "sl_Parse H [] = Inr []" "get_str config ''command'' = []" "get_str config ''shell'' = []"
  shows "shell_ExecuteImpl H config = ([], Some (Panic ''index out of range''))"
  using assms by (simp add: shell_ExecuteImpl_def buildCmd_def ParseBool_def)

definition sample_shell :: shell_lib where
  "sample_shell = \<lparr>sl_windows = False, sl_Parse = (\<lambda>c. Inr (if c = [] then [] else Split c CHR '' '')), sl_Environ = [],
     sl_Lookup = (\<lambda>_. Inr (''1'', ''1'')), sl_LookupGroup = Inr, sl_StdinPipe = (\<lambda>_. None), sl_Start = (\<lambda>_ _. None),
     sl_Run = (\<lambda>_ _. ([(''hello'', False)], None)), sl_output_of = (\<lambda>_ ws. concat ws), sl_error = (\<lambda>_. ''error'')\<rparr>"

definition sample_http_exec :: http_exec_lib where
  "sample_http_exec = \<lparr>hx_dump = (\<lambda>_. []), hx_error = (\<lambda>_. ''error''),
     hx_NewRequest = (\<lambda>m u b. Inr \<lparr>rq_Method = m, rq_URL = u, rq_Header = [], rq_Body = b\<rparr>), hx_canonical = (\<lambda>k. k),
     hx_Unmarshal = (\<lambda>_. ([], None)), hx_LoadX509KeyPair = (\<lambda>_ _. None), hx_ReadFile = Inr, hx_AppendCertsFromPEM = (\<lambda>_. True),
     hx_Do = (\<lambda>_ _. Inr (200, Inr ''ok'')), hx_MatchString = (\<lambda>_ _. True), hx_output_of = (\<lambda>_ ws. concat ws)\<rparr>"

definition sample_amqp :: amqp_lib where
  "sample_amqp = \<lparr>mq_Dial = (\<lambda>_. Some (LibError ''refused'')), mq_Channel = (\<lambda>_. None), mq_QueueDeclare = (\<lambda>_. Inr),
     mq_Publish = (\<lambda>_ _ _. None), mq_error = (\<lambda>_. ''error'')\<rparr>"

theorem executor_failures_recorded_witness:
  "\<exists>writes. execute_result sample_host (shell_Execute sample_shell [(''command'', ''echo hello'')]) = Inr (True, writes)"
proof -
  let ?c = "[(''command'', ''echo hello'')]"
  have "snd (shell_ExecuteImpl sample_shell ?c) = None"
    by (simp add: shell_ExecuteImpl_def buildCmd_def setCmdAttr_def ParseBool_def sample_shell_def get_str_def DecodeString_def)
  moreover have "hx_error sample_http_exec e \<noteq> []" "sl_error sample_shell e \<noteq> []" "mq_error sample_amqp e \<noteq> []" for e
    by (simp_all add: sample_http_exec_def sample_shell_def sample_amqp_def)
  ultimately show ?thesis
    using executor_failures_recorded [of sample_http_exec sample_shell sample_amqp sample_host ?c] by simp
qed

end
