(* ===== verification/Cmd.thy ===== *)
theory Cmd
  imports Setup
begin

text \<open>
The command \<open>dkron agent\<close> (\<open>src/cmd\<close>): the tags of the command line, the configuration, the discovery of
plugins on the disk, and the signals that end the process.
\<close>

section \<open>Tags of the command line\<close>

fun unmarshal_tags :: "string list \<Rightarrow> string gomap \<Rightarrow> string gomap res" where
  "unmarshal_tags [] result = Inr result"
| "unmarshal_tags (tag # tags) result =
     (case SplitN tag CHR ''='' 2 of
        [k, v] \<Rightarrow>
          if k = [] then Inl (Errorf (''Invalid tag: '' @ tag))
          else unmarshal_tags tags (AList.update k v result)
      | _ \<Rightarrow> Inl (Errorf (''Invalid tag: '' @ tag)))"

definition UnmarshalTags :: "string list \<Rightarrow> string gomap res" where
  "UnmarshalTags tags = unmarshal_tags tags []"

definition show_tag :: "string \<times> string \<Rightarrow> string" where
  "show_tag tv = fst tv @ ''='' @ snd tv"

lemma SplitN_2: "c \<notin> set k \<Longrightarrow> SplitN (k @ c # v) c (Suc (Suc 0)) = [k, v]"
  by (induction k) auto

lemma SplitN_2_none: "c \<notin> set s \<Longrightarrow> SplitN s c (Suc (Suc 0)) = [s]"
  by (induction s) auto

lemma unmarshal_tags_show:
  "\<forall>(k, v) \<in> set tags. k \<noteq> [] \<and> CHR ''='' \<notin> set k \<Longrightarrow>
    \<exists>m. unmarshal_tags (map show_tag tags) result = Inr m \<and> map_of m = map_of result ++ map_of (rev tags)"
proof (induction tags arbitrary: result)
  case (Cons tv tags)
  obtain k v where tv: "tv = (k, v)" by fastforce
  have "SplitN (show_tag tv) CHR ''='' 2 = [k, v]" "k \<noteq> []"
    using Cons.prems by (auto simp: tv show_tag_def numeral_2_eq_2 SplitN_2)
  then have "unmarshal_tags (map show_tag (tv # tags)) result = unmarshal_tags (map show_tag tags) (AList.update k v result)"
    by simp
  moreover obtain m where "unmarshal_tags (map show_tag tags) (AList.update k v result) = Inr m"
    "map_of m = map_of (AList.update k v result) ++ map_of (rev tags)"
    using Cons.IH [of "AList.update k v result"] Cons.prems by auto
  moreover have "map_of (AList.update k v result) ++ map_of (rev tags) = map_of result ++ map_of (rev (tv # tags))"
    by (rule ext) (simp add: tv update_conv' map_add_def map_of_append split: option.splits)
  ultimately show ?case by auto
qed simp

lemma unmarshal_tags_bad:
  assumes "CHR ''='' \<notin> set tag \<or> hd tag = CHR ''=''"
  shows "isl (unmarshal_tags (pre @ tag # post) result)"
proof (induction pre arbitrary: result)
  case Nil
  show ?case
  proof (cases "CHR ''='' \<in> set tag")
    case True
    then obtain t where "tag = CHR ''='' # t" using assms by (cases tag) auto
    then show ?thesis by (simp add: numeral_2_eq_2)
  next
    case False
    then show ?thesis by (simp add: numeral_2_eq_2 SplitN_2_none)
  qed
next
  case (Cons a pre)
  then show ?case by (auto split: list.splits)
qed

text \<open>
  Tags of the command line. Tags written as \<open>key=value\<close> are read back as the map they were
  written from, the value may contain further equality signs, a later tag wins over an earlier
  one with the same key; a tag without an equality sign or without a key makes the whole list fail.
\<close>

theorem UnmarshalTags_reads:
  "((\<forall>(k, v) \<in> set tags. k \<noteq> [] \<and> CHR ''='' \<notin> set k) \<longrightarrow>
      (\<exists>m. UnmarshalTags (map show_tag tags) = Inr m \<and> map_of m = map_of (rev tags))) \<and>
   (\<forall>bad \<in> set lines. (CHR ''='' \<notin> set bad \<or> hd bad = CHR ''='') \<longrightarrow> isl (UnmarshalTags lines))"
proof (intro conjI impI ballI)
  assume "\<forall>(k, v) \<in> set tags. k \<noteq> [] \<and> CHR ''='' \<notin> set k"
  from unmarshal_tags_show [OF this, of "[]"] show "\<exists>m. UnmarshalTags (map show_tag tags) = Inr m \<and> map_of m = map_of (rev tags)"
    by (simp add: UnmarshalTags_def)
next
  fix bad assume "bad \<in> set lines" "CHR ''='' \<notin> set bad \<or> hd bad = CHR ''=''"
  then show "isl (UnmarshalTags lines)"
    using unmarshal_tags_bad by (auto simp: UnmarshalTags_def dest!: split_list)
qed

theorem UnmarshalTags_reads_witness:
  "\<exists>m. UnmarshalTags [''role=web'', ''opts=a=b'', ''role=db''] = Inr m \<and> map_of m ''role'' = Some ''db'' \<and>
     map_of m ''opts'' = Some ''a=b'' \<and> isl (UnmarshalTags [''role=web'', ''role''])"
proof -
  let ?t = "[(''role'', ''web''), (''opts'', ''a=b''), (''role'', ''db'')]"
  have "\<exists>m. UnmarshalTags (map show_tag ?t) = Inr m \<and> map_of m = map_of (rev ?t)"
    using UnmarshalTags_reads [of ?t "[]"] by simp
  moreover have "isl (UnmarshalTags [''role=web'', ''role''])"
    using UnmarshalTags_reads [of "[]" "[''role=web'', ''role'']"] by simp
  ultimately show ?thesis by (auto simp: show_tag_def)
qed

section \<open>The configuration of the command\<close>

text \<open>
  \<open>initConfig\<close>: \<open>unmarshal\<close> is what viper decodes into the configuration, \<open>cliTags\<close> the flags \<open>tag\<close> and
  \<open>fileTags\<close> the tags of the file. An error ends the process.
\<close>

definition initConfig :: "(config \<Rightarrow> config res) \<Rightarrow> string list \<Rightarrow> string gomap \<Rightarrow> config \<Rightarrow> config res" where
  "initConfig unmarshal cliTags fileTags c =
     (case unmarshal c of
        Inl e \<Rightarrow> Inl (Panic ''log.Fatal'')
      | Inr c1 \<Rightarrow>
          (case (if length cliTags > 0 then UnmarshalTags cliTags else Inr fileTags) of
             Inl e \<Rightarrow> Inl (Panic ''log.Fatal'')
           | Inr tags \<Rightarrow> Inr (c1\<lparr>cfg_Tags := tags\<rparr>)))"

section \<open>Plugins on the disk\<close>

text \<open>\<open>path.Base\<close>.\<close>

definition path_Base :: "string \<Rightarrow> string" where
  "path_Base p =
     (if p = [] then ''.''
      else (let q = rev (dropWhile (\<lambda>c. c = CHR ''/'') (rev p));
                b = rev (takeWhile (\<lambda>c. c \<noteq> CHR ''/'') (rev q))
            in if b = [] then ''/'' else b))"

definition getPluginName :: "string \<Rightarrow> string option" where
  "getPluginName path =
     (case SplitN (path_Base path) CHR ''-'' 3 of
        [_, _, p] \<Rightarrow> Some (TrimSuffix p ''.exe'')
      | _ \<Rightarrow> None)"

text \<open>\<open>factory\<close> is \<open>pluginFactory\<close>, which starts the plugin; its type is processor or executor.\<close>

fun load_plugins :: "(string \<Rightarrow> 'p res) \<Rightarrow> string list \<Rightarrow> 'p gomap \<Rightarrow> 'p gomap res" where
  "load_plugins factory [] m = Inr m"
| "load_plugins factory (f # fs) m =
     (case getPluginName f of
        None \<Rightarrow> load_plugins factory fs m
      | Some name \<Rightarrow>
          (case factory f of
             Inl e \<Rightarrow> Inl e
           | Inr raw \<Rightarrow> load_plugins factory fs (AList.update name raw m)))"

record 'p plugin_lib =
  pl_Discover :: "string \<Rightarrow> string \<Rightarrow> string list res"
  pl_Executable :: "string res"
  pl_Dir :: "string \<Rightarrow> string"
  pl_factory :: "string \<Rightarrow> string \<Rightarrow> 'p res"

definition etc_plugins :: string where "etc_plugins = ''/etc/dkron/plugins''"

definition DiscoverPlugins :: "'p plugin_lib \<Rightarrow> ('p gomap \<times> 'p gomap) res" where
  "DiscoverPlugins P =
     bind_res (pl_Discover P ''dkron-processor-*'' etc_plugins) (\<lambda>ps0.
     bind_res (pl_Discover P ''dkron-executor-*'' etc_plugins) (\<lambda>es0.
     bind_res (case pl_Executable P of
                 Inl e \<Rightarrow> Inr (ps0, es0)
               | Inr exe \<Rightarrow>
                   bind_res (pl_Discover P ''dkron-processor-*'' (pl_Dir P exe)) (\<lambda>ps1.
                   bind_res (pl_Discover P ''dkron-executor-*'' (pl_Dir P exe)) (\<lambda>es1. Inr (ps0 @ ps1, es0 @ es1)))) (\<lambda>(ps, es).
     bind_res (load_plugins (\<lambda>f. pl_factory P f ''processor'') ps []) (\<lambda>processors.
     bind_res (load_plugins (\<lambda>f. pl_factory P f ''executor'') es []) (\<lambda>executors.
     Inr (processors, executors))))))"

text \<open>The last file with a name.\<close>

definition last_named :: "string list \<Rightarrow> string \<Rightarrow> string option" where
  "last_named fs name = List.find (\<lambda>f. getPluginName f = Some name) (rev fs)"

lemma last_named_Cons:
  "last_named (f # fs) name = (case last_named fs name of Some g \<Rightarrow> Some g
     | None \<Rightarrow> if getPluginName f = Some name then Some f else None)"
proof -
  have "List.find P (xs @ [x]) = (case List.find P xs of Some y \<Rightarrow> Some y | None \<Rightarrow> if P x then Some x else None)" for P xs and x :: string
    by (induction xs) simp_all
  then show ?thesis by (simp add: last_named_def)
qed

lemma load_plugins_last:
  "load_plugins factory fs m = Inr m' \<Longrightarrow>
     map_of m' name = (case last_named fs name of None \<Rightarrow> map_of m name | Some f \<Rightarrow> (case factory f of Inr p \<Rightarrow> Some p | Inl _ \<Rightarrow> None))"
proof (induction fs arbitrary: m)
  case Nil
  then show ?case by (simp add: last_named_def)
next
  case (Cons f fs)
  then show ?case
    by (auto simp: last_named_Cons update_conv' split: option.splits sum.splits)
qed

text \<open>
  Whichever plugin is found last wins. When the discovery succeeds, the processor and the
  executor of a name are those of the last file with that name, the files beside the program coming
  after those of the configuration directory; a name no file has is not registered.
\<close>

theorem DiscoverPlugins_last_wins:
  assumes "DiscoverPlugins P = Inr (processors, executors)" "pl_Executable P = Inr exe"
  shows "\<exists>ps0 ps1 es0 es1. pl_Discover P ''dkron-processor-*'' etc_plugins = Inr ps0 \<and>
    pl_Discover P ''dkron-processor-*'' (pl_Dir P exe) = Inr ps1 \<and>
    pl_Discover P ''dkron-executor-*'' etc_plugins = Inr es0 \<and> pl_Discover P ''dkron-executor-*'' (pl_Dir P exe) = Inr es1 \<and>
    (\<forall>name. map_of processors name = (case last_named (ps0 @ ps1) name of None \<Rightarrow> None
       | Some f \<Rightarrow> (case pl_factory P f ''processor'' of Inr p \<Rightarrow> Some p | Inl _ \<Rightarrow> None))) \<and>
    (\<forall>name. map_of executors name = (case last_named (es0 @ es1) name of None \<Rightarrow> None
       | Some f \<Rightarrow> (case pl_factory P f ''executor'' of Inr p \<Rightarrow> Some p | Inl _ \<Rightarrow> None)))"
proof -
  obtain ps0 ps1 es0 es1 where d: "pl_Discover P ''dkron-processor-*'' etc_plugins = Inr ps0"
    "pl_Discover P ''dkron-processor-*'' (pl_Dir P exe) = Inr ps1"
    "pl_Discover P ''dkron-executor-*'' etc_plugins = Inr es0" "pl_Discover P ''dkron-executor-*'' (pl_Dir P exe) = Inr es1"
    and p: "load_plugins (\<lambda>f. pl_factory P f ''processor'') (ps0 @ ps1) [] = Inr processors"
    and e: "load_plugins (\<lambda>f. pl_factory P f ''executor'') (es0 @ es1) [] = Inr executors"
    using assms by (auto simp: DiscoverPlugins_def bind_res_Inr_conv)
  show ?thesis
    using d load_plugins_last [OF p, unfolded map_of.simps(1)] load_plugins_last [OF e, unfolded map_of.simps(1)] by (intro exI conjI allI) simp_all
qed


definition sample_plugins :: "string plugin_lib" where
  "sample_plugins = \<lparr>pl_Discover = (\<lambda>pattern dir. Inr (if pattern = ''dkron-executor-*'' then [dir @ ''/dkron-executor-shell''] else [])),
     pl_Executable = Inr ''/usr/bin/dkron'', pl_Dir = (\<lambda>_. ''/usr/bin''), pl_factory = (\<lambda>f _. Inr f)\<rparr>"

lemma sample_names:
  "getPluginName ''/etc/dkron/plugins/dkron-executor-shell'' = Some ''shell''"
  "getPluginName ''/usr/bin/dkron-executor-shell'' = Some ''shell''"
  by code_simp+

theorem DiscoverPlugins_last_wins_witness:
  "\<exists>processors executors. DiscoverPlugins sample_plugins = Inr (processors, executors) \<and>
     map_of executors ''shell'' = Some ''/usr/bin/dkron-executor-shell''"
proof -
  obtain ps es where run: "DiscoverPlugins sample_plugins = Inr (ps, es)"
    by (simp add: DiscoverPlugins_def sample_plugins_def etc_plugins_def sample_names)
  have "pl_Executable sample_plugins = Inr ''/usr/bin/dkron''" by (simp add: sample_plugins_def)
  from DiscoverPlugins_last_wins [OF run this]
  have "map_of es ''shell'' = (case last_named [''/etc/dkron/plugins/dkron-executor-shell'', ''/usr/bin/dkron-executor-shell''] ''shell''
      of None \<Rightarrow> None | Some f \<Rightarrow> Some f)"
    by (auto simp: sample_plugins_def etc_plugins_def split: option.splits)
  then show ?thesis using run by (simp add: last_named_def sample_names)
qed

section \<open>Signals\<close>

text \<open>
  What the main loop waits for: a signal, an error of the retried join, or the shutdown channel.
  \<open>reload\<close> is the effect of reading the configuration again.
\<close>

datatype wakeup = SIGHUP | SIGTERM | Interrupt | OtherSignal | RetryJoinFailed error | ShutdownClosed

datatype exit_action = Reload | StopAgent | CleanupClients

text \<open>
  The wait for the running jobs: \<open>running i\<close> is their number when it is looked at the \<open>i\<close>-th time,
  once a second. It ends at the first time there is none.
\<close>

fun wait_jobs :: "nat \<Rightarrow> (nat \<Rightarrow> nat) \<Rightarrow> nat \<Rightarrow> nat option" where
  "wait_jobs 0 running i = None"
| "wait_jobs (Suc n) running i = (if running i < 1 then Some i else wait_jobs n running (Suc i))"

text \<open>
  \<open>handleSignals\<close>: the exit code and the actions, \<open>None\<close> when it is still waiting. After the wait the
  channel of the graceful end is closed, and one of the channels that are ready is chosen: if
  another signal has come meanwhile, \<open>other\<close> tells whether it is taken instead.
\<close>

fun handleSignals :: "nat \<Rightarrow> (nat \<Rightarrow> nat) \<Rightarrow> bool \<Rightarrow> wakeup list \<Rightarrow> (int \<times> exit_action list) option" where
  "handleSignals fuel running other [] = None"
| "handleSignals fuel running other (ev # evs) =
     (case ev of
        RetryJoinFailed e \<Rightarrow> Some (1, [])
      | SIGHUP \<Rightarrow>
          (case handleSignals fuel running other evs of
             None \<Rightarrow> None | Some (code, acts) \<Rightarrow> Some (code, Reload # acts))
      | OtherSignal \<Rightarrow> Some (1, [])
      | _ \<Rightarrow>
          (case wait_jobs fuel running 0 of
             None \<Rightarrow> None
           | Some i \<Rightarrow> Some (if other \<and> evs \<noteq> [] then 1 else 0, [StopAgent, CleanupClients])))"

lemma wait_jobs_Some: "wait_jobs n running i = Some k \<Longrightarrow> i \<le> k \<and> k < i + n \<and> running k = 0"
  by (induction n arbitrary: i) (fastforce split: if_splits)+

lemma wait_jobs_ends: "running k = 0 \<Longrightarrow> i \<le> k \<Longrightarrow> k < i + n \<Longrightarrow> \<exists>j. wait_jobs n running i = Some j"
proof (induction n arbitrary: i)
  case (Suc n)
  show ?case
  proof (cases "running i < 1")
    case False
    then have "i \<noteq> k" using Suc.prems(1) by auto
    then have "Suc i \<le> k" using Suc.prems(2) by auto
    then show ?thesis using Suc.IH [of "Suc i"] Suc.prems False by simp
  qed simp
qed simp

text \<open>
  A graceful end waits for the running jobs. The process ends with code 0 only after a moment at
  which no job was running, and after the agent was asked to stop; it ends within any bound of time
  at which the jobs have finished. There is no other bound: while a job keeps running, no further
  signal and no timeout ends the process.
\<close>

theorem graceful_exit_waits:
  "(\<forall>acts. handleSignals fuel running other evs = Some (0, acts) \<longrightarrow>
      StopAgent \<in> set acts \<and> (\<exists>k < fuel. running k = 0)) \<and>
   (\<forall>k. running k = 0 \<longrightarrow> k < fuel \<longrightarrow> handleSignals fuel running other (SIGTERM # evs) \<noteq> None) \<and>
   ((\<forall>k. running k > 0) \<longrightarrow> handleSignals fuel running other (SIGTERM # evs) = None)"
proof (intro conjI allI impI)
  fix acts
  assume "handleSignals fuel running other evs = Some (0, acts)"
  then have "StopAgent \<in> set acts \<and> (\<exists>k < fuel. running k = 0)"
  proof (induction evs arbitrary: acts)
    case (Cons ev evs)
    then show ?case
      by (cases ev) (auto split: option.splits if_splits dest!: wait_jobs_Some)
  qed simp
  then show "StopAgent \<in> set acts" "\<exists>k < fuel. running k = 0" by blast+
next
  fix k assume "running k = 0" "k < fuel"
  then show "handleSignals fuel running other (SIGTERM # evs) \<noteq> None"
    using wait_jobs_ends [of running k 0 fuel] by auto
next
  assume "\<forall>k. running k > 0"
  then have "wait_jobs fuel running 0 = None"
    using wait_jobs_Some [of fuel running 0] by (metis less_irrefl option.exhaust)
  then show "handleSignals fuel running other (SIGTERM # evs) = None" by simp
qed

theorem graceful_exit_waits_witness:
  "handleSignals 5 (\<lambda>i. 2 - i) False [SIGHUP, SIGTERM] = Some (0, [Reload, StopAgent, CleanupClients]) \<and>
   (\<exists>k < 5. 2 - k = (0 :: nat)) \<and> handleSignals 5 (\<lambda>_. 1) True [SIGTERM, SIGTERM] = None"
proof -
  have run: "handleSignals 5 (\<lambda>i. 2 - i) False [SIGHUP, SIGTERM] = Some (0, [Reload, StopAgent, CleanupClients])" by code_simp
  then have "\<exists>k < 5. 2 - k = (0 :: nat)"
    using graceful_exit_waits [of 5 "\<lambda>i. 2 - i" False "[SIGHUP, SIGTERM]"] by blast
  moreover have "handleSignals 5 (\<lambda>_. 1) True [SIGTERM, SIGTERM] = None"
    using graceful_exit_waits [of 5 "\<lambda>_. 1" True "[SIGTERM]"] by simp
  ultimately show ?thesis using run by blast
qed

end
