(* ===== verification/Plugin_Transport.thy ===== *)
theory Plugin_Transport
  imports Plugins Cmd
begin

text \<open>

The transport of plugins (\<open>src/plugin\<close>, and \<open>pluginFactory\<close> of \<open>src/cmd/plugins.go\<close>): executors and their
status helpers over gRPC, processors over net/rpc, and how plugin processes are served and started.
gRPC, the broker and the handshake of go-plugin are parameters, with their promises as locales.

\<close>

section \<open>Executors\<close>

text \<open>The messages of \<open>src/plugin/types/executor.pb.go\<close>: a request, and the output and error text of a response.\<close>

record exec_request =
  xr_JobName :: string
  xr_Config :: "string gomap"
  xr_StatusServer :: "32 word"

type_synonym exec_response = "string \<times> string"

text \<open>
  The interface \<open>Executor\<close>. While it runs, an executor calls \<open>Update\<close> of its status helper and goes on
  with what that returned; in the end it returns a response (\<open>None\<close> is nil) and an error.
\<close>

datatype activity =
    Returns "exec_response option" err
  | Calls_Update string bool "int \<times> err \<Rightarrow> activity"

text \<open>The interface \<open>StatusHelper\<close>, over the state \<open>'w\<close> of the process that implements it.\<close>

type_synonym 'w status_helper = "'w \<Rightarrow> string \<Rightarrow> bool \<Rightarrow> (int \<times> err) \<times> 'w"

primrec execute_with :: "'w status_helper \<Rightarrow> activity \<Rightarrow> 'w \<Rightarrow> (exec_response option \<times> err) \<times> 'w" where
  "execute_with update (Returns r e) = (\<lambda>w. ((r, e), w))"
| "execute_with update (Calls_Update b c k) =
     (\<lambda>w. case update w b c of (r, w') \<Rightarrow> execute_with update (k r) w')"

section \<open>Status updates over gRPC\<close>

text \<open>
  The handler of the agent and the stub of the plugin. A handler of gRPC takes a message and returns a
  message and an error; \<open>call\<close> is the call of the generated stub on a connection to a server.
\<close>

type_synonym ('q, 'a, 'w) handler = "'w \<Rightarrow> 'q \<Rightarrow> ('a option \<times> err) \<times> 'w"
type_synonym ('q, 'a, 'w) stub = "('q, 'a, 'w) handler \<Rightarrow> 'w \<Rightarrow> 'q \<Rightarrow> 'a res \<times> 'w"

definition StatusHelperServer_Update :: "'w status_helper \<Rightarrow> (string \<times> bool, int, 'w) handler" where
  "StatusHelperServer_Update impl w req =
     (case impl w (fst req) (snd req) of
        ((r, Some e), w') \<Rightarrow> ((None, Some e), w')
      | ((r, None), w') \<Rightarrow> ((Some r, None), w'))"

definition StatusHelperClient_Update ::
    "(string \<times> bool, int, 'w) stub \<Rightarrow> (string \<times> bool, int, 'w) handler \<Rightarrow> 'w status_helper" where
  "StatusHelperClient_Update call server w b c =
     (case call server w (b, c) of
        (Inl e, w') \<Rightarrow> ((0, Some e), w')
      | (Inr r, w') \<Rightarrow> ((r, None), w'))"

section \<open>Executing over gRPC\<close>

text \<open>
  The broker of go-plugin hands out identifiers, serves a gRPC server under one of them and connects to
  what is served under one of them. \<open>'b\<close> is its state.
\<close>

record ('b, 'w) broker =
  br_NextId :: "'b \<Rightarrow> 32 word \<times> 'b"
  br_AcceptAndServe :: "'b \<Rightarrow> 32 word \<Rightarrow> (string \<times> bool, int, 'w) handler \<Rightarrow> err \<times> 'b"
  br_Dial :: "'b \<Rightarrow> 32 word \<Rightarrow> (string \<times> bool, int, 'w) handler res"
  br_Stop :: "'b \<Rightarrow> 32 word \<Rightarrow> 'b"

definition ExecutorServer_Execute ::
    "(string \<times> bool, int, 'w) stub \<Rightarrow> ('b, 'w) broker \<Rightarrow> (exec_request \<Rightarrow> activity) \<Rightarrow> 'b \<Rightarrow>
     (exec_request, exec_response, 'w) handler" where
  "ExecutorServer_Execute call_Update B impl b w req =
     (case br_Dial B b (xr_StatusServer req) of
        Inl e \<Rightarrow> ((None, Some e), w)
      | Inr server \<Rightarrow> execute_with (StatusHelperClient_Update call_Update server) (impl req) w)"

text \<open>
  \<open>AcceptAndServe\<close> runs in a goroutine of its own: it may have accepted before the plugin connects, only
  before the call has returned, or not even then.
\<close>

datatype accept_moment = Before_dial | Before_stop | After_stop

definition ExecutorClient_Execute ::
    "(string \<times> bool, int, 'w) stub \<Rightarrow> (exec_request, exec_response, 'w) stub \<Rightarrow> ('b, 'w) broker \<Rightarrow>
     accept_moment \<Rightarrow> (exec_request \<Rightarrow> activity) \<Rightarrow> 'b \<Rightarrow> 'w \<Rightarrow> exec_request \<Rightarrow> 'w status_helper \<Rightarrow>
     (exec_response option \<times> err) \<times> 'b \<times> 'w" where
  "ExecutorClient_Execute call_Update call_Execute B moment impl b w args cb =
     (let statusHelperServer = StatusHelperServer_Update cb in
      case br_NextId B b of
        (brokerID, b1) \<Rightarrow>
          (case br_AcceptAndServe B b1 brokerID statusHelperServer of
             (accepted, b2) \<Rightarrow>
               (let at_dial = (if moment = Before_dial then b2 else b1);
                    at_stop = (if moment = After_stop then b1 else b2)
                in case call_Execute (ExecutorServer_Execute call_Update B impl at_dial) w
                          (args\<lparr>xr_StatusServer := brokerID\<rparr>) of
                     (r, w') \<Rightarrow>
                       if moment = After_stop \<or> accepted \<noteq> None
                       then ((None, Some (Panic ''nil pointer dereference'')), at_stop, w')
                       else ((case r of Inl e \<Rightarrow> (None, Some e) | Inr out \<Rightarrow> (Some out, None)),
                             br_Stop B b2 brokerID, w'))))"

section \<open>What the libraries promise\<close>

text \<open>
  A working connection of gRPC: the handler gets the message that was sent and its reply gets back, and
  an error of the handler is a status error of the caller, who then gets no message.
\<close>

locale grpc_connection =
  fixes call :: "('q, 'a, 'w) stub"
    and status :: "error \<Rightarrow> error"
  assumes call_reply: "server w q = ((Some r, None), w') \<Longrightarrow> call server w q = (Inr r, w')"
    and call_error: "server w q = ((r', Some e), w') \<Longrightarrow> call server w q = (Inl (status e), w')"

text \<open>The broker: what is accepted under an identifier is what connections to it reach.\<close>

locale plugin_broker =
  fixes B :: "('b, 'w) broker"
  assumes dial_fresh: "br_NextId B b = (i, b') \<Longrightarrow> \<exists>e. br_Dial B b' i = Inl e"
    and dial_accepted: "br_AcceptAndServe B b i s = (None, b') \<Longrightarrow> br_Dial B b' i = Inr s"
    and dial_refused: "br_AcceptAndServe B b i s = (Some e, b') \<Longrightarrow> br_Dial B b' i = br_Dial B b i"

text \<open>How a status helper appears through a connection: no value comes with an error.\<close>

definition remote_helper :: "(error \<Rightarrow> error) \<Rightarrow> 'w status_helper \<Rightarrow> 'w status_helper" where
  "remote_helper status cb w b c =
     (case cb w b c of
        ((r, Some e), w') \<Rightarrow> ((0, Some (status e)), w')
      | ((r, None), w') \<Rightarrow> ((r, None), w'))"

definition remote_reply :: "(error \<Rightarrow> error) \<Rightarrow> exec_response option \<times> err \<Rightarrow> exec_response option \<times> err" where
  "remote_reply status = (\<lambda>(r, e). case e of None \<Rightarrow> (r, None) | Some e' \<Rightarrow> (None, Some (status e')))"

text \<open>An executor that never returns nil without an error.\<close>

primrec replies :: "activity \<Rightarrow> bool" where
  "replies (Returns r e) \<longleftrightarrow> r \<noteq> None \<or> e \<noteq> None"
| "replies (Calls_Update b c k) \<longleftrightarrow> (\<forall>x. replies (k x))"

locale plugin_transport =
  update: grpc_connection call_Update status + execute: grpc_connection call_Execute status + plugin_broker B
  for call_Update :: "(string \<times> bool, int, 'w) stub" and call_Execute :: "(exec_request, exec_response, 'w) stub"
    and status :: "error \<Rightarrow> error" and B :: "('b, 'w) broker"
begin

lemma Update_remote:
  "StatusHelperClient_Update call_Update (StatusHelperServer_Update cb) = remote_helper status cb"
proof (intro ext)
  fix w b c
  obtain r e w' where cb: "cb w b c = ((r, e), w')" by (metis surj_pair)
  show "StatusHelperClient_Update call_Update (StatusHelperServer_Update cb) w b c = remote_helper status cb w b c"
  proof (cases e)
    case None
    with cb have "StatusHelperServer_Update cb w (b, c) = ((Some r, None), w')"
      by (simp add: StatusHelperServer_Update_def)
    with None cb show ?thesis
      by (simp add: update.call_reply StatusHelperClient_Update_def remote_helper_def)
  next
    case (Some e')
    with cb have "StatusHelperServer_Update cb w (b, c) = ((None, Some e'), w')"
      by (simp add: StatusHelperServer_Update_def)
    with Some cb show ?thesis
      by (simp add: update.call_error StatusHelperClient_Update_def remote_helper_def)
  qed
qed

lemma Execute_call:
  assumes "server w q = ((r, e), w')" "r \<noteq> None \<or> e \<noteq> None"
  shows "call_Execute server w q = (case remote_reply status (r, e) of
      (out, Some e') \<Rightarrow> (Inl e', w') | (out, None) \<Rightarrow> (Inr (the out), w'))"
  using assms by (cases e) (auto simp: remote_reply_def execute.call_reply execute.call_error)

lemma Execute_dial_fails:
  assumes "br_Dial B b (xr_StatusServer q) = Inl e"
  shows "call_Execute (ExecutorServer_Execute call_Update B impl b) w q = (Inl (status e), w)"
  using assms by (intro execute.call_error [where r' = None]) (simp add: ExecutorServer_Execute_def)

end

lemma execute_with_replies:
  assumes "replies a" "execute_with update a w = ((r, e), w')"
  shows "r \<noteq> None \<or> e \<noteq> None"
  using assms
proof (induction a arbitrary: w)
  case (Calls_Update b c k)
  obtain x w1 where "update w b c = (x, w1)" by fastforce
  with Calls_Update.prems have "execute_with update (k x) w1 = ((r, e), w')" "replies (k x)"
    using \<open>update w b c = (x, w1)\<close> by (simp, cases x, simp)
  then show ?case by (rule Calls_Update.IH [OF rangeI, rotated])
qed auto

lemma remote_helper_no_errors:
  assumes "\<And>w b c. snd (fst (cb w b c)) = None"
  shows "remote_helper status cb = cb"
proof (intro ext)
  fix w b c
  obtain r w' where "cb w b c = ((r, None), w')" using assms by (metis prod.collapse)
  then show "remote_helper status cb w b c = cb w b c" by (simp add: remote_helper_def)
qed

context plugin_transport
begin

lemma Execute_served:
  assumes id: "br_NextId B b = (i, b1)" and acc: "br_AcceptAndServe B b1 i (StatusHelperServer_Update cb) = (None, b2)"
    and rep: "replies (impl (args\<lparr>xr_StatusServer := i\<rparr>))"
    and run: "execute_with (remote_helper status cb) (impl (args\<lparr>xr_StatusServer := i\<rparr>)) w = (r, w')"
  shows "ExecutorClient_Execute call_Update call_Execute B Before_dial impl b w args cb =
    (remote_reply status r, br_Stop B b2 i, w')"
proof -
  let ?q = "args\<lparr>xr_StatusServer := i\<rparr>"
  obtain out e where r: "r = (out, e)" by fastforce
  have "ExecutorServer_Execute call_Update B impl b2 w ?q = ((out, e), w')"
    using run by (simp add: ExecutorServer_Execute_def dial_accepted [OF acc] Update_remote r)
  moreover have ok: "out \<noteq> None \<or> e \<noteq> None" by (rule execute_with_replies [OF rep run [unfolded r]])
  ultimately have "call_Execute (ExecutorServer_Execute call_Update B impl b2) w ?q =
      (case remote_reply status r of (out, Some e') \<Rightarrow> (Inl e', w') | (out, None) \<Rightarrow> (Inr (the out), w'))"
    unfolding r by (rule Execute_call)
  then show ?thesis
    using ok by (auto simp: ExecutorClient_Execute_def Let_def id acc r remote_reply_def split: option.splits)
qed

lemma Execute_unserved:
  assumes id: "br_NextId B b = (i, b1)" and acc: "br_AcceptAndServe B b1 i (StatusHelperServer_Update cb) = (a, b2)"
    and m: "moment \<noteq> Before_dial \<or> a \<noteq> None"
  shows "\<exists>e b'. ExecutorClient_Execute call_Update call_Execute B moment impl b w args cb =
    ((None, Some (if moment = After_stop \<or> a \<noteq> None then Panic ''nil pointer dereference'' else status e)), b', w)"
proof -
  obtain e where e: "br_Dial B b1 i = Inl e" using dial_fresh [OF id] by blast
  have d: "br_Dial B (if moment = Before_dial then b2 else b1) i = Inl e"
    using m acc e dial_refused [of b1 i _ _ b2] by (cases a) auto
  have "call_Execute (ExecutorServer_Execute call_Update B impl (if moment = Before_dial then b2 else b1)) w
      (args\<lparr>xr_StatusServer := i\<rparr>) = (Inl (status e), w)"
    by (rule Execute_dial_fails) (simp add: d)
  then show ?thesis by (auto simp: ExecutorClient_Execute_def Let_def id acc)
qed

end

section \<open>Reference libraries\<close>

definition ref_stub :: "('q, 'a, 'w) stub" where
  "ref_stub server w q =
     (case server w q of
        ((r, Some e), w') \<Rightarrow> (Inl e, w')
      | ((Some r, None), w') \<Rightarrow> (Inr r, w')
      | ((None, None), w') \<Rightarrow> (Inl (LibError ''proto: Marshal called with nil''), w'))"

text \<open>Identifiers are counted up; after a wrap-around an identifier that is still served is refused.\<close>

definition ref_broker :: "(32 word \<times> (32 word \<times> (string \<times> bool, int, 'w) handler) list, 'w) broker" where
  "ref_broker =
     \<lparr>br_NextId = (\<lambda>(n, ss). (n + 1, n + 1, filter (\<lambda>(i, s). i \<noteq> n + 1) ss)),
      br_AcceptAndServe = (\<lambda>(n, ss) i s. (None, n, (i, s) # ss)),
      br_Dial = (\<lambda>(n, ss) i. case map_of ss i of None \<Rightarrow> Inl (LibError ''timeout waiting for connection info'') | Some s \<Rightarrow> Inr s),
      br_Stop = (\<lambda>(n, ss) i. (n, filter (\<lambda>(j, s). j \<noteq> i) ss))\<rparr>"

interpretation ref_transport: plugin_transport ref_stub ref_stub "\<lambda>e. e" ref_broker
  by unfold_locales
    (auto simp: ref_stub_def ref_broker_def map_of_eq_None_iff split: option.splits)

section \<open>The executors of dkron behind the transport\<close>

text \<open>\<open>statusAgentHelper.Update\<close>, with the messages sent so far; \<open>send\<close> is the outcome of sending one.\<close>

definition statusAgentHelper_Update :: "(pb_execution \<Rightarrow> err) \<Rightarrow> pb_execution \<Rightarrow> pb_execution list status_helper" where
  "statusAgentHelper_Update send x sent b c = ((0, send (helper_update x b)), sent @ [helper_update x b])"

text \<open>
  An executor that does not look at what \<open>Update\<close> returns, as those that come with dkron: it sends parts of its
  output, each with the flag of \<open>Update\<close> that the shell executor sets for what comes from the standard error,
  and returns.
\<close>

primrec ignores_updates :: "activity \<Rightarrow> bool" where
  "ignores_updates (Returns r e) \<longleftrightarrow> True"
| "ignores_updates (Calls_Update b c k) \<longleftrightarrow> (\<forall>x y. k x = k y) \<and> (\<forall>x. ignores_updates (k x))"

definition reports :: "(string \<times> bool) list \<Rightarrow> exec_response option \<times> err \<Rightarrow> activity" where
  "reports us r = foldr (\<lambda>(b, c) k. Calls_Update b c (\<lambda>_. k)) us (Returns (fst r) (snd r))"

lemma reports_ok: "replies (reports us r) \<longleftrightarrow> fst r \<noteq> None \<or> snd r \<noteq> None" "ignores_updates (reports us r)"
  by (induction us) (auto simp: reports_def)

text \<open>In the process of the agent such an executor sends the updates that \<open>server_AgentRun\<close> has for its result.\<close>

lemma execute_with_reports:
  "execute_with (statusAgentHelper_Update send x) (reports us r) sent = (r, sent @ map (helper_update x) (map fst us))"
  by (induction us arbitrary: sent) (auto simp: reports_def statusAgentHelper_Update_def)

lemma execute_with_remote:
  assumes "ignores_updates a \<or> (\<forall>w b c. snd (fst (cb w b c)) = None)"
  shows "execute_with (remote_helper status cb) a w = execute_with cb a w"
proof (cases "\<forall>w b c. snd (fst (cb w b c)) = None")
  case False
  have same: "snd (remote_helper status cb w b c) = snd (cb w b c)" for w b c
    by (simp add: remote_helper_def split: prod.splits option.splits)
  from False assms have "ignores_updates a" by blast
  then show ?thesis
  proof (induction a arbitrary: w)
    case (Calls_Update b c k)
    obtain x w1 where x: "cb w b c = (x, w1)" by fastforce
    obtain y where y: "remote_helper status cb w b c = (y, w1)" using same [of w b c] x by (metis prod.collapse snd_conv)
    have "ignores_updates (k x)" using Calls_Update.prems by (cases x) auto
    then have "execute_with (remote_helper status cb) (k x) w1 = execute_with cb (k x) w1"
      by (rule Calls_Update.IH [OF rangeI])
    moreover have "k y = k x" using Calls_Update.prems by (cases x, cases y) auto
    ultimately show ?case by (simp add: x y)
  qed simp
qed (simp add: remote_helper_no_errors)

text \<open>
  C25: The transport of executor plugins is transparent up to errors. Take any executor that never returns nil without
  an error, and a status helper whose updates do not fail unless the executor ignores what they return. When the
  agent has its status server accepted before the plugin connects, running the executor in a plugin process calls
  the status helper with the same outputs and flags in the same order as running it in the process of the agent,
  and returns the same response if there is no error; with an error the response is lost, and the error comes back
  as a status error. When the server is accepted too late the call fails and the executor has not run; when it is
  not accepted at all, or only after the call, the agent dereferences a nil server.
\<close>

theorem plugin_execution_transparent:
  assumes T: "plugin_transport call_Update call_Execute status B"
    and id: "br_NextId B b = (i, b1)"
    and acc: "br_AcceptAndServe B b1 i (StatusHelperServer_Update cb) = (a, b2)"
    and rep: "replies (impl (args\<lparr>xr_StatusServer := i\<rparr>))"
    and upd: "ignores_updates (impl (args\<lparr>xr_StatusServer := i\<rparr>)) \<or> (\<forall>w b c. snd (fst (cb w b c)) = None)"
    and direct: "execute_with cb (impl (args\<lparr>xr_StatusServer := i\<rparr>)) w = ((out, e), w')"
  shows "let run = (\<lambda>moment. ExecutorClient_Execute call_Update call_Execute B moment impl b w args cb) in
    (a = None \<longrightarrow> run Before_dial =
      (case e of None \<Rightarrow> (out, None) | Some e' \<Rightarrow> (None, Some (status e')), br_Stop B b2 i, w')) \<and>
    (a = None \<longrightarrow> (\<exists>e b'. run Before_stop = ((None, Some (status e)), b', w))) \<and>
    (\<exists>b'. run After_stop = ((None, Some (Panic ''nil pointer dereference'')), b', w)) \<and>
    (a \<noteq> None \<longrightarrow> (\<forall>moment. \<exists>b'. run moment = ((None, Some (Panic ''nil pointer dereference'')), b', w)))"
proof -
  let ?run = "\<lambda>moment. ExecutorClient_Execute call_Update call_Execute B moment impl b w args cb"
  have "?run Before_dial = (case e of None \<Rightarrow> (out, None) | Some e' \<Rightarrow> (None, Some (status e')), br_Stop B b2 i, w')"
    if "a = None"
    using plugin_transport.Execute_served [OF T id, of cb b2 impl args w "(out, e)" w'] that acc rep
      execute_with_remote [OF upd, of status w] direct by (simp add: remote_reply_def)
  moreover have "\<exists>e b'. ?run moment =
      ((None, Some (if moment = After_stop \<or> a \<noteq> None then Panic ''nil pointer dereference'' else status e)), b', w)"
    if "moment \<noteq> Before_dial \<or> a \<noteq> None" for moment
    by (rule plugin_transport.Execute_unserved [OF T id acc that])
  note this [of Before_stop] this [of After_stop] this
  ultimately show ?thesis by (cases a) (simp_all add: Let_def)
qed

definition sample_activity :: activity where
  "sample_activity = reports [(''10%'', False), (''disk full'', True)] (Some (''finished'', []), None)"

definition sample_exec_request :: exec_request where
  "sample_exec_request = \<lparr>xr_JobName = ''backup'', xr_Config = [], xr_StatusServer = 0\<rparr>"

theorem plugin_execution_transparent_witness:
  "\<exists>b'. ExecutorClient_Execute ref_stub ref_stub ref_broker Before_dial (\<lambda>q. sample_activity) (0, []) []
     sample_exec_request (statusAgentHelper_Update (\<lambda>_. Some ErrNotFound) sample_run_exec) =
     ((Some (''finished'', []), None), b',
      [sample_run_exec\<lparr>pe_Output := ''10%''\<rparr>, sample_run_exec\<lparr>pe_Output := ''disk full''\<rparr>])"
  using plugin_execution_transparent [OF ref_transport.plugin_transport_axioms,
      of "(0, [])" 1 "(1, [])" "statusAgentHelper_Update (\<lambda>_. Some ErrNotFound) sample_run_exec" None
        "(1, [(1, StatusHelperServer_Update (statusAgentHelper_Update (\<lambda>_. Some ErrNotFound) sample_run_exec))])"
        "\<lambda>q. sample_activity" sample_exec_request "[]" "Some (''finished'', [])" None
        "[sample_run_exec\<lparr>pe_Output := ''10%''\<rparr>, sample_run_exec\<lparr>pe_Output := ''disk full''\<rparr>]"]
  by (simp add: Let_def ref_broker_def sample_activity_def reports_ok execute_with_reports helper_update_def)

section \<open>Processors over net/rpc\<close>

text \<open>
  \<open>call\<close> is \<open>rpc.Client.Call\<close>: its error, or the reply the server wrote. The interface of processors has no
  error, so the client panics.
\<close>

definition ProcessorServer_Process :: "(pb_execution \<Rightarrow> string gomap \<Rightarrow> pb_execution) \<Rightarrow> pb_execution \<times> string gomap \<Rightarrow> pb_execution res" where
  "ProcessorServer_Process process args = Inr (process (fst args) (snd args))"

definition ProcessorClient_Process ::
    "((pb_execution \<times> string gomap \<Rightarrow> pb_execution res) \<Rightarrow> pb_execution \<times> string gomap \<Rightarrow> pb_execution res) \<Rightarrow>
     (pb_execution \<Rightarrow> string gomap \<Rightarrow> pb_execution) \<Rightarrow> pb_execution \<Rightarrow> string gomap \<Rightarrow> pb_execution res" where
  "ProcessorClient_Process call process x config =
     (case call (ProcessorServer_Process process) (x, config) of
        Inl e \<Rightarrow> Inl (Panic ''processor call failed'')
      | Inr resp \<Rightarrow> Inr resp)"

section \<open>Serving and starting plugins\<close>

record handshake =
  hs_ProtocolVersion :: nat
  hs_MagicCookieKey :: string
  hs_MagicCookieValue :: string

definition Handshake :: handshake where
  "Handshake = \<lparr>hs_ProtocolVersion = 1, hs_MagicCookieKey = ''DKRON_PLUGIN_MAGIC_COOKIE'',
     hs_MagicCookieValue = ''b29a76488b6f3ca7955c5f769b50641f0fcd88748d8cedecda313d516320ca19''\<rparr>"

datatype protocol = ProtocolNetRPC | ProtocolGRPC

definition ProcessorPluginName :: string where "ProcessorPluginName = ''processor''"
definition ExecutorPluginName :: string where "ExecutorPluginName = ''executor''"

text \<open>The plugins a process serves or a client knows, by name; \<open>'x\<close> is an implementation.\<close>

datatype 'x plugin_impl = ProcessorPlugin "'x option" | ExecutorPlugin "'x option"

record 'x serve_opts =
  so_Processor :: "'x option"
  so_Executor :: "'x option"

record 'x serve_config =
  sc_Handshake :: handshake
  sc_Plugins :: "'x plugin_impl gomap"
  sc_Protocol :: protocol

definition pluginMap :: "'x serve_opts \<Rightarrow> 'x plugin_impl gomap" where
  "pluginMap opts = [(''processor'', ProcessorPlugin (so_Processor opts))]"

definition PluginMap :: "'x plugin_impl gomap" where
  "PluginMap = [(''processor'', ProcessorPlugin None), (''executor'', ExecutorPlugin None)]"

text \<open>Without a function that makes a gRPC server, \<open>plugin.Serve\<close> serves net/rpc.\<close>

definition Serve :: "'x serve_opts \<Rightarrow> 'x serve_config" where
  "Serve opts = \<lparr>sc_Handshake = Handshake, sc_Plugins = pluginMap opts, sc_Protocol = ProtocolNetRPC\<rparr>"

text \<open>The main functions of the plugins that come with dkron.\<close>

definition executor_main :: "'x \<Rightarrow> 'x serve_config" where
  "executor_main impl = \<lparr>sc_Handshake = Handshake, sc_Plugins = [(''executor'', ExecutorPlugin (Some impl))],
     sc_Protocol = ProtocolGRPC\<rparr>"

definition processor_main :: "'x \<Rightarrow> 'x serve_config" where
  "processor_main impl = Serve \<lparr>so_Processor = Some impl, so_Executor = None\<rparr>"

record 'x client_config =
  cc_Cmd :: string
  cc_Handshake :: handshake
  cc_Managed :: bool
  cc_Plugins :: "'x plugin_impl gomap"
  cc_LoggerName :: string
  cc_AllowedProtocols :: "protocol list"

text \<open>
  \<open>client\<close> starts the process and connects to it, \<open>dispense\<close> asks the connection for a plugin. A type of
  plugin that is neither leaves the protocols to the default of the library, which is net/rpc.
\<close>

definition pluginFactory ::
    "('x client_config \<Rightarrow> 'c res) \<Rightarrow> ('c \<Rightarrow> string \<Rightarrow> 'p res) \<Rightarrow> string \<Rightarrow> string \<Rightarrow> 'p res" where
  "pluginFactory client dispense path pluginType =
     (let config = \<lparr>cc_Cmd = path, cc_Handshake = Handshake, cc_Managed = True, cc_Plugins = PluginMap,
                    cc_LoggerName = ''plugins'',
                    cc_AllowedProtocols =
                      (if pluginType = ProcessorPluginName then [ProtocolNetRPC]
                       else if pluginType = ExecutorPluginName then [ProtocolGRPC] else [])\<rparr>
      in bind_res (client config) (\<lambda>c. bind_res (dispense c pluginType) Inr))"

text \<open>
  What go-plugin promises of a process: a client that agrees on the handshake and allows the protocol of
  the process is connected to it and can ask for the plugins that both know; it is refused otherwise.
\<close>

locale plugin_process =
  fixes serving :: "string \<Rightarrow> 'x serve_config"
    and client :: "'x client_config \<Rightarrow> 'c res"
    and dispense :: "'c \<Rightarrow> string \<Rightarrow> 'x plugin_impl res"
  assumes connected: "cc_Handshake c = sc_Handshake (serving (cc_Cmd c)) \<Longrightarrow>
      sc_Protocol (serving (cc_Cmd c)) \<in> set (cc_AllowedProtocols c) \<Longrightarrow> \<exists>conn. client c = Inr conn"
    and dispensed: "client c = Inr conn \<Longrightarrow> map_of (cc_Plugins c) name \<noteq> None \<Longrightarrow>
      map_of (sc_Plugins (serving (cc_Cmd c))) name = Some p \<Longrightarrow> dispense conn name = Inr p"
    and refused: "sc_Protocol (serving (cc_Cmd c)) \<notin> set (cc_AllowedProtocols c) \<Longrightarrow> \<exists>e. client c = Inl e"
begin

lemma factory_executor:
  assumes "serving path = executor_main impl"
  shows "pluginFactory client dispense path ''executor'' = Inr (ExecutorPlugin (Some impl))"
proof -
  let ?c = "\<lparr>cc_Cmd = path, cc_Handshake = Handshake, cc_Managed = True, cc_Plugins = PluginMap,
    cc_LoggerName = ''plugins'', cc_AllowedProtocols = [ProtocolGRPC]\<rparr> :: 'x client_config"
  obtain conn where conn: "client ?c = Inr conn"
    using connected [of ?c] by (auto simp: assms executor_main_def)
  have "dispense conn ''executor'' = Inr (ExecutorPlugin (Some impl))"
    by (rule dispensed [OF conn]) (simp_all add: PluginMap_def assms executor_main_def)
  with conn show ?thesis by (simp add: pluginFactory_def ProcessorPluginName_def ExecutorPluginName_def)
qed

lemma factory_processor:
  assumes "serving path = processor_main impl"
  shows "pluginFactory client dispense path ''processor'' = Inr (ProcessorPlugin (Some impl))"
proof -
  let ?c = "\<lparr>cc_Cmd = path, cc_Handshake = Handshake, cc_Managed = True, cc_Plugins = PluginMap,
    cc_LoggerName = ''plugins'', cc_AllowedProtocols = [ProtocolNetRPC]\<rparr> :: 'x client_config"
  obtain conn where conn: "client ?c = Inr conn"
    using connected [of ?c] by (auto simp: assms processor_main_def Serve_def)
  have "dispense conn ''processor'' = Inr (ProcessorPlugin (Some impl))"
    by (rule dispensed [OF conn]) (simp_all add: PluginMap_def pluginMap_def assms processor_main_def Serve_def)
  with conn show ?thesis by (simp add: pluginFactory_def ProcessorPluginName_def)
qed

lemma factory_Serve_executor:
  assumes "serving path = Serve opts"
  shows "\<exists>e. pluginFactory client dispense path ''executor'' = Inl e"
proof -
  let ?c = "\<lparr>cc_Cmd = path, cc_Handshake = Handshake, cc_Managed = True, cc_Plugins = PluginMap,
    cc_LoggerName = ''plugins'', cc_AllowedProtocols = [ProtocolGRPC]\<rparr> :: 'x client_config"
  obtain e where "client ?c = Inl e" using refused [of ?c] by (auto simp: assms Serve_def)
  then show ?thesis by (simp add: pluginFactory_def ProcessorPluginName_def ExecutorPluginName_def)
qed

end

text \<open>A reference process: the connection is what both sides know.\<close>

definition ref_client :: "(string \<Rightarrow> 'x serve_config) \<Rightarrow> 'x client_config \<Rightarrow> 'x plugin_impl gomap res" where
  "ref_client serving c =
     (let s = serving (cc_Cmd c) in
      if cc_Handshake c \<noteq> sc_Handshake s then Inl (LibError ''handshake failed'')
      else if sc_Protocol s \<notin> set (cc_AllowedProtocols c) then Inl (LibError ''unsupported plugin protocol'')
      else Inr (filter (\<lambda>(n, p). map_of (cc_Plugins c) n \<noteq> None) (sc_Plugins s)))"

definition ref_dispense :: "'x plugin_impl gomap \<Rightarrow> string \<Rightarrow> 'x plugin_impl res" where
  "ref_dispense conn name =
     (case map_of conn name of None \<Rightarrow> Inl (LibError ''unknown plugin type'') | Some p \<Rightarrow> Inr p)"

lemma map_of_filter_key: "P k \<Longrightarrow> map_of (filter (\<lambda>(n, p). P n) m) k = map_of m k"
  by (induction m) auto

interpretation ref_process: plugin_process serving "ref_client serving" ref_dispense
proof
  fix c :: "'a client_config" and conn name p
  assume "ref_client serving c = Inr conn" "map_of (cc_Plugins c) name \<noteq> None"
    "map_of (sc_Plugins (serving (cc_Cmd c))) name = Some p"
  then show "ref_dispense conn name = Inr p"
    by (auto simp: ref_client_def Let_def ref_dispense_def split: if_splits)
      (simp add: map_of_filter_key)
qed (auto simp: ref_client_def Let_def)

text \<open>
  The plugins that come with dkron can be started by the agent: asking a process that runs the main
  function of an executor for an executor, or of a processor for a processor, yields its implementation.
  A process that serves an executor through \<open>Serve\<close> is refused: \<open>Serve\<close> drops the executor of its options
  and speaks net/rpc.
\<close>

theorem builtin_plugins_start:
  assumes "plugin_process serving client dispense"
  shows "(serving path = executor_main impl \<longrightarrow>
      pluginFactory client dispense path ExecutorPluginName = Inr (ExecutorPlugin (Some impl))) \<and>
    (serving path = processor_main impl \<longrightarrow>
      pluginFactory client dispense path ProcessorPluginName = Inr (ProcessorPlugin (Some impl))) \<and>
    (serving path = Serve opts \<longrightarrow> (\<exists>e. pluginFactory client dispense path ExecutorPluginName = Inl e))"
  using plugin_process.factory_executor [OF assms] plugin_process.factory_processor [OF assms]
    plugin_process.factory_Serve_executor [OF assms]
  by (simp add: ExecutorPluginName_def ProcessorPluginName_def)

theorem builtin_plugins_start_witness:
  "pluginFactory (ref_client (\<lambda>_. executor_main ''http'')) ref_dispense ''/usr/bin/dkron-executor-http'' ExecutorPluginName =
     Inr (ExecutorPlugin (Some ''http''))"
  using builtin_plugins_start [OF ref_process.plugin_process_axioms, of "\<lambda>_. executor_main ''http''"] by simp

end
