(* ===== verification/Server_Start.thy ===== *)
theory Server_Start
  imports Setup Cmd Grpc_Client
begin

text \<open>
The parts of an agent around its start: its options (\<open>src/dkron/options.go\<close>), \<open>NewAgent\<close> and \<open>StartServer\<close> of
\<open>src/dkron/agent.go\<close>, the layer Raft connects through (\<open>raft_grpc.go\<close>), the credentials of the gRPC client
(\<open>grpc_client.go\<close>), and the command \<open>agentRun\<close> of \<open>src/cmd/agent.go\<close>. The multiplexer of the port is a parameter,
with its promise as a locale.
\<close>

section \<open>Agents and their options\<close>

text \<open>
  The fields of an agent that are set before it starts. \<open>None\<close> is nil; the credentials of the gRPC client
  are \<open>Some None\<close> for an insecure client.
\<close>

record ('db, 'tls, 'p, 'e) agent =
  ag_config :: config
  ag_ProcessorPlugins :: "'p gomap"
  ag_ExecutorPlugins :: "'e gomap"
  ag_TLSConfig :: "'tls option"
  ag_Store :: "'db option"
  ag_GRPCClient :: "'tls option option"

type_synonym ('db, 'tls, 'p, 'e) agent_option = "('db, 'tls, 'p, 'e) agent \<Rightarrow> ('db, 'tls, 'p, 'e) agent"

definition WithPlugins :: "'p gomap \<times> 'e gomap \<Rightarrow> ('db, 'tls, 'p, 'e) agent_option" where
  "WithPlugins plugins a = a\<lparr>ag_ProcessorPlugins := fst plugins, ag_ExecutorPlugins := snd plugins\<rparr>"

definition WithTransportCredentials :: "'tls option \<Rightarrow> ('db, 'tls, 'p, 'e) agent_option" where
  "WithTransportCredentials tls a = a\<lparr>ag_TLSConfig := tls\<rparr>"

definition WithStore :: "'db option \<Rightarrow> ('db, 'tls, 'p, 'e) agent_option" where
  "WithStore store a = a\<lparr>ag_Store := store\<rparr>"

definition NewAgent :: "config \<Rightarrow> ('db, 'tls, 'p, 'e) agent_option list \<Rightarrow> ('db, 'tls, 'p, 'e) agent" where
  "NewAgent config options =
     fold (\<lambda>option a. option a) options
       \<lparr>ag_config = config, ag_ProcessorPlugins = [], ag_ExecutorPlugins = [], ag_TLSConfig = None,
        ag_Store = None, ag_GRPCClient = None\<rparr>"

section \<open>Connections\<close>

text \<open>
  A connection, as the listener sees it: the TLS configuration of the client, if it speaks TLS, and
  whether it carries gRPC.
\<close>

record 'tls conn =
  cn_tls :: "'tls option"
  cn_grpc :: bool

text \<open>
  \<open>RaftLayer\<close>: \<open>tcp\<close> is the outcome of connecting to an address, \<open>shake addr\<close> tells whether a TLS handshake with the
  server there succeeds, which \<open>tls.DialWithDialer\<close> waits for.
\<close>

record 'tls raft_layer =
  rl_TLSConfig :: "'tls option"
  rl_ln :: "'tls conn list"

definition NewRaftLayer :: "'tls raft_layer" where
  "NewRaftLayer = \<lparr>rl_TLSConfig = None, rl_ln = []\<rparr>"

definition NewTLSRaftLayer :: "'tls \<Rightarrow> 'tls raft_layer" where
  "NewTLSRaftLayer tlsConfig = \<lparr>rl_TLSConfig = Some tlsConfig, rl_ln = []\<rparr>"

definition RaftLayer_Open :: "'tls raft_layer \<Rightarrow> 'tls conn list \<Rightarrow> err \<times> 'tls raft_layer" where
  "RaftLayer_Open t l = (None, t\<lparr>rl_ln := l\<rparr>)"

definition RaftLayer_Dial ::
    "(string \<Rightarrow> err) \<Rightarrow> (string \<Rightarrow> 'tls \<Rightarrow> bool) \<Rightarrow> 'tls raft_layer \<Rightarrow> string \<Rightarrow> 'tls conn res" where
  "RaftLayer_Dial tcp shake t addr =
     (case rl_TLSConfig t of
        Some tlsConfig \<Rightarrow>
          (case tcp addr of
             Some e \<Rightarrow> Inl e
           | None \<Rightarrow>
               if shake addr tlsConfig then Inr \<lparr>cn_tls = Some tlsConfig, cn_grpc = False\<rparr>
               else Inl (LibError ''tls: handshake failure''))
      | None \<Rightarrow>
          (case tcp addr of Some e \<Rightarrow> Inl e | None \<Rightarrow> Inr \<lparr>cn_tls = None, cn_grpc = False\<rparr>))"

definition RaftLayer_Accept :: "'tls raft_layer \<Rightarrow> 'tls conn res \<times> 'tls raft_layer" where
  "RaftLayer_Accept t =
     (case rl_ln t of
        [] \<Rightarrow> (Inl (LibError ''accept''), t)
      | c # cs \<Rightarrow> (Inr c, t\<lparr>rl_ln := cs\<rparr>))"

text \<open>\<open>NewGRPCClient\<close> keeps the credentials it dials with; without an option the client is insecure.\<close>

definition NewGRPCClient :: "'tls option option \<Rightarrow> 'tls option" where
  "NewGRPCClient dialOpt = (case dialOpt of None \<Rightarrow> None | Some creds \<Rightarrow> creds)"

text \<open>\<open>Connect\<close> blocks until the connection is up, which \<open>up\<close> tells, and gives up after ten seconds.\<close>

definition Connect :: "(string \<Rightarrow> err) \<Rightarrow> ('tls conn \<Rightarrow> bool) \<Rightarrow> 'tls option \<Rightarrow> string \<Rightarrow> 'tls conn res" where
  "Connect tcp up creds addr =
     (case tcp addr of
        Some e \<Rightarrow> Inl (LibError ''context deadline exceeded'')
      | None \<Rightarrow>
          (let conn = \<lparr>cn_tls = creds, cn_grpc = True\<rparr> in
           if up conn then Inr conn else Inl (LibError ''context deadline exceeded'')))"

section \<open>Multiplexing\<close>

datatype target = GRPC_listener | Raft_listener

text \<open>
  The matchers \<open>StartServer\<close> registers on the multiplexer of the port, with and without TLS.
  \<open>mux\<close> gives the index of the matcher that takes a connection, \<open>handshake client server\<close> tells whether a
  TLS handshake succeeds. A connection no one takes is closed.
\<close>

definition any_conn :: "'tls conn \<Rightarrow> bool" where "any_conn c = True"

definition plain_grpc :: "'tls conn \<Rightarrow> bool" where "plain_grpc c \<longleftrightarrow> cn_grpc c \<and> cn_tls c = None"

definition grpc_or_raft :: "(('tls conn \<Rightarrow> bool) list \<Rightarrow> 'tls conn \<Rightarrow> nat option) \<Rightarrow> 'tls conn \<Rightarrow> target option" where
  "grpc_or_raft mux c =
     (case mux [plain_grpc, any_conn] c of
        None \<Rightarrow> None
      | Some i \<Rightarrow> if i = 0 then Some GRPC_listener else Some Raft_listener)"

definition server_accepts ::
    "(('tls conn \<Rightarrow> bool) list \<Rightarrow> 'tls conn \<Rightarrow> nat option) \<Rightarrow> ('tls \<Rightarrow> 'tls \<Rightarrow> bool) \<Rightarrow>
     'tls option \<Rightarrow> 'tls conn \<Rightarrow> target option" where
  "server_accepts mux handshake tls c =
     (case tls of
        Some config \<Rightarrow>
          (case mux [any_conn] c of
             None \<Rightarrow> None
           | Some _ \<Rightarrow>
               (case cn_tls c of
                  None \<Rightarrow> None
                | Some client \<Rightarrow> if handshake client config then grpc_or_raft mux (c\<lparr>cn_tls := None\<rparr>) else None))
      | None \<Rightarrow> grpc_or_raft mux c)"

text \<open>An agent that is no server has a gRPC server of its own, with the credentials of the agent.\<close>

definition agent_accepts :: "('tls \<Rightarrow> 'tls \<Rightarrow> bool) \<Rightarrow> 'tls option \<Rightarrow> 'tls conn \<Rightarrow> bool" where
  "agent_accepts handshake tls c \<longleftrightarrow> cn_grpc c \<and>
     (case (tls, cn_tls c) of
        (None, None) \<Rightarrow> True
      | (Some config, Some client) \<Rightarrow> handshake client config
      | _ \<Rightarrow> False)"

text \<open>What cmux promises: the first matcher that matches takes the connection.\<close>

locale cmux =
  fixes mux :: "('c \<Rightarrow> bool) list \<Rightarrow> 'c \<Rightarrow> nat option"
  assumes first_match: "i < length ms \<Longrightarrow> (ms ! i) c \<Longrightarrow> \<forall>k < i. \<not> (ms ! k) c \<Longrightarrow> mux ms c = Some i"

definition ref_mux :: "('c \<Rightarrow> bool) list \<Rightarrow> 'c \<Rightarrow> nat option" where
  "ref_mux ms c = (let n = length (takeWhile (\<lambda>m. \<not> m c) ms) in if n < length ms then Some n else None)"

interpretation ref_cmux: cmux ref_mux
proof
  fix i and ms :: "('a \<Rightarrow> bool) list" and c
  assume i: "i < length ms" "(ms ! i) c" "\<forall>k < i. \<not> (ms ! k) c"
  then have "length (takeWhile (\<lambda>m. \<not> m c) ms) = i" by (subst takeWhile_eq_take_P_nth [of i]) auto
  then show "ref_mux ms c = Some i" using i(1) by (simp add: ref_mux_def)
qed

context cmux
begin

lemma mux_any: "m c \<Longrightarrow> mux (m # ms) c = Some 0"
  by (rule first_match) auto

lemma mux_second: "\<not> m c \<Longrightarrow> m' c \<Longrightarrow> mux [m, m'] c = Some 1"
  by (rule first_match) auto

end

lemma grpc_or_raft_target:
  assumes "cmux mux"
  shows "grpc_or_raft mux c = Some (if plain_grpc c then GRPC_listener else Raft_listener)"
  using cmux.mux_any [OF assms, of plain_grpc c "[any_conn]"] cmux.mux_second [OF assms, of plain_grpc c any_conn]
  by (simp add: grpc_or_raft_def any_conn_def)

section \<open>Starting\<close>

definition raft_layer_of :: "'tls option \<Rightarrow> 'tls raft_layer" where
  "raft_layer_of tls = (case tls of None \<Rightarrow> NewRaftLayer | Some t \<Rightarrow> NewTLSRaftLayer t)"

text \<open>The client \<open>Start\<close> gives an agent that has none.\<close>

definition start_client :: "('db, 'tls, 'p, 'e) agent \<Rightarrow> ('db, 'tls, 'p, 'e) agent" where
  "start_client a = (if ag_GRPCClient a = None then a\<lparr>ag_GRPCClient := Some (NewGRPCClient None)\<rparr> else a)"

text \<open>
  \<open>StartServer\<close>, as the steps it takes in their order: \<open>NewStore\<close> opens a store in memory, and an error of
  the store or of Raft ends the process. Serving gRPC and opening the Raft layer do not fail.
\<close>

datatype start_step =
    Opened_store | Made_scheduler | Served_HTTP | Served_GRPC | Opened_Raft_layer | Set_up_Raft
  | Served_port | Monitors_leadership

definition StartServer ::
    "'db res \<Rightarrow> 'd raft_disk \<Rightarrow> ('db, 'tls, 'p, 'e) agent \<Rightarrow> 'd \<Rightarrow>
     start_step list \<times> (('db, 'tls, 'p, 'e) agent \<times> 'tls raft_layer) res \<times> 'd" where
  "StartServer NewStore D a d =
     (case (case ag_Store a of Some s \<Rightarrow> Inr ([], s) | None \<Rightarrow> map_sum id (Pair [Opened_store]) NewStore) of
        Inl e \<Rightarrow> ([], Inl (Panic ''log.Fatal''), d)
      | Inr (opened, s) \<Rightarrow>
          (let a1 = a\<lparr>ag_Store := Some s\<rparr>;
               steps = opened @ [Made_scheduler, Served_HTTP, Served_GRPC, Opened_Raft_layer] in
           case RaftLayer_Open (raft_layer_of (ag_TLSConfig a)) [] of
             (Some e, layer) \<Rightarrow> (steps, Inl (Panic ''log.Fatal''), d)
           | (None, layer) \<Rightarrow>
               (case setupRaft D (ag_config a1) d of
                  (Some e, c, d') \<Rightarrow> (steps, Inl (Panic ''log.Fatal''), d')
                | (None, c, d') \<Rightarrow>
                    (steps @ [Set_up_Raft, Served_port, Monitors_leadership], Inr (a1\<lparr>ag_config := c\<rparr>, layer), d'))))"

lemma plugins_keep:
  "ag_TLSConfig (fold (\<lambda>option a. option a) (map WithPlugins ps) b) = ag_TLSConfig b"
  "ag_GRPCClient (fold (\<lambda>option a. option a) (map WithPlugins ps) b) = ag_GRPCClient b"
  by (induction ps arbitrary: b) (auto simp: WithPlugins_def)

text \<open>
  C34: The port of a server is shared by gRPC and Raft. For servers with the same TLS configuration, or
  none, a connection of the Raft layer reaches the Raft listener, and a gRPC client with the
  credentials of the servers connects to the gRPC listener of a server and to the gRPC server of an
  agent. The client of an agent that was only given a TLS configuration is insecure, though: it
  connects to neither, unless there is no TLS.
\<close>

theorem connections_reach_listeners:
  assumes mux: "cmux mux" and shake: "\<And>t. tls = Some t \<Longrightarrow> handshake t t \<and> shake addr t" and tcp: "tcp addr = None"
    and a: "a = start_client (NewAgent config (WithTransportCredentials tls # map WithPlugins plugins))"
    and up: "server_up = (\<lambda>c. server_accepts mux handshake tls c = Some GRPC_listener)" "agent_up = agent_accepts handshake tls"
  shows "(\<exists>c. RaftLayer_Dial tcp shake (raft_layer_of (ag_TLSConfig a)) addr = Inr c \<and>
       server_accepts mux handshake tls c = Some Raft_listener) \<and>
    (\<exists>c c'. Connect tcp server_up (NewGRPCClient (Some tls)) addr = Inr c \<and>
       Connect tcp agent_up (NewGRPCClient (Some tls)) addr = Inr c') \<and>
    (\<exists>creds. ag_GRPCClient a = Some creds \<and>
       (isl (Connect tcp server_up creds addr) \<longleftrightarrow> tls \<noteq> None) \<and> (isl (Connect tcp agent_up creds addr) \<longleftrightarrow> tls \<noteq> None))"
proof -
  have fields: "ag_TLSConfig a = tls" "ag_GRPCClient a = Some None"
    by (simp_all add: a start_client_def NewAgent_def plugins_keep WithTransportCredentials_def NewGRPCClient_def)
  note any = cmux.mux_any [OF mux, of any_conn _ "[]"]
  show ?thesis
    using shake
    by (cases tls) (simp_all add: fields up raft_layer_of_def NewRaftLayer_def NewTLSRaftLayer_def RaftLayer_Dial_def Connect_def tcp
        NewGRPCClient_def server_accepts_def agent_accepts_def grpc_or_raft_target [OF mux] plain_grpc_def any any_conn_def Let_def)
qed

theorem connections_reach_listeners_witness:
  "isl (Connect (\<lambda>_. None) (\<lambda>c. server_accepts ref_mux (=) (Some ''ca'') c = Some GRPC_listener) (NewGRPCClient None) ''10.0.0.1:6868'') \<and>
   \<not> isl (Connect (\<lambda>_. None) (\<lambda>c. server_accepts ref_mux (=) (Some ''ca'') c = Some GRPC_listener)
     (NewGRPCClient (Some (Some ''ca''))) ''10.0.0.1:6868'')"
proof -
  let ?a = "start_client (NewAgent sample_start_config [WithTransportCredentials (Some ''ca'')]) :: (unit, string, unit, unit) agent"
  have "ag_GRPCClient ?a = Some (NewGRPCClient None)"
    by (simp add: start_client_def NewAgent_def WithTransportCredentials_def)
  then show ?thesis
    using connections_reach_listeners [OF ref_cmux.cmux_axioms, of "Some ''ca''" "(=)" "\<lambda>_ _. True" "''10.0.0.1:6868''" "\<lambda>_. None" ?a
        sample_start_config "[]", OF _ _ _ refl refl] by auto
qed

text \<open>
  A server starts exactly if its store opens and Raft can be set up. It then keeps a store it was given,
  has the configuration and the disk Raft was set up with, and takes all steps; the HTTP server
  already runs when Raft is set up.
\<close>

theorem StartServer_starts:
  "(\<exists>r. fst (snd (StartServer NewStore D a d)) = Inr r) \<longleftrightarrow>
     (ag_Store a \<noteq> None \<or> (\<exists>s. NewStore = Inr s)) \<and> fst (setupRaft D (ag_config a) d) = None"
  "StartServer NewStore D a d = (steps, Inr (a', layer), d') \<Longrightarrow>
     (None, ag_config a', d') = setupRaft D (ag_config a) d \<and> ag_Store a' = (case ag_Store a of None \<Rightarrow> (case NewStore of Inl e \<Rightarrow> None | Inr s \<Rightarrow> Some s) | s \<Rightarrow> s) \<and>
     rl_TLSConfig layer = ag_TLSConfig a \<and>
     steps = (if ag_Store a = None then [Opened_store] else []) @
       [Made_scheduler, Served_HTTP, Served_GRPC, Opened_Raft_layer, Set_up_Raft, Served_port, Monitors_leadership]"
  by (cases NewStore; cases "ag_Store a"; cases "ag_TLSConfig a";
      auto simp: StartServer_def RaftLayer_Open_def raft_layer_of_def NewRaftLayer_def NewTLSRaftLayer_def Let_def
        split: option.splits prod.splits)+

section \<open>The command\<close>

text \<open>The jobs that run on an agent, by the group of their execution.\<close>

definition GetRunningJobs :: "(int \<times> pb_execution) list \<Rightarrow> nat" where
  "GetRunningJobs running = fold (\<lambda>(k, v) job. job + 1) running 0"

lemma GetRunningJobs_length: "GetRunningJobs running = length running"
proof -
  have "fold (\<lambda>(k, v) job. job + 1) running n = n + length running" for n
    by (induction running arbitrary: n) auto
  then show ?thesis by (simp add: GetRunningJobs_def)
qed

text \<open>
  \<open>agentRun\<close>: \<open>None\<close> when it does not return. Nothing receives an error of the retried join before the
  agent has started. \<open>running i\<close> are the running executions at the \<open>i\<close>-th look.
\<close>

definition agentRun ::
    "'p plugin_lib \<Rightarrow> ('s, 'd) start_lib \<Rightarrow> nat \<Rightarrow> (nat \<Rightarrow> (int \<times> pb_execution) list) \<Rightarrow> bool \<Rightarrow> wakeup list \<Rightarrow>
     config \<Rightarrow> 'd \<Rightarrow> unit res option" where
  "agentRun P L fuel running other evs config d =
     (case DiscoverPlugins P of
        Inl e \<Rightarrow> Some (Inl (Panic ''log.Fatal''))
      | Inr plugins \<Rightarrow>
          (let agent = NewAgent config [WithPlugins plugins] :: (unit, unit, 'p, 'p) agent in
           case Start L fuel False (ag_config agent) d of
             None \<Rightarrow> None
           | Some (Inl e) \<Rightarrow> Some (Inl e)
           | Some (Inr started) \<Rightarrow>
               (case handleSignals fuel (\<lambda>i. GetRunningJobs (running i)) other evs of
                  None \<Rightarrow> None
                | Some (exit, acts) \<Rightarrow>
                    if exit \<noteq> 0 then Some (Inl (Errorf (''Exit status: '' @ show_int exit))) else Some (Inr ()))))"

text \<open>
  The command hangs when the cluster cannot be joined by retrying: the error is sent before anything
  reads it.
\<close>

theorem agentRun_waits_forever:
  assumes "DiscoverPlugins P = Inr plugins"
    and "setupSerf (st_serf L) (st_addr L) (st_ParseDuration L) fuel (snd (normalizeAddrs (st_addr L) config)) = (Some (Inr s), c)"
    and "RetryJoinLAN c \<noteq> []" "discover_New (st_join L) = None"
    and "\<And>r k. \<not> joins_at (st_join L) (st_addr L) r s k"
  shows "agentRun P L fuel running other evs config d = None"
  using Start_waits_forever [OF assms(2-5), of d]
  by (simp add: agentRun_def assms(1) Let_def NewAgent_def WithPlugins_def)

end
