(* ===== verification/Logging.thy ===== *)
theory Logging
  imports Setup
begin

text \<open>
Metrics and logging (\<open>src/dkron/metrics.go\<close>, \<open>log.go\<close> and \<open>hclog_adapter.go\<close>): which sinks the metrics go to, how the
logger is set up, and the adapter through which go-plugin logs. logrus is a parameter, with its promise as a locale.
\<close>

section \<open>Metrics\<close>

text \<open>The sinks of the metrics, and the outcomes of opening them.\<close>

datatype metrics_sink = InmemSink | PrometheusSink | StatsdSink string | DogStatsdSink string string "string list"

record metrics_lib =
  ml_NewPrometheusSink :: err
  ml_NewStatsdSink :: "string \<Rightarrow> err"
  ml_NewDogStatsdSink :: "string \<Rightarrow> string \<Rightarrow> err"

definition prometheus_sink :: "metrics_lib \<Rightarrow> config \<Rightarrow> metrics_sink list res" where
  "prometheus_sink L c =
     (if EnablePrometheus c then (case ml_NewPrometheusSink L of Some e \<Rightarrow> Inl e | None \<Rightarrow> Inr [PrometheusSink]) else Inr [])"

definition statsd_sink :: "metrics_lib \<Rightarrow> config \<Rightarrow> metrics_sink list res" where
  "statsd_sink L c =
     (if StatsdAddr c \<noteq> [] then
        (case ml_NewStatsdSink L (StatsdAddr c) of
           Some e \<Rightarrow> Inl (Errorf ''failed to start statsd sink'') | None \<Rightarrow> Inr [StatsdSink (StatsdAddr c)])
      else Inr [])"

definition dogstatsd_sink :: "metrics_lib \<Rightarrow> config \<Rightarrow> metrics_sink list res" where
  "dogstatsd_sink L c =
     (if DogStatsdAddr c \<noteq> [] then
        (case ml_NewDogStatsdSink L (DogStatsdAddr c) (NodeName c) of
           Some e \<Rightarrow> Inl (Errorf ''failed to start DogStatsd sink'')
         | None \<Rightarrow> Inr [DogStatsdSink (DogStatsdAddr c) (NodeName c) (DogStatsdTags c)])
      else Inr [])"

text \<open>The sinks of the global metrics; the sink in memory is the last of them, or the only one.\<close>

definition initMetrics :: "metrics_lib \<Rightarrow> config \<Rightarrow> metrics_sink list res" where
  "initMetrics L c =
     bind_res (prometheus_sink L c) (\<lambda>prom.
     bind_res (statsd_sink L c) (\<lambda>statsd.
     bind_res (dogstatsd_sink L c) (\<lambda>dog.
     let fanout = prom @ statsd @ dog in
     Inr (if length fanout > 0 then fanout @ [InmemSink] else [InmemSink]))))"

text \<open>
  Metrics reach every sink that is configured and, always, the sink in memory; starting them fails
  exactly if one of the configured sinks cannot be opened.
\<close>

definition configured_sinks :: "config \<Rightarrow> metrics_sink set" where
  "configured_sinks c =
     {s. s = PrometheusSink \<and> EnablePrometheus c \<or> s = StatsdSink (StatsdAddr c) \<and> StatsdAddr c \<noteq> [] \<or>
         s = DogStatsdSink (DogStatsdAddr c) (NodeName c) (DogStatsdTags c) \<and> DogStatsdAddr c \<noteq> []}"

theorem initMetrics_sinks:
  "(\<exists>sinks. initMetrics L c = Inr sinks) \<longleftrightarrow>
     (EnablePrometheus c \<longrightarrow> ml_NewPrometheusSink L = None) \<and>
     (StatsdAddr c \<noteq> [] \<longrightarrow> ml_NewStatsdSink L (StatsdAddr c) = None) \<and>
     (DogStatsdAddr c \<noteq> [] \<longrightarrow> ml_NewDogStatsdSink L (DogStatsdAddr c) (NodeName c) = None)"
  "initMetrics L c = Inr sinks \<Longrightarrow> set sinks = insert InmemSink (configured_sinks c) \<and> distinct sinks"
  by (auto simp: initMetrics_def prometheus_sink_def statsd_sink_def dogstatsd_sink_def Let_def configured_sinks_def
      split: option.splits if_splits)

section \<open>Logging\<close>

text \<open>The levels of logrus, and those of gin.\<close>

datatype level = PanicLevel | FatalLevel | ErrorLevel | WarnLevel | InfoLevel | DebugLevel | TraceLevel

definition level_number :: "level \<Rightarrow> nat" where
  "level_number l =
     (case l of PanicLevel \<Rightarrow> 0 | FatalLevel \<Rightarrow> 1 | ErrorLevel \<Rightarrow> 2 | WarnLevel \<Rightarrow> 3 | InfoLevel \<Rightarrow> 4
      | DebugLevel \<Rightarrow> 5 | TraceLevel \<Rightarrow> 6)"

text \<open>Levels are compared by their numbers: a higher level logs more.\<close>

instantiation level :: linorder
begin

definition less_eq_level :: "level \<Rightarrow> level \<Rightarrow> bool" where "less_eq_level k l \<longleftrightarrow> level_number k \<le> level_number l"
definition less_level :: "level \<Rightarrow> level \<Rightarrow> bool" where "less_level k l \<longleftrightarrow> level_number k < level_number l"

instance
proof
  fix k l :: level
  assume "k \<le> l" "l \<le> k"
  then show "k = l" by (cases k; cases l; simp add: less_eq_level_def level_number_def)
qed (auto simp: less_eq_level_def less_level_def)

end

lemma PanicLevel_least: "l \<le> PanicLevel \<longleftrightarrow> l = PanicLevel"
  by (cases l) (simp_all add: less_eq_level_def level_number_def)

datatype gin_mode = DebugMode | ReleaseMode

record init_logger =
  il_level :: level
  il_node :: string
  il_gin_mode :: gin_mode
  il_gin_discards :: bool

definition InitLogger :: "(string \<Rightarrow> level res) \<Rightarrow> string \<Rightarrow> string \<Rightarrow> init_logger" where
  "InitLogger ParseLevel logLevel node =
     (let level = (case ParseLevel logLevel of Inl e \<Rightarrow> InfoLevel | Inr l \<Rightarrow> l) in
      \<lparr>il_level = level, il_node = node,
       il_gin_mode = (if level = DebugLevel then DebugMode else ReleaseMode),
       il_gin_discards = (level \<noteq> DebugLevel)\<rparr>)"

text \<open>
  The adapter that go-plugin logs through. A \<open>logrus.FieldLogger\<close> is a parameter: \<open>fl_WithFields\<close> makes an
  entry, which is a logger again, \<open>fl_Level\<close> is the level of an entry and \<open>fl_Log\<close> writes one line.
  An argument of a message is a string or another value.
\<close>

datatype 'v log_value = Str string | Val 'v

record ('l, 'v, 'o) field_logger =
  fl_WithFields :: "'l \<Rightarrow> 'v log_value gomap \<Rightarrow> 'l"
  fl_Level :: "'l \<Rightarrow> level"
  fl_Data :: "'l \<Rightarrow> 'v log_value gomap"
  fl_Log :: "'l \<Rightarrow> level \<Rightarrow> string \<Rightarrow> 'o \<Rightarrow> 'o"

record 'l HCLogAdapter =
  hl_Logger :: 'l
  hl_LoggerName :: string

text \<open>The loop of \<open>CreateEntry\<close> over the arguments, two at a time; a key that is no string panics.\<close>

fun entry_fields :: "'v log_value list \<Rightarrow> 'v log_value gomap \<Rightarrow> 'v log_value gomap res" where
  "entry_fields [] fs = Inr fs"
| "entry_fields (Str k # v # args) fs = entry_fields args (AList.update k v fs)"
| "entry_fields (_ # args) fs = Inl (Panic ''interface conversion'')"

definition CreateEntry ::
    "('l, 'v, 'o) field_logger \<Rightarrow> 'l HCLogAdapter \<Rightarrow> 'v log_value list \<Rightarrow> 'l res" where
  "CreateEntry L a args =
     (let args' = (if length args mod 2 \<noteq> 0 then args @ [Str ''<unknown>''] else args) in
      bind_res (entry_fields args' []) (\<lambda>fields. Inr (fl_WithFields L (hl_Logger a) fields)))"

definition log_at ::
    "level \<Rightarrow> ('l, 'v, 'o) field_logger \<Rightarrow> 'l HCLogAdapter \<Rightarrow> string \<Rightarrow> 'v log_value list \<Rightarrow> 'o \<Rightarrow> 'o res" where
  "log_at lvl L a msg args out = bind_res (CreateEntry L a args) (\<lambda>e. Inr (fl_Log L e lvl msg out))"

text \<open>\<open>Log\<close> and \<open>Trace\<close> do nothing; the other four write at their level.\<close>

definition hclog_Log :: "'o \<Rightarrow> 'o" where "hclog_Log out = out"
definition hclog_Trace :: "'o \<Rightarrow> 'o" where "hclog_Trace out = out"
definition hclog_Debug :: "('l, 'v, 'o) field_logger \<Rightarrow> 'l HCLogAdapter \<Rightarrow> string \<Rightarrow> 'v log_value list \<Rightarrow> 'o \<Rightarrow> 'o res" where
  "hclog_Debug = log_at DebugLevel"
definition hclog_Info :: "('l, 'v, 'o) field_logger \<Rightarrow> 'l HCLogAdapter \<Rightarrow> string \<Rightarrow> 'v log_value list \<Rightarrow> 'o \<Rightarrow> 'o res" where
  "hclog_Info = log_at InfoLevel"
definition hclog_Warn :: "('l, 'v, 'o) field_logger \<Rightarrow> 'l HCLogAdapter \<Rightarrow> string \<Rightarrow> 'v log_value list \<Rightarrow> 'o \<Rightarrow> 'o res" where
  "hclog_Warn = log_at WarnLevel"
definition hclog_Error :: "('l, 'v, 'o) field_logger \<Rightarrow> 'l HCLogAdapter \<Rightarrow> string \<Rightarrow> 'v log_value list \<Rightarrow> 'o \<Rightarrow> 'o res" where
  "hclog_Error = log_at ErrorLevel"

definition shouldEmit :: "('l, 'v, 'o) field_logger \<Rightarrow> 'l HCLogAdapter \<Rightarrow> level \<Rightarrow> bool" where
  "shouldEmit L a lvl \<longleftrightarrow> fl_Level L (fl_WithFields L (hl_Logger a) []) \<ge> lvl"

definition IsTrace :: "'l HCLogAdapter \<Rightarrow> bool" where "IsTrace a = False"
definition IsDebug :: "('l, 'v, 'o) field_logger \<Rightarrow> 'l HCLogAdapter \<Rightarrow> bool" where "IsDebug L a = shouldEmit L a DebugLevel"
definition IsInfo :: "('l, 'v, 'o) field_logger \<Rightarrow> 'l HCLogAdapter \<Rightarrow> bool" where "IsInfo L a = shouldEmit L a InfoLevel"
definition IsWarn :: "('l, 'v, 'o) field_logger \<Rightarrow> 'l HCLogAdapter \<Rightarrow> bool" where "IsWarn L a = shouldEmit L a WarnLevel"
definition IsError :: "('l, 'v, 'o) field_logger \<Rightarrow> 'l HCLogAdapter \<Rightarrow> bool" where "IsError L a = shouldEmit L a ErrorLevel"

definition With :: "('l, 'v, 'o) field_logger \<Rightarrow> 'l HCLogAdapter \<Rightarrow> 'v log_value list \<Rightarrow> 'l HCLogAdapter res" where
  "With L a args = bind_res (CreateEntry L a args) (\<lambda>e. Inr \<lparr>hl_Logger = e, hl_LoggerName = []\<rparr>)"

definition ResetNamed :: "('l, 'v, 'o) field_logger \<Rightarrow> 'l HCLogAdapter \<Rightarrow> string \<Rightarrow> 'l HCLogAdapter res" where
  "ResetNamed L a name =
     bind_res (CreateEntry L a [Str ''subsystem_name'', Str name]) (\<lambda>e. Inr \<lparr>hl_Logger = e, hl_LoggerName = name\<rparr>)"

definition Named :: "('l, 'v, 'o) field_logger \<Rightarrow> 'l HCLogAdapter \<Rightarrow> string \<Rightarrow> 'l HCLogAdapter res" where
  "Named L a name =
     ResetNamed L a ((if hl_LoggerName a \<noteq> [] then hl_LoggerName a @ ''.'' else []) @ name)"

text \<open>What logrus promises of an entry: it has the fields of the logger and the new ones; its level is only set when it is written.\<close>

locale logrus =
  fixes L :: "('l, 'v, 'o) field_logger"
  assumes fields_law: "map_of (fl_Data L (fl_WithFields L l fs)) = map_of (fl_Data L l) ++ map_of fs"
    and level_law: "fl_Level L (fl_WithFields L l fs) = PanicLevel"

text \<open>A reference logger: the fields, and the lines written.\<close>

definition ref_logger :: "('v log_value gomap, 'v, (level \<times> string) list) field_logger" where
  "ref_logger = \<lparr>fl_WithFields = (\<lambda>d fs. fs @ d), fl_Level = (\<lambda>_. PanicLevel), fl_Data = (\<lambda>d. d),
     fl_Log = (\<lambda>d l msg out. out @ [(l, msg)])\<rparr>"

interpretation ref_logrus: logrus ref_logger
  by unfold_locales (simp_all add: ref_logger_def)

text \<open>The pairs of a list of arguments, and whether the keys are strings.\<close>

fun pairs :: "'v log_value list \<Rightarrow> (string \<times> 'v log_value) list" where
  "pairs (Str k # v # args) = (k, v) # pairs args"
| "pairs _ = []"

fun string_keys :: "'v log_value list \<Rightarrow> bool" where
  "string_keys (Str k # v # args) = string_keys args"
| "string_keys [] = True"
| "string_keys [Str k] = True"
| "string_keys (Val v # args) = False"

lemma entry_fields_pairs:
  assumes "string_keys args" "even (length args)"
  shows "\<exists>fs. entry_fields args m = Inr fs \<and> map_of fs = map_of m ++ map_of (rev (pairs args))"
  using assms
proof (induction args arbitrary: m rule: pairs.induct)
  case (1 k v args)
  then obtain fs where "entry_fields args (AList.update k v m) = Inr fs"
    "map_of fs = map_of (AList.update k v m) ++ map_of (rev (pairs args))" by auto
  then show ?case by (auto simp: update_conv')
qed auto

lemma entry_fields_panics:
  assumes "\<not> string_keys args"
  shows "\<exists>m'. entry_fields args m = Inl (Panic m')"
  using assms by (induction args arbitrary: m rule: string_keys.induct) auto

lemma string_keys_unknown:
  "odd (length args) \<Longrightarrow> string_keys (args @ [Str u]) = string_keys args"
  by (induction args rule: string_keys.induct) auto

text \<open>
  The arguments of a message become the fields of an entry: pairs of a key and a value, of which a later
  one replaces an earlier one with the same key, and \<open>"<unknown>"\<close> for a key without a value. A key that is
  no string panics. A named logger carries the names of its ancestors, joined by dots, in the field
  \<open>subsystem_name\<close>.
\<close>

theorem CreateEntry_fields:
  assumes "logrus L"
  shows "if string_keys args then
      \<exists>e. CreateEntry L a args = Inr e \<and> map_of (fl_Data L e) = map_of (fl_Data L (hl_Logger a)) ++
        map_of (rev (pairs (if odd (length args) then args @ [Str ''<unknown>''] else args)))
    else \<exists>m. CreateEntry L a args = Inl (Panic m)"
proof -
  let ?args = "if odd (length args) then args @ [Str ''<unknown>''] else args"
  have keys: "string_keys ?args = string_keys args" "even (length ?args)" by (simp_all add: string_keys_unknown)
  have ce: "CreateEntry L a args = bind_res (entry_fields ?args []) (\<lambda>fields. Inr (fl_WithFields L (hl_Logger a) fields))"
    by (simp add: CreateEntry_def odd_iff_mod_2_eq_one)
  show ?thesis
  proof (cases "string_keys args")
    case True
    then obtain fs where "entry_fields ?args [] = Inr fs" "map_of fs = map_of (rev (pairs ?args))"
      using entry_fields_pairs [of ?args "[]"] keys by auto
    then show ?thesis using True by (simp add: ce logrus.fields_law [OF assms])
  next
    case False
    then show ?thesis using entry_fields_panics [of ?args "[]"] keys ce by auto
  qed
qed

theorem CreateEntry_fields_witness:
  "\<exists>e. CreateEntry ref_logger \<lparr>hl_Logger = [], hl_LoggerName = []\<rparr> [Str ''pid'', Val (42 :: nat), Str ''path''] = Inr e \<and>
     map_of (fl_Data ref_logger e) ''path'' = Some (Str ''<unknown>'')"
  using CreateEntry_fields [OF ref_logrus.logrus_axioms, of "[Str ''pid'', Val (42 :: nat), Str ''path'']" "\<lparr>hl_Logger = [], hl_LoggerName = []\<rparr>"]
  by (auto simp: ref_logger_def)

theorem Named_joins_names:
  assumes "logrus L" "x \<noteq> []" "Named L a x = Inr b" "Named L b y = Inr c"
  shows "hl_LoggerName c = (if hl_LoggerName a = [] then [] else hl_LoggerName a @ ''.'') @ x @ ''.'' @ y \<and>
    map_of (fl_Data L (hl_Logger c)) ''subsystem_name'' = Some (Str (hl_LoggerName c))"
  using assms(2-4)
  by (auto simp: Named_def ResetNamed_def CreateEntry_def logrus.fields_law [OF assms(1)] Let_def)

text \<open>The checks for a level read the level of an entry that is not written yet, so they always fail.\<close>

theorem levels_never_enabled:
  assumes "logrus L"
  shows "\<not> IsTrace a \<and> \<not> IsDebug L a \<and> \<not> IsInfo L a \<and> \<not> IsWarn L a \<and> \<not> IsError L a"
  by (simp add: IsTrace_def IsDebug_def IsInfo_def IsWarn_def IsError_def shouldEmit_def logrus.level_law [OF assms] PanicLevel_least)

end
