(* ===== verification/Commands.thy ===== *)
theory Commands
  imports Cmd Api Leader Setup
begin

text \<open>
The commands \<open>raft\<close>, \<open>leave\<close>, \<open>version\<close> and \<open>doc\<close> of \<open>src/cmd\<close>, and what removing a peer does, from the command
line through the gRPC client and the server to the Raft configuration.
\<close>

section \<open>Commands that talk to an agent\<close>

text \<open>
  \<open>PreRunE\<close> of the commands \<open>raft\<close> and \<open>leave\<close>: the address of the agent, from the flag. A command returns its
  error or what it prints; \<open>columnize\<close> aligns the columns of a table.
\<close>

definition rpc_ip :: "addr_lib \<Rightarrow> string \<Rightarrow> string res" where
  "rpc_ip A rpcAddr = ParseSingleIPTemplate A rpcAddr"

definition peer_row :: "raft_entry \<Rightarrow> string" where
  "peer_row s =
     Join [re_Node s, re_Id s, re_Address s, if re_Leader s then ''leader'' else ''follower'', FormatBool (re_Voter s)] ''|''"

definition raftListCmd :: "'w remote \<Rightarrow> (string list \<Rightarrow> string) \<Rightarrow> addr_lib \<Rightarrow> string \<Rightarrow> 'w \<Rightarrow> string res" where
  "raftListCmd M columnize A rpcAddr w =
     bind_res (rpc_ip A rpcAddr) (\<lambda>ip.
     bind_res (client_RaftGetConfiguration M w ip) (\<lambda>servers.
     Inr (columnize (''Node|ID|Address|State|Voter'' # map peer_row servers))))"

definition raftRemovePeerCmd :: "'w remote \<Rightarrow> addr_lib \<Rightarrow> string \<Rightarrow> string \<Rightarrow> 'w \<Rightarrow> string res \<times> 'w" where
  "raftRemovePeerCmd M A rpcAddr peerID w =
     (case rpc_ip A rpcAddr of
        Inl e \<Rightarrow> (Inl e, w)
      | Inr ip \<Rightarrow>
          (case client_RaftRemovePeerByID M w ip peerID of
             (Some e, w') \<Rightarrow> (Inl e, w')
           | (None, w') \<Rightarrow> (Inr ''Peer removed'', w')))"

definition leaveCmd :: "'w remote \<Rightarrow> addr_lib \<Rightarrow> string \<Rightarrow> 'w \<Rightarrow> err \<times> 'w" where
  "leaveCmd M A rpcAddr w =
     (case rpc_ip A rpcAddr of Inl e \<Rightarrow> (Some e, w) | Inr ip \<Rightarrow> client_Leave M w ip)"

text \<open>\<open>serf_versions\<close> are the newest and the oldest protocol of serf.\<close>

definition versionCmd :: "nat \<times> nat \<Rightarrow> string list" where
  "versionCmd serf_versions =
     [''Name: '' @ ''Dkron'', ''Version: '' @ Version, ''Codename: '' @ ''Devel'',
      ''Agent Protocol: '' @ show_nat (fst serf_versions) @ '' (Understands back to: '' @ show_nat (snd serf_versions) @ '')'']"

section \<open>Documentation of the commands\<close>

text \<open>\<open>path.Ext\<close>: from the last dot of the last element; \<open>ToLower\<close> is \<open>strings.ToLower\<close>.\<close>

definition path_Ext :: "string \<Rightarrow> string" where
  "path_Ext p =
     (let r = takeWhile (\<lambda>c. c \<noteq> CHR ''/'') (rev p) in
      if CHR ''.'' \<in> set r then CHR ''.'' # rev (takeWhile (\<lambda>c. c \<noteq> CHR ''.'') r) else [])"

definition linkHandler :: "(string \<Rightarrow> string) \<Rightarrow> string \<Rightarrow> string" where
  "linkHandler ToLower name = ''/cli/'' @ ToLower (TrimSuffix name (path_Ext name)) @ ''/''"

definition prepender :: "(string \<Rightarrow> string) \<Rightarrow> string \<Rightarrow> string \<Rightarrow> string list" where
  "prepender ToLower date filename =
     (let name = path_Base filename; base = TrimSuffix name (path_Ext name);
          url = ''/cli/'' @ ToLower base @ ''/'' in
      [''---'', ''date: '' @ date, ''title: '' @ [CHR 0x22] @ map (\<lambda>c. if c = CHR ''_'' then CHR '' '' else c) base @ [CHR 0x22],
       ''slug: '' @ base, ''url: '' @ url, ''---''])"

text \<open>\<open>gen\<close> is \<open>doc.GenMarkdownTreeCustom\<close>, whose error is dropped, on the state \<open>'f\<close> of the file system.\<close>

definition docCmd ::
    "(string \<Rightarrow> (string \<Rightarrow> string list) \<Rightarrow> (string \<Rightarrow> string) \<Rightarrow> 'f \<Rightarrow> 'f) \<Rightarrow> ('f \<Rightarrow> string \<Rightarrow> bool) \<Rightarrow> ('f \<Rightarrow> string \<Rightarrow> err \<times> 'f) \<Rightarrow>
     (string \<Rightarrow> string) \<Rightarrow> string \<Rightarrow> string \<Rightarrow> 'f \<Rightarrow> err \<times> 'f" where
  "docCmd gen IsNotExist MkdirAll ToLower date genDocDir f =
     (case (if IsNotExist f genDocDir then MkdirAll f genDocDir else (None, f)) of
        (Some e, f1) \<Rightarrow> (Some e, f1)
      | (None, f1) \<Rightarrow> (None, gen genDocDir (prepender ToLower date) (linkHandler ToLower) f1))"

lemma path_Base_file:
  assumes "CHR ''/'' \<notin> set name" "name \<noteq> []"
  shows "path_Base (dir @ ''/'' @ name) = name"
proof -
  have "dropWhile (\<lambda>c. c = CHR ''/'') (rev name @ ''/'' @ rev dir) = rev name @ ''/'' @ rev dir"
    using assms by (cases "rev name") (auto dest: arg_cong [of _ _ set])
  moreover have "takeWhile (\<lambda>c. c \<noteq> CHR ''/'') (rev name @ ''/'' @ rev dir) = rev name"
    using assms by (subst takeWhile_append2) auto
  ultimately show ?thesis using assms by (simp add: path_Base_def Let_def)
qed

text \<open>The pages are linked to under the addresses they are given.\<close>

theorem doc_links_resolve:
  assumes "CHR ''/'' \<notin> set name" "name \<noteq> []"
  shows "''url: '' @ linkHandler ToLower name \<in> set (prepender ToLower date (dir @ ''/'' @ name))"
  unfolding prepender_def path_Base_file [OF assms] by (simp add: linkHandler_def Let_def)

section \<open>Removing a peer\<close>

text \<open>The calls of a client that reach the server of the world \<open>W\<close>.\<close>

definition admin_remote ::
    "('db, 'c, 'r) world \<Rightarrow> ('db, 'c, 'r) server remote \<Rightarrow> ('db, 'c, 'r) server remote" where
  "admin_remote W M = M\<lparr>call_RaftGetConfiguration := (\<lambda>s addr. RaftGetConfiguration W s),
     call_RaftRemovePeerByID := (\<lambda>s addr ident. RaftRemovePeerByID W s ident)\<rparr>"

text \<open>
  The command \<open>dkron raft remove-peer\<close> removes the peer and nothing else: when it reports the removal,
  the table of \<open>dkron raft list-peers\<close> afterwards has the rows of the servers of the configuration before
  without the one that was removed, which had been there. For an identifier that is not in the
  configuration the command fails and changes nothing.
\<close>

theorem remove_peer_then_list:
  assumes raft: "raft_config (w_raft W) cfg" and M: "M = admin_remote W M0"
    and conf: "r_GetConfiguration (w_raft W) (sv_raft s) = Inr ss"
    and remove: "raftRemovePeerCmd M A rpcAddr peerID s = (r, s')"
    and later: "r_GetConfiguration (w_raft W) (sv_raft s') = Inr ss'" "raftListCmd M columnize A rpcAddr s' = Inr out"
  shows "(peerID \<notin> rs_ID ` set ss \<longrightarrow> (\<exists>e. r = Inl e) \<and> s' = s) \<and>
    (r = Inr msg \<longrightarrow> peerID \<in> rs_ID ` set ss \<and> sv_db s' = sv_db s \<and>
      out = columnize (''Node|ID|Address|State|Voter'' #
        map (peer_row \<circ> raft_entry_of (server_map (w_net W) (w_members W)) (r_Leader (w_raft W) (sv_raft s')))
          (filter (\<lambda>srv. rs_ID srv \<noteq> peerID) ss)))"
proof -
  note cfg = raft_config.get_config [OF raft conf] raft_config.get_config [OF raft later(1)]
  note rm = raft_config.remove_server [OF raft]
  have out: "out = columnize (''Node|ID|Address|State|Voter'' #
      map (peer_row \<circ> raft_entry_of (server_map (w_net W) (w_members W)) (r_Leader (w_raft W) (sv_raft s'))) ss')"
    using later by (auto simp: raftListCmd_def bind_res_Inr_conv M admin_remote_def client_RaftGetConfiguration_def
        RaftGetConfiguration_def split: option.splits)
  show ?thesis
  proof (intro conjI impI)
    assume "peerID \<notin> rs_ID ` set ss"
    then have "\<forall>srv \<in> set ss. rs_ID srv \<noteq> peerID" by auto
    then show "\<exists>e. r = Inl e" "s' = s"
      using remove conf by (cases "rpc_ip A rpcAddr"; auto simp: raftRemovePeerCmd_def M admin_remote_def
          client_RaftRemovePeerByID_def RaftRemovePeerByID_def list_ex_iff split: option.splits)+
  next
    assume "r = Inr msg"
    then have ok: "RaftRemovePeerByID W s peerID = (Inr (), s')"
      using remove by (auto simp: raftRemovePeerCmd_def M admin_remote_def client_RaftRemovePeerByID_def
          split: sum.splits option.splits prod.splits)
    then obtain r' where r': "r_RemoveServer (w_raft W) (sv_raft s) peerID = (None, r')" "s' = s\<lparr>sv_raft := r'\<rparr>"
      and mem: "peerID \<in> rs_ID ` set ss"
      using conf by (auto simp: RaftRemovePeerByID_def list_ex_iff split: if_splits prod.splits option.splits)
    have "ss' = filter (\<lambda>srv. rs_ID srv \<noteq> peerID) ss" using rm [OF r'(1)] cfg r'(2) by simp
    with out mem r'(2) show "peerID \<in> rs_ID ` set ss" "sv_db s' = sv_db s"
      "out = columnize (''Node|ID|Address|State|Voter'' #
        map (peer_row \<circ> raft_entry_of (server_map (w_net W) (w_members W)) (r_Leader (w_raft W) (sv_raft s')))
          (filter (\<lambda>srv. rs_ID srv \<noteq> peerID) ss))" by simp_all
  qed
qed

theorem remove_peer_then_list_witness:
  "\<exists>s'. raftRemovePeerCmd (admin_remote sample_world (ha_remote sample_http)) (st_addr sample_start_lib) ''10.0.0.1:6868'' ''n1'' (sample_srv []) =
       (Inr ''Peer removed'', s') \<and>
     raftListCmd (admin_remote sample_world (ha_remote sample_http)) concat (st_addr sample_start_lib) ''10.0.0.1:6868'' s' =
       Inr ''Node|ID|Address|State|Voter''"
proof -
  let ?M = "admin_remote sample_world (ha_remote sample_http)" and ?s' = "(sample_srv [])\<lparr>sv_raft := []\<rparr>"
  have ip: "rpc_ip (st_addr sample_start_lib) ''10.0.0.1:6868'' = Inr ''10.0.0.1:6868''"
    by (simp add: rpc_ip_def ParseSingleIPTemplate_def sample_start_lib_def sample_addrs_def)
  have dial: "dial (ha_remote sample_http) w addr = None" for w addr by (simp add: sample_http_def leader_remote_def)
  have conf: "r_GetConfiguration ref_raft c = Inr c" for c by (simp add: ref_raft_def)
  have run: "raftRemovePeerCmd ?M (st_addr sample_start_lib) ''10.0.0.1:6868'' ''n1'' (sample_srv []) = (Inr ''Peer removed'', ?s')"
    by (simp add: raftRemovePeerCmd_def ip client_RaftRemovePeerByID_def admin_remote_def dial RaftRemovePeerByID_def ref_raft_def
        sample_srv_def voter_of_def sample_server_def)
  have list: "raftListCmd ?M concat (st_addr sample_start_lib) ''10.0.0.1:6868'' ?s' = Inr ''Node|ID|Address|State|Voter''"
    by (simp add: raftListCmd_def ip client_RaftGetConfiguration_def admin_remote_def dial RaftGetConfiguration_def ref_raft_def)
  have "raft_config (w_raft sample_world) (\<lambda>c. c)" using refr.raft_config_axioms by simp
  from remove_peer_then_list [OF this refl _ run _ list, of "sv_raft (sample_srv [])" "[]"] run list conf
  show ?thesis by auto
qed

end
