(* ===== verification/Spec2Isabelle.thy ===== *)
theory Spec2Isabelle
  imports Schedule_Sync Vfs Routes Plugin_Transport Server_Start Logging Commands
begin

text \<open>
  Dkron, a distributed job scheduler.

  \<^bold>\<open>The program.\<close> A cluster of agents (package \<open>src/dkron\<close>) finds its members by gossip (serf); the
  members that are servers replicate a log with Raft. Each server applies the log to a store of jobs
  and executions on an embedded key/value database (BuntDB). The leader keeps the scheduler: an entry
  of a cron library for each enabled job. When an entry fires, the leader chooses target nodes by the
  tags of the job and asks each of them, by gRPC, to run it; the node starts the executor plugin of
  the job and reports the execution to a server, which runs the processor plugins on it, puts the
  result on the log, and then retries the job, or notifies the owner and starts the dependent jobs. An
  HTTP API and the command line are the clients of the gRPC server.

  \<^bold>\<open>Conventions.\<close> A method with a receiver is a function that takes and returns the state it changes.
  Errors are the values of \<open>error\<close> (theory \<open>Prelude\<close>): \<open>'a res\<close> is \<open>error + 'a\<close> and \<open>err\<close> an optional
  error; a panic of the Go program is the error \<open>Panic\<close>. Fixed-width integers are words where their
  wrap-around can be seen; Go maps are association lists, in the order in which the code happens to
  visit them. The lines the handlers log and the metrics they measure are left out. What the repository does not define is an argument:
  a record of functions (\<open>'db env\<close> for the database, the protobuf codec, time stamps, slugs, cron expressions and the
  clock; \<open>'c cron_lib\<close>, \<open>net_lib\<close>, \<open>'r raft_lib\<close>, \<open>choice\<close>, \<open>'w remote\<close> and others), whose documented
  behaviour is a locale.

  \<^bold>\<open>Theories\<close>, in the order of their dependencies.
  \<^item> \<open>Prelude\<close>: results, Go strings (\<open>HasPrefix\<close>, \<open>Split\<close>, \<open>Atoi\<close>, decimal notation) and the lemmas on
    lists and maps the components share. \<open>Types\<close>: the protobuf messages of \<open>src/plugin/types\<close> and the
    structs \<open>Job\<close> and \<open>Execution\<close>. \<open>Env\<close>: the parameters of the store with the locales \<open>buntdb\<close>,
    \<open>pb_codec\<close> and \<open>lawful_env\<close>.
  \<^item> \<open>Gotime\<close>, \<open>Ntime\<close>, \<open>Extcron\<close>: RFC 3339, \<open>src/ntime\<close> and \<open>src/extcron\<close>.
  \<^item> \<open>Execution\<close>, \<open>Job\<close>: \<open>execution.go\<close> and \<open>job.go\<close>; conversions and when they lose nothing,
    validation, the next run, \<open>isSlug\<close>.
  \<^item> \<open>Store\<close>: every operation of \<open>store.go\<close>, its transactions included. \<open>Ref_Env\<close>: an executable
    environment, an interpretation of \<open>lawful_env\<close> on which the witnesses run.
  \<^item> \<open>Store_Jobs\<close>: \<open>SetJob\<close> and \<open>DeleteJob\<close> refine functions on the map from names to jobs, terminate,
    and when they keep the family relation, that a job is among the dependent jobs of exactly its parent: \<open>SetJob\<close> exactly if the job it
    stores lists its children, \<open>DeleteJob\<close> always.
    \<open>Store_Executions\<close>: at most 100 executions per job, and what the end of an execution does to its
    job.
  \<^item> \<open>Job_Tree\<close>: the trees of jobs of a restore (\<open>api.go\<close>, \<open>agent.go\<close>), sound, complete and sent
    parents first.
  \<^item> \<open>Fsm\<close>: \<open>fsm.go\<close>, the commands of the log, snapshots; locale \<open>storage_contract\<close>, which the
    store satisfies. A replica keeps the
    store well formed whatever entries the servers put on the log and whatever persisted snapshots are loaded into its store, with which they are merged, and replicas that apply the same log at different times agree on
    everything but the field \<open>Next\<close>. \<open>Replication\<close>: that the time of the clock changes nothing else, operation by operation.
  \<^item> \<open>Scheduler\<close>: \<open>scheduler.go\<close> over the locale \<open>cron_engine\<close>; one entry per enabled job.
  \<^item> \<open>Serf\<close>: \<open>serf.go\<close>, \<open>utils.go\<close> and \<open>eventLoop\<close>; the peers are those of an abstract cluster view, and
    when Raft is bootstrapped. The channel \<open>reconcileCh\<close> is optional: the program declares it and never makes it, and a nil
    channel takes no member (\<open>offer_nil\<close>). \<open>Leader\<close>: \<open>leader.go\<close> as a step relation of the goroutines; only an
    established leader runs the scheduler, losing the leadership completes, and a reconciliation
    brings the Raft configuration in line with the members (locale \<open>raft_config\<close>). With a nil \<open>reconcileCh\<close> the case of the leader loop
    that takes a member from it never runs (\<open>member_step_never\<close>).
  \<^item> \<open>Agent\<close>: \<open>agent.go\<close> and \<open>run.go\<close>; the choice of target nodes (locale \<open>choice_laws\<close>), \<open>Run\<close>, when
    \<open>Job.Run\<close> runs a job, and \<open>Stop\<close> with the shutdown of Raft and of the store.
  \<^item> \<open>Grpc\<close>: the handlers of \<open>grpc.go\<close>, over the locale \<open>lawful_log\<close>; the bound of a chain of retries, what is on the log when
    a handler answers. \<open>Grpc_Client\<close>: \<open>grpc_client.go\<close> and \<open>grpc_agent.go\<close>; an execution that starts is
    reported with its outcome and the last part of its output (locale \<open>circular_buffer\<close>).
  \<^item> \<open>Cluster\<close>: the replicas of a cluster as a transition system over \<open>fsm.go\<close> (commit, apply, snapshot, persist, restart, restore,
    install); servers that have applied the same entries agree if snapshots are persisted before further entries are applied and none is
    installed in a running server (the argument \<open>quiet\<close> of the step relation), the handlers write only through the log, what a handler stored is on every
    server under the same condition, and what goes wrong when a snapshot is persisted late. \<open>Lifecycle\<close>: what \<open>ExecutionDone\<close> does on the leader (what is recorded, when
    the job is retried, which dependent jobs are run), and the leader and an agent together, from the start of a job to
    the record of its execution. \<open>Failover\<close>: executions that are reported to any server; one that reaches the leader is recorded, whatever its outcome, when the
    passing on between servers ends, and how a report is lost. \<open>Schedule_Sync\<close>: store, handlers, scheduler and leadership of one server together;
    the scheduler of a leader has exactly the entries its store asks for as long as the jobs that are set are valid and no job is deleted that others
    still name as their parent, a job that is deleted while a term is established can stay scheduled (\<open>delete_during_start\<close>), an election the monitor misses leaves the leader without a
    schedule, and a job set before the first term is established ends the process.
  \<^item> \<open>Config\<close>, \<open>Keys\<close>, \<open>Retry_Join\<close>: \<open>config.go\<close> with \<open>net.SplitHostPort\<close>, \<open>src/cmd/keygen.go\<close> with
    base64, and \<open>retry_join.go\<close>. \<open>Setup\<close>: \<open>setupSerf\<close>, \<open>setupRaft\<close> and \<open>Start\<close> of \<open>agent.go\<close>; the tags
    a server announces are read back by \<open>isServer\<close> (locale \<open>serf_node\<close>).
  \<^item> \<open>Notifier\<close>: \<open>notifier.go\<close>. \<open>Api\<close>: the handlers of \<open>api.go\<close>, as the calls they make on the
    context of gin; a job that is created is the one read back, and toggling a job changes the store and the scheduler. \<open>Dashboard\<close>:
    \<open>dashboard.go\<close>, the data of the pages and \<open>truncate\<close> on UTF-8. \<open>Routes\<close>: the routes of both and what becomes of a request (locale \<open>gin_engine\<close>);
    every documented operation reaches its handler, and where the address of a created job leads. \<open>Vfs\<close>: the embedded files of
    \<open>src/dkron/templates\<close> over the reader of gzip (locale \<open>gzip\<close>); a compressed file behaves like its content,
    and the pages of the dashboard find their templates.
  \<^item> \<open>Plugins\<close>: the executors and processors of \<open>src/builtin/bins\<close>. \<open>Cmd\<close>: the command \<open>agent\<close> of \<open>src/cmd\<close>.
    \<open>Plugin_Transport\<close>: \<open>src/plugin\<close>, executors and processors behind gRPC and net/rpc (locales \<open>grpc_connection\<close>, \<open>plugin_broker\<close>, their
    union \<open>plugin_transport\<close>, and \<open>plugin_process\<close>); an executor in a plugin makes the updates and gives the response of one that is called directly, and loses the response if it returns an error.
  \<^item> \<open>Server_Start\<close>: \<open>options.go\<close>, \<open>raft_grpc.go\<close>, \<open>NewAgent\<close>, \<open>StartServer\<close> and \<open>agentRun\<close>; which listener of the shared port a
    connection reaches (locale \<open>cmux\<close>). \<open>Logging\<close>: \<open>metrics.go\<close>, \<open>log.go\<close> and \<open>hclog_adapter.go\<close> (locale \<open>logrus\<close>). \<open>Commands\<close>: the commands
    \<open>raft\<close>, \<open>leave\<close>, \<open>version\<close> and \<open>doc\<close>.

  \<^bold>\<open>Fuel.\<close> \<open>SetJob\<close> calls itself on the former and the new parent, whose own parents do not
  change, so it never goes deeper than two levels: \<open>SetJob_n 2\<close>, with \<open>SetJob_terminates\<close> that a well-formed
  store never runs out of it. \<open>AddrParts\<close> repeats its loop only after it has appended a port: two
  rounds end it on every input for which it ends (\<open>AddrParts_terminates\<close>, which shows also the inputs
  for which no number of rounds does). \<open>retryJoin\<close> is given one round more than its bound on the attempts
  (\<open>retryJoin_attempts\<close>); without a bound it may go on for ever. The wait
  of \<open>dkron agent\<close> for the jobs it runs takes as many rounds as it is given (\<open>wait_jobs\<close>), and \<open>graceful_exit_waits\<close>
  says how many are enough. A report is passed on between servers as often as it is given (\<open>forwarding\<close>), and \<open>report_ends_iff\<close> says
  when some number is enough. Discarding and reading to the end of a file (\<open>CopyN_discard\<close>, \<open>ReadAll\<close>) are partial functions;
  \<open>compressed_file_refines\<close> and \<open>pages_have_templates\<close> show that they return for a reader that keeps its promise. The other loops are structural recursions.

  \<^bold>\<open>Interfaces.\<close> Every locale is interpreted: the libraries on the executable environments of \<open>Ref_Env\<close> and
  of the theories that use them, \<open>storage_contract\<close> on the store, and \<open>raft_log\<close> on the model of \<open>fsm.go\<close> (\<open>fsm_log\<close>), so that
  the theorems on the handlers hold of the replicated store itself.

  \<^bold>\<open>Not modelled.\<close> The generated marshalling of protobuf, the bytes of the embedded templates, the embedded assets (generated data with the code of the templates, and files that are not compressed), the rendering of templates, the registration of
  commands and flags with cobra, and methods that only call a library (\<open>Close\<close> and \<open>Addr\<close> of a listener, the
  accessors of serf and Raft). Network failures appear as the errors of the calls that
  are parameters; a message that is lost after it was handled is not distinguished. Goroutines are
  interleaved where the program depends on their order (\<open>Leader\<close>, \<open>Cluster\<close>, the acceptance of a status
  server in \<open>Plugin_Transport\<close>); elsewhere a call runs to its end.

  \<^bold>\<open>Bounds of the compositions.\<close> \<open>Schedule_Sync\<close> follows one server, whose store the log replaces while it is a follower; its invariant is
  of the first term, since from the second on \<open>Start\<close> of the scheduler keeps the numbers of the entries of the last engine and can lose jobs (\<open>restart_loses_job\<close> in \<open>Scheduler\<close>). In
  \<open>Failover\<close> the leader does not change while a report is passed on.
\<close>

end
